(* ===== verification/Prelude.thy ===== *)
theory Prelude
  imports Main "HOL-Library.Multiset" "HOL-Library.Product_Lexorder"
begin

text \<open>
  Shared vocabulary of the development: Python exceptions as values, Python list indexing,
  the fact collections the component proofs use, and lemmas on list update, sums and
  multisets that several components share.
\<close>

section \<open>Exceptions and results\<close>

text \<open>
  A Python function that can raise is a function into \<open>exn + 'a\<close>. The string of a
  \<open>RuntimeError\<close>, \<open>SystemExit\<close> or \<open>FileExistsError\<close> is the constant text of the
  message; the values an f-string interpolates into it are not modelled.
\<close>

datatype exn =
    RuntimeError string
  | SystemExit string
  | FileExistsError string
  | FileNotFoundError string
  | IsADirectoryError string
  | NotADirectoryError string
  | JSONDecodeError string
  | ValueError string
  | KeyError string
  | IndexError
  | ZeroDivisionError
  | OverflowError string
  | AttributeError string
  | TypeError string
  | FloorplanValidationError string
  | PhysicalFeasibilityError string

type_synonym 'a result = "exn + 'a"

definition and_then :: "'a result \<Rightarrow> ('a \<Rightarrow> 'b result) \<Rightarrow> 'b result" where
  "and_then r f = (case r of Inl e \<Rightarrow> Inl e | Inr x \<Rightarrow> f x)"

lemma and_then_simps [simp]:
  "and_then (Inl e) f = Inl e"
  "and_then (Inr x) f = f x"
  by (simp_all add: and_then_def)

lemma and_then_eq_Inr: "and_then r f = Inr y \<longleftrightarrow> (\<exists>x. r = Inr x \<and> f x = Inr y)"
  by (cases r) auto

lemma and_then_eq_Inl:
  "and_then r f = Inl e \<longleftrightarrow> r = Inl e \<or> (\<exists>x. r = Inr x \<and> f x = Inl e)"
  by (cases r) auto

lemma and_then_assoc: "and_then (and_then r f) g = and_then r (\<lambda>x. and_then (f x) g)"
  by (cases r) auto

text \<open>A loop over a list that stops at the first exception.\<close>

fun map_r :: "('a \<Rightarrow> 'b result) \<Rightarrow> 'a list \<Rightarrow> 'b list result" where
  "map_r f [] = Inr []"
| "map_r f (x # xs) = and_then (f x) (\<lambda>y. and_then (map_r f xs) (\<lambda>ys. Inr (y # ys)))"

lemma map_r_Inr: "(\<forall>x \<in> set xs. f x = Inr (g x)) \<Longrightarrow> map_r f xs = Inr (map g xs)"
  by (induction xs) auto

lemma map_r_length: "map_r f xs = Inr ys \<Longrightarrow> length ys = length xs"
  by (induction xs arbitrary: ys) (auto simp: and_then_eq_Inr)

lemma map_r_nth: "map_r f xs = Inr ys \<Longrightarrow> i < length xs \<Longrightarrow> f (xs ! i) = Inr (ys ! i)"
  by (induction xs arbitrary: ys i) (auto simp: and_then_eq_Inr nth_Cons split: nat.splits)

lemma map_r_set: "map_r f xs = Inr ys \<Longrightarrow> y \<in> set ys \<Longrightarrow> \<exists>x \<in> set xs. f x = Inr y"
  by (induction xs arbitrary: ys) (auto simp: and_then_eq_Inr)

text \<open>A loop that updates a state and stops at the first exception.\<close>

fun fold_r :: "('a \<Rightarrow> 's \<Rightarrow> 's result) \<Rightarrow> 'a list \<Rightarrow> 's \<Rightarrow> 's result" where
  "fold_r f [] s = Inr s"
| "fold_r f (x # xs) s = and_then (f x s) (fold_r f xs)"

lemma fold_r_Inr: "(\<And>x s. x \<in> set xs \<Longrightarrow> f x s = Inr (g x s)) \<Longrightarrow> fold_r f xs s = Inr (fold g xs s)"
  by (induction xs arbitrary: s) auto

lemma fold_r_append: "fold_r f (xs @ ys) s = and_then (fold_r f xs s) (fold_r f ys)"
  by (induction xs arbitrary: s) (auto simp: and_then_def split: sum.split)

lemma fold_r_inv:
  assumes "fold_r f xs s = Inr s'" "P s" "\<And>x s s'. x \<in> set xs \<Longrightarrow> P s \<Longrightarrow> f x s = Inr s' \<Longrightarrow> P s'"
  shows "P s'"
  using assms by (induction xs arbitrary: s) (auto simp: and_then_eq_Inr)

section \<open>Python indexing\<close>

text \<open>
  \<open>xs[i]\<close>: a negative index counts from the end, anything else outside the list raises
  \<open>IndexError\<close>. \<open>py_index n i\<close> is the position in a list of length \<open>n\<close>.
\<close>

definition py_index :: "nat \<Rightarrow> int \<Rightarrow> nat result" where
  "py_index n i =
     (let j = (if i < 0 then i + int n else i)
      in if 0 \<le> j \<and> j < int n then Inr (nat j) else Inl IndexError)"

definition py_get :: "'a list \<Rightarrow> int \<Rightarrow> 'a result" where
  "py_get xs i = and_then (py_index (length xs) i) (\<lambda>j. Inr (xs ! j))"

lemma py_index_less: "py_index n i = Inr j \<Longrightarrow> j < n"
  by (auto simp: py_index_def Let_def split: if_splits)

lemma py_index_nonneg: "0 \<le> i \<Longrightarrow> i < int n \<Longrightarrow> py_index n i = Inr (nat i)"
  by (simp add: py_index_def)

lemma py_get_in_set: "py_get xs i = Inr x \<Longrightarrow> x \<in> set xs"
  by (auto simp: py_get_def and_then_eq_Inr dest: py_index_less)

section \<open>Lists of counters and queues\<close>

named_theorems upd_simps \<open>sums, lengths and multisets under list update\<close>

lemma sum_list_update_nat [upd_simps]:
  fixes xs :: "nat list"
  shows "i < length xs \<Longrightarrow> sum_list (xs[i := v]) + xs ! i = sum_list xs + v"
proof (induction xs arbitrary: i)
  case (Cons x xs)
  show ?case
  proof (cases i)
    case (Suc j)
    with Cons.prems Cons.IH [of j] show ?thesis by simp
  qed (simp)
qed simp

lemma sum_list_ge_nth: "i < length xs \<Longrightarrow> (xs ! i :: nat) \<le> sum_list xs"
  by (simp add: member_le_sum_list)

lemma mset_concat_update:
  "i < length qs \<Longrightarrow> mset (concat (qs[i := q])) + mset (qs ! i) = mset (concat qs) + mset q"
proof (induction qs arbitrary: i)
  case (Cons p qs)
  show ?case
  proof (cases i)
    case 0
    then show ?thesis by (simp add: union_ac)
  next
    case (Suc j)
    with Cons.prems have "j < length qs" by simp
    from Cons.IH [OF this] Suc show ?thesis by (simp add: union_ac)
  qed
qed simp

lemma mset_concat_pop:
  assumes "k < length qs" "qs ! k = x # rest"
  shows "mset (concat qs) = add_mset x (mset (concat (qs[k := rest])))"
  using mset_concat_update [of k qs rest] assms by simp

lemma mset_concat_push:
  assumes "k < length qs"
  shows "mset (concat (qs[k := qs ! k @ [x]])) = add_mset x (mset (concat qs))"
  using mset_concat_update [of k qs "qs ! k @ [x]"] assms by simp

lemma length_concat_update:
  "i < length qs \<Longrightarrow> length (concat (qs[i := q])) + length (qs ! i) = length (concat qs) + length q"
  by (metis mset_concat_update size_mset size_union)

lemma set_concat_update_subset: "set (concat (qs[i := q])) \<subseteq> set (concat qs) \<union> set q"
  by (auto dest: set_update_subset_insert [THEN subsetD])

lemma set_nth_concat: "i < length qs \<Longrightarrow> set (qs ! i) \<subseteq> set (concat qs)"
  by (auto intro: bexI [OF _ nth_mem])

lemma subset_mset_addI: "M \<subseteq># N \<Longrightarrow> M \<subseteq># add_mset x N"
  by (metis mset_subset_eq_add_right add_mset_add_single subset_mset.order_trans
      mset_subset_eq_add_left)

lemma subset_mset_dropI: "x \<notin># M \<Longrightarrow> M \<subseteq># add_mset x N \<Longrightarrow> M \<subseteq># N"
  by (metis add_mset_add_single diff_single_trivial subset_eq_diff_conv)

lemma map_update_same: "i < length xs \<Longrightarrow> f y = f (xs ! i) \<Longrightarrow> map f (xs[i := y]) = map f xs"
  by (metis list_update_id map_update)

lemma concat_Nil_iff_sum: "sum_list (map length qs) = 0 \<longleftrightarrow> concat qs = []"
  by (induction qs) auto

lemma length_concat_sum: "length (concat qs) = sum_list (map length qs)"
  by (induction qs) auto

text \<open>Selecting a subsequence commutes with everything the queues do.\<close>

lemma filter_butlast_last: "xs \<noteq> [] \<Longrightarrow> filter P (butlast xs) @ filter P [last xs] = filter P xs"
  by (metis append_butlast_last_id filter_append)

lemma mset_butlast_last: "xs \<noteq> [] \<Longrightarrow> add_mset (last xs) (mset (butlast xs)) = mset xs"
  by (metis append_butlast_last_id mset_append mset_single_iff union_mset_add_mset_right
      add.right_neutral mset.simps(1) mset.simps(2))

text \<open>Two lists with the same subsequence under every key are permutations of each other.\<close>

lemma mset_eq_by_key:
  assumes "\<And>k. filter (\<lambda>x. f x = k) xs = filter (\<lambda>x. f x = k) ys"
  shows "mset xs = mset ys"
proof (rule multiset_eqI)
  fix z
  have "count (mset xs) z = count (mset (filter (\<lambda>x. f x = f z) xs)) z" by simp
  also have "\<dots> = count (mset (filter (\<lambda>x. f x = f z) ys)) z" using assms [of "f z"] by simp
  finally show "count (mset xs) z = count (mset ys) z" by simp
qed

lemma fold_max_ge: "(m::int) \<le> fold max xs m"
  by (induction xs arbitrary: m) (auto intro: order_trans [rotated] max.cobounded1
      dest: meta_spec [of _ "max _ _"])

section \<open>Stable sorting by an integer key\<close>

text \<open>\<open>list.sort(key=...)\<close> is stable, as \<open>sort_key\<close> is.\<close>

lemma sort_eq_Nil: "sort xs = [] \<longleftrightarrow> xs = []"
  by (metis length_0_conv length_sort)

lemma sort_key_filter: "filter P (sort_key f xs) = sort_key f (filter P xs)"
  by (induction xs) (auto simp: filter_insort filter_insort_triv)

end
