(* ===== verification/Heapq.thy ===== *)
theory Heapq
  imports Prelude
begin

text \<open>
  The part of Python's \<open>heapq\<close> the replays use: \<open>heapify\<close>, \<open>heappush\<close>,
  \<open>heappop\<close> and reading \<open>heap[0]\<close>. All four are observed only through the smallest
  element, so a heap is its elements in ascending order. The priority-queue contract is the
  locale \<open>min_queue\<close>; the replays rest on its laws.
\<close>

section \<open>Operations\<close>

definition heappush :: "'a::linorder list \<Rightarrow> 'a \<Rightarrow> 'a list" where
  "heappush h x = insort x h"

definition heapify :: "'a::linorder list \<Rightarrow> 'a list" where
  "heapify xs = sort xs"

fun heappop :: "'a::linorder list \<Rightarrow> ('a \<times> 'a list) result" where
  "heappop [] = Inl IndexError"
| "heappop (x # h) = Inr (x, h)"

section \<open>The contract\<close>

locale min_queue =
  fixes push :: "'q \<Rightarrow> 'a::linorder \<Rightarrow> 'q"
    and pop :: "'q \<Rightarrow> ('a \<times> 'q) result"
    and elems :: "'q \<Rightarrow> 'a multiset"
    and inv :: "'q \<Rightarrow> bool"
  assumes push_elems: "inv q \<Longrightarrow> elems (push q x) = add_mset x (elems q)"
    and push_inv: "inv q \<Longrightarrow> inv (push q x)"
    and pop_elems: "inv q \<Longrightarrow> pop q = Inr (x, q') \<Longrightarrow> elems q = add_mset x (elems q')"
    and pop_inv: "inv q \<Longrightarrow> pop q = Inr (x, q') \<Longrightarrow> inv q'"
    and pop_min: "inv q \<Longrightarrow> pop q = Inr (x, q') \<Longrightarrow> y \<in># elems q' \<Longrightarrow> x \<le> y"
    and pop_total: "inv q \<Longrightarrow> elems q \<noteq> {#} \<Longrightarrow> \<exists>x q'. pop q = Inr (x, q')"
begin

lemma pop_is_Min: "inv q \<Longrightarrow> pop q = Inr (x, q') \<Longrightarrow> x = Min_mset (elems q)"
  by (metis Min_eqI finite_set_mset insert_iff order_refl pop_elems pop_min
      set_mset_add_mset_insert)

text \<open>The step of a multi-server replay: serve at the smallest element, push the new one.\<close>

lemma pop_push_size:
  assumes "inv q" "pop q = Inr (x, q')"
  shows "size (elems (push q' y)) = size (elems q)"
  using assms by (simp add: push_elems pop_inv pop_elems)

lemma pop_push_ge:
  assumes "inv q" "pop q = Inr (x, q')" "x \<le> y" "z \<in># elems (push q' y)"
  shows "x \<le> z"
  using assms by (auto simp: push_elems pop_inv dest: pop_min)

end

interpretation hq: min_queue heappush heappop mset sorted
proof unfold_locales
  fix q q' :: "'a list" and x y
  show "sorted q \<Longrightarrow> mset (heappush q x) = add_mset x (mset q)"
    by (simp add: heappush_def)
  show "sorted q \<Longrightarrow> sorted (heappush q x)"
    by (simp add: heappush_def sorted_insort)
  show "sorted q \<Longrightarrow> heappop q = Inr (x, q') \<Longrightarrow> mset q = add_mset x (mset q')"
    by (cases q) auto
  show "sorted q \<Longrightarrow> heappop q = Inr (x, q') \<Longrightarrow> sorted q'"
    by (cases q) auto
  show "sorted q \<Longrightarrow> heappop q = Inr (x, q') \<Longrightarrow> y \<in># mset q' \<Longrightarrow> x \<le> y"
    by (cases q) auto
  show "sorted q \<Longrightarrow> mset q \<noteq> {#} \<Longrightarrow> \<exists>x q'. heappop q = Inr (x, q')"
    by (cases q) auto
qed

lemma length_heappush [simp]: "length (heappush h x) = Suc (length h)"
  by (simp add: heappush_def)

lemma set_heappush [simp]: "set (heappush h x) = insert x (set h)"
  by (simp add: heappush_def set_insort_key)

lemma mset_heappush [simp]: "mset (heappush h x) = add_mset x (mset h)"
  by (simp add: heappush_def)

lemma sorted_heappush [simp]: "sorted (heappush h x) = sorted h"
  by (simp add: heappush_def sorted_insort)

lemma heapify_props [simp]: "mset (heapify xs) = mset xs" "sorted (heapify xs)"
  "length (heapify xs) = length xs" "set (heapify xs) = set xs"
  by (simp_all add: heapify_def)

section \<open>Pairs ordered by their first component\<close>

text \<open>
  The heaps of the replays hold pairs (time, lane). Their times behave as a heap of times of
  their own: the lane only breaks ties.
\<close>

lemma sorted_map_fst: "sorted (h :: ('a::linorder \<times> 'b::linorder) list) \<Longrightarrow> sorted (map fst h)"
  by (induction h) (auto simp: less_eq_prod_def le_less)

lemma map_fst_heappush:
  fixes h :: "('a::linorder \<times> 'b::linorder) list"
  assumes "sorted h"
  shows "map fst (heappush h p) = insort (fst p) (map fst h)"
proof -
  have "mset (map fst (heappush h p)) = mset (insort (fst p) (map fst h))" by simp
  moreover have "sorted (map fst (heappush h p))"
    using assms by (intro sorted_map_fst) simp
  moreover have "sorted (insort (fst p) (map fst h))"
    using assms by (simp add: sorted_insort sorted_map_fst)
  ultimately show ?thesis by (metis properties_for_sort)
qed

end
