(* ===== verification/Cycle_Loop.thy ===== *)
theory Cycle_Loop
  imports Prelude
begin

text \<open>
  The loop shape the replay scripts share: a body that advances the state by one cycle, leaves
  the loop, or raises. \<open>loop\<close> is the Python \<open>while\<close>; \<open>None\<close> is a loop that never
  returns. The locale \<open>cycles\<close> is the contract of a body with an invariant and a remaining
  budget, and proves that its loop returns.
\<close>

datatype 's outcome = Next 's | Done 's | Raise exn

partial_function (option) loop :: "('s \<Rightarrow> 's outcome) \<Rightarrow> 's \<Rightarrow> 's result option" where
  "loop body s =
     (case body s of Next s' \<Rightarrow> loop body s' | Done s' \<Rightarrow> Some (Inr s') | Raise e \<Rightarrow> Some (Inl e))"

declare loop.simps [code]

locale cycles =
  fixes body :: "'s \<Rightarrow> 's outcome"
    and inv :: "'s \<Rightarrow> bool"
    and budget :: "'s \<Rightarrow> nat"
  assumes next_inv: "inv s \<Longrightarrow> body s = Next s' \<Longrightarrow> inv s'"
    and next_budget: "inv s \<Longrightarrow> body s = Next s' \<Longrightarrow> budget s' < budget s"
begin

text \<open>The loop returns, and its result comes from a state that satisfies the invariant.\<close>

lemma loop_ends:
  assumes "inv s"
  shows "(\<exists>t r. inv t \<and> body t = Done r \<and> loop body s = Some (Inr r)) \<or>
         (\<exists>t e. inv t \<and> body t = Raise e \<and> loop body s = Some (Inl e))"
  using assms
proof (induction "budget s" arbitrary: s rule: less_induct)
  case less
  show ?case
  proof (cases "body s")
    case (Next s')
    with less.prems have "inv s'" "budget s' < budget s" by (auto intro: next_inv next_budget)
    from less.hyps [OF this(2,1)] Next show ?thesis by (simp add: loop.simps [of body s])
  next
    case (Done r)
    with less.prems show ?thesis by (auto simp: loop.simps [of body s])
  next
    case (Raise e)
    with less.prems show ?thesis by (auto simp: loop.simps [of body s])
  qed
qed

lemma loop_total: "inv s \<Longrightarrow> loop body s \<noteq> None"
  using loop_ends by fastforce

lemma loop_returned:
  assumes "inv s" "loop body s = Some (Inr r)"
  shows "\<exists>t. inv t \<and> body t = Done r"
  using loop_ends [OF assms(1)] assms(2) by auto

lemma loop_raised:
  assumes "inv s" "loop body s = Some (Inl e)"
  shows "\<exists>t. inv t \<and> body t = Raise e"
  using loop_ends [OF assms(1)] assms(2) by auto

end

text \<open>A body that can always advance makes a loop that never returns.\<close>

lemma loop_never_returns:
  assumes "P s" and "\<And>t. P t \<Longrightarrow> \<exists>t'. body t = Next t' \<and> P t'"
  shows "loop body s = None"
proof (rule ccontr)
  assume "loop body s \<noteq> None"
  then obtain r where r: "loop body s = Some r" by blast
  have "b = body \<longrightarrow> P s \<longrightarrow> False" if "loop b s = Some r" for b s r
    using that
  proof (rule loop.raw_induct [rotated])
    fix f :: "('a \<Rightarrow> 'a outcome) \<Rightarrow> 'a \<Rightarrow> 'a result option" and b s r
    assume IH: "\<And>b s r. f b s = Some r \<Longrightarrow> b = body \<longrightarrow> P s \<longrightarrow> False"
      and eq: "(case b s of Next s' \<Rightarrow> f b s' | Done s' \<Rightarrow> Some (Inr s') | Raise e \<Rightarrow> Some (Inl e)) = Some r"
    show "b = body \<longrightarrow> P s \<longrightarrow> False"
    proof (intro impI)
      assume b: "b = body" and "P s"
      with assms(2) obtain t where "body s = Next t" "P t" by blast
      with eq b IH show False by fastforce
    qed
  qed
  from this [OF r] assms(1) show False by simp
qed

end
