(* ===== verification/Float64.thy ===== *)
theory Float64
  imports Prelude Complex_Main "HOL-Library.Log_Nat"
begin

text \<open>
  Python floats as far as the integer-trace scripts use them: a float is the rational it
  denotes, and every operation is the exact rational result rounded to 53 significant bits,
  ties to even. Overflow and subnormals are outside the range of the values these scripts
  form (quotients and products of cycle counts) and are not represented. Also here: the
  \<open>percentile\<close> helper shared by the replay scripts, and fixed-point formatting.
\<close>

section \<open>Rounding\<close>

definition rne :: "rat \<Rightarrow> int" where
  "rne x =
     (let f = \<lfloor>x\<rfloor>; d = x - of_int f
      in if d < 1/2 then f else if 1/2 < d then f + 1 else if even f then f else f + 1)"

definition expo :: "rat \<Rightarrow> int" where
  "expo x =
     (let (n, d) = quotient_of x; e = bitlen n - bitlen d
      in if x < 2 powi e then e - 1 else e)"

definition fl :: "rat \<Rightarrow> rat" where
  "fl x =
     (if x = 0 then 0
      else let u = 2 powi (expo \<bar>x\<bar> - 52) in sgn x * (of_int (rne (\<bar>x\<bar> / u)) * u))"

lemma rne_of_int [simp]: "rne (of_int k) = k"
  by (simp add: rne_def)

lemma rne_cases: "rne x = \<lfloor>x\<rfloor> \<or> rne x = \<lfloor>x\<rfloor> + 1 \<and> 1/2 \<le> x - of_int \<lfloor>x\<rfloor>"
  by (auto simp: rne_def Let_def)

lemma rne_le: "x \<le> of_int k \<Longrightarrow> rne x \<le> k"
proof -
  assume x: "x \<le> of_int k"
  have "\<lfloor>x\<rfloor> + 1 \<le> k" if "1/2 \<le> x - of_int \<lfloor>x\<rfloor>"
  proof -
    have "of_int \<lfloor>x\<rfloor> < x" using that by linarith
    with x have "of_int \<lfloor>x\<rfloor> < (of_int k :: rat)" by linarith
    then show ?thesis by simp
  qed
  moreover have "\<lfloor>x\<rfloor> \<le> k" using x by linarith
  ultimately show ?thesis using rne_cases [of x] by auto
qed

lemma rne_ge: "of_int k \<le> x \<Longrightarrow> k \<le> rne x"
  using rne_cases [of x] le_floor_iff [of k x] by linarith

text \<open>The error of rounding to an integer is at most one half.\<close>

lemma rne_error: "\<bar>of_int (rne x) - x\<bar> \<le> 1/2"
proof -
  have "of_int \<lfloor>x\<rfloor> \<le> x" "x < of_int \<lfloor>x\<rfloor> + 1" by linarith+
  then show ?thesis by (auto simp: rne_def Let_def)
qed

section \<open>The binary exponent\<close>

lemma expo_bounds:
  assumes "0 < x"
  shows "2 powi expo x \<le> x" "x < 2 powi (expo x + 1)"
proof -
  obtain n d where q: "quotient_of x = (n, d)" by fastforce
  have d: "0 < d" using quotient_of_denom_pos [OF q] .
  have x: "x = of_int n / of_int d" using quotient_of_div [OF q] .
  have n: "0 < n" using assms d x by (simp add: zero_less_divide_iff)
  define e where "e = bitlen n - bitlen d"
  have bn: "2 ^ nat (bitlen n - 1) \<le> n" "n < 2 ^ nat (bitlen n)"
    using bitlen_bounds [OF n] by auto
  have bd: "2 ^ nat (bitlen d - 1) \<le> d" "d < 2 ^ nat (bitlen d)"
    using bitlen_bounds [OF d] by auto
  have pos: "1 \<le> bitlen n" "1 \<le> bitlen d"
    using n d bitlen_eq_zero_iff [of n] bitlen_eq_zero_iff [of d]
      bitlen_nonneg [of n] bitlen_nonneg [of d] by linarith+
  have pw: "(2::rat) powi k = of_int (2 ^ nat k)" if "0 \<le> k" for k
    using that by (simp add: power_int_def)
  have n1: "2 powi (bitlen n - 1) \<le> (of_int n :: rat)" "(of_int n :: rat) < 2 powi bitlen n"
    using bn pos by (simp_all only: pw of_int_le_iff of_int_less_iff)
  have d1: "2 powi (bitlen d - 1) \<le> (of_int d :: rat)" "(of_int d :: rat) < 2 powi bitlen d"
    using bd pos by (simp_all only: pw of_int_le_iff of_int_less_iff)
  have dpos: "(0::rat) < of_int d" using d by simp
  have up: "x < 2 powi (e + 1)"
  proof -
    have "2 powi (e + 1) * 2 powi (bitlen d - 1) = (2::rat) powi bitlen n"
      by (simp add: e_def flip: power_int_add)
    moreover have "2 powi (e + 1) * 2 powi (bitlen d - 1) \<le> 2 powi (e + 1) * (of_int d :: rat)"
      using d1(1) by (intro mult_left_mono) simp_all
    ultimately show ?thesis
      using n1(2) dpos by (simp add: x pos_divide_less_eq)
  qed
  have lo: "2 powi (e - 1) \<le> x"
  proof -
    have "2 powi (e - 1) * 2 powi bitlen d = (2::rat) powi (bitlen n - 1)"
      by (simp add: e_def flip: power_int_add)
    moreover have "2 powi (e - 1) * (of_int d :: rat) \<le> 2 powi (e - 1) * 2 powi bitlen d"
      using d1(2) by (intro mult_left_mono) simp_all
    ultimately show ?thesis
      using n1(1) dpos by (simp add: x pos_le_divide_eq)
  qed
  have "expo x = (if x < 2 powi e then e - 1 else e)"
    by (simp add: expo_def q e_def)
  then show "2 powi expo x \<le> x" "x < 2 powi (expo x + 1)"
    using up lo by (auto split: if_splits)
qed

section \<open>Integers below \<open>2\<^sup>5\<^sup>3\<close> are floats, and rounding stays below them\<close>

lemma unit_divides:
  assumes "0 < y" "y \<le> of_int m" "m < 2 ^ 53"
  shows "of_int m / 2 powi (expo y - 52) = (of_int (m * 2 ^ nat (52 - expo y)) :: rat)"
proof -
  have "2 powi expo y \<le> y" by (rule expo_bounds(1)) fact
  also have "\<dots> < 2 powi 53"
  proof -
    have "(of_int m :: rat) < of_int (2 ^ 53)" using assms(3) by (simp only: of_int_less_iff)
    with assms(2) show ?thesis by (simp add: power_int_def)
  qed
  finally have "expo y < 53"
    using power_int_increasing [of 53 "expo y" "2::rat"] by (meson linorder_not_le one_le_numeral)
  then have "(2::rat) powi (expo y - 52) * of_int (2 ^ nat (52 - expo y)) = 1"
    by (simp add: power_int_def flip: power_mult_distrib)
  then show ?thesis by (simp add: field_simps)
qed

lemma fl_nonneg_le:
  assumes "0 \<le> y" "y \<le> of_int m" "m < 2 ^ 53"
  shows "0 \<le> fl y \<and> fl y \<le> of_int m"
proof (cases "y = 0")
  case True
  with assms show ?thesis by (simp add: fl_def)
next
  case False
  with assms have y: "0 < y" by simp
  define u where "u = (2::rat) powi (expo y - 52)"
  have u: "0 < u" by (simp add: u_def)
  have fl: "fl y = of_int (rne (y / u)) * u"
    using y by (simp add: fl_def u_def Let_def)
  have M: "of_int m / u = (of_int (m * 2 ^ nat (52 - expo y)) :: rat)"
    unfolding u_def using y assms(2,3) by (rule unit_divides)
  have "y / u \<le> of_int m / u" using assms(2) u by (simp add: divide_right_mono)
  then have "rne (y / u) \<le> m * 2 ^ nat (52 - expo y)" unfolding M by (rule rne_le)
  then have "(of_int (rne (y / u)) :: rat) \<le> of_int m / u" unfolding M by (simp only: of_int_le_iff)
  then have "fl y \<le> of_int m" using u fl by (simp add: pos_le_divide_eq)
  moreover have "0 \<le> rne (y / u)" using y u by (intro rne_ge) simp
  ultimately show ?thesis using u fl by simp
qed

lemma fl_int:
  assumes "0 \<le> m" "m < 2 ^ 53"
  shows "fl (of_int m) = of_int m"
proof (cases "m = 0")
  case True
  then show ?thesis by (simp add: fl_def)
next
  case False
  with assms have m: "(0::rat) < of_int m" by simp
  have "of_int m / 2 powi (expo (of_int m) - 52) =
      (of_int (m * 2 ^ nat (52 - expo (of_int m))) :: rat)"
    using m order_refl assms(2) by (rule unit_divides)
  then show ?thesis using m by (simp add: fl_def Let_def sgn_if flip: of_int_mult)
      (simp add: field_simps)
qed

lemma fl_0: "fl 0 = 0"
  by (simp add: fl_def)

lemma fl_one: "fl 1 = 1"
  using fl_int [of 1] by simp

lemma fl_numeral: "(numeral k :: int) < 2 ^ 53 \<Longrightarrow> fl (numeral k) = numeral k"
  using fl_int [of "numeral k"] by simp

text \<open>Python's \<open>/\<close> on floats.\<close>

definition fdiv :: "rat \<Rightarrow> rat \<Rightarrow> rat result" where
  "fdiv a b = (if b = 0 then Inl ZeroDivisionError else Inr (fl (a / b)))"

section \<open>The \<open>percentile\<close> helper\<close>

text \<open>
  \<open>sorted_values[int(fraction * (len(sorted_values) - 1))]\<close>: the length is converted to a
  float, multiplied with one rounding, truncated towards zero, and used as a Python index.
\<close>

definition trunc :: "rat \<Rightarrow> int" where
  "trunc x = (if x < 0 then \<lceil>x\<rceil> else \<lfloor>x\<rfloor>)"

definition percentile_index :: "nat \<Rightarrow> rat \<Rightarrow> int" where
  "percentile_index n fraction = trunc (fl (fraction * fl (of_int (int n - 1))))"

definition percentile :: "'a list \<Rightarrow> rat \<Rightarrow> 'a result" where
  "percentile sorted_values fraction =
     py_get sorted_values (percentile_index (length sorted_values) fraction)"

text \<open>The literal \<open>0.95\<close> is the binary64 value nearest to it.\<close>

definition p95 :: rat where
  "p95 = 8556839292003942 / 9007199254740992"

lemma percentile_index_range:
  assumes "0 < n" "int n \<le> 2 ^ 53" "0 \<le> fraction" "fraction \<le> 1"
  shows "0 \<le> percentile_index n fraction \<and> percentile_index n fraction < int n"
proof -
  define m where "m = int n - 1"
  have m: "0 \<le> m" "m < 2 ^ 53" using assms by (auto simp: m_def)
  have flm: "fl (of_int m) = of_int m" using m by (rule fl_int)
  have b: "0 \<le> fraction * of_int m" "fraction * of_int m \<le> of_int m"
    using assms m by (simp_all add: mult_left_le_one_le)
  have f: "0 \<le> fl (fraction * of_int m) \<and> fl (fraction * of_int m) \<le> of_int m"
    using b m(2) by (rule fl_nonneg_le)
  then have "trunc (fl (fraction * of_int m)) = \<lfloor>fl (fraction * of_int m)\<rfloor>"
    by (simp add: trunc_def)
  moreover have "0 \<le> \<lfloor>fl (fraction * of_int m)\<rfloor>" "\<lfloor>fl (fraction * of_int m)\<rfloor> \<le> m"
    using f by (simp_all add: floor_le_iff)
  ultimately show ?thesis by (simp add: percentile_index_def flm m_def [symmetric]) (simp add: m_def)
qed

lemma percentile_in_set:
  assumes "xs \<noteq> []" "int (length xs) \<le> 2 ^ 53" "0 \<le> fraction" "fraction \<le> 1"
  shows "\<exists>v. percentile xs fraction = Inr v \<and> v \<in> set xs"
proof -
  from assms have "0 \<le> percentile_index (length xs) fraction"
    "percentile_index (length xs) fraction < int (length xs)"
    using percentile_index_range [of "length xs" fraction] by auto
  then show ?thesis
    by (auto simp: percentile_def py_get_def py_index_nonneg nat_less_iff intro!: nth_mem)
qed

lemma percentile_Nil: "percentile [] fraction = Inl IndexError"
  by (simp add: percentile_def py_get_def py_index_def Let_def)

section \<open>Fixed-point formatting\<close>

text \<open>
  \<open>f"{x:.4f}"\<close> rounds the float to four decimals, ties to even; the model keeps the digits
  as the integer number of ten-thousandths. \<open>true_div\<close> is Python's \<open>/\<close> on integers.
\<close>

definition true_div :: "int \<Rightarrow> int \<Rightarrow> rat result" where
  "true_div a b = (if b = 0 then Inl ZeroDivisionError else Inr (fl (of_int a / of_int b)))"

definition fixed4 :: "rat \<Rightarrow> int" where
  "fixed4 x = rne (x * 10000)"

lemma fixed4_bounds:
  assumes "of_int lo \<le> x" "x \<le> of_int hi"
  shows "lo * 10000 \<le> fixed4 x \<and> fixed4 x \<le> hi * 10000"
  using assms unfolding fixed4_def by (auto intro!: rne_le rne_ge)

text \<open>Python \<open>sum(values) / len(values)\<close>.\<close>

definition mean :: "int list \<Rightarrow> rat result" where
  "mean xs = true_div (sum_list xs) (int (length xs))"

lemma mean_Nil [simp]: "mean [] = Inl ZeroDivisionError"
  by (simp add: mean_def true_div_def)

lemma mean_nonempty: "xs \<noteq> [] \<Longrightarrow> \<exists>v. mean xs = Inr v"
  by (simp add: mean_def true_div_def)

section \<open>Ceilings of quotients\<close>

text \<open>For dividends below \<open>2\<^sup>5\<^sup>3\<close> rounding the quotient does not change its ceiling.\<close>

lemma fl_error:
  assumes "0 < y"
  shows "\<bar>fl y - y\<bar> \<le> 2 powi (expo y - 53)"
proof -
  define u where "u = (2::rat) powi (expo y - 52)"
  have u: "0 < u" by (simp add: u_def)
  have "fl y = of_int (rne (y / u)) * u" using assms by (simp add: fl_def u_def Let_def)
  then have "fl y - y = (of_int (rne (y / u)) - y / u) * u" using u by (simp add: field_simps)
  then have "\<bar>fl y - y\<bar> = \<bar>of_int (rne (y / u)) - y / u\<bar> * u" using u by (simp add: abs_mult)
  also have "\<dots> \<le> 1/2 * u" using rne_error [of "y / u"] u by (intro mult_right_mono) auto
  also have "1/2 * u = 2 powi (expo y - 53)"
    using power_int_add [of "2::rat" "expo y - 53" 1] by (simp add: u_def)
  finally show ?thesis .
qed

lemma ceiling_fl_div:
  assumes "0 \<le> h" "h < 2 ^ 53" "0 < d"
  shows "\<lceil>fl (of_int h / of_int d)\<rceil> = \<lceil>of_int h / (of_int d :: rat)\<rceil>"
proof (cases "d dvd h")
  case True
  then obtain k where k: "h = d * k" by blast
  with assms have "0 \<le> k" by (simp add: zero_le_mult_iff)
  moreover have "k * 1 \<le> k * d" using assms(3) \<open>0 \<le> k\<close> by (intro mult_left_mono) auto
  then have "k < 2 ^ 53" using assms k by (simp add: mult.commute)
  ultimately have "fl (of_int k) = of_int k" by (rule fl_int)
  moreover have "of_int h / (of_int d :: rat) = of_int k" using k assms(3) by simp
  ultimately show ?thesis by simp
next
  case False
  define q where "q = of_int h / (of_int d :: rat)"
  define k where "k = h div d"
  have "h \<noteq> 0" using False by (metis dvd_0_right)
  then have q: "0 < q" using assms by (simp add: q_def)
  have k0: "0 \<le> k" using assms by (simp add: k_def pos_imp_zdiv_nonneg_iff)
  have hk: "k * d + 1 \<le> h" "h < (k + 1) * d"
  proof -
    have "0 < h mod d" using False assms(3) by (metis dvd_eq_mod_eq_0 pos_mod_sign order_le_less)
    then show "k * d + 1 \<le> h" using div_mult_mod_eq [of h d] unfolding k_def by linarith
    have "(k + 1) * d = d * (h div d) + d" by (simp add: k_def algebra_simps)
    then show "h < (k + 1) * d" using pos_mod_bound [OF assms(3), of h] mult_div_mod_eq [of d h] by linarith
  qed
  have dr: "(0::rat) < of_int d" using assms(3) by simp
  have qk: "of_int k + 1 / of_int d \<le> q"
  proof -
    have "(of_int (k * d + 1) :: rat) \<le> of_int h" using hk(1) by (simp only: of_int_le_iff)
    then have "of_int (k * d + 1) / of_int d \<le> q" using dr by (simp add: q_def divide_right_mono)
    then show ?thesis using dr by (simp add: add_divide_distrib)
  qed
  have qk1: "q < of_int (k + 1)"
  proof -
    have "(of_int h :: rat) < of_int ((k + 1) * d)" using hk(2) by (simp only: of_int_less_iff)
    then show ?thesis using dr by (simp add: q_def field_simps)
  qed
  have ceil: "\<lceil>q\<rceil> = k + 1"
  proof (rule ceiling_unique)
    have "0 < 1 / (of_int d :: rat)" using dr by simp
    then have "of_int k < q" using qk by linarith
    then show "of_int (k + 1) - 1 < q" by simp
  qed (use qk1 in simp)
  have small: "2 powi (expo q - 53) < q - of_int k"
  proof (cases "k = 0")
    case True
    have "2 powi (expo q - 53) < (2::rat) powi (expo q)"
      by (rule power_int_strict_increasing) simp_all
    also have "\<dots> \<le> q" by (rule expo_bounds(1)) fact
    finally show ?thesis using True by simp
  next
    case False
    with k0 have "(of_int 1 :: rat) \<le> of_int k" unfolding of_int_le_iff by linarith
    moreover have "0 < 1 / (of_int d :: rat)" using dr by simp
    ultimately have "1 \<le> q" using qk unfolding of_int_1 by linarith
    have e: "0 \<le> expo q"
    proof (rule ccontr)
      assume "\<not> 0 \<le> expo q"
      then have "(2::rat) powi (expo q + 1) \<le> 2 powi 0" by (intro power_int_increasing) auto
      with expo_bounds(2) [OF q] \<open>1 \<le> q\<close> show False by simp
    qed
    have "2 ^ nat (expo q) \<le> k"
    proof -
      have "of_int (2 ^ nat (expo q)) \<le> q" using expo_bounds(1) [OF q] e by (simp add: power_int_def)
      with qk1 have "(of_int (2 ^ nat (expo q)) :: rat) < of_int (k + 1)" by linarith
      then show ?thesis by (simp only: of_int_less_iff)
    qed
    then have "2 ^ nat (expo q) * d \<le> k * d" using assms(3) by (intro mult_right_mono) auto
    also have "\<dots> < 2 ^ 53" using hk(1) assms(2) by linarith
    finally have "(of_int (2 ^ nat (expo q) * d) :: rat) < of_int (2 ^ 53)" by (simp only: of_int_less_iff)
    then have "2 powi expo q * (of_int d :: rat) < 2 ^ 53" using e by (simp add: power_int_def)
    moreover have "(2::rat) powi expo q = 2 powi (expo q - 53) * 2 ^ 53"
      using power_int_add [of "2::rat" "expo q - 53" 53] by simp
    ultimately have "2 powi (expo q - 53) * of_int d < (1::rat)" by simp
    then have "2 powi (expo q - 53) < 1 / (of_int d :: rat)" using dr by (simp add: pos_less_divide_eq)
    with qk show ?thesis by linarith
  qed
  have "k + 1 < 2 ^ 53 \<or> k + 1 \<le> h" using hk(1) k0 assms(3) by (smt (verit) mult_le_cancel_left1)
  then have "k + 1 < 2 ^ 53" using assms(2) by linarith
  with q qk1 have "fl q \<le> of_int (k + 1)" using fl_nonneg_le [of q "k + 1"] by simp
  moreover have "of_int k < fl q" using fl_error [OF q] small by linarith
  ultimately have "\<lceil>fl q\<rceil> = k + 1" by (intro ceiling_unique) simp_all
  with ceil show ?thesis by (simp add: q_def)
qed

end
