(* ===== verification/Trace.thy ===== *)
theory Trace
  imports Float64
begin

text \<open>
  The pointwise request trace (\<open>uib_integration_trace.csv.requests.csv\<close>) the scripts of
  \<open>experiment/\<close> read: one record per CSV row, its numeric columns already converted by
  \<open>int(...)\<close>. Also the \<open>min\<close> and \<open>max\<close> built-ins, which raise on an empty sequence.
\<close>

record request =
  sequence :: int
  stage :: string
  stream_id :: int
  arrival_cycle :: int
  service_start_cycle :: int
  service_cycles :: int
  completion_cycle :: int
  queue_cycles :: int
  blocks :: int
  coalesced :: int
  transfer_bytes :: int

definition expand_pointwise :: string where "expand_pointwise = ''expand_pointwise''"
definition project_pointwise :: string where "project_pointwise = ''project_pointwise''"

lemma stages_distinct [simp]: "expand_pointwise \<noteq> project_pointwise"
  "project_pointwise \<noteq> expand_pointwise"
  by (simp_all add: expand_pointwise_def project_pointwise_def)

definition py_min :: "int list \<Rightarrow> int result" where
  "py_min xs = (case xs of [] \<Rightarrow> Inl (ValueError ''min() arg is an empty sequence'')
                 | y # ys \<Rightarrow> Inr (fold min ys y))"

definition py_max :: "int list \<Rightarrow> int result" where
  "py_max xs = (case xs of [] \<Rightarrow> Inl (ValueError ''max() arg is an empty sequence'')
                 | y # ys \<Rightarrow> Inr (fold max ys y))"

lemma py_min_eq: "xs \<noteq> [] \<Longrightarrow> py_min xs = Inr (Min (set xs))"
  by (cases xs) (simp_all add: py_min_def flip: Min.set_eq_fold)

lemma py_max_eq: "xs \<noteq> [] \<Longrightarrow> py_max xs = Inr (Max (set xs))"
  by (cases xs) (simp_all add: py_max_def flip: Max.set_eq_fold)

lemma py_min_le: "py_min xs = Inr m \<Longrightarrow> x \<in> set xs \<Longrightarrow> m \<le> x"
  using py_min_eq [of xs] by (cases "xs = []") auto

lemma py_min_Inr: "py_min xs = Inr m \<Longrightarrow> xs \<noteq> [] \<and> m \<in> set xs"
  using py_min_eq [of xs] Min_in [of "set xs"] by (cases "xs = []") (auto simp: py_min_def)

text \<open>\<open>sorted(waits)[-1]\<close> is the largest wait.\<close>

lemma sorted_le_last: "sorted xs \<Longrightarrow> x \<in> set xs \<Longrightarrow> x \<le> last (xs :: int list)"
  by (induction xs) auto

lemma last_sort_Max:
  assumes "xs \<noteq> []"
  shows "last (sort xs) = Max (set (xs :: int list))"
proof -
  have "sort xs \<noteq> []" using assms by (metis length_0_conv length_sort)
  then have "last (sort xs) \<in> set xs" by (metis last_in_set set_sort)
  then show ?thesis by (intro Max_eqI [symmetric]) (auto intro!: sorted_le_last)
qed

lemma py_get_minus_one: "xs \<noteq> [] \<Longrightarrow> py_get xs (- 1) = Inr (last xs)"
  by (cases xs) (auto simp: py_get_def py_index_def Let_def last_conv_nth nat_diff_distrib)

lemma wait_quantiles:
  fixes xs :: "int list"
  assumes "xs \<noteq> []" "int (length xs) \<le> 2 ^ 53" "\<forall>x \<in> set xs. 0 \<le> x"
  shows "\<exists>p m. percentile (sort xs) p95 = Inr p \<and> py_get (sort xs) (- 1) = Inr m \<and>
    0 \<le> p \<and> p \<le> m \<and> m = Max (set xs)"
proof -
  have ne: "sort xs \<noteq> []" using assms(1) by (metis length_0_conv length_sort)
  obtain p where p: "percentile (sort xs) p95 = Inr p" "p \<in> set xs"
    using percentile_in_set [OF ne, of p95] assms(2) by (auto simp: p95_def)
  have "py_get (sort xs) (- 1) = Inr (last (sort xs))" by (rule py_get_minus_one [OF ne])
  moreover have "last (sort xs) = Max (set xs)" by (rule last_sort_Max [OF assms(1)])
  moreover have "p \<le> Max (set xs)" using p(2) by simp
  ultimately show ?thesis using p assms(3) by auto
qed

section \<open>Streams\<close>

text \<open>
  Both queueing replays keep one source queue per stream, \<open>STREAMS\<close> of them, indexed by
  \<open>stream_id\<close> as a Python list is. \<open>key\<close> is the queue a request belongs to;
  \<open>in_service\<close> counts the requests being served at a cycle.
\<close>

definition STREAMS :: nat where "STREAMS = 128"

lemma STREAMS_pos [simp]: "0 < STREAMS"
  by (simp add: STREAMS_def)

definition key :: "request \<Rightarrow> nat result" where
  "key e = py_index STREAMS (stream_id e)"

lemma key_less: "key e = Inr k \<Longrightarrow> k < STREAMS"
  by (simp add: key_def py_index_less)

lemma filter_stream_key:
  "filter (\<lambda>e. stream_id e = i) xs =
     filter (\<lambda>e. stream_id e = i) (filter (\<lambda>e. key e = py_index STREAMS i) xs)"
  unfolding filter_filter by (rule filter_cong) (auto simp: key_def)

definition in_service :: "int \<Rightarrow> (int \<times> int) list \<Rightarrow> nat" where
  "in_service t intervals = length (filter (\<lambda>(start, completion). start \<le> t \<and> t < completion) intervals)"

lemma in_service_append:
  "in_service t (xs @ [(a, c)]) = in_service t xs + (if a \<le> t \<and> t < c then 1 else 0)"
  by (simp add: in_service_def)

lemma in_service_le_running:
  assumes "cycle \<le> t"
  shows "in_service t xs \<le> size (mset (filter (\<lambda>c. cycle < c) (map snd xs)))"
proof -
  have "in_service t xs \<le> length (filter (\<lambda>p. cycle < snd p) xs)"
    unfolding in_service_def using assms by (induction xs) auto
  also have "\<dots> = size (mset (filter (\<lambda>c. cycle < c) (map snd xs)))"
    by (simp only: size_mset filter_map length_map comp_def)
  finally show ?thesis .
qed

section \<open>Outstanding work\<close>

text \<open>
  The convergence arguments of both queueing replays count work in cycles: one cycle and the
  service time of every request that has not started, the remaining time of those in service.
\<close>

definition total_work :: "request list \<Rightarrow> int" where
  "total_work events = sum_list (map (\<lambda>e. service_cycles e + 1) events)"

definition serviceable :: "int \<Rightarrow> request list \<Rightarrow> bool" where
  "serviceable last_arrival events \<longleftrightarrow>
     (\<forall>e \<in> set events. 0 \<le> service_cycles e \<and> arrival_cycle e \<le> last_arrival \<and>
        0 \<le> stream_id e \<and> stream_id e < int STREAMS)"

definition running_work :: "int \<Rightarrow> (int \<times> 'a) multiset \<Rightarrow> int" where
  "running_work cycle busy = (\<Sum>p \<in># busy. max 0 (fst p + 1 - cycle))"

lemma running_work_nonneg: "0 \<le> running_work c B"
  unfolding running_work_def by (induction B) auto

lemma running_work_mono: "A \<subseteq># B \<Longrightarrow> running_work c A \<le> running_work c B"
  using running_work_nonneg by (fastforce simp: running_work_def subset_mset.le_iff_add)

lemma running_work_later: "c \<le> d \<Longrightarrow> running_work d B \<le> running_work c B"
  unfolding running_work_def by (intro sum_mset_mono) auto

lemma running_work_next:
  assumes "B \<noteq> {#}" "\<forall>p \<in># B. c \<le> fst p"
  shows "running_work (c + 1) B < running_work c B"
proof -
  from assms obtain p A where B: "B = add_mset p A" by (meson multiset_cases)
  have "running_work (c + 1) A \<le> running_work c A" by (rule running_work_later) simp
  with B assms(2) show ?thesis by (simp add: running_work_def)
qed

lemma unstarted_work_nonneg:
  "\<forall>e \<in># M. 0 \<le> service_cycles e \<Longrightarrow> 0 \<le> (\<Sum>e \<in># M. service_cycles e + 1)"
  by (induction M) auto

end
