(* ===== verification/Pcu_Sweep.thy ===== *)
theory Pcu_Sweep
  imports Trace Heapq
begin

text \<open>
  \<open>experiment/replay_uib_pointwise_pcu_sweep.py\<close>: the request trace replayed on
  \<open>pcu_count div 8\<close> scheduler lanes, lanes kept in a heap of (time available, lane). The
  abstract specification is a first-come first-served queue with many servers, stated on
  the sorted vector of the times at which the servers come free; the replay refines it.
\<close>

section \<open>The code\<close>

type_synonym lane_heap = "(int \<times> nat) list"
type_synonym served = "request \<times> int \<times> int"

text \<open>\<open>peak_waiting\<close>: a sweep over the arrival (+1) and start (-1) points.\<close>

definition waiting_points :: "(int \<times> int) list \<Rightarrow> (int \<times> int) list" where
  "waiting_points intervals =
     concat (map (\<lambda>(arrival, start).
       if arrival < start then [(arrival, 1), (start, - 1)] else []) intervals)"

fun sweep_points :: "(int \<times> int) list \<Rightarrow> int \<Rightarrow> int \<Rightarrow> int" where
  "sweep_points [] current peak = peak"
| "sweep_points ((_, delta) # es) current peak =
     sweep_points es (current + delta) (max peak (current + delta))"

definition peak_waiting :: "(int \<times> int) list \<Rightarrow> int" where
  "peak_waiting intervals = sweep_points (sort (waiting_points intervals)) 0 0"

text \<open>The loop of \<open>replay\<close>, and \<open>replay\<close> with its two guards.\<close>

fun replay_loop :: "lane_heap \<Rightarrow> request list \<Rightarrow> served list result" where
  "replay_loop lanes [] = Inr []"
| "replay_loop lanes (event # events) =
     and_then (heappop lanes) (\<lambda>((available, lane), lanes').
       let start = max (arrival_cycle event) available;
           completion = start + service_cycles event
       in and_then (replay_loop (heappush lanes' (completion, lane)) events)
            (\<lambda>replayed. Inr ((event, start, completion) # replayed)))"

definition sweep_replay :: "request list \<Rightarrow> int \<Rightarrow> served list result" where
  "sweep_replay events pcu_count =
     (if set (map blocks events) \<noteq> {8}
      then Inl (SystemExit ''Expected one 8-block command shape'')
      else if pcu_count < 8 \<or> pcu_count mod 8 \<noteq> 0
      then Inl (SystemExit ''PCU count must be a multiple of the 8-block command width'')
      else replay_loop (heapify (map (\<lambda>lane. (0, lane)) [0..<nat (pcu_count div 8)])) events)"

record sweep_row =
  sw_pcu_count :: int
  sw_scheduler_lanes :: int
  sw_stage :: string
  sw_requests :: nat
  sw_average_queue_cycles :: int
  sw_p95_queue_cycles :: int
  sw_max_queue_cycles :: int
  sw_peak_waiting_requests :: int
  sw_first_arrival_cycle :: int
  sw_last_completion_cycle :: int
  sw_arrival_to_completion_span :: int

definition sweep_summarize :: "served list \<Rightarrow> int \<Rightarrow> string \<Rightarrow> sweep_row result" where
  "sweep_summarize replayed pcu_count st =
     (let selected = filter (\<lambda>(event, _, _). stage event = st) replayed;
          queues = sort (map (\<lambda>(event, start, _). start - arrival_cycle event) selected);
          intervals = map (\<lambda>(event, start, _). (arrival_cycle event, start)) selected
      in and_then (py_min (map fst intervals)) (\<lambda>first_arrival.
         and_then (py_max (map (\<lambda>(_, _, completion). completion) selected)) (\<lambda>last_completion.
         and_then (mean queues) (\<lambda>average.
         and_then (percentile queues p95) (\<lambda>p95_queue.
         and_then (py_get queues (- 1)) (\<lambda>max_queue.
           Inr \<lparr>sw_pcu_count = pcu_count, sw_scheduler_lanes = pcu_count div 8, sw_stage = st,
                sw_requests = length selected, sw_average_queue_cycles = fixed4 average,
                sw_p95_queue_cycles = p95_queue, sw_max_queue_cycles = max_queue,
                sw_peak_waiting_requests = peak_waiting intervals,
                sw_first_arrival_cycle = first_arrival,
                sw_last_completion_cycle = last_completion,
                sw_arrival_to_completion_span = last_completion - first_arrival\<rparr>))))))"

definition PCU_COUNTS :: "int list" where "PCU_COUNTS = [8, 16, 32, 64]"
definition BASELINE_PCUS :: int where "BASELINE_PCUS = 16"

definition start_mismatches :: "served list \<Rightarrow> nat" where
  "start_mismatches baseline =
     length (filter (\<lambda>(event, start, _). start \<noteq> service_start_cycle event) baseline)"

definition completion_mismatches :: "served list \<Rightarrow> nat" where
  "completion_mismatches baseline =
     length (filter (\<lambda>(event, _, completion). completion \<noteq> completion_cycle event) baseline)"

text \<open>\<open>main\<close> between reading the trace and writing the rows.\<close>

definition sweep_main :: "request list \<Rightarrow> sweep_row list result" where
  "sweep_main events =
     (if events = [] then Inl (SystemExit ''Pointwise request trace is empty'')
      else and_then (sweep_replay events BASELINE_PCUS) (\<lambda>baseline.
        if start_mismatches baseline \<noteq> 0 \<or> completion_mismatches baseline \<noteq> 0
        then Inl (SystemExit ''PCU_REPLAY FAIL'')
        else and_then (map_r (\<lambda>pcu_count.
               and_then (if pcu_count = BASELINE_PCUS then Inr baseline
                         else sweep_replay events pcu_count) (\<lambda>replayed.
                 map_r (sweep_summarize replayed pcu_count)
                   [expand_pointwise, project_pointwise])) PCU_COUNTS)
             (\<lambda>rows. Inr (concat rows))))"

section \<open>Specification: a first-come first-served queue with many servers\<close>

text \<open>
  \<open>free\<close> is the sorted vector of the times at which the servers come free. The next request
  is served by the earliest one.
\<close>

fun fcfs :: "int list \<Rightarrow> request list \<Rightarrow> (int \<times> int) list" where
  "fcfs free [] = []"
| "fcfs [] (e # es) = []"
| "fcfs (w # free) (e # es) =
     (let start = max (arrival_cycle e) w; completion = start + service_cycles e
      in (start, completion) # fcfs (insort completion free) es)"

lemma replay_loop_fcfs:
  assumes "sorted lanes" "lanes \<noteq> []"
  shows "\<exists>rs. replay_loop lanes es = Inr rs \<and> map fst rs = es \<and>
           map snd rs = fcfs (map fst lanes) es"
  using assms
proof (induction es arbitrary: lanes)
  case (Cons e es)
  then obtain w l h where h: "lanes = (w, l) # h" by (cases lanes) auto
  define p where "p = (max (arrival_cycle e) w + service_cycles e, l)"
  have sh: "sorted h" using Cons.prems h by simp
  have "heappush h p \<noteq> []" by (simp add: heappush_def insort_not_Nil)
  with sh Cons.IH [of "heappush h p"] obtain rs where
    rs: "replay_loop (heappush h p) es = Inr rs" "map fst rs = es"
      "map snd rs = fcfs (map fst (heappush h p)) es" by auto
  then show ?case using h sh by (simp add: p_def map_fst_heappush Let_def)
qed simp

section \<open>Facts about the specification\<close>

lemma fcfs_length: "free \<noteq> [] \<Longrightarrow> length (fcfs free es) = length es"
  by (induction free es rule: fcfs.induct) (auto simp: Let_def insort_not_Nil)

lemma fcfs_nth:
  "i < length (fcfs free es) \<Longrightarrow>
     arrival_cycle (es ! i) \<le> fst (fcfs free es ! i) \<and>
     snd (fcfs free es ! i) = fst (fcfs free es ! i) + service_cycles (es ! i)"
  by (induction free es arbitrary: i rule: fcfs.induct)
    (auto simp: Let_def nth_Cons split: nat.splits)

text \<open>No more requests are in service than servers are free by then.\<close>

lemma fcfs_in_service:
  assumes "sorted free" "\<forall>e \<in> set es. 0 \<le> service_cycles e"
  shows "length (filter (\<lambda>(s, c). s \<le> t \<and> t < c) (fcfs free es)) \<le> length (filter (\<lambda>w. w \<le> t) free)"
  using assms
proof (induction free es rule: fcfs.induct)
  case (3 w free e es)
  define s where "s = max (arrival_cycle e) w"
  define c where "c = s + service_cycles e"
  have le: "w \<le> s" "s \<le> c" using 3(3) by (auto simp: s_def c_def)
  have ih: "length (filter (\<lambda>(s, c). s \<le> t \<and> t < c) (fcfs (insort c free) es))
      \<le> length (filter (\<lambda>w. w \<le> t) (insort c free))"
    using 3(1) [OF s_def c_def] 3(2,3) by (simp add: sorted_insort)
  have "mset (filter (\<lambda>w. w \<le> t) (insort c free)) =
      mset (filter (\<lambda>w. w \<le> t) (c # free))" by simp
  then have "length (filter (\<lambda>w. w \<le> t) (insort c free)) =
      length (filter (\<lambda>w. w \<le> t) (c # free))" by (metis size_mset)
  with ih le show ?case by (simp add: s_def [symmetric] c_def [symmetric] Let_def split: if_splits)
qed simp_all

text \<open>Requests that arrive in order start in order.\<close>

lemma fcfs_starts_ge:
  assumes "sorted free" "\<forall>e \<in> set es. 0 \<le> service_cycles e"
    and "\<forall>e \<in> set es. a \<le> arrival_cycle e" "\<forall>w \<in> set free. b \<le> w"
  shows "\<forall>p \<in> set (fcfs free es). max a b \<le> fst p"
  using assms
proof (induction free es rule: fcfs.induct)
  case (3 w free e es)
  have "b \<le> max (arrival_cycle e) w + service_cycles e"
    using 3(3,5) by (auto simp: max_def)
  with 3 show ?case by (auto simp: Let_def sorted_insort set_insort_key)
qed simp_all

lemma fcfs_sorted_starts:
  assumes "sorted free" "\<forall>e \<in> set es. 0 \<le> service_cycles e" "sorted (map arrival_cycle es)"
  shows "sorted (map fst (fcfs free es))"
  using assms
proof (induction free es rule: fcfs.induct)
  case (3 w free e es)
  define s where "s = max (arrival_cycle e) w"
  define c where "c = s + service_cycles e"
  have c: "w \<le> c" using 3(3) by (auto simp: s_def c_def)
  have "\<forall>p \<in> set (fcfs (insort c free) es). max (arrival_cycle e) w \<le> fst p"
    using 3(2-4) c by (intro fcfs_starts_ge) (auto simp: sorted_insort set_insort_key)
  moreover have "sorted (map fst (fcfs (insort c free) es))"
    using 3(1) [OF s_def c_def] 3(2-4) by (simp add: sorted_insort)
  ultimately show ?case by (simp add: s_def [symmetric] c_def [symmetric] Let_def)
qed simp_all

section \<open>More servers never delay a request\<close>

text \<open>\<open>ahead V W\<close>: vector \<open>V\<close> has at least as many servers, each free no later.\<close>

fun ahead :: "int list \<Rightarrow> int list \<Rightarrow> bool" where
  "ahead V [] = True"
| "ahead [] (w # W) = False"
| "ahead (v # V) (w # W) = (v \<le> w \<and> ahead V W)"

lemma ahead_insort:
  assumes "ahead V W" "sorted V" "sorted W" "c \<le> d"
  shows "ahead (insort c V) (insort d W)"
  using assms
proof (induction V W arbitrary: c d rule: ahead.induct)
  case (1 V)
  then show ?case by (cases V) auto
next
  case (3 v V w W)
  have vV: "insort v V = v # V" and wW: "insort w W = w # W"
    using 3(3,4) by (simp_all add: insort_is_Cons)
  show ?case
  proof (cases "c \<le> v"; cases "d \<le> w")
    assume "c \<le> v" "\<not> d \<le> w"
    moreover have "ahead (insort v V) (insort d W)"
      using 3 \<open>\<not> d \<le> w\<close> by (intro 3(1)) auto
    ultimately show ?thesis using 3(2) vV by simp
  next
    assume "\<not> c \<le> v" "d \<le> w"
    moreover have "ahead (insort c V) (insort w W)"
      using 3 \<open>d \<le> w\<close> by (intro 3(1)) auto
    ultimately show ?thesis using 3(5) wW by simp
  qed (use 3 in auto)
qed simp

lemma fcfs_ahead:
  assumes "ahead V W" "sorted V" "sorted W" "W \<noteq> []"
  shows "list_all2 (\<lambda>p q. fst p \<le> fst q) (fcfs V es) (fcfs W es)"
  using assms
proof (induction es arbitrary: V W)
  case (Cons e es)
  then obtain v V' w W' where vw: "V = v # V'" "W = w # W'" by (cases V; cases W) auto
  have "ahead (insort (max (arrival_cycle e) v + service_cycles e) V')
     (insort (max (arrival_cycle e) w + service_cycles e) W')"
    using Cons.prems vw by (intro ahead_insort) auto
  with Cons.IH Cons.prems vw show ?case
    by (simp add: Let_def sorted_insort insort_not_Nil max.coboundedI2)
qed (auto simp: list_all2_Nil split: list.splits)

lemma ahead_replicate: "m \<le> n \<Longrightarrow> ahead (replicate n x) (replicate m x)"
proof (induction m arbitrary: n)
  case (Suc m)
  then show ?case by (cases n) auto
qed simp

section \<open>The sweep over arrival and start points\<close>

text \<open>The number of requests that have arrived and not started at time \<open>t\<close>.\<close>

definition waiting_at :: "(int \<times> int) list \<Rightarrow> int \<Rightarrow> int" where
  "waiting_at intervals t = int (length (filter (\<lambda>(a, s). a \<le> t \<and> t < s) intervals))"

text \<open>Sum of the deltas of all points up to and including the arrivals at \<open>t\<close>.\<close>

definition delta_upto :: "(int \<times> int) list \<Rightarrow> int \<Rightarrow> int" where
  "delta_upto es t = sum_list (map snd (filter (\<lambda>e. e \<le> (t, 1)) es))"

lemma delta_upto_points: "delta_upto (waiting_points ivs) t = waiting_at ivs t"
  by (induction ivs)
    (auto simp: delta_upto_def waiting_at_def waiting_points_def less_eq_prod_def split: if_splits)

lemma delta_upto_perm: "mset es = mset fs \<Longrightarrow> delta_upto es t = delta_upto fs t"
  unfolding delta_upto_def by (metis mset_filter mset_map sum_mset_sum_list)

lemma sweep_points_ge: "peak \<le> sweep_points es current peak"
  by (induction es current peak rule: sweep_points.induct) (auto simp: max_def split: if_splits)

lemma sweep_points_prefix:
  "es = pre @ suf \<Longrightarrow> pre \<noteq> [] \<Longrightarrow> current + sum_list (map snd pre) \<le> sweep_points es current peak"
proof (induction es current peak arbitrary: pre rule: sweep_points.induct)
  case (2 x delta es current peak)
  then obtain pre' where pre: "pre = (x, delta) # pre'" "es = pre' @ suf"
    by (auto simp: Cons_eq_append_conv)
  show ?case
  proof (cases "pre' = []")
    case True
    with pre show ?thesis
      using sweep_points_ge [of "max peak (current + delta)" es "current + delta"] by simp
  next
    case False
    with 2(1) [OF pre(2)] pre(1) show ?thesis by (simp add: add.assoc)
  qed
qed simp

lemma sweep_points_attained:
  "sweep_points es current peak = peak \<or>
   (\<exists>pre suf. es = pre @ suf \<and> sweep_points es current peak = current + sum_list (map snd pre))"
proof (induction es current peak rule: sweep_points.induct)
  case (2 x delta es current peak)
  let ?r = "sweep_points es (current + delta) (max peak (current + delta))"
  from 2 consider "?r = peak" | "?r = current + delta"
    | pre suf where "es = pre @ suf" "?r = current + delta + sum_list (map snd pre)"
    by (fastforce simp: max_def split: if_splits)
  then show ?case
  proof cases
    case 2
    then show ?thesis by (intro disjI2 exI [of _ "[(x, delta)]"] exI [of _ es]) simp
  next
    case (3 pre suf)
    then show ?thesis
      by (intro disjI2 exI [of _ "(x, delta) # pre"] exI [of _ suf]) (simp add: add.assoc)
  qed simp
qed simp

text \<open>In a sorted list the points up to a bound are a prefix.\<close>

lemma sorted_filter_le_prefix:
  fixes es :: "'a::linorder list"
  assumes "sorted es"
  shows "\<exists>suf. es = filter (\<lambda>e. e \<le> b) es @ suf"
  using assms
proof (induction es)
  case (Cons e es)
  show ?case
  proof (cases "e \<le> b")
    case False
    with Cons.prems have "filter (\<lambda>e. e \<le> b) (e # es) = []" by (auto simp: filter_empty_conv)
    then show ?thesis by simp
  qed (use Cons in auto)
qed simp

text \<open>Every prefix of the sorted points sums to at most the number waiting at some time.\<close>

lemma prefix_sum_bound:
  assumes "sorted (pre @ suf)" "\<forall>e \<in> set (pre @ suf). snd e = 1 \<or> snd e = - 1"
  shows "sum_list (map snd pre) \<le> 0 \<or> (\<exists>t. sum_list (map snd pre) \<le> delta_upto (pre @ suf) t)"
  using assms
proof (induction pre arbitrary: suf rule: rev_induct)
  case (snoc e pre)
  obtain t d where e: "e = (t, d)" by (cases e)
  show ?case
  proof (cases "d = 1")
    case False
    with snoc.prems e have d: "d = - 1" by auto
    have "sum_list (map snd pre) \<le> 0 \<or>
        (\<exists>t. sum_list (map snd pre) \<le> delta_upto (pre @ e # suf) t)"
      using snoc.prems by (intro snoc.IH) simp_all
    then show ?thesis
    proof (elim disjE exE)
      fix u assume "sum_list (map snd pre) \<le> delta_upto (pre @ e # suf) u"
      then show ?thesis using e d by (intro disjI2 exI [of _ u]) simp
    qed (use e d in simp)
  next
    case True
    have "\<forall>x \<in> set suf. x = (t, 1) \<or> \<not> x \<le> (t, 1)"
      using snoc.prems(1) True e by (fastforce simp: sorted_append)
    then have "filter (\<lambda>x. x \<le> (t, 1)) suf = replicate (count (mset suf) (t, 1)) (t, 1)"
      by (induction suf) auto
    moreover have "filter (\<lambda>x. x \<le> (t, 1)) pre = pre" "e \<le> (t, 1)"
      using snoc.prems(1) True e by (auto simp: sorted_append filter_id_conv)
    ultimately have "delta_upto ((pre @ [e]) @ suf) t =
        sum_list (map snd (pre @ [e])) + int (count (mset suf) (t, 1))"
      by (simp add: delta_upto_def sum_list_replicate)
    then show ?thesis by (intro disjI2 exI [of _ t]) simp
  qed
qed simp

lemma waiting_points_deltas: "e \<in> set (waiting_points ivs) \<Longrightarrow> snd e = 1 \<or> snd e = - 1"
  by (auto simp: waiting_points_def split: if_splits)

lemma waiting_at_early: "\<exists>t. waiting_at ivs t = 0"
proof -
  define t where "t = Min (insert 0 (set (map fst ivs))) - 1"
  have "t < a" if "(a, s) \<in> set ivs" for a s
  proof -
    have "a \<in> insert 0 (set (map fst ivs))" using that by force
    then have "Min (insert 0 (set (map fst ivs))) \<le> a" by (intro Min_le) auto
    then show ?thesis by (simp add: t_def)
  qed
  then have "waiting_at ivs t = 0" by (fastforce simp: waiting_at_def filter_empty_conv)
  then show ?thesis ..
qed

section \<open>Properties\<close>

lemma sweep_replay_Inr:
  assumes "sweep_replay events pcu_count = Inr rs"
  shows "map fst rs = events \<and>
    map snd rs = fcfs (replicate (nat (pcu_count div 8)) 0) events \<and>
    events \<noteq> [] \<and> 8 \<le> pcu_count \<and> 8 dvd pcu_count \<and> (\<forall>e \<in> set events. blocks e = 8)"
proof -
  let ?lanes = "heapify (map (\<lambda>lane. (0::int, lane)) [0..<nat (pcu_count div 8)])"
  from assms have g: "blocks ` set events = {8}" "8 \<le> pcu_count" "pcu_count mod 8 = 0"
      "replay_loop ?lanes events = Inr rs"
    by (auto simp: sweep_replay_def split: if_splits)
  have "1 \<le> pcu_count div 8" using g(2) by (simp add: pos_imp_zdiv_pos_iff int_one_le_iff_zero_less)
  then have "length ?lanes \<noteq> 0" by simp
  then have ne: "?lanes \<noteq> []" by (metis list.size(3))
  have "map fst ?lanes = replicate (nat (pcu_count div 8)) 0"
    by (rule replicate_eqI) auto
  then show ?thesis
    using replay_loop_fcfs [of ?lanes events] ne g by (auto simp: dvd_eq_mod_eq_0)
qed

text \<open>
  C18: the replay is exactly the first-come first-served queue with \<open>pcu_count div 8\<close>
  servers: whenever it returns, it returns the trace's requests in trace order, each with the
  start and completion the abstract queue gives it.
\<close>

theorem sweep_replay_refines_fcfs:
  assumes "sweep_replay events pcu_count = Inr rs"
  shows "map fst rs = events \<and> map snd rs = fcfs (replicate (nat (pcu_count div 8)) 0) events"
  using sweep_replay_Inr [OF assms] by simp

theorem sweep_replay_refines_fcfs_witness:
  "\<exists>rs e. sweep_replay [e] 16 = Inr rs \<and> map snd rs = fcfs [0, 0] [e] \<and> map snd rs = [(5, 8)]"
proof -
  define e :: request where "e = \<lparr>sequence = 0, stage = expand_pointwise, stream_id = 0,
    arrival_cycle = 5, service_start_cycle = 5, service_cycles = 3, completion_cycle = 8,
    queue_cycles = 0, blocks = 8, coalesced = 0, transfer_bytes = 64\<rparr>"
  have r: "sweep_replay [e] 16 = Inr [(e, 5, 8)]"
    by (simp add: sweep_replay_def e_def heapify_def upt_rec Let_def)
  show ?thesis
    using sweep_replay_refines_fcfs [OF r] r by (intro exI) (auto simp: numeral_2_eq_2)
qed

text \<open>
  The replay returns exactly on the inputs its two guards admit: a non-empty trace of
  8-block commands and a PCU count that is a positive multiple of eight. No heap access
  fails behind them.
\<close>

theorem sweep_replay_returns_iff:
  "(\<exists>rs. sweep_replay events pcu_count = Inr rs) \<longleftrightarrow>
     events \<noteq> [] \<and> (\<forall>e \<in> set events. blocks e = 8) \<and> 8 \<le> pcu_count \<and> 8 dvd pcu_count"
proof
  assume r: "events \<noteq> [] \<and> (\<forall>e \<in> set events. blocks e = 8) \<and> 8 \<le> pcu_count \<and> 8 dvd pcu_count"
  then have "1 \<le> pcu_count div 8" by (simp add: int_one_le_iff_zero_less pos_imp_zdiv_pos_iff)
  then have "length (heapify (map (\<lambda>lane. (0::int, lane)) [0..<nat (pcu_count div 8)])) \<noteq> 0" by simp
  then have "heapify (map (\<lambda>lane. (0::int, lane)) [0..<nat (pcu_count div 8)]) \<noteq> []"
    by (metis list.size(3))
  moreover have "blocks ` set events = {8}" using r by (cases events) auto
  ultimately show "\<exists>rs. sweep_replay events pcu_count = Inr rs"
    using r replay_loop_fcfs [of "heapify (map (\<lambda>lane. (0, lane)) [0..<nat (pcu_count div 8)])" events]
    by (auto simp: sweep_replay_def dvd_eq_mod_eq_0)
qed (auto dest: sweep_replay_Inr)

theorem sweep_replay_returns_iff_witness:
  "\<exists>e. \<exists>rs. sweep_replay [e] 8 = Inr rs"
  using sweep_replay_returns_iff [of "[undefined\<lparr>blocks := 8\<rparr>]" 8] by auto

text \<open>
  Capacity. With non-negative service times, at no cycle are more requests in service
  than there are scheduler lanes.
\<close>

theorem sweep_replay_capacity:
  assumes "sweep_replay events pcu_count = Inr rs" "\<forall>e \<in> set events. 0 \<le> service_cycles e"
  shows "length (filter (\<lambda>(_, start, completion). start \<le> t \<and> t < completion) rs)
           \<le> nat (pcu_count div 8)"
proof -
  let ?free = "replicate (nat (pcu_count div 8)) (0::int)"
  have "length (filter (\<lambda>(_, s, c). s \<le> t \<and> t < c) rs) =
      length (filter (\<lambda>(s, c). s \<le> t \<and> t < c) (map snd rs))"
    by (induction rs) auto
  also have "\<dots> \<le> length (filter (\<lambda>w. w \<le> t) ?free)"
    using sweep_replay_Inr [OF assms(1)] assms(2)
    by (auto intro!: fcfs_in_service)
  also have "\<dots> \<le> nat (pcu_count div 8)"
    by (metis length_filter_le length_replicate)
  finally show ?thesis .
qed

theorem sweep_replay_capacity_witness:
  "\<exists>rs e. sweep_replay [e, e] 8 = Inr rs \<and>
     length (filter (\<lambda>(_, start, completion). start \<le> 6 \<and> 6 < completion) rs) \<le> 1"
proof -
  define e :: request where "e = \<lparr>sequence = 0, stage = expand_pointwise, stream_id = 0,
    arrival_cycle = 5, service_start_cycle = 5, service_cycles = 3, completion_cycle = 8,
    queue_cycles = 0, blocks = 8, coalesced = 0, transfer_bytes = 64\<rparr>"
  have r: "sweep_replay [e, e] 8 = Inr [(e, 5, 8), (e, 8, 11)]"
    by (simp add: sweep_replay_def e_def heapify_def heappush_def upt_rec Let_def)
  show ?thesis
    using sweep_replay_capacity [OF r, of 6] r by (intro exI conjI) (auto simp: e_def)
qed

text \<open>
  Adding PCUs never delays a request: on the same trace every request starts no later
  with the larger count.
\<close>

theorem sweep_more_pcus_start_earlier:
  assumes "sweep_replay events small = Inr rs" "sweep_replay events large = Inr rs'"
    and "small \<le> large"
  shows "list_all2 (\<lambda>(e, start, _) (e', start', _). e' = e \<and> start' \<le> start) rs rs'"
proof -
  let ?f = "\<lambda>n. fcfs (replicate (nat (n div 8)) 0) events"
  have r: "map fst rs = events" "map snd rs = ?f small" "map fst rs' = events"
    "map snd rs' = ?f large" and s: "8 \<le> small"
    using sweep_replay_Inr [OF assms(1)] sweep_replay_Inr [OF assms(2)] by auto
  have "1 \<le> small div 8" using s by (simp add: int_one_le_iff_zero_less pos_imp_zdiv_pos_iff)
  moreover have "small div 8 \<le> large div 8" using assms(3) by (simp add: zdiv_mono1)
  ultimately have "list_all2 (\<lambda>p q. fst p \<le> fst q) (?f large) (?f small)"
    by (intro fcfs_ahead ahead_replicate) auto
  then have "list_all2 (\<lambda>p q. fst p \<le> fst q) (map snd rs') (map snd rs)" by (simp only: r)
  then have "list_all2 (\<lambda>p q. fst (snd p) \<le> fst (snd q)) rs' rs"
    by (simp add: list_all2_map1 list_all2_map2)
  then have le: "length rs' = length rs" "i < length rs \<Longrightarrow> fst (snd (rs' ! i)) \<le> fst (snd (rs ! i))"
    for i by (auto simp: list_all2_conv_all_nth)
  have "fst (rs' ! i) = fst (rs ! i)" if "i < length rs" for i
    using r(1,3) le(1) that by (metis nth_map)
  with le show ?thesis by (auto simp: list_all2_conv_all_nth split_beta)
qed

theorem sweep_more_pcus_start_earlier_witness:
  "\<exists>rs rs' e. sweep_replay [e, e] 8 = Inr rs \<and> sweep_replay [e, e] 16 = Inr rs' \<and>
     list_all2 (\<lambda>(e, start, _) (e', start', _). e' = e \<and> start' \<le> start) rs rs'"
proof -
  define e :: request where "e = \<lparr>sequence = 0, stage = expand_pointwise, stream_id = 0,
    arrival_cycle = 5, service_start_cycle = 5, service_cycles = 3, completion_cycle = 8,
    queue_cycles = 0, blocks = 8, coalesced = 0, transfer_bytes = 64\<rparr>"
  have r: "sweep_replay [e, e] 8 = Inr [(e, 5, 8), (e, 8, 11)]"
    by (simp add: sweep_replay_def e_def heapify_def heappush_def upt_rec Let_def)
  have r': "sweep_replay [e, e] 16 = Inr [(e, 5, 8), (e, 5, 8)]"
    by (simp add: sweep_replay_def e_def heapify_def heappush_def upt_rec Let_def less_eq_prod_def)
  show ?thesis using sweep_more_pcus_start_earlier [OF r r'] r r' by (intro exI conjI) auto
qed

text \<open>
  When arrivals are in order (and service times non-negative), requests start in arrival
  order: no request overtakes an earlier one.
\<close>

lemma sweep_replay_in_order:
  assumes "sweep_replay events pcu_count = Inr rs" "\<forall>e \<in> set events. 0 \<le> service_cycles e"
    and "sorted (map arrival_cycle events)"
  shows "sorted (map (\<lambda>(_, start, _). start) rs)"
proof -
  have "map (\<lambda>(_, start, _). start) rs = map fst (map snd rs)" by auto
  then show ?thesis
    using sweep_replay_Inr [OF assms(1)] assms(2,3) by (auto intro!: fcfs_sorted_starts)
qed

lemma sweep_replay_in_order_example:
  "\<exists>rs e. sweep_replay [e, e] 8 = Inr rs \<and> sorted (map (\<lambda>(_, start, _). start) rs)"
proof -
  define e :: request where "e = \<lparr>sequence = 0, stage = expand_pointwise, stream_id = 0,
    arrival_cycle = 5, service_start_cycle = 5, service_cycles = 3, completion_cycle = 8,
    queue_cycles = 0, blocks = 8, coalesced = 0, transfer_bytes = 64\<rparr>"
  have r: "sweep_replay [e, e] 8 = Inr [(e, 5, 8), (e, 8, 11)]"
    by (simp add: sweep_replay_def e_def heapify_def heappush_def upt_rec Let_def)
  show ?thesis using sweep_replay_in_order [OF r] r by (intro exI conjI) (auto simp: e_def)
qed

text \<open>
  \<open>peak_waiting\<close> is the true peak: no time has more requests that have arrived and
  not started, and some time has exactly that many.
\<close>

theorem peak_waiting_is_peak:
  "(\<forall>t. waiting_at ivs t \<le> peak_waiting ivs) \<and> (\<exists>t. waiting_at ivs t = peak_waiting ivs)"
proof -
  define es where "es = sort (waiting_points ivs)"
  have s: "sorted es" by (simp add: es_def)
  have w: "delta_upto es t = waiting_at ivs t" for t
    using delta_upto_perm [of es "waiting_points ivs"] by (simp add: es_def delta_upto_points)
  have le: "waiting_at ivs t \<le> sweep_points es 0 0" for t
  proof -
    obtain suf where suf: "es = filter (\<lambda>e. e \<le> (t, 1)) es @ suf"
      using sorted_filter_le_prefix [OF s] by blast
    show ?thesis
    proof (cases "filter (\<lambda>e. e \<le> (t, 1)) es = []")
      case True
      then show ?thesis using sweep_points_ge [of 0 es 0] w [of t] by (simp add: delta_upto_def)
    next
      case False
      from sweep_points_prefix [OF suf False, of 0 0] show ?thesis
        using w [of t] by (simp add: delta_upto_def)
    qed
  qed
  have "\<exists>t. waiting_at ivs t = sweep_points es 0 0"
    using sweep_points_attained [of es 0 0]
  proof (elim disjE exE conjE)
    assume "sweep_points es 0 0 = 0"
    then show ?thesis using waiting_at_early by auto
  next
    fix pre suf assume p: "es = pre @ suf" "sweep_points es 0 0 = 0 + sum_list (map snd pre)"
    have "sum_list (map snd pre) \<le> 0 \<or> (\<exists>t. sum_list (map snd pre) \<le> delta_upto (pre @ suf) t)"
    proof (rule prefix_sum_bound)
      show "sorted (pre @ suf)" using s p(1) by simp
      have "set (pre @ suf) = set (waiting_points ivs)" by (metis p(1) es_def set_sort)
      then show "\<forall>e \<in> set (pre @ suf). snd e = 1 \<or> snd e = - 1"
        using waiting_points_deltas by blast
    qed
    then show ?thesis
    proof (elim disjE exE)
      assume "sum_list (map snd pre) \<le> 0"
      then show ?thesis using p(2) sweep_points_ge [of 0 es 0] waiting_at_early [of ivs] by auto
    next
      fix t assume "sum_list (map snd pre) \<le> delta_upto (pre @ suf) t"
      then show ?thesis using le [of t] w [of t] p by (intro exI [of _ t]) auto
    qed
  qed
  with le show ?thesis by (auto simp: peak_waiting_def es_def)
qed

text \<open>
  The self-check of \<open>main\<close>: rows are produced only when the 16-PCU replay reproduces
  the recorded start and completion of every request of the trace.
\<close>

theorem sweep_main_reproduces_trace:
  assumes "sweep_main events = Inr rows"
  shows "\<exists>rs. sweep_replay events 16 = Inr rs \<and> map fst rs = events \<and>
    (\<forall>(e, start, completion) \<in> set rs.
       start = service_start_cycle e \<and> completion = completion_cycle e)"
proof -
  from assms obtain rs where rs: "sweep_replay events 16 = Inr rs"
      "start_mismatches rs = 0" "completion_mismatches rs = 0"
    by (auto simp: sweep_main_def BASELINE_PCUS_def and_then_eq_Inr split: if_splits)
  then show ?thesis
    using sweep_replay_Inr [OF rs(1)]
    by (auto simp: start_mismatches_def completion_mismatches_def filter_empty_conv)
qed

theorem sweep_main_reproduces_trace_witness:
  "\<exists>events rows. sweep_main events = Inr rows \<and>
     (\<exists>rs. sweep_replay events 16 = Inr rs \<and> map fst rs = events \<and>
       (\<forall>(e, start, completion) \<in> set rs.
         start = service_start_cycle e \<and> completion = completion_cycle e))"
proof -
  define x :: request where "x = \<lparr>sequence = 0, stage = expand_pointwise, stream_id = 0,
    arrival_cycle = 5, service_start_cycle = 5, service_cycles = 3, completion_cycle = 8,
    queue_cycles = 0, blocks = 8, coalesced = 0, transfer_bytes = 64\<rparr>"
  define events where "events = [x, x\<lparr>stage := project_pointwise\<rparr>]"
  have "\<exists>rows. sweep_main events = Inr rows"
    by (simp add: events_def x_def sweep_main_def sweep_replay_def BASELINE_PCUS_def
        PCU_COUNTS_def heapify_def heappush_def upt_rec less_eq_prod_def Let_def
        start_mismatches_def completion_mismatches_def sweep_summarize_def py_min_def py_max_def
        mean_def true_div_def percentile_def percentile_index_def py_get_def py_index_def
        trunc_def fl_def)
  then obtain rows where r: "sweep_main events = Inr rows" by blast
  show ?thesis using sweep_main_reproduces_trace [OF r] r by blast
qed

end
