(* ===== verification/Bounded_Scheduler.thy ===== *)
theory Bounded_Scheduler
  imports Trace Heapq Cycle_Loop
begin

text \<open>
  \<open>experiment/replay_uib_bounded_pointwise_scheduler.py\<close>: requests wait in one queue per
  source stream, are admitted round robin into a bounded central queue, and are dispatched to
  scheduler lanes. One record field per Python variable of \<open>replay\<close>; \<open>b_pending\<close> is
  \<open>events[event_index:]\<close>, the rest of the trace.
\<close>

section \<open>State\<close>

record bounded =
  b_source :: "request list list"
  b_depths :: "int list"
  b_source_peaks :: "int list"
  b_total :: int
  b_peak_total :: int
  b_queued_cycles :: int
  b_central :: "request list"
  b_central_peak :: int
  b_full_cycles :: int
  b_free :: "nat list"
  b_busy :: "(int \<times> nat) list"
  b_rr :: nat
  b_pending :: "request list"
  b_completed :: nat
  b_cycle :: int
  b_starts :: "(request \<times> int \<times> int) list"

definition bounded_init :: "request list \<Rightarrow> nat \<Rightarrow> int \<Rightarrow> bounded" where
  "bounded_init events lanes first_cycle =
     \<lparr>b_source = replicate STREAMS [], b_depths = replicate STREAMS 0,
      b_source_peaks = replicate STREAMS 0, b_total = 0, b_peak_total = 0, b_queued_cycles = 0,
      b_central = [], b_central_peak = 0, b_full_cycles = 0, b_free = [0..<lanes], b_busy = [],
      b_rr = 0, b_pending = events, b_completed = 0, b_cycle = first_cycle, b_starts = []\<rparr>"

section \<open>The phases of one cycle\<close>

text \<open>Arrivals: every pending request due by now joins the queue of its stream.\<close>

definition enqueue_source :: "nat \<Rightarrow> request \<Rightarrow> request list \<Rightarrow> bounded \<Rightarrow> bounded" where
  "enqueue_source stream event rest s =
     (let depth = b_depths s ! stream + 1
      in s\<lparr>b_source := (b_source s)[stream := b_source s ! stream @ [event]],
           b_depths := (b_depths s)[stream := depth],
           b_total := b_total s + 1,
           b_source_peaks := (b_source_peaks s)[stream := max (b_source_peaks s ! stream) depth],
           b_pending := rest\<rparr>)"

fun arrivals :: "request list \<Rightarrow> bounded \<Rightarrow> bounded result" where
  "arrivals [] s = Inr s"
| "arrivals (event # rest) s =
     (if arrival_cycle event \<le> b_cycle s
      then if int STREAMS \<le> stream_id event
           then Inl (RuntimeError ''stream exceeds configured source count'')
           else and_then (py_index STREAMS (stream_id event)) (\<lambda>stream.
                  arrivals rest (enqueue_source stream event rest s))
      else Inr s)"

definition note_source_peak :: "bounded \<Rightarrow> bounded" where
  "note_source_peak s = s\<lparr>b_peak_total := max (b_peak_total s) (b_total s)\<rparr>"

text \<open>Lanes whose request has completed return to the free list, earliest first.\<close>

fun release_loop :: "int \<Rightarrow> (int \<times> nat) list \<Rightarrow> nat list \<Rightarrow> (int \<times> nat) list \<times> nat list" where
  "release_loop cycle [] free = ([], free)"
| "release_loop cycle ((completion, lane) # busy) free =
     (if completion \<le> cycle then release_loop cycle busy (free @ [lane])
      else ((completion, lane) # busy, free))"

definition release_lanes :: "bounded \<Rightarrow> bounded" where
  "release_lanes s =
     (case release_loop (b_cycle s) (b_busy s) (b_free s) of
        (busy, free) \<Rightarrow> s\<lparr>b_busy := busy, b_free := free\<rparr>)"

text \<open>\<open>dispatch_ready\<close>: the free list is used as a stack, its top at the end.\<close>

definition dispatch_one :: "request \<Rightarrow> request list \<Rightarrow> bounded \<Rightarrow> bounded" where
  "dispatch_one event rest s =
     (let lane = last (b_free s); completion = b_cycle s + service_cycles event
      in s\<lparr>b_free := butlast (b_free s), b_central := rest,
           b_busy := heappush (b_busy s) (completion, lane),
           b_starts := b_starts s @ [(event, b_cycle s, completion)],
           b_completed := b_completed s + 1\<rparr>)"

fun dispatch_loop :: "request list \<Rightarrow> bounded \<Rightarrow> bounded" where
  "dispatch_loop [] s = s"
| "dispatch_loop (event # rest) s =
     (if b_free s = [] then s else dispatch_loop rest (dispatch_one event rest s))"

definition dispatch_ready :: "bounded \<Rightarrow> bounded" where
  "dispatch_ready s = dispatch_loop (b_central s) s"

text \<open>Round-robin admission from the source queues into the central queue.\<close>

definition admit_one :: "request \<Rightarrow> request list \<Rightarrow> bounded \<Rightarrow> bounded" where
  "admit_one event rest s =
     s\<lparr>b_central := b_central s @ [event],
       b_source := (b_source s)[b_rr s := rest],
       b_depths := (b_depths s)[b_rr s := b_depths s ! b_rr s - 1],
       b_total := b_total s - 1,
       b_rr := (b_rr s + 1) mod STREAMS\<rparr>"

function admit :: "nat \<Rightarrow> int \<Rightarrow> nat \<Rightarrow> nat \<Rightarrow> bounded \<Rightarrow> bounded" where
  "admit lanes_count queue_depth admissions scanned s =
     (if admissions < lanes_count \<and> int (length (b_central s)) < queue_depth \<and>
         0 < b_total s \<and> scanned < STREAMS
      then case b_source s ! b_rr s of
             [] \<Rightarrow> admit lanes_count queue_depth admissions (scanned + 1)
                    (s\<lparr>b_rr := (b_rr s + 1) mod STREAMS\<rparr>)
           | event # rest \<Rightarrow>
               admit lanes_count queue_depth (admissions + 1) 0 (admit_one event rest s)
      else s)"
  by pat_completeness auto
termination
  by (relation "measures [\<lambda>(lanes, _, admissions, _, _). lanes - admissions,
                          \<lambda>(_, _, _, scanned, _). STREAMS - scanned]") auto

declare admit.simps [simp del]

definition note_central :: "int \<Rightarrow> bounded \<Rightarrow> bounded" where
  "note_central queue_depth s =
     (let depth = int (length (b_central s))
      in s\<lparr>b_central_peak := max (b_central_peak s) depth,
           b_full_cycles := b_full_cycles s +
             (if depth = queue_depth \<and> 0 < b_total s then 1 else 0)\<rparr>)"

definition note_queued :: "bounded \<Rightarrow> bounded" where
  "note_queued s = s\<lparr>b_queued_cycles := b_queued_cycles s + b_total s\<rparr>"

text \<open>The next cycle: jump to the next arrival when nothing is queued or running.\<close>

definition next_cycle :: "bounded \<Rightarrow> int" where
  "next_cycle s =
     (case b_pending s of
        event # _ \<Rightarrow> if b_total s = 0 \<and> b_central s = [] \<and> b_busy s = []
                     then arrival_cycle event else b_cycle s + 1
      | [] \<Rightarrow> b_cycle s + 1)"

definition bounded_phases :: "nat \<Rightarrow> int \<Rightarrow> bounded \<Rightarrow> bounded" where
  "bounded_phases lanes_count queue_depth s =
     note_queued (dispatch_ready (note_central queue_depth
       (admit lanes_count queue_depth 0 0 (dispatch_ready (release_lanes (note_source_peak s))))))"

definition CONVERGENCE_LIMIT :: int where "CONVERGENCE_LIMIT = 1000000"

definition bounded_cycle :: "nat \<Rightarrow> int \<Rightarrow> nat \<Rightarrow> int \<Rightarrow> bounded \<Rightarrow> bounded outcome" where
  "bounded_cycle lanes_count queue_depth n_events first_cycle s =
     (if \<not> (b_completed s < n_events \<or> b_busy s \<noteq> []) then Done s
      else case arrivals (b_pending s) s of
        Inl e \<Rightarrow> Raise e
      | Inr s1 \<Rightarrow>
          let s2 = bounded_phases lanes_count queue_depth s1
          in if b_completed s2 = n_events \<and> b_busy s2 = [] then Done s2
             else let s3 = s2\<lparr>b_cycle := next_cycle s2\<rparr>
                  in if CONVERGENCE_LIMIT < b_cycle s3 - first_cycle
                     then Raise (RuntimeError ''bounded scheduler replay did not converge'')
                     else Next s3)"

section \<open>The replay and its report\<close>

definition bounded_run :: "request list \<Rightarrow> nat \<Rightarrow> int \<Rightarrow> int \<Rightarrow> bounded result option" where
  "bounded_run events lanes_count queue_depth first_cycle =
     loop (bounded_cycle lanes_count queue_depth (length events) first_cycle)
       (bounded_init events lanes_count first_cycle)"

definition bounded_checks :: "nat \<Rightarrow> bounded \<Rightarrow> bounded result" where
  "bounded_checks n_events s =
     (if length (b_starts s) \<noteq> n_events then Inl (RuntimeError ''lost requests'')
      else if (\<exists>q \<in> set (b_source s). q \<noteq> []) \<or> b_central s \<noteq> []
      then Inl (RuntimeError ''scheduler completed with non-empty queues'')
      else Inr s)"

record bounded_row =
  br_pcu_count :: int
  br_scheduler_lanes :: int
  br_queue_depth :: int
  br_stage :: string
  br_requests :: nat
  br_average_wait_cycles :: int
  br_p95_wait_cycles :: int
  br_max_wait_cycles :: int
  br_last_completion_cycle :: int
  br_central_peak_entries :: int
  br_central_full_cycles :: int
  br_source_peak_total :: int
  br_source_peak_per_stream :: int
  br_source_queued_request_cycles :: int

definition bounded_row_of :: "int \<Rightarrow> int \<Rightarrow> bounded \<Rightarrow> string \<Rightarrow> bounded_row result" where
  "bounded_row_of pcu_count queue_depth s st =
     (let selected = filter (\<lambda>(event, _, _). stage event = st) (b_starts s);
          waits = sort (map (\<lambda>(event, start, _). start - arrival_cycle event) selected)
      in and_then (mean waits) (\<lambda>average.
         and_then (percentile waits p95) (\<lambda>p95_wait.
         and_then (py_get waits (- 1)) (\<lambda>max_wait.
         and_then (py_max (map (\<lambda>(_, _, completion). completion) selected)) (\<lambda>last_completion.
         and_then (py_max (b_source_peaks s)) (\<lambda>per_stream.
           Inr \<lparr>br_pcu_count = pcu_count, br_scheduler_lanes = pcu_count div 8,
                br_queue_depth = queue_depth, br_stage = st, br_requests = length selected,
                br_average_wait_cycles = fixed4 average, br_p95_wait_cycles = p95_wait,
                br_max_wait_cycles = max_wait, br_last_completion_cycle = last_completion,
                br_central_peak_entries = b_central_peak s,
                br_central_full_cycles = b_full_cycles s,
                br_source_peak_total = b_peak_total s,
                br_source_peak_per_stream = per_stream,
                br_source_queued_request_cycles = b_queued_cycles s\<rparr>))))))"

definition bounded_replay :: "request list \<Rightarrow> int \<Rightarrow> int \<Rightarrow> bounded_row list result option" where
  "bounded_replay events pcu_count queue_depth =
     (case py_min (map arrival_cycle events) of
        Inl e \<Rightarrow> Some (Inl e)
      | Inr first_cycle \<Rightarrow>
          map_option (\<lambda>r. and_then r (\<lambda>s. and_then (bounded_checks (length events) s) (\<lambda>s.
              map_r (bounded_row_of pcu_count queue_depth s) [expand_pointwise, project_pointwise])))
            (bounded_run events (nat (pcu_count div 8)) queue_depth first_cycle))"

definition BOUNDED_PCU_COUNTS :: "int list" where "BOUNDED_PCU_COUNTS = [16, 32, 64]"
definition QUEUE_DEPTHS :: "int list" where "QUEUE_DEPTHS = [64, 128, 256]"

text \<open>
  The nested loops of \<open>main\<close> over the configurations: the first replay that raises ends the
  script, and so would one that does not return.
\<close>

fun bounded_sweep :: "request list \<Rightarrow> (int \<times> int) list \<Rightarrow> bounded_row list result option" where
  "bounded_sweep events [] = Some (Inr [])"
| "bounded_sweep events ((pcu_count, queue_depth) # configs) =
     (case bounded_replay events pcu_count queue_depth of
        None \<Rightarrow> None
      | Some (Inl e) \<Rightarrow> Some (Inl e)
      | Some (Inr rows) \<Rightarrow>
          map_option (\<lambda>r. and_then r (\<lambda>more. Inr (rows @ more))) (bounded_sweep events configs))"

definition bounded_main :: "request list \<Rightarrow> bounded_row list result option" where
  "bounded_main trace =
     (let events = sort_key sequence trace
      in if events = [] then Some (Inl (SystemExit ''Pointwise request trace is empty''))
         else bounded_sweep events
                (concat (map (\<lambda>p. map (\<lambda>d. (p, d)) QUEUE_DEPTHS) BOUNDED_PCU_COUNTS)))"

end
