(* ===== verification/Bounded_Facts.thy ===== *)
theory Bounded_Facts
  imports Bounded_Scheduler
begin

text \<open>
  Correctness of the bounded scheduler replay: the state invariant, kept by every phase of a
  cycle; conservation and per-stream order of requests; lane capacity; termination and
  convergence of the loop.
\<close>

section \<open>The invariant\<close>

text \<open>
  Everything of stream \<open>k\<close> that has entered the replay or will: started, admitted, queued at
  the source, still in the trace.
\<close>

definition flow :: "nat \<Rightarrow> bounded \<Rightarrow> request list" where
  "flow k s =
     filter (\<lambda>e. key e = Inr k) (map fst (b_starts s)) @
     filter (\<lambda>e. key e = Inr k) (b_central s) @ b_source s ! k @
     filter (\<lambda>e. key e = Inr k) (b_pending s)"

definition b_flow :: "request list \<Rightarrow> bounded \<Rightarrow> bool" where
  "b_flow events s \<longleftrightarrow>
     (\<forall>k < STREAMS. flow k s = filter (\<lambda>e. key e = Inr k) events \<and>
        (\<forall>e \<in> set (b_source s ! k). key e = Inr k)) \<and>
     (\<forall>e \<in> set (b_central s) \<union> fst ` set (b_starts s). \<exists>k. key e = Inr k) \<and>
     filter (\<lambda>e. isl (key e)) (b_pending s) = filter (\<lambda>e. isl (key e)) events \<and>
     length (b_starts s) + length (b_central s) + length (concat (b_source s)) +
       length (b_pending s) = length events"

definition b_wf :: "nat \<Rightarrow> int \<Rightarrow> bounded \<Rightarrow> bool" where
  "b_wf lanes depth s \<longleftrightarrow>
     length (b_source s) = STREAMS \<and> b_depths s = map (int \<circ> length) (b_source s) \<and>
     length (b_source_peaks s) = STREAMS \<and> b_total s = int (length (concat (b_source s))) \<and>
     b_rr s < STREAMS \<and> b_completed s = length (b_starts s) \<and> sorted (b_busy s) \<and>
     mset (b_free s) + mset (map snd (b_busy s)) = mset [0..<lanes] \<and>
     int (length (b_central s)) \<le> max 0 depth \<and> b_central_peak s \<le> max 0 depth"

definition b_timed :: "nat \<Rightarrow> bounded \<Rightarrow> bool" where
  "b_timed lanes s \<longleftrightarrow>
     (\<forall>(e, start, completion) \<in> set (b_starts s).
        arrival_cycle e \<le> start \<and> completion = start + service_cycles e \<and> start \<le> b_cycle s) \<and>
     (\<forall>e \<in> set (b_central s) \<union> set (concat (b_source s)). arrival_cycle e \<le> b_cycle s) \<and>
     mset (filter (\<lambda>c. b_cycle s < c) (map snd (map snd (b_starts s)))) \<subseteq># mset (map fst (b_busy s)) \<and>
     (\<forall>t. in_service t (map snd (b_starts s)) \<le> lanes)"

definition b_inv :: "nat \<Rightarrow> int \<Rightarrow> request list \<Rightarrow> bounded \<Rightarrow> bool" where
  "b_inv lanes depth events s \<longleftrightarrow> b_wf lanes depth s \<and> b_flow events s \<and> b_timed lanes s"

lemmas b_inv_defs = b_inv_def b_wf_def b_flow_def b_timed_def flow_def

lemma b_inv_errors:
  "b_inv lanes depth events s \<Longrightarrow>
     filter (\<lambda>e. isl (key e)) (b_pending s) = filter (\<lambda>e. isl (key e)) events"
  unfolding b_inv_def b_flow_def by blast

lemma b_inv_count:
  "b_inv lanes depth events s \<Longrightarrow>
     length (b_starts s) + length (b_central s) + length (concat (b_source s)) +
       length (b_pending s) = length events"
  unfolding b_inv_def b_flow_def by blast

lemma b_inv_init: "b_inv lanes depth events (bounded_init events lanes first)"
  by (auto simp: b_inv_defs bounded_init_def in_service_def concat_replicate_trivial
      dest: in_set_replicate [THEN iffD1])

section \<open>Every phase keeps it\<close>

lemma enqueue_inv:
  assumes "b_inv lanes depth events s" "b_pending s = event # rest"
    and "arrival_cycle event \<le> b_cycle s" "key event = Inr k"
  shows "b_inv lanes depth events (enqueue_source k event rest s)"
proof -
  have k: "k < STREAMS" using assms(4) by (auto simp: key_def dest: py_index_less)
  have len: "length (b_source s) = STREAMS" using assms(1) by (simp add: b_inv_defs)
  have lc: "length (concat ((b_source s)[k := b_source s ! k @ [event]])) =
      Suc (length (concat (b_source s)))"
    using length_concat_update [of k "b_source s" "b_source s ! k @ [event]"] k len by simp
  have "b_wf lanes depth (enqueue_source k event rest s)"
    using assms(1) k lc
    by (simp add: b_inv_def b_wf_def enqueue_source_def Let_def map_update add.commute)
  moreover have "b_flow events (enqueue_source k event rest s)"
    using assms k len lc
    by (auto simp: b_inv_def b_flow_def flow_def enqueue_source_def Let_def nth_list_update)
  moreover have "b_timed lanes (enqueue_source k event rest s)"
    using assms(1,3) k len
    by (auto simp: b_inv_def b_timed_def enqueue_source_def Let_def in_service_def
        dest!: set_update_subset_insert [THEN subsetD])
  ultimately show ?thesis by (simp add: b_inv_def)
qed

lemma arrivals_inv:
  assumes "b_inv lanes depth events s" "b_pending s = es" "arrivals es s = Inr s'"
  shows "b_inv lanes depth events s' \<and> b_cycle s' = b_cycle s \<and>
    (b_pending s' \<noteq> [] \<longrightarrow> b_cycle s < arrival_cycle (hd (b_pending s')))"
  using assms
proof (induction es arbitrary: s)
  case (Cons e es)
  show ?case
  proof (cases "arrival_cycle e \<le> b_cycle s")
    case True
    with Cons.prems(3) obtain k where k: "key e = Inr k"
        and r: "arrivals es (enqueue_source k e es s) = Inr s'"
      by (auto simp: key_def and_then_eq_Inr split: if_splits)
    have "b_inv lanes depth events (enqueue_source k e es s)"
      using Cons.prems(1,2) True k by (intro enqueue_inv)
    moreover have "b_pending (enqueue_source k e es s) = es"
        "b_cycle (enqueue_source k e es s) = b_cycle s"
      by (simp_all add: enqueue_source_def Let_def)
    ultimately show ?thesis using Cons.IH r by metis
  next
    case False
    with Cons.prems show ?thesis by auto
  qed
qed auto

lemma release_loop_spec:
  assumes "sorted busy" "release_loop cycle busy free = (busy', free')"
  shows "sorted busy' \<and> mset free' + mset (map snd busy') = mset free + mset (map snd busy) \<and>
    mset (map fst busy') = filter_mset (\<lambda>t. cycle < t) (mset (map fst busy)) \<and>
    (\<forall>p \<in> set busy'. cycle < fst p)"
  using assms
proof (induction cycle busy free rule: release_loop.induct)
  case (2 cycle completion lane busy free)
  show ?case
  proof (cases "completion \<le> cycle")
    case True
    with 2 show ?thesis by simp
  next
    case False
    have "\<forall>p \<in> set busy. cycle < fst p"
      using 2(2) False by (auto simp: less_eq_prod_def)
    then have "filter_mset (\<lambda>t. cycle < t) (mset (map fst busy)) = mset (map fst busy)"
      by (induction busy) auto
    with False 2(2,3) \<open>\<forall>p \<in> set busy. cycle < fst p\<close> show ?thesis by auto
  qed
qed simp

lemma release_lanes_inv:
  assumes "b_inv lanes depth events s"
  shows "b_inv lanes depth events (release_lanes s)"
proof -
  obtain busy free where r: "release_loop (b_cycle s) (b_busy s) (b_free s) = (busy, free)"
    by fastforce
  have s: "sorted (b_busy s)" using assms by (simp add: b_inv_defs)
  note spec = release_loop_spec [OF s r]
  let ?c = "mset (filter (\<lambda>c. b_cycle s < c) (map snd (map snd (b_starts s))))"
  have "?c \<subseteq># mset (map fst (b_busy s))" using assms by (simp add: b_inv_def b_timed_def)
  then have "filter_mset (\<lambda>t. b_cycle s < t) ?c \<subseteq># mset (map fst busy)"
    using spec by (metis multiset_filter_mono)
  then have "?c \<subseteq># mset (map fst busy)" by (simp add: filter_filter_mset)
  with assms spec show ?thesis
    by (auto simp: b_inv_def b_wf_def b_timed_def b_flow_def flow_def release_lanes_def r)
qed

lemma lanes_size:
  assumes "b_wf lanes depth s"
  shows "length (b_free s) + length (b_busy s) = lanes"
proof -
  have "size (mset (b_free s) + mset (map snd (b_busy s))) = size (mset [0..<lanes])"
    using assms by (simp only: b_wf_def)
  then show ?thesis by simp
qed

lemma dispatch_one_inv:
  assumes inv: "b_inv lanes depth events s" and c: "b_central s = event # rest" "b_free s \<noteq> []"
  shows "b_inv lanes depth events (dispatch_one event rest s)"
proof -
  define completion where "completion = b_cycle s + service_cycles event"
  let ?s = "dispatch_one event rest s"
  have "b_wf lanes depth ?s"
    using inv c by (auto simp: b_inv_def b_wf_def dispatch_one_def Let_def
        simp flip: mset_butlast_last)
  moreover have "b_flow events ?s"
    using inv c by (auto simp: b_inv_def b_flow_def flow_def dispatch_one_def Let_def)
  moreover have "b_timed lanes ?s"
  proof -
    have busy: "length (b_busy s) < lanes"
      using lanes_size [of lanes depth s] inv c(2) by (simp add: b_inv_def)
        (metis add_less_cancel_left length_greater_0_conv less_add_same_cancel2)
    have run: "mset (filter (\<lambda>c. b_cycle s < c) (map snd (map snd (b_starts s)))) \<subseteq>#
        mset (map fst (b_busy s))" (is "?run \<subseteq># _")
      using inv by (simp add: b_inv_def b_timed_def)
    have "in_service t (map snd (b_starts ?s)) \<le> lanes" for t
    proof (cases "b_cycle s \<le> t")
      case True
      have "in_service t (map snd (b_starts s)) \<le> size ?run" by (rule in_service_le_running [OF True])
      also have "\<dots> \<le> length (b_busy s)" using size_mset_mono [OF run] by simp
      finally show ?thesis using busy by (simp add: dispatch_one_def Let_def in_service_append)
    next
      case False
      then show ?thesis
        using inv by (simp add: dispatch_one_def Let_def in_service_append b_inv_def b_timed_def)
    qed
    moreover have "mset (filter (\<lambda>c. b_cycle ?s < c) (map snd (map snd (b_starts ?s))))
        \<subseteq># mset (map fst (b_busy ?s))"
      using run by (simp add: dispatch_one_def Let_def subset_mset_addI)
    ultimately show ?thesis
      using inv c by (auto simp: b_inv_def b_timed_def dispatch_one_def Let_def)
  qed
  ultimately show ?thesis by (simp add: b_inv_def)
qed

lemma dispatch_one_sel [simp]:
  "b_cycle (dispatch_one e rest s) = b_cycle s"
  "b_central (dispatch_one e rest s) = rest"
  "b_pending (dispatch_one e rest s) = b_pending s"
  "b_source (dispatch_one e rest s) = b_source s"
  "b_total (dispatch_one e rest s) = b_total s"
  by (simp_all add: dispatch_one_def Let_def)

lemma dispatch_loop_inv:
  assumes "b_inv lanes depth events s" "b_central s = es"
  shows "b_inv lanes depth events (dispatch_loop es s)"
  using assms
proof (induction es arbitrary: s)
  case (Cons e es)
  show ?case
  proof (cases "b_free s = []")
    case False
    have "b_inv lanes depth events (dispatch_loop es (dispatch_one e es s))"
      using Cons.prems False by (intro Cons.IH dispatch_one_inv) simp_all
    with False show ?thesis by simp
  qed (use Cons.prems in simp)
qed simp

lemma dispatch_ready_inv:
  "b_inv lanes depth events s \<Longrightarrow> b_inv lanes depth events (dispatch_ready s)"
  by (simp add: dispatch_ready_def dispatch_loop_inv)

lemma admit_one_inv:
  assumes inv: "b_inv lanes depth events s" and src: "b_source s ! b_rr s = event # rest"
    and room: "int (length (b_central s)) < depth"
  shows "b_inv lanes depth events (admit_one event rest s)"
proof -
  let ?k = "b_rr s" and ?s = "admit_one event rest s"
  have k: "?k < STREAMS" and len: "length (b_source s) = STREAMS"
    using inv by (simp_all add: b_inv_defs)
  have lc: "Suc (length (concat ((b_source s)[?k := rest]))) = length (concat (b_source s))"
    using length_concat_update [of ?k "b_source s" rest] k len src by simp
  have "b_wf lanes depth ?s"
    using inv k len lc src room
    by (auto simp: b_inv_def b_wf_def admit_one_def map_update)
  moreover have "b_flow events ?s"
  proof -
    have "\<forall>e \<in> set (event # rest). key e = Inr ?k"
      using inv k src by (auto simp: b_inv_def b_flow_def)
    then show ?thesis
      using inv k len lc src
      by (auto simp: b_inv_def b_flow_def flow_def admit_one_def nth_list_update)
  qed
  moreover have "b_timed lanes ?s"
  proof -
    have "set (concat ((b_source s)[?k := rest])) \<subseteq> set (concat (b_source s))"
      using set_concat_update_subset [of "b_source s" ?k rest] set_nth_concat [of ?k "b_source s"]
        k len src by auto
    moreover have "event \<in> set (concat (b_source s))"
      using set_nth_concat [of ?k "b_source s"] k len src by auto
    ultimately show ?thesis
      using inv unfolding b_inv_def b_timed_def admit_one_def by auto
  qed
  ultimately show ?thesis by (simp add: b_inv_def)
qed

lemma rr_step_inv:
  "b_inv lanes depth events s \<Longrightarrow> b_inv lanes depth events (s\<lparr>b_rr := Suc (b_rr s) mod STREAMS\<rparr>)"
  by (simp add: b_inv_defs)

lemma admit_inv:
  "b_inv lanes depth events s \<Longrightarrow> b_inv lanes depth events (admit n depth a c s)"
proof (induction n depth a c s rule: admit.induct)
  case (1 n depth a c s)
  show ?case
  proof (cases "a < n \<and> int (length (b_central s)) < depth \<and> 0 < b_total s \<and> c < STREAMS")
    case True
    show ?thesis
    proof (cases "b_source s ! b_rr s")
      case Nil
      with True 1(1) [OF True Nil] 1(3) show ?thesis
        by (simp add: admit.simps [of n depth a c s] rr_step_inv)
    next
      case (Cons e rest)
      with True 1(2) [OF True Cons] 1(3) show ?thesis
        by (simp add: admit.simps [of n depth a c s] admit_one_inv)
    qed
  next
    case False
    have "admit n depth a c s = s" by (subst admit.simps) (simp only: False if_False)
    with 1(3) show ?thesis by simp
  qed
qed

lemma note_inv:
  "b_inv lanes depth events s \<Longrightarrow> b_inv lanes depth events (note_source_peak s)"
  "b_inv lanes depth events s \<Longrightarrow> b_inv lanes depth events (note_central depth s)"
  "b_inv lanes depth events s \<Longrightarrow> b_inv lanes depth events (note_queued s)"
  by (auto simp: b_inv_defs note_source_peak_def note_central_def note_queued_def Let_def)

lemma bounded_phases_inv:
  "b_inv lanes depth events s \<Longrightarrow> b_inv lanes depth events (bounded_phases n depth s)"
  unfolding bounded_phases_def
  by (intro note_inv dispatch_ready_inv admit_inv release_lanes_inv)

section \<open>Phases leave the clock and the rest of the trace alone\<close>

lemma dispatch_loop_frame:
  "b_cycle (dispatch_loop es s) = b_cycle s \<and> b_pending (dispatch_loop es s) = b_pending s \<and>
   b_source (dispatch_loop es s) = b_source s \<and> b_total (dispatch_loop es s) = b_total s"
  by (induction es arbitrary: s) auto

lemma admit_frame:
  "b_cycle (admit n depth a c s) = b_cycle s \<and> b_pending (admit n depth a c s) = b_pending s \<and>
   b_starts (admit n depth a c s) = b_starts s \<and> b_busy (admit n depth a c s) = b_busy s \<and>
   b_free (admit n depth a c s) = b_free s"
proof (induction n depth a c s rule: admit.induct)
  case (1 n depth a c s)
  then show ?case
    by (subst (1 2 3 4 5) admit.simps) (auto simp: admit_one_def split: list.splits)
qed

lemma release_lanes_frame [simp]:
  "b_cycle (release_lanes s) = b_cycle s" "b_pending (release_lanes s) = b_pending s"
  "b_source (release_lanes s) = b_source s" "b_total (release_lanes s) = b_total s"
  "b_central (release_lanes s) = b_central s" "b_starts (release_lanes s) = b_starts s"
  by (simp_all add: release_lanes_def split: prod.splits)

lemma note_frame [simp]:
  "b_cycle (note_source_peak s) = b_cycle s" "b_pending (note_source_peak s) = b_pending s"
  "b_cycle (note_central d s) = b_cycle s" "b_pending (note_central d s) = b_pending s"
  "b_cycle (note_queued s) = b_cycle s" "b_pending (note_queued s) = b_pending s"
  by (simp_all add: note_source_peak_def note_central_def note_queued_def Let_def)

lemma bounded_phases_frame [simp]:
  "b_cycle (bounded_phases n depth s) = b_cycle s"
  "b_pending (bounded_phases n depth s) = b_pending s"
  by (simp_all add: bounded_phases_def dispatch_ready_def dispatch_loop_frame admit_frame)

section \<open>The loop returns, in a state that satisfies the invariant\<close>

lemma clock_inv:
  assumes "b_inv lanes depth events s" "b_cycle s \<le> c"
  shows "b_inv lanes depth events (s\<lparr>b_cycle := c\<rparr>)"
proof -
  let ?ends = "map snd (map snd (b_starts s))"
  have "mset (filter (\<lambda>x. c < x) ?ends) \<subseteq># mset (filter (\<lambda>x. b_cycle s < x) ?ends)"
    using assms(2) by (simp only: mset_filter) (rule filter_mset_mono_strong, auto)
  also have "\<dots> \<subseteq># mset (map fst (b_busy s))" using assms(1) by (simp add: b_inv_def b_timed_def)
  finally have run: "mset (filter (\<lambda>x. c < x) ?ends) \<subseteq># mset (map fst (b_busy s))" .
  have old: "b_timed lanes s" "b_wf lanes depth s" "b_flow events s"
    using assms(1) by (simp_all add: b_inv_def)
  have "b_timed lanes (s\<lparr>b_cycle := c\<rparr>)"
    using old(1) run assms(2) unfolding b_timed_def by (auto simp: split_beta intro: order_trans)
  with old show ?thesis by (simp add: b_inv_def b_wf_def b_flow_def flow_def)
qed

lemma next_cycle_greater:
  "b_pending s \<noteq> [] \<longrightarrow> b_cycle s < arrival_cycle (hd (b_pending s)) \<Longrightarrow> b_cycle s < next_cycle s"
  by (auto simp: next_cycle_def split: list.splits)

lemma bounded_cycle_Next:
  assumes "b_inv lanes depth events s"
    and "bounded_cycle lanes depth (length events) first s = Next s'"
  shows "b_inv lanes depth events s' \<and> b_cycle s < b_cycle s' \<and> b_cycle s' - first \<le> CONVERGENCE_LIMIT"
proof -
  from assms(2) obtain s1 where s1: "arrivals (b_pending s) s = Inr s1"
    and s': "s' = (bounded_phases lanes depth s1)
        \<lparr>b_cycle := next_cycle (bounded_phases lanes depth s1)\<rparr>"
      "b_cycle s' - first \<le> CONVERGENCE_LIMIT"
    by (auto simp: bounded_cycle_def Let_def split: if_splits sum.splits)
  have i1: "b_inv lanes depth events s1" "b_cycle s1 = b_cycle s"
    "b_pending s1 \<noteq> [] \<longrightarrow> b_cycle s < arrival_cycle (hd (b_pending s1))"
    using arrivals_inv [OF assms(1) refl s1] by auto
  have "b_cycle s < next_cycle (bounded_phases lanes depth s1)"
    using next_cycle_greater [of "bounded_phases lanes depth s1"] i1(2,3) by simp
  then show ?thesis
    using clock_inv [OF bounded_phases_inv [OF i1(1)]] s' i1(2) by simp
qed

interpretation bc: cycles "bounded_cycle lanes depth (length events) first"
    "b_inv lanes depth events" "\<lambda>s. nat (first + CONVERGENCE_LIMIT + 1 - b_cycle s)"
  for lanes depth events first
proof unfold_locales
  fix s s' :: bounded
  assume "b_inv lanes depth events s" "bounded_cycle lanes depth (length events) first s = Next s'"
  note n = bounded_cycle_Next [OF this]
  then show "b_inv lanes depth events s'" by simp
  from n show "nat (first + CONVERGENCE_LIMIT + 1 - b_cycle s') < nat (first + CONVERGENCE_LIMIT + 1 - b_cycle s)"
    by (simp add: nat_less_eq_zless)
qed

lemma bounded_run_total: "bounded_run events lanes depth first \<noteq> None"
  unfolding bounded_run_def by (rule bc.loop_total [OF b_inv_init])

lemma bounded_cycle_Done:
  assumes "b_inv lanes depth events s"
    and "bounded_cycle lanes depth (length events) first s = Done r"
  shows "b_inv lanes depth events r \<and> b_completed r = length events \<and> b_busy r = []"
proof (cases "b_completed s < length events \<or> b_busy s \<noteq> []")
  case False
  have "b_completed s \<le> length events"
    using assms(1) by (simp add: b_inv_def b_wf_def b_flow_def)
  with False assms show ?thesis by (auto simp: bounded_cycle_def)
next
  case True
  with assms(2) obtain s1 where s1: "arrivals (b_pending s) s = Inr s1"
      and r: "r = bounded_phases lanes depth s1" "b_completed r = length events" "b_busy r = []"
    by (auto simp: bounded_cycle_def Let_def split: if_splits sum.splits)
  from arrivals_inv [OF assms(1) refl s1] have "b_inv lanes depth events r"
    by (simp add: r(1) bounded_phases_inv)
  with r show ?thesis by simp
qed

lemma bounded_run_Inr:
  assumes "bounded_run events lanes depth first = Some (Inr s)"
  shows "b_inv lanes depth events s \<and> b_completed s = length events \<and> b_busy s = [] \<and>
    b_central s = [] \<and> concat (b_source s) = [] \<and> b_pending s = []"
proof -
  obtain t where "b_inv lanes depth events t" "bounded_cycle lanes depth (length events) first t = Done s"
    using bc.loop_returned [OF b_inv_init assms [unfolded bounded_run_def]] by blast
  from bounded_cycle_Done [OF this]
  have s: "b_inv lanes depth events s" "b_completed s = length events" "b_busy s = []" by auto
  then have "length (b_starts s) = length events"
    by (simp add: b_inv_def b_wf_def)
  with b_inv_count [OF s(1)] s show ?thesis by simp
qed

lemma bounded_run_key_order:
  assumes "bounded_run events lanes depth first = Some (Inr s)"
  shows "filter (\<lambda>e. key e = r) (map fst (b_starts s)) = filter (\<lambda>e. key e = r) events"
proof (cases r)
  case (Inr k)
  note d = bounded_run_Inr [OF assms]
  show ?thesis
  proof (cases "k < STREAMS")
    case True
    have "b_source s ! k = []" using d True by (auto simp: b_inv_def b_wf_def)
    moreover have "flow k s = filter (\<lambda>e. key e = Inr k) events"
      using d True by (simp add: b_inv_def b_flow_def)
    ultimately show ?thesis using d Inr by (simp add: flow_def)
  next
    case False
    then have "key e \<noteq> r" for e using Inr by (auto simp: key_def dest: py_index_less)
    then show ?thesis by simp
  qed
next
  case (Inl x)
  note d = bounded_run_Inr [OF assms]
  have "filter (\<lambda>e. isl (key e)) (b_pending s) = filter (\<lambda>e. isl (key e)) events"
    using d b_inv_errors by blast
  with d have "filter (\<lambda>e. isl (key e)) events = []" by simp
  then have "filter (\<lambda>e. key e = r) events = []" using Inl by (auto simp: filter_empty_conv)
  moreover have "filter (\<lambda>e. key e = r) (map fst (b_starts s)) = []"
    using d Inl by (fastforce simp: b_inv_def b_flow_def filter_empty_conv)
  ultimately show ?thesis by simp
qed

end
