(* ===== verification/Bounded_Liveness.thy ===== *)
theory Bounded_Liveness
  imports Bounded_Facts
begin

text \<open>
  The bounded scheduler replay converges: outstanding work, counted in cycles, never grows
  and shrinks in every cycle after the last arrival, so the convergence limit is not reached
  when arrivals and work fit in it.
\<close>

section \<open>Outstanding work\<close>

definition waiting :: "bounded \<Rightarrow> request multiset" where
  "waiting s = mset (b_central s) + mset (concat (b_source s)) + mset (b_pending s)"

definition work :: "bounded \<Rightarrow> int" where
  "work s = (\<Sum>e \<in># waiting s. service_cycles e + 1) + running_work (b_cycle s) (mset (b_busy s))"

lemma waiting_enqueue:
  assumes "length (b_source s) = STREAMS" "k < STREAMS" "b_pending s = event # rest"
  shows "waiting (enqueue_source k event rest s) = waiting s"
proof -
  have "mset (concat ((b_source s)[k := b_source s ! k @ [event]])) =
      add_mset event (mset (concat (b_source s)))"
    using mset_concat_update [of k "b_source s" "b_source s ! k @ [event]"] assms
    by (simp add: union_ac)
  with assms show ?thesis by (simp add: waiting_def enqueue_source_def Let_def)
qed

lemma waiting_admit_one:
  assumes "length (b_source s) = STREAMS" "b_rr s < STREAMS" "b_source s ! b_rr s = event # rest"
  shows "waiting (admit_one event rest s) = waiting s"
proof -
  have "mset (concat (b_source s)) = add_mset event (mset (concat ((b_source s)[b_rr s := rest])))"
    using mset_concat_update [of "b_rr s" "b_source s" rest] assms by simp
  then show ?thesis by (simp add: waiting_def admit_one_def)
qed

section \<open>Phases do not add work\<close>

lemma arrivals_work:
  assumes "b_inv lanes depth events s" "b_pending s = es" "arrivals es s = Inr s'"
  shows "waiting s' = waiting s \<and> b_busy s' = b_busy s"
  using assms
proof (induction es arbitrary: s)
  case (Cons e es)
  show ?case
  proof (cases "arrival_cycle e \<le> b_cycle s")
    case True
    with Cons.prems(3) obtain k where k: "key e = Inr k"
        and r: "arrivals es (enqueue_source k e es s) = Inr s'"
      by (auto simp: key_def and_then_eq_Inr split: if_splits)
    have "b_inv lanes depth events (enqueue_source k e es s)"
      using Cons.prems(1,2) True k by (intro enqueue_inv)
    moreover have "b_pending (enqueue_source k e es s) = es" "b_busy (enqueue_source k e es s) = b_busy s"
      by (simp_all add: enqueue_source_def Let_def)
    moreover have "waiting (enqueue_source k e es s) = waiting s"
      using Cons.prems(1,2) k by (intro waiting_enqueue)
        (auto simp: b_inv_def b_wf_def key_def dest: py_index_less)
    ultimately show ?thesis using Cons.IH r by metis
  next
    case False
    with Cons.prems(3) show ?thesis by simp
  qed
qed simp

lemma dispatch_one_work:
  assumes "b_central s = event # rest" "0 \<le> service_cycles event"
  shows "work (dispatch_one event rest s) = work s"
  using assms by (simp add: work_def waiting_def running_work_def dispatch_one_def Let_def)

lemma dispatch_loop_work:
  assumes "b_central s = es" "\<forall>e \<in># waiting s. 0 \<le> service_cycles e"
  shows "work (dispatch_loop es s) = work s \<and> waiting (dispatch_loop es s) \<subseteq># waiting s"
  using assms
proof (induction es arbitrary: s)
  case (Cons e es)
  have w: "waiting s = add_mset e (waiting (dispatch_one e es s))"
    using Cons.prems by (simp add: waiting_def)
  then have "0 \<le> service_cycles e" "\<forall>x \<in># waiting (dispatch_one e es s). 0 \<le> service_cycles x"
    using Cons.prems(2) by auto
  with Cons.IH [of "dispatch_one e es s"] Cons.prems(1) w show ?case
    by (auto simp: dispatch_one_work intro: subset_mset_addI)
qed simp

lemma release_loop_suffix:
  "release_loop cycle busy free = (busy', free') \<Longrightarrow> \<exists>pre. busy = pre @ busy'"
  by (induction cycle busy free rule: release_loop.induct) (auto split: if_splits)

lemma release_lanes_work:
  assumes "b_inv lanes depth events s"
  shows "work (release_lanes s) \<le> work s \<and> waiting (release_lanes s) = waiting s"
proof -
  obtain busy free where r: "release_loop (b_cycle s) (b_busy s) (b_free s) = (busy, free)"
    by fastforce
  have "\<exists>pre. b_busy s = pre @ busy" using release_loop_suffix [OF r] .
  then have "mset busy \<subseteq># mset (b_busy s)" by auto
  from running_work_mono [OF this] show ?thesis
    by (simp add: work_def waiting_def release_lanes_def r)
qed

lemma admit_work:
  "b_inv lanes depth events s \<Longrightarrow> waiting (admit n depth a c s) = waiting s"
proof (induction n depth a c s rule: admit.induct)
  case (1 n depth a c s)
  show ?case
  proof (cases "a < n \<and> int (length (b_central s)) < depth \<and> 0 < b_total s \<and> c < STREAMS")
    case True
    show ?thesis
    proof (cases "b_source s ! b_rr s")
      case Nil
      with True 1(1) [OF True Nil] 1(3) show ?thesis
        by (simp add: admit.simps [of n depth a c s] rr_step_inv) (simp add: waiting_def)
    next
      case (Cons e rest)
      have "waiting (admit_one e rest s) = waiting s"
        using 1(3) Cons by (intro waiting_admit_one) (simp_all add: b_inv_def b_wf_def)
      with True Cons 1(2) [OF True Cons] 1(3) show ?thesis
        by (simp add: admit.simps [of n depth a c s] admit_one_inv)
    qed
  next
    case False
    have "admit n depth a c s = s" by (subst admit.simps) (simp only: False if_False)
    then show ?thesis by simp
  qed
qed

lemma note_work [simp]:
  "waiting (note_source_peak s) = waiting s" "waiting (note_central d s) = waiting s"
  "waiting (note_queued s) = waiting s" "work (note_source_peak s) = work s"
  "work (note_central d s) = work s" "work (note_queued s) = work s"
  by (simp_all add: work_def waiting_def note_source_peak_def note_central_def note_queued_def Let_def)

lemma bounded_phases_work:
  assumes inv: "b_inv lanes depth events s" and pos: "\<forall>e \<in># waiting s. 0 \<le> service_cycles e"
  shows "work (bounded_phases n depth s) \<le> work s \<and>
    waiting (bounded_phases n depth s) \<subseteq># waiting s"
proof -
  define s1 where "s1 = release_lanes (note_source_peak s)"
  define s2 where "s2 = dispatch_ready s1"
  define s3 where "s3 = note_central depth (admit n depth 0 0 s2)"
  have i1: "b_inv lanes depth events s1" unfolding s1_def by (intro release_lanes_inv note_inv inv)
  have i2: "b_inv lanes depth events s2" unfolding s2_def by (intro dispatch_ready_inv i1)
  have w1: "work s1 \<le> work s" "waiting s1 = waiting s"
    using release_lanes_work [OF note_inv(1) [OF inv]] by (simp_all add: s1_def)
  have w2: "work s2 = work s1" "waiting s2 \<subseteq># waiting s1"
    using dispatch_loop_work [OF refl, of s1] pos w1(2) by (simp_all add: s2_def dispatch_ready_def)
  have w3: "waiting s3 = waiting s2" "work s3 = work s2"
    using admit_work [OF i2, of n 0 0] by (simp_all add: s3_def) (simp add: work_def admit_frame)
  have "\<forall>e \<in># waiting s3. 0 \<le> service_cycles e"
    using pos w1(2) w2(2) w3(1) by (auto dest: mset_subset_eqD)
  then have w4: "work (dispatch_ready s3) = work s3" "waiting (dispatch_ready s3) \<subseteq># waiting s3"
    using dispatch_loop_work [OF refl, of s3] by (simp_all add: dispatch_ready_def)
  have e: "bounded_phases n depth s = note_queued (dispatch_ready s3)"
    by (simp add: bounded_phases_def s3_def s2_def s1_def)
  show ?thesis
    unfolding e using w1 w2 w3 w4 by (simp add: subset_mset.order_trans)
qed

section \<open>Progress: something runs whenever something is queued\<close>

lemma dispatch_loop_drains:
  "b_central s = es \<Longrightarrow> b_free (dispatch_loop es s) = [] \<or> b_central (dispatch_loop es s) = []"
  by (induction es arbitrary: s) auto

lemma dispatch_loop_busy: "b_busy s \<noteq> [] \<Longrightarrow> b_busy (dispatch_loop es s) \<noteq> []"
proof (induction es arbitrary: s)
  case (Cons e es)
  have "length (b_busy (dispatch_one e es s)) \<noteq> 0" by (simp add: dispatch_one_def Let_def)
  with Cons show ?case by (metis dispatch_loop.simps(2) list.size(3))
qed simp

lemma dispatch_ready_starts:
  assumes "b_central s \<noteq> []" "b_free s \<noteq> []"
  shows "b_busy (dispatch_ready s) \<noteq> []"
proof -
  obtain e es where c: "b_central s = e # es" using assms(1) by (cases "b_central s") auto
  have "length (b_busy (dispatch_one e es s)) \<noteq> 0" by (simp add: dispatch_one_def Let_def)
  then have "b_busy (dispatch_one e es s) \<noteq> []" by (metis list.size(3))
  then show ?thesis using c assms(2) by (simp add: dispatch_ready_def dispatch_loop_busy)
qed

lemma admit_grows: "length (b_central s) \<le> length (b_central (admit n depth a c s))"
proof (induction n depth a c s rule: admit.induct)
  case (1 n depth a c s)
  show ?case
  proof (cases "a < n \<and> int (length (b_central s)) < depth \<and> 0 < b_total s \<and> c < STREAMS")
    case True
    show ?thesis
      using True 1(1) [OF True] 1(2) [OF True]
      by (cases "b_source s ! b_rr s") (auto simp: admit.simps [of n depth a c s] admit_one_def)
  next
    case False
    have "admit n depth a c s = s" by (subst admit.simps) (simp only: False if_False)
    then show ?thesis by simp
  qed
qed

text \<open>The scan reaches a non-empty queue at distance \<open>d\<close> before it has seen every stream.\<close>

lemma admit_progress:
  assumes "a < n" "int (length (b_central s)) < depth" "0 < b_total s" "d + c < STREAMS"
    and "b_source s ! ((b_rr s + d) mod STREAMS) \<noteq> []" "b_rr s < STREAMS"
  shows "b_central (admit n depth a c s) \<noteq> []"
  using assms
proof (induction d arbitrary: c s)
  case 0
  obtain e rest where src: "b_source s ! b_rr s = e # rest"
    using 0 by (cases "b_source s ! b_rr s") auto
  have "admit n depth a c s = admit n depth (a + 1) 0 (admit_one e rest s)"
    using 0 src by (subst admit.simps) simp
  moreover have "0 < length (b_central (admit_one e rest s))" by (simp add: admit_one_def)
  ultimately show ?case
    using admit_grows [of "admit_one e rest s" n depth "a + 1" 0] by (metis length_greater_0_conv
        less_le_trans)
next
  case (Suc d)
  show ?case
  proof (cases "b_source s ! b_rr s")
    case Nil
    define t where "t = s\<lparr>b_rr := (b_rr s + 1) mod STREAMS\<rparr>"
    have "admit n depth a c s = admit n depth a (c + 1) t"
      using Suc.prems Nil unfolding t_def by (subst admit.simps) simp
    moreover have "b_central (admit n depth a (c + 1) t) \<noteq> []"
      using Suc.prems unfolding t_def by (intro Suc.IH) (simp_all add: mod_add_left_eq)
    ultimately show ?thesis by simp
  next
    case (Cons e rest)
    have "admit n depth a c s = admit n depth (a + 1) 0 (admit_one e rest s)"
      using Suc.prems Cons by (subst admit.simps) simp
    moreover have "0 < length (b_central (admit_one e rest s))" by (simp add: admit_one_def)
    ultimately show ?thesis
      using admit_grows [of "admit_one e rest s" n depth "a + 1" 0]
      by (metis length_greater_0_conv less_le_trans)
  qed
qed

lemma admit_from_sources:
  assumes "b_wf lanes depth s" "0 < n" "int (length (b_central s)) < depth" "0 < b_total s"
  shows "b_central (admit n depth 0 0 s) \<noteq> []"
proof -
  have len: "length (b_source s) = STREAMS" and rr: "b_rr s < STREAMS"
    using assms(1) by (simp_all add: b_wf_def)
  have "concat (b_source s) \<noteq> []" using assms(1,4) by (auto simp: b_wf_def)
  then obtain i where i: "i < STREAMS" "b_source s ! i \<noteq> []"
    using len by (auto simp: in_set_conv_nth)
  define d where "d = (i + (STREAMS - b_rr s)) mod STREAMS"
  have "(b_rr s + d) mod STREAMS = (b_rr s + (i + (STREAMS - b_rr s))) mod STREAMS"
    by (simp add: d_def mod_add_right_eq)
  also have "\<dots> = (i + STREAMS) mod STREAMS" using rr by (simp add: add.commute add.left_commute)
  also have "\<dots> = i" using i(1) by simp
  finally have "b_source s ! ((b_rr s + d) mod STREAMS) \<noteq> []" using i(2) by simp
  moreover have "d + 0 < STREAMS" by (simp add: d_def)
  ultimately show ?thesis using assms(2-4) rr by (intro admit_progress)
qed

lemma bounded_phases_progress:
  assumes inv: "b_inv lanes depth events s" and "0 < lanes" "0 < depth"
    and idle: "b_busy (bounded_phases lanes depth s) = []"
  shows "b_central (bounded_phases lanes depth s) = [] \<and> b_total (bounded_phases lanes depth s) = 0"
proof -
  define s2 where "s2 = dispatch_ready (release_lanes (note_source_peak s))"
  define s3 where "s3 = note_central depth (admit lanes depth 0 0 s2)"
  have e: "bounded_phases lanes depth s = note_queued (dispatch_ready s3)"
    by (simp add: bounded_phases_def s3_def s2_def)
  have i2: "b_inv lanes depth events s2"
    unfolding s2_def by (intro dispatch_ready_inv release_lanes_inv note_inv inv)
  have "b_busy s3 = []"
    using idle dispatch_loop_busy [of s3] by (auto simp: e note_queued_def dispatch_ready_def)
  moreover have fr: "b_busy s3 = b_busy s2" "b_free s3 = b_free s2"
    by (simp_all add: s3_def note_central_def Let_def admit_frame)
  ultimately have free: "b_free s2 \<noteq> []"
    using lanes_size [of lanes depth s2] i2 assms(2) by (auto simp: b_inv_def)
  have c3: "b_central s3 = []"
    using dispatch_ready_starts [of s3] free fr idle by (auto simp: e note_queued_def)
  have c2: "b_central s2 = []"
    using dispatch_loop_drains [OF refl, of "release_lanes (note_source_peak s)"] free
    by (auto simp: s2_def dispatch_ready_def)
  have "\<not> 0 < b_total s2"
    using admit_from_sources [of lanes depth s2 lanes] i2 c2 c3 assms(2,3)
    by (auto simp: b_inv_def s3_def note_central_def Let_def)
  then have "admit lanes depth 0 0 s2 = s2" by (subst admit.simps) simp
  moreover have "0 \<le> b_total s2" using i2 by (simp add: b_inv_def b_wf_def)
  ultimately show ?thesis
    using \<open>\<not> 0 < b_total s2\<close> c3
    by (simp add: e note_queued_def dispatch_ready_def s3_def note_central_def Let_def)
qed

lemma dispatch_loop_due:
  assumes "b_central s = es" "\<forall>e \<in> set es. 0 \<le> service_cycles e" "\<forall>p \<in> set (b_busy s). b_cycle s \<le> fst p"
  shows "\<forall>p \<in> set (b_busy (dispatch_loop es s)). b_cycle s \<le> fst p"
  using assms
proof (induction es arbitrary: s)
  case (Cons e es)
  have "\<forall>p \<in> set (b_busy (dispatch_one e es s)). b_cycle s \<le> fst p"
    using Cons.prems by (simp add: dispatch_one_def Let_def)
  then show ?case using Cons.IH [of "dispatch_one e es s"] Cons.prems by simp
qed simp

lemma waiting_central: "set (b_central s) \<subseteq> set_mset (waiting s)"
  by (auto simp: waiting_def)

lemma bounded_phases_due:
  assumes inv: "b_inv lanes depth events s" and pos: "\<forall>e \<in># waiting s. 0 \<le> service_cycles e"
  shows "\<forall>p \<in> set (b_busy (bounded_phases n depth s)). b_cycle s \<le> fst p"
proof -
  define s1 where "s1 = release_lanes (note_source_peak s)"
  define s2 where "s2 = dispatch_ready s1"
  define s3 where "s3 = note_central depth (admit n depth 0 0 s2)"
  obtain busy free where r: "release_loop (b_cycle s) (b_busy s) (b_free s) = (busy, free)"
    by fastforce
  have "sorted (b_busy s)" using inv by (simp add: b_inv_def b_wf_def)
  from release_loop_spec [OF this r] have d1: "\<forall>p \<in> set (b_busy s1). b_cycle s \<le> fst p"
    by (auto simp: s1_def release_lanes_def note_source_peak_def r)
  have w1: "waiting s1 = waiting s"
    using release_lanes_work [OF note_inv(1) [OF inv]] by (simp add: s1_def)
  have i2: "b_inv lanes depth events s2"
    unfolding s2_def s1_def by (intro dispatch_ready_inv release_lanes_inv note_inv inv)
  have "\<forall>e \<in> set (b_central s1). 0 \<le> service_cycles e" using pos w1 waiting_central by fastforce
  with d1 have d2: "\<forall>p \<in> set (b_busy s2). b_cycle s \<le> fst p"
    using dispatch_loop_due [OF refl, of s1] by (simp add: s2_def dispatch_ready_def s1_def)
  have "waiting s3 = waiting s2" using admit_work [OF i2, of n 0 0] by (simp add: s3_def)
  moreover have "waiting s2 \<subseteq># waiting s1"
    using dispatch_loop_work [OF refl, of s1] pos w1 by (simp add: s2_def dispatch_ready_def)
  ultimately have "\<forall>e \<in> set (b_central s3). 0 \<le> service_cycles e"
    using pos w1 waiting_central [of s3] by (auto dest!: mset_subset_eqD)
  moreover have "\<forall>p \<in> set (b_busy s3). b_cycle s \<le> fst p" "b_cycle s3 = b_cycle s"
    using d2 by (simp_all add: s3_def note_central_def Let_def admit_frame s2_def s1_def
        dispatch_ready_def dispatch_loop_frame)
  ultimately have "\<forall>p \<in> set (b_busy (dispatch_ready s3)). b_cycle s \<le> fst p"
    using dispatch_loop_due [OF refl, of s3] by (simp add: dispatch_ready_def)
  then show ?thesis
    by (simp add: bounded_phases_def s3_def s2_def s1_def note_queued_def)
qed

section \<open>Convergence\<close>

definition b_live :: "nat \<Rightarrow> int \<Rightarrow> request list \<Rightarrow> int \<Rightarrow> int \<Rightarrow> bounded \<Rightarrow> bool" where
  "b_live lanes depth events first last_arrival s \<longleftrightarrow>
     b_inv lanes depth events s \<and> 0 < lanes \<and> 0 < depth \<and> serviceable last_arrival events \<and>
     last_arrival + total_work events - first \<le> CONVERGENCE_LIMIT \<and>
     set_mset (waiting s) \<subseteq> set events \<and> work s \<le> total_work events \<and>
     b_cycle s + work s \<le> last_arrival + total_work events"

lemma work_nonneg: "\<forall>e \<in># waiting s. 0 \<le> service_cycles e \<Longrightarrow> 0 \<le> work s"
proof -
  assume pos: "\<forall>e \<in># waiting s. 0 \<le> service_cycles e"
  have "0 \<le> (\<Sum>e \<in># M. service_cycles e + 1)" if "\<forall>e \<in># M. 0 \<le> service_cycles e" for M
    using that by (induction M) auto
  from this [OF pos] running_work_nonneg [of "b_cycle s" "mset (b_busy s)"] show ?thesis
    by (simp add: work_def)
qed

lemma arrivals_ok:
  assumes "\<forall>e \<in> set es. 0 \<le> stream_id e \<and> stream_id e < int STREAMS"
  shows "\<exists>s'. arrivals es s = Inr s'"
  using assms by (induction es arbitrary: s) (auto simp: py_index_nonneg)

lemma bounded_cycle_live:
  assumes "b_live lanes depth events first last_arrival s"
  shows "case bounded_cycle lanes depth (length events) first s of
           Next s' \<Rightarrow> b_live lanes depth events first last_arrival s' | Done r \<Rightarrow> True | Raise e \<Rightarrow> False"
proof (cases "b_completed s < length events \<or> b_busy s \<noteq> []")
  case True
  note live = assms [unfolded b_live_def]
  have sub: "set (b_pending s) \<subseteq> set events" using live by (auto simp: waiting_def)
  with live obtain s1 where s1: "arrivals (b_pending s) s = Inr s1"
    using arrivals_ok [of "b_pending s" s] by (auto simp: serviceable_def)
  define s2 where "s2 = bounded_phases lanes depth s1"
  define s3 where "s3 = s2\<lparr>b_cycle := next_cycle s2\<rparr>"
  have i: "b_inv lanes depth events s" using live by simp
  have i1: "b_inv lanes depth events s1" and c1: "b_cycle s1 = b_cycle s"
    using arrivals_inv [OF i refl s1] by auto
  have w1: "waiting s1 = waiting s" "work s1 = work s"
    using arrivals_work [OF i refl s1] c1 by (simp_all add: work_def)
  have pos: "\<forall>e \<in># waiting s1. 0 \<le> service_cycles e"
    using live w1 by (auto simp: serviceable_def)
  have w2: "work s2 \<le> work s" "waiting s2 \<subseteq># waiting s"
    using bounded_phases_work [OF i1 pos, of lanes] w1 by (simp_all add: s2_def)
  have i2: "b_inv lanes depth events s2" unfolding s2_def by (intro bounded_phases_inv i1)
  have c2: "b_cycle s2 = b_cycle s" by (simp add: s2_def c1)
  have w3: "waiting s3 = waiting s2" by (simp add: s3_def waiting_def)
  have sub3: "set_mset (waiting s3) \<subseteq> set events"
    using w3 w2(2) live by (auto dest: mset_subset_eqD)
  have pos3: "0 \<le> work s3"
    using sub3 live by (intro work_nonneg) (auto simp: serviceable_def)
  have fits: "b_cycle s3 + work s3 \<le> last_arrival + total_work events \<and> work s3 \<le> total_work events"
    if nd: "\<not> (b_completed s2 = length events \<and> b_busy s2 = [])"
  proof (cases "b_busy s2 = []")
    case False
    have "next_cycle s2 = b_cycle s2 + 1" using False by (simp add: next_cycle_def split: list.splits)
    moreover have "running_work (b_cycle s2 + 1) (mset (b_busy s2)) < running_work (b_cycle s2) (mset (b_busy s2))"
      using False bounded_phases_due [OF i1 pos, of lanes] c1 c2
      by (intro running_work_next) (auto simp: s2_def)
    ultimately have "work s3 < work s2" "b_cycle s3 = b_cycle s2 + 1"
      using w3 by (simp_all add: work_def s3_def)
    then show ?thesis using w2(1) live c2 by linarith
  next
    case True
    have q: "b_central s2 = []" "b_total s2 = 0"
      using bounded_phases_progress [OF i1] True live by (simp_all add: s2_def)
    have "b_pending s2 \<noteq> []"
    proof
      assume "b_pending s2 = []"
      moreover have "length (concat (b_source s2)) = 0"
        using i2 q(2) by (auto simp: b_inv_def b_wf_def)
      ultimately have "length (b_starts s2) = length events"
        using b_inv_count [OF i2] q(1) by (metis add.right_neutral list.size(3))
      with nd True i2 show False by (simp add: b_inv_def b_wf_def)
    qed
    then obtain e rest where pe: "b_pending s2 = e # rest" by (cases "b_pending s2") auto
    then have "e \<in># waiting s2" by (simp add: waiting_def)
    then have "e \<in> set events" using sub3 unfolding w3 by blast
    then have "next_cycle s2 \<le> last_arrival"
      using pe q True live by (simp add: next_cycle_def serviceable_def)
    moreover have "work s3 \<le> work s2"
      using w3 True by (simp add: work_def s3_def running_work_def)
    ultimately show ?thesis using w2(1) live by (simp add: s3_def)
  qed
  have i3: "b_inv lanes depth events s3"
  proof -
    have "b_pending s2 \<noteq> [] \<longrightarrow> b_cycle s2 < arrival_cycle (hd (b_pending s2))"
      using arrivals_inv [OF i refl s1] c2 by (simp add: s2_def)
    then have "b_cycle s2 < next_cycle s2" by (rule next_cycle_greater)
    then show ?thesis unfolding s3_def by (intro clock_inv i2) simp
  qed
  show ?thesis
  proof (cases "b_completed s2 = length events \<and> b_busy s2 = []")
    case d: True
    with True show ?thesis by (auto simp: bounded_cycle_def s1 Let_def simp flip: s2_def)
  next
    case d: False
    have "\<not> CONVERGENCE_LIMIT < b_cycle s3 - first" using fits [OF d] pos3 live by linarith
    moreover have "b_live lanes depth events first last_arrival s3"
      using fits [OF d] i3 live sub3 by (simp add: b_live_def)
    ultimately show ?thesis
      using True d by (auto simp: bounded_cycle_def s1 Let_def simp flip: s2_def s3_def)
  qed
qed (simp add: bounded_cycle_def)

interpretation bl: cycles "bounded_cycle lanes depth (length events) first"
    "b_live lanes depth events first last_arrival"
    "\<lambda>s. nat (first + CONVERGENCE_LIMIT + 1 - b_cycle s)"
  for lanes depth events first last_arrival
proof unfold_locales
  fix s s' :: bounded
  assume l: "b_live lanes depth events first last_arrival s"
    and n: "bounded_cycle lanes depth (length events) first s = Next s'"
  show "b_live lanes depth events first last_arrival s'" using bounded_cycle_live [OF l] n by simp
  show "nat (first + CONVERGENCE_LIMIT + 1 - b_cycle s') < nat (first + CONVERGENCE_LIMIT + 1 - b_cycle s)"
    using l n by (intro bc.next_budget) (auto simp: b_live_def)
qed

lemma b_live_init:
  assumes "serviceable last_arrival events" "0 < lanes" "0 < depth"
    and "first \<le> last_arrival" "last_arrival + total_work events - first \<le> CONVERGENCE_LIMIT"
  shows "b_live lanes depth events first last_arrival (bounded_init events lanes first)"
proof -
  have "concat (replicate STREAMS ([]::request list)) = []" by simp
  moreover have "(\<Sum>e \<in># mset events. service_cycles e + 1) = total_work events"
    by (simp add: total_work_def flip: sum_mset_sum_list)
  ultimately show ?thesis
    using assms b_inv_init
    by (simp add: b_live_def work_def waiting_def running_work_def bounded_init_def)
qed

lemma bounded_run_converges:
  assumes "serviceable last_arrival events" "0 < lanes" "0 < depth"
    and "first \<le> last_arrival" "last_arrival + total_work events - first \<le> CONVERGENCE_LIMIT"
  shows "\<exists>s. bounded_run events lanes depth first = Some (Inr s)"
proof -
  have l: "b_live lanes depth events first last_arrival (bounded_init events lanes first)"
    using assms by (rule b_live_init)
  have "loop (bounded_cycle lanes depth (length events) first) (bounded_init events lanes first) \<noteq> Some (Inl e)" for e
  proof
    assume "loop (bounded_cycle lanes depth (length events) first) (bounded_init events lanes first) = Some (Inl e)"
    from bl.loop_raised [OF l this] bounded_cycle_live show False by fastforce
  qed
  with bl.loop_total [OF l] show ?thesis by (auto simp: bounded_run_def) (metis sum.exhaust)
qed

end
