(* ===== verification/Bounded_Props.thy ===== *)
theory Bounded_Props
  imports Bounded_Liveness
begin

text \<open>
  The properties of the bounded scheduler replay, each a short consequence of the invariant,
  the conservation lemmas and the convergence lemma.
\<close>

section \<open>Rows\<close>

lemma bounded_replay_cases:
  assumes "events \<noteq> []"
  shows "\<exists>first r. py_min (map arrival_cycle events) = Inr first \<and>
     bounded_run events (nat (pcu_count div 8)) depth first = Some r \<and>
     bounded_replay events pcu_count depth =
       Some (and_then r (\<lambda>s. and_then (bounded_checks (length events) s) (\<lambda>s.
         map_r (bounded_row_of pcu_count depth s) [expand_pointwise, project_pointwise])))"
proof -
  obtain first where f: "py_min (map arrival_cycle events) = Inr first"
    using assms py_min_eq by fastforce
  obtain r where "bounded_run events (nat (pcu_count div 8)) depth first = Some r"
    using bounded_run_total by (metis option.exhaust)
  with f show ?thesis by (auto simp: bounded_replay_def)
qed

lemma bounded_replay_total: "bounded_replay events pcu_count depth \<noteq> None"
  by (cases "events = []") (use bounded_replay_cases [of events] in
      \<open>fastforce simp: bounded_replay_def py_min_def\<close>)+

lemma bounded_run_starts:
  assumes "bounded_run events lanes depth first = Some (Inr s)"
  shows "mset (map fst (b_starts s)) = mset events \<and> bounded_checks (length events) s = Inr s"
proof -
  note d = bounded_run_Inr [OF assms]
  have "mset (map fst (b_starts s)) = mset events"
    by (rule mset_eq_by_key [of key]) (rule bounded_run_key_order [OF assms])
  moreover have "length (b_starts s) = length events" using d by (simp add: b_inv_def b_wf_def)
  ultimately show ?thesis using d by (simp add: bounded_checks_def)
qed

lemma bounded_row_of_returns:
  assumes "b_inv lanes depth events s" "length (b_starts s) \<le> 1000000"
    and "\<exists>e \<in> fst ` set (b_starts s). stage e = st"
  shows "\<exists>row. bounded_row_of pcu_count depth s st = Inr row \<and> br_stage row = st \<and>
    br_requests row = length (filter (\<lambda>e. stage e = st) (map fst (b_starts s))) \<and>
    0 \<le> br_p95_wait_cycles row \<and> br_p95_wait_cycles row \<le> br_max_wait_cycles row"
proof -
  define selected where "selected = filter (\<lambda>(event, _, _). stage event = st) (b_starts s)"
  define raw where "raw = map (\<lambda>(event, start, _). start - arrival_cycle event) selected"
  have ne: "selected \<noteq> []" using assms(3) by (fastforce simp: selected_def filter_empty_conv)
  have "length selected \<le> length (b_starts s)" unfolding selected_def by (rule length_filter_le)
  then have len: "int (length raw) \<le> 2 ^ 53" using assms(2) by (simp add: raw_def)
  have "\<forall>x \<in> set raw. 0 \<le> x"
    using assms(1) by (fastforce simp: raw_def selected_def b_inv_def b_timed_def)
  then obtain p m where q: "percentile (sort raw) p95 = Inr p" "py_get (sort raw) (- 1) = Inr m"
      "0 \<le> p" "p \<le> m"
    using wait_quantiles [of raw] ne len by (auto simp: raw_def)
  have "sort raw \<noteq> []" using ne by (metis length_0_conv length_sort raw_def map_is_Nil_conv)
  then obtain a where a: "mean (sort raw) = Inr a" using mean_nonempty by blast
  obtain c where c: "py_max (map (\<lambda>(_, _, completion). completion) selected) = Inr c"
    using py_max_eq [of "map (\<lambda>(_, _, completion). completion) selected"] ne by simp
  have "b_source_peaks s \<noteq> []"
    using assms(1) STREAMS_pos by (metis b_inv_def b_wf_def less_numeral_extra(3) list.size(3))
  then obtain d where d: "py_max (b_source_peaks s) = Inr d" using py_max_eq by blast
  have "length selected = length (filter (\<lambda>e. stage e = st) (map fst (b_starts s)))"
  proof -
    have "selected = filter (\<lambda>p. stage (fst p) = st) (b_starts s)"
      unfolding selected_def by (rule filter_cong) auto
    then show ?thesis by (simp add: filter_map comp_def)
  qed
  then show ?thesis
    unfolding bounded_row_of_def Let_def selected_def [symmetric] raw_def [symmetric]
    using a q c d by simp
qed

lemma bounded_row_of_empty:
  assumes "\<not> (\<exists>e \<in> fst ` set (b_starts s). stage e = st)"
  shows "bounded_row_of pcu_count depth s st = Inl ZeroDivisionError"
proof -
  have "filter (\<lambda>(event, _, _). stage event = st) (b_starts s) = []"
    using assms by (fastforce simp: filter_empty_conv)
  then show ?thesis by (simp add: bounded_row_of_def)
qed

section \<open>Properties\<close>

text \<open>
  The script always ends: for every trace, \<open>main\<close> returns rows or raises; no replay
  loops forever, whatever the stream numbers, arrival order, service times or queue depths.
\<close>

theorem bounded_main_returns: "bounded_main trace \<noteq> None"
proof -
  have "bounded_sweep events configs \<noteq> None" for events configs
  proof (induction configs)
    case (Cons c configs)
    then show ?case
      using bounded_replay_total [of events "fst c" "snd c"]
      by (cases c) (auto split: option.splits sum.splits)
  qed simp
  then show ?thesis by (simp add: bounded_main_def Let_def)
qed

text \<open>
  C11: no request is lost or duplicated. Whenever the replay loop returns, the started
  requests are a permutation of the trace, and neither of the two final RuntimeErrors (lost
  requests, non-empty queues) can be raised.
\<close>

theorem bounded_run_loses_nothing:
  assumes "bounded_run events lanes depth first = Some (Inr s)"
  shows "mset (map fst (b_starts s)) = mset events \<and> bounded_checks (length events) s = Inr s"
  using assms by (rule bounded_run_starts)

text \<open>
  Requests of one stream start in trace order: the started requests of any stream,
  in start order, are exactly that stream's requests in the trace.
\<close>

theorem bounded_run_stream_order:
  assumes "bounded_run events lanes depth first = Some (Inr s)"
  shows "filter (\<lambda>e. stream_id e = i) (map fst (b_starts s)) = filter (\<lambda>e. stream_id e = i) events"
  using bounded_run_key_order [OF assms, of "py_index STREAMS i"] by (metis filter_stream_key)

text \<open>
  C34: every request starts no earlier than it arrives and completes exactly its service
  time later, and at no cycle are more requests in service than there are lanes.
\<close>

theorem bounded_run_timing:
  assumes "bounded_run events lanes depth first = Some (Inr s)"
  shows "(\<forall>(e, start, completion) \<in> set (b_starts s).
            arrival_cycle e \<le> start \<and> completion = start + service_cycles e) \<and>
         (\<forall>t. in_service t (map snd (b_starts s)) \<le> lanes)"
  using bounded_run_Inr [OF assms] by (auto simp: b_inv_def b_timed_def)

text \<open>The central queue never holds more than \<open>queue_depth\<close> requests.\<close>

theorem bounded_run_central_bound:
  assumes "bounded_run events lanes depth first = Some (Inr s)" "0 \<le> depth"
  shows "b_central_peak s \<le> depth"
  using bounded_run_Inr [OF assms(1)] assms(2) by (simp add: b_inv_def b_wf_def)

text \<open>
  C12: convergence. If the trace is not empty, streams are in range, service times are
  non-negative, there is at least one lane (eight PCUs) and one queue slot, and the time from
  the first to the last arrival plus the total work fits in the limit, the replay never raises
  in its loop; it reports one row per stage, with
  \<open>0 \<le> p95 \<le> max\<close> wait and every request of the stage counted, when both stages occur,
  and otherwise divides by the zero requests of the missing stage.
\<close>

theorem bounded_replay_converges:
  assumes "events \<noteq> []" "serviceable last_arrival events" "8 \<le> pcu_count" "0 < depth"
    and "last_arrival + total_work events - Min (arrival_cycle ` set events) \<le> CONVERGENCE_LIMIT"
  shows "if {expand_pointwise, project_pointwise} \<subseteq> stage ` set events
         then \<exists>r1 r2. bounded_replay events pcu_count depth = Some (Inr [r1, r2]) \<and>
           (\<forall>(r, st) \<in> {(r1, expand_pointwise), (r2, project_pointwise)}.
              br_stage r = st \<and> 0 \<le> br_p95_wait_cycles r \<and>
              br_p95_wait_cycles r \<le> br_max_wait_cycles r \<and>
              br_requests r = length (filter (\<lambda>e. stage e = st) events))
         else bounded_replay events pcu_count depth = Some (Inl ZeroDivisionError)"
proof -
  let ?lanes = "nat (pcu_count div 8)"
  obtain first r where f: "py_min (map arrival_cycle events) = Inr first"
      "bounded_run events ?lanes depth first = Some r"
      "bounded_replay events pcu_count depth =
         Some (and_then r (\<lambda>s. and_then (bounded_checks (length events) s) (\<lambda>s.
           map_r (bounded_row_of pcu_count depth s) [expand_pointwise, project_pointwise])))"
    using bounded_replay_cases [OF assms(1)] by blast
  have first: "first = Min (arrival_cycle ` set events)" using f(1) py_min_eq [of "map arrival_cycle events"] assms(1) by simp
  then have "first \<in> arrival_cycle ` set events" using assms(1) by simp
  then have le: "first \<le> last_arrival" using assms(2) by (auto simp: serviceable_def)
  have lanes: "0 < ?lanes" using assms(3) by (simp add: pos_imp_zdiv_pos_iff)
  obtain s where s: "bounded_run events ?lanes depth first = Some (Inr s)"
    using bounded_run_converges [OF assms(2) lanes assms(4) le] assms(5) first by blast
  have st: "mset (map fst (b_starts s)) = mset events" "bounded_checks (length events) s = Inr s"
    using bounded_run_starts [OF s] by auto
  have inv: "b_inv ?lanes depth events s" using bounded_run_Inr [OF s] by blast
  have "int (length events) \<le> total_work events"
    using assms(2) unfolding total_work_def serviceable_def by (induction events) auto
  then have "int (length events) \<le> 1000000" using assms(5) le first by (simp add: CONVERGENCE_LIMIT_def)
  moreover have "length (b_starts s) = length events" using st(1) by (metis length_map size_mset)
  ultimately have len: "length (b_starts s) \<le> 1000000" by simp
  have ev: "fst ` set (b_starts s) = set events" using st(1) by (metis list.set_map set_mset_mset)
  have cnt: "length (filter (\<lambda>e. stage e = x) (map fst (b_starts s))) = length (filter (\<lambda>e. stage e = x) events)" for x
    using st(1) by (metis mset_filter size_mset)
  have rows: "\<exists>row. bounded_row_of pcu_count depth s x = Inr row \<and> br_stage row = x \<and>
      br_requests row = length (filter (\<lambda>e. stage e = x) events) \<and>
      0 \<le> br_p95_wait_cycles row \<and> br_p95_wait_cycles row \<le> br_max_wait_cycles row"
    if "x \<in> stage ` set events" for x
    using bounded_row_of_returns [OF inv len, of x pcu_count] that ev cnt by auto
  have none: "bounded_row_of pcu_count depth s x = Inl ZeroDivisionError" if "x \<notin> stage ` set events" for x
    using that ev by (intro bounded_row_of_empty) auto
  have r: "r = Inr s" using f(2) s by simp
  show ?thesis
  proof (cases "expand_pointwise \<in> stage ` set events")
    case a: True
    show ?thesis
    proof (cases "project_pointwise \<in> stage ` set events")
      case True
      with a rows [OF a] rows [OF True] show ?thesis by (auto simp: f(3) r st(2))
    next
      case False
      with rows [OF a] none [OF False] show ?thesis by (auto simp: f(3) r st(2))
    qed
  next
    case False
    with none [OF False] show ?thesis by (simp add: f(3) r st(2))
  qed
qed

section \<open>Witnesses\<close>

definition sample_request :: "string \<Rightarrow> int \<Rightarrow> int \<Rightarrow> request" where
  "sample_request st stream arrival =
     \<lparr>sequence = 0, stage = st, stream_id = stream, arrival_cycle = arrival,
      service_start_cycle = arrival, service_cycles = 3, completion_cycle = arrival + 3,
      queue_cycles = 0, blocks = 8, coalesced = 0, transfer_bytes = 64\<rparr>"

definition sample_trace :: "request list" where
  "sample_trace = [sample_request expand_pointwise 2 10, sample_request project_pointwise 1 10,
     sample_request expand_pointwise 2 11]"

lemmas sample_defs = sample_trace_def sample_request_def

lemma sample_serviceable: "serviceable 11 sample_trace"
  by (simp add: serviceable_def sample_defs STREAMS_def)

lemma sample_run: "\<exists>s. bounded_run sample_trace 2 64 10 = Some (Inr s)"
  using sample_serviceable
  by (rule bounded_run_converges) (simp_all add: total_work_def sample_defs CONVERGENCE_LIMIT_def)

theorem bounded_run_loses_nothing_witness:
  "\<exists>s. bounded_run sample_trace 2 64 10 = Some (Inr s) \<and> mset (map fst (b_starts s)) = mset sample_trace"
  using sample_run bounded_run_loses_nothing by blast

theorem bounded_run_stream_order_witness:
  "\<exists>s. bounded_run sample_trace 2 64 10 = Some (Inr s) \<and>
     filter (\<lambda>e. stream_id e = 2) (map fst (b_starts s)) =
       [sample_request expand_pointwise 2 10, sample_request expand_pointwise 2 11]"
proof -
  obtain s where s: "bounded_run sample_trace 2 64 10 = Some (Inr s)" using sample_run by blast
  from bounded_run_stream_order [OF s, of 2] s show ?thesis by (intro exI [of _ s]) (simp add: sample_defs)
qed

theorem bounded_run_timing_witness:
  "\<exists>s. bounded_run sample_trace 2 64 10 = Some (Inr s) \<and> in_service 11 (map snd (b_starts s)) \<le> 2"
  using sample_run bounded_run_timing by blast

theorem bounded_run_central_bound_witness:
  "\<exists>s. bounded_run sample_trace 2 64 10 = Some (Inr s) \<and> b_central_peak s \<le> 64"
proof -
  obtain s where s: "bounded_run sample_trace 2 64 10 = Some (Inr s)" using sample_run by blast
  from bounded_run_central_bound [OF s] s show ?thesis by (intro exI [of _ s]) simp
qed

theorem bounded_replay_converges_witness:
  "\<exists>r1 r2. bounded_replay sample_trace 16 64 = Some (Inr [r1, r2]) \<and> br_requests r1 = 2"
proof -
  have "{expand_pointwise, project_pointwise} \<subseteq> stage ` set sample_trace"
    by (simp add: sample_defs)
  moreover have "sample_trace \<noteq> []" "Min (arrival_cycle ` set sample_trace) = 10"
    "total_work sample_trace = 12"
    by (simp_all add: sample_defs total_work_def)
  moreover have "length (filter (\<lambda>e. stage e = expand_pointwise) sample_trace) = 2"
    by (simp add: sample_defs)
  ultimately show ?thesis
    using bounded_replay_converges [OF _ sample_serviceable, of 16 64]
    by (auto simp: CONVERGENCE_LIMIT_def)
qed

end
