(* ===== verification/Finite_Source.thy ===== *)
theory Finite_Source
  imports Trace Heapq Cycle_Loop
begin

text \<open>
  \<open>experiment/replay_uib_finite_source_backpressure.py\<close>: as the bounded scheduler, but the
  source queues are finite. A request whose source queue is full stays upstream and delays
  everything behind it on its stream. One record field per variable of \<open>replay\<close>; the
  trace events are fixed while the loop runs and are passed as an argument.
\<close>

section \<open>State\<close>

definition CENTRAL_DEPTH :: nat where "CENTRAL_DEPTH = 64"

record finite =
  f_upstream :: "request list list"
  f_source :: "(request \<times> int) list list"
  f_delay :: "int list"
  f_source_peak :: "int list"
  f_completed :: "int list"
  f_central :: "(request \<times> int) list"
  f_free :: "nat list"
  f_busy :: "(int \<times> nat \<times> int) list"
  f_starts :: "(request \<times> int \<times> int \<times> int) list"
  f_rr :: nat
  f_cycle :: int
  f_full_stream_cycles :: int
  f_full_wall_cycles :: int
  f_central_peak :: int
  f_peak_total :: int
  f_max_issue_delay :: int
  f_issued :: nat
  f_started :: nat
  f_finished :: nat

text \<open>The loop that fills \<open>upstream\<close> and \<open>expected_per_stream\<close>.\<close>

fun distribute :: "request list \<Rightarrow> request list list \<Rightarrow> int list \<Rightarrow> (request list list \<times> int list) result" where
  "distribute [] upstream expected = Inr (upstream, expected)"
| "distribute (event # events) upstream expected =
     and_then (py_index STREAMS (stream_id event)) (\<lambda>stream.
       distribute events (upstream[stream := upstream ! stream @ [event]])
         (expected[stream := expected ! stream + 1]))"

definition finite_init :: "request list list \<Rightarrow> nat \<Rightarrow> int \<Rightarrow> finite" where
  "finite_init upstream lane_count cycle =
     \<lparr>f_upstream = upstream, f_source = replicate STREAMS [], f_delay = replicate STREAMS 0,
      f_source_peak = replicate STREAMS 0, f_completed = replicate STREAMS 0, f_central = [],
      f_free = [0..<lane_count], f_busy = [], f_starts = [], f_rr = 0, f_cycle = cycle,
      f_full_stream_cycles = 0, f_full_wall_cycles = 0, f_central_peak = 0, f_peak_total = 0,
      f_max_issue_delay = 0, f_issued = 0, f_started = 0, f_finished = 0\<rparr>"

section \<open>The phases of one cycle\<close>

definition finish_one :: "nat \<Rightarrow> nat \<Rightarrow> (int \<times> nat \<times> int) list \<Rightarrow> finite \<Rightarrow> finite" where
  "finish_one stream lane busy s =
     s\<lparr>f_busy := busy, f_free := f_free s @ [lane],
       f_completed := (f_completed s)[stream := f_completed s ! stream + 1],
       f_finished := f_finished s + 1\<rparr>"

fun finish_loop :: "request list \<Rightarrow> (int \<times> nat \<times> int) list \<Rightarrow> finite \<Rightarrow> finite result" where
  "finish_loop events [] s = Inr s"
| "finish_loop events ((completion, lane, seq) # busy) s =
     (if completion \<le> f_cycle s
      then and_then (py_get events seq) (\<lambda>event.
           and_then (py_index STREAMS (stream_id event)) (\<lambda>stream.
             finish_loop events busy (finish_one stream lane busy s)))
      else Inr s)"

definition start_one :: "request \<Rightarrow> int \<Rightarrow> (request \<times> int) list \<Rightarrow> finite \<Rightarrow> finite" where
  "start_one event actual rest s =
     (let lane = last (f_free s); completion = f_cycle s + service_cycles event
      in s\<lparr>f_free := butlast (f_free s), f_central := rest,
           f_busy := heappush (f_busy s) (completion, lane, sequence event),
           f_starts := f_starts s @ [(event, actual, f_cycle s, completion)],
           f_started := f_started s + 1\<rparr>)"

fun start_loop :: "(request \<times> int) list \<Rightarrow> finite \<Rightarrow> finite" where
  "start_loop [] s = s"
| "start_loop ((event, actual) # rest) s =
     (if f_free s = [] then s else start_loop rest (start_one event actual rest s))"

definition start_ready :: "finite \<Rightarrow> finite" where
  "start_ready s = start_loop (f_central s) s"

text \<open>\<open>admit_sources\<close>: the number admitted is part of the result.\<close>

definition take_source :: "request \<times> int \<Rightarrow> (request \<times> int) list \<Rightarrow> finite \<Rightarrow> finite" where
  "take_source item rest s =
     s\<lparr>f_central := f_central s @ [item], f_source := (f_source s)[f_rr s := rest],
       f_rr := (f_rr s + 1) mod STREAMS\<rparr>"

function admit_sources :: "nat \<Rightarrow> nat \<Rightarrow> nat \<Rightarrow> finite \<Rightarrow> nat \<times> finite" where
  "admit_sources limit admitted scanned s =
     (if admitted < limit \<and> length (f_central s) < CENTRAL_DEPTH \<and> scanned < STREAMS
      then case f_source s ! f_rr s of
             [] \<Rightarrow> admit_sources limit admitted (scanned + 1)
                    (s\<lparr>f_rr := (f_rr s + 1) mod STREAMS\<rparr>)
           | item # rest \<Rightarrow> admit_sources limit (admitted + 1) 0 (take_source item rest s)
      else (admitted, s))"
  by pat_completeness auto
termination
  by (relation "measures [\<lambda>(limit, admitted, _, _). limit - admitted,
                          \<lambda>(_, _, scanned, _). STREAMS - scanned]") auto

declare admit_sources.simps [simp del]

text \<open>One stream of the issue loop; the flag is \<open>any_source_full\<close>.\<close>

definition issue_stream :: "int \<Rightarrow> nat \<Rightarrow> finite \<times> bool \<Rightarrow> finite \<times> bool" where
  "issue_stream source_capacity stream sf =
     (let s = fst sf in
      case f_upstream s ! stream of
        [] \<Rightarrow> sf
      | event # rest \<Rightarrow>
          if f_cycle s < arrival_cycle event + f_delay s ! stream then sf
          else if source_capacity \<le> int (length (f_source s ! stream))
          then (s\<lparr>f_delay := (f_delay s)[stream := f_delay s ! stream + 1],
                  f_full_stream_cycles := f_full_stream_cycles s + 1\<rparr>, True)
          else (s\<lparr>f_upstream := (f_upstream s)[stream := rest],
                  f_source := (f_source s)[stream := f_source s ! stream @ [(event, f_cycle s)]],
                  f_issued := f_issued s + 1,
                  f_max_issue_delay := max (f_max_issue_delay s) (f_cycle s - arrival_cycle event)\<rparr>,
                snd sf))"

definition issue_all :: "int \<Rightarrow> finite \<Rightarrow> finite" where
  "issue_all source_capacity s =
     (let (s', any_source_full) = fold (issue_stream source_capacity) [0..<STREAMS] (s, False)
      in if any_source_full then s'\<lparr>f_full_wall_cycles := f_full_wall_cycles s' + 1\<rparr> else s')"

definition source_total :: "finite \<Rightarrow> int" where
  "source_total s = sum_list (map (int \<circ> length) (f_source s))"

definition note_peaks :: "finite \<Rightarrow> finite" where
  "note_peaks s =
     s\<lparr>f_central_peak := max (f_central_peak s) (int (length (f_central s))),
       f_peak_total := max (f_peak_total s) (source_total s),
       f_source_peak := map2 (\<lambda>peak queue. max peak (int (length queue))) (f_source_peak s) (f_source s)\<rparr>"

definition next_arrivals :: "finite \<Rightarrow> int list" where
  "next_arrivals s =
     concat (map2 (\<lambda>queue delay. case queue of [] \<Rightarrow> [] | event # _ \<Rightarrow> [arrival_cycle event + delay])
       (f_upstream s) (f_delay s))"

definition finite_phases :: "nat \<Rightarrow> int \<Rightarrow> finite \<Rightarrow> finite" where
  "finite_phases lane_count source_capacity s =
     (let (admitted, s1) = admit_sources lane_count 0 0 (start_ready s);
          s2 = issue_all source_capacity (start_ready s1)
      in note_peaks (if admitted < lane_count
           then start_ready (snd (admit_sources (lane_count - admitted) 0 0 s2)) else s2))"

definition FINITE_LIMIT :: int where "FINITE_LIMIT = 1000000"

definition finite_cycle :: "nat \<Rightarrow> int \<Rightarrow> request list \<Rightarrow> finite \<Rightarrow> finite outcome" where
  "finite_cycle lane_count source_capacity events s =
     (if \<not> f_finished s < length events then Done s
      else case finish_loop events (f_busy s) s of
        Inl e \<Rightarrow> Raise e
      | Inr s1 \<Rightarrow>
          let s2 = finite_phases lane_count source_capacity s1
          in if f_finished s2 = length events then Done s2
             else if f_busy s2 = [] \<and> f_central s2 = [] \<and> source_total s2 = 0 \<and> next_arrivals s2 \<noteq> []
             then Next (s2\<lparr>f_cycle := max (f_cycle s2 + 1) (Min (set (next_arrivals s2)))\<rparr>)
             else if FINITE_LIMIT < f_cycle s2 + 1
             then Raise (RuntimeError ''finite source replay did not converge'')
             else Next (s2\<lparr>f_cycle := f_cycle s2 + 1\<rparr>))"

section \<open>The replay and its report\<close>

definition finite_checks :: "request list \<Rightarrow> int list \<Rightarrow> finite \<Rightarrow> finite result" where
  "finite_checks events expected s =
     (if f_issued s \<noteq> length events \<or> f_started s \<noteq> length events \<or> f_finished s \<noteq> length events
      then Inl (RuntimeError ''request loss'')
      else if (\<exists>q \<in> set (f_upstream s). q \<noteq> []) \<or> (\<exists>q \<in> set (f_source s). q \<noteq> []) \<or>
              f_central s \<noteq> [] \<or> f_busy s \<noteq> []
      then Inl (RuntimeError ''replay ended with pending state'')
      else if f_completed s \<noteq> expected
      then Inl (RuntimeError ''per-stream completion mismatch'')
      else Inr s)"

record finite_row =
  fr_pcu_count :: int
  fr_scheduler_lanes :: int
  fr_source_depth :: int
  fr_central_depth :: int
  fr_stage :: string
  fr_requests :: nat
  fr_average_issue_delay :: int
  fr_p95_issue_delay :: int
  fr_max_issue_delay :: int
  fr_average_total_wait :: int
  fr_p95_total_wait :: int
  fr_max_total_wait :: int
  fr_last_completion_cycle :: int
  fr_source_peak_total :: int
  fr_source_peak_per_stream :: int
  fr_source_full_stream_cycles :: int
  fr_source_full_wall_cycles :: int
  fr_central_peak_entries :: int

definition finite_row_of :: "int \<Rightarrow> int \<Rightarrow> finite \<Rightarrow> string \<Rightarrow> finite_row result" where
  "finite_row_of pcu_count source_capacity s st =
     (let selected = filter (\<lambda>(event, _, _, _). stage event = st) (f_starts s);
          issue_delays = sort (map (\<lambda>(event, actual, _, _). actual - arrival_cycle event) selected);
          total_waits = sort (map (\<lambda>(event, _, start, _). start - arrival_cycle event) selected)
      in and_then (mean issue_delays) (\<lambda>average_issue.
         and_then (percentile issue_delays p95) (\<lambda>p95_issue.
         and_then (py_get issue_delays (- 1)) (\<lambda>max_issue.
         and_then (mean total_waits) (\<lambda>average_wait.
         and_then (percentile total_waits p95) (\<lambda>p95_wait.
         and_then (py_get total_waits (- 1)) (\<lambda>max_wait.
         and_then (py_max (map (\<lambda>(_, _, _, completion). completion) selected)) (\<lambda>last_completion.
         and_then (py_max (f_source_peak s)) (\<lambda>per_stream.
           Inr \<lparr>fr_pcu_count = pcu_count, fr_scheduler_lanes = pcu_count div 8,
                fr_source_depth = source_capacity, fr_central_depth = int CENTRAL_DEPTH,
                fr_stage = st, fr_requests = length selected,
                fr_average_issue_delay = fixed4 average_issue, fr_p95_issue_delay = p95_issue,
                fr_max_issue_delay = max_issue, fr_average_total_wait = fixed4 average_wait,
                fr_p95_total_wait = p95_wait, fr_max_total_wait = max_wait,
                fr_last_completion_cycle = last_completion,
                fr_source_peak_total = f_peak_total s, fr_source_peak_per_stream = per_stream,
                fr_source_full_stream_cycles = f_full_stream_cycles s,
                fr_source_full_wall_cycles = f_full_wall_cycles s,
                fr_central_peak_entries = f_central_peak s\<rparr>)))))))))"

definition finite_run :: "request list \<Rightarrow> request list list \<Rightarrow> nat \<Rightarrow> int \<Rightarrow> int \<Rightarrow> finite result option" where
  "finite_run events upstream lane_count source_capacity cycle =
     loop (finite_cycle lane_count source_capacity events) (finite_init upstream lane_count cycle)"

definition finite_replay :: "request list \<Rightarrow> int \<Rightarrow> int \<Rightarrow> finite_row list result option" where
  "finite_replay events pcu_count source_capacity =
     (case distribute events (replicate STREAMS []) (replicate STREAMS 0) of
        Inl e \<Rightarrow> Some (Inl e)
      | Inr (upstream, expected) \<Rightarrow>
          (case py_min (map arrival_cycle events) of
             Inl e \<Rightarrow> Some (Inl e)
           | Inr cycle \<Rightarrow>
               map_option (\<lambda>r. and_then r (\<lambda>s. and_then (finite_checks events expected s) (\<lambda>s.
                   map_r (finite_row_of pcu_count source_capacity s) [expand_pointwise, project_pointwise])))
                 (finite_run events upstream (nat (pcu_count div 8)) source_capacity cycle)))"

definition FINITE_PCU_COUNTS :: "int list" where "FINITE_PCU_COUNTS = [16, 32, 64]"
definition SOURCE_DEPTHS :: "int list" where "SOURCE_DEPTHS = [8, 16, 32]"

fun finite_sweep :: "request list \<Rightarrow> (int \<times> int) list \<Rightarrow> finite_row list result option" where
  "finite_sweep events [] = Some (Inr [])"
| "finite_sweep events ((pcu_count, source_depth) # configs) =
     (case finite_replay events pcu_count source_depth of
        None \<Rightarrow> None
      | Some (Inl e) \<Rightarrow> Some (Inl e)
      | Some (Inr rows) \<Rightarrow>
          map_option (\<lambda>r. and_then r (\<lambda>more. Inr (rows @ more))) (finite_sweep events configs))"

definition contiguous :: "request list \<Rightarrow> bool" where
  "contiguous events = list_all (\<lambda>(i, e). sequence e = int i) (enumerate 0 events)"

definition finite_configs :: "(int \<times> int) list" where
  "finite_configs = concat (map (\<lambda>p. map (\<lambda>d. (p, d)) SOURCE_DEPTHS) FINITE_PCU_COUNTS)"

definition finite_main :: "request list \<Rightarrow> finite_row list result option" where
  "finite_main trace =
     (let events = sort_key sequence trace
      in if \<not> contiguous events then Some (Inl (SystemExit ''Trace sequence must be contiguous''))
         else finite_sweep events finite_configs)"

end
