(* ===== verification/Finite_Facts.thy ===== *)
theory Finite_Facts
  imports Finite_Source
begin

text \<open>
  Correctness of the finite-source replay: the state invariant and one preservation lemma per
  phase; termination of the loop for a positive source depth, with a budget that also covers
  the idle jumps the cycle limit does not bound; divergence for a non-positive depth.
\<close>

section \<open>The invariant\<close>

definition f_flow :: "nat \<Rightarrow> finite \<Rightarrow> request list" where
  "f_flow k s =
     filter (\<lambda>e. key e = Inr k) (map fst (f_starts s)) @
     filter (\<lambda>e. key e = Inr k) (map fst (f_central s)) @
     map fst (f_source s ! k) @ f_upstream s ! k"

definition seq_key :: "request list \<Rightarrow> int \<Rightarrow> nat result" where
  "seq_key events q = and_then (py_get events q) key"

definition key_count :: "nat \<Rightarrow> request list \<Rightarrow> int" where
  "key_count k es = int (length (filter (\<lambda>e. key e = Inr k) es))"

definition f_wf :: "nat \<Rightarrow> int \<Rightarrow> finite \<Rightarrow> bool" where
  "f_wf lanes cap s \<longleftrightarrow>
     length (f_upstream s) = STREAMS \<and> length (f_source s) = STREAMS \<and>
     length (f_delay s) = STREAMS \<and> length (f_source_peak s) = STREAMS \<and>
     length (f_completed s) = STREAMS \<and> f_rr s < STREAMS \<and> sorted (f_busy s) \<and>
     mset (f_free s) + mset (map (\<lambda>p. fst (snd p)) (f_busy s)) = mset [0..<lanes] \<and>
     length (f_central s) \<le> CENTRAL_DEPTH \<and> f_central_peak s \<le> int CENTRAL_DEPTH \<and>
     (\<forall>q \<in> set (f_source s). int (length q) \<le> max 0 cap) \<and>
     (\<forall>p \<in> set (f_source_peak s). p \<le> max 0 cap) \<and> (\<forall>d \<in> set (f_delay s). 0 \<le> d)"

definition f_count :: "request list \<Rightarrow> finite \<Rightarrow> bool" where
  "f_count events s \<longleftrightarrow>
     f_started s = length (f_starts s) \<and> f_finished s + length (f_busy s) = length (f_starts s) \<and>
     f_issued s = length (f_starts s) + length (f_central s) + length (concat (f_source s)) \<and>
     f_issued s + length (concat (f_upstream s)) = length events"

definition f_keyed :: "request list \<Rightarrow> finite \<Rightarrow> bool" where
  "f_keyed events s \<longleftrightarrow>
     (\<forall>k < STREAMS. f_flow k s = filter (\<lambda>e. key e = Inr k) events \<and>
        (\<forall>e \<in> set (f_upstream s ! k) \<union> fst ` set (f_source s ! k). key e = Inr k) \<and>
        f_completed s ! k + int (length (filter (\<lambda>p. seq_key events (snd (snd p)) = Inr k) (f_busy s)))
          = key_count k (map fst (f_starts s))) \<and>
     (\<forall>e \<in> fst ` set (f_central s) \<union> fst ` set (f_starts s). \<exists>k. key e = Inr k) \<and>
     (\<forall>p \<in> set (f_busy s). \<exists>e. py_get events (snd (snd p)) = Inr e \<and> (\<exists>k. key e = Inr k))"

definition f_timed :: "nat \<Rightarrow> finite \<Rightarrow> bool" where
  "f_timed lanes s \<longleftrightarrow>
     (\<forall>(e, actual, start, completion) \<in> set (f_starts s).
        arrival_cycle e \<le> actual \<and> actual \<le> start \<and> start \<le> f_cycle s \<and>
        completion = start + service_cycles e) \<and>
     (\<forall>(e, actual) \<in> set (f_central s) \<union> set (concat (f_source s)).
        arrival_cycle e \<le> actual \<and> actual \<le> f_cycle s) \<and>
     mset (filter (\<lambda>c. f_cycle s < c) (map snd (map (\<lambda>p. snd (snd p)) (f_starts s)))) \<subseteq># mset (map fst (f_busy s)) \<and>
     (\<forall>t. in_service t (map (\<lambda>p. snd (snd p)) (f_starts s)) \<le> lanes)"

definition f_inv :: "nat \<Rightarrow> int \<Rightarrow> request list \<Rightarrow> finite \<Rightarrow> bool" where
  "f_inv lanes cap events s \<longleftrightarrow>
     contiguous events \<and> f_wf lanes cap s \<and> f_count events s \<and> f_keyed events s \<and> f_timed lanes s"

lemma contiguous_get:
  assumes "contiguous events" "e \<in> set events"
  shows "py_get events (sequence e) = Inr e"
proof -
  obtain i where i: "i < length events" "e = events ! i" using assms(2) by (auto simp: in_set_conv_nth)
  have "(i, events ! i) \<in> set (enumerate 0 events)"
    using i by (simp add: in_set_enumerate_eq)
  then have "sequence e = int i" using assms(1) i by (auto simp: contiguous_def list_all_iff)
  then show ?thesis using i by (simp add: py_get_def py_index_nonneg)
qed

lemma keyed_member:
  assumes "f_keyed events s" "e \<in> fst ` set (f_central s)"
  shows "e \<in> set events \<and> (\<exists>k < STREAMS. key e = Inr k)"
proof -
  have "\<exists>k. key e = Inr k" using assms unfolding f_keyed_def by blast
  then obtain k where k: "key e = Inr k" "k < STREAMS" using key_less by blast
  then have "e \<in> set (f_flow k s)" using assms(2) by (auto simp: f_flow_def)
  then show ?thesis using assms(1) k by (auto simp: f_keyed_def)
qed

section \<open>Distribution over the streams\<close>

lemma distribute_spec:
  assumes "distribute es up ex = Inr (up', ex')" "length up = STREAMS" "length ex = STREAMS"
  shows "length up' = STREAMS \<and> length ex' = STREAMS \<and> (\<forall>e \<in> set es. \<exists>k. key e = Inr k) \<and>
    (\<forall>k < STREAMS. up' ! k = up ! k @ filter (\<lambda>e. key e = Inr k) es \<and>
       ex' ! k = ex ! k + key_count k es)"
  using assms
proof (induction es arbitrary: up ex)
  case (Cons e es)
  then obtain j where j: "key e = Inr j"
      "distribute es (up[j := up ! j @ [e]]) (ex[j := ex ! j + 1]) = Inr (up', ex')"
    by (auto simp: key_def and_then_eq_Inr)
  from Cons.IH [OF j(2)] Cons.prems(2,3) j(1) key_less [OF j(1)] show ?case
    by (auto simp: nth_list_update key_count_def)
qed (simp add: key_count_def)

lemma distribute_mset:
  assumes "distribute es up ex = Inr (up', ex')" "length up = STREAMS"
  shows "mset (concat up') = mset (concat up) + mset es"
  using assms
proof (induction es arbitrary: up ex)
  case (Cons e es)
  then obtain j where j: "key e = Inr j"
      "distribute es (up[j := up ! j @ [e]]) (ex[j := ex ! j + 1]) = Inr (up', ex')"
    by (auto simp: key_def and_then_eq_Inr)
  from Cons.IH [OF j(2)] Cons.prems(2) key_less [OF j(1)] show ?case
    by (simp add: mset_concat_push del: mset_concat)
qed simp

lemma f_inv_init:
  assumes "contiguous events" "distribute events (replicate STREAMS []) (replicate STREAMS 0) = Inr (up, ex)"
  shows "f_inv lanes cap events (finite_init up lanes cycle) \<and>
    length ex = STREAMS \<and> (\<forall>k < STREAMS. ex ! k = key_count k events) \<and>
    (\<forall>e \<in> set events. \<exists>k. key e = Inr k)"
proof -
  note d = distribute_spec [OF assms(2)]
  have "length (concat up) = length events"
    using arg_cong [OF distribute_mset [OF assms(2)], of size] by (simp del: mset_concat length_concat)
  then show ?thesis
    using assms(1) d
    by (auto simp: f_inv_def f_wf_def f_count_def f_keyed_def f_timed_def f_flow_def finite_init_def
        in_service_def key_count_def dest: in_set_replicate [THEN iffD1])
qed

section \<open>Every phase keeps it\<close>

lemma length_filter_heappush:
  "length (filter P (heappush h x)) = (if P x then 1 else 0) + length (filter P h)"
proof -
  have "length (filter P (heappush h x)) = size (filter_mset P (mset (heappush h x)))"
    by (simp only: mset_filter [symmetric] size_mset)
  also have "\<dots> = (if P x then 1 else 0) + size (mset (filter P h))" by simp
  finally show ?thesis by (simp only: size_mset)
qed

lemma f_lanes_size:
  assumes "f_wf lanes cap s"
  shows "length (f_free s) + length (f_busy s) = lanes"
proof -
  have "size (mset (f_free s) + mset (map (\<lambda>p. fst (snd p)) (f_busy s))) = size (mset [0..<lanes])"
    using assms by (simp only: f_wf_def)
  then show ?thesis by simp
qed

lemma finish_one_inv:
  assumes inv: "f_inv lanes cap events s" and b: "f_busy s = (c, lane, seq) # busy"
    and c: "c \<le> f_cycle s" and e: "py_get events seq = Inr e" and k: "key e = Inr k"
  shows "f_inv lanes cap events (finish_one k lane busy s)"
proof -
  have kS: "k < STREAMS" by (rule key_less [OF k])
  have "f_wf lanes cap (finish_one k lane busy s)"
    using inv b by (auto simp: f_inv_def f_wf_def finish_one_def)
  moreover have "f_count events (finish_one k lane busy s)"
    using inv b by (auto simp: f_inv_def f_count_def finish_one_def)
  moreover have "f_keyed events (finish_one k lane busy s)"
  proof -
    have "seq_key events seq = Inr k" using e k by (simp add: seq_key_def)
    then show ?thesis
      using inv b kS unfolding f_inv_def f_keyed_def f_flow_def f_wf_def
      by (auto simp: finish_one_def nth_list_update)
  qed
  moreover have "f_timed lanes (finish_one k lane busy s)"
  proof -
    have run: "mset (filter (\<lambda>c. f_cycle s < c) (map snd (map (\<lambda>p. snd (snd p)) (f_starts s)))) \<subseteq>#
        add_mset c (mset (map fst busy))" (is "?run \<subseteq># _")
      using inv b by (simp add: f_inv_def f_timed_def)
    have "c \<notin># ?run" using c by auto
    from this run have "?run \<subseteq># mset (map fst busy)" by (rule subset_mset_dropI)
    with inv show ?thesis by (simp add: f_inv_def f_timed_def finish_one_def)
  qed
  ultimately show ?thesis using inv by (simp add: f_inv_def)
qed

lemma finish_loop_total:
  assumes "f_inv lanes cap events s" "f_busy s = busy"
  shows "\<exists>s'. finish_loop events busy s = Inr s' \<and> f_inv lanes cap events s' \<and>
    f_cycle s' = f_cycle s \<and> f_upstream s' = f_upstream s \<and> f_delay s' = f_delay s \<and>
    (\<forall>p \<in> set (f_busy s'). f_cycle s < fst p)"
  using assms
proof (induction busy arbitrary: s)
  case (Cons p busy)
  obtain c lane seq where p: "p = (c, lane, seq)" by (cases p)
  show ?case
  proof (cases "c \<le> f_cycle s")
    case True
    obtain e k where e: "py_get events seq = Inr e" and k: "key e = Inr k"
      using Cons.prems p by (auto simp: f_inv_def f_keyed_def)
    note i = finish_one_inv [OF Cons.prems(1) Cons.prems(2) [unfolded p] True e k]
    have "f_busy (finish_one k lane busy s) = busy" by (simp add: finish_one_def)
    from Cons.IH [OF i this] True p e k show ?thesis by (simp add: key_def finish_one_def)
  next
    case False
    have "sorted (p # busy)" using Cons.prems by (simp add: f_inv_def f_wf_def)
    with False p have "\<forall>q \<in> set (p # busy). f_cycle s < fst q"
      by (auto simp: less_eq_prod_def)
    with False p Cons.prems show ?thesis by simp
  qed
qed simp

lemma start_one_inv:
  assumes inv: "f_inv lanes cap events s" and c: "f_central s = (e, a) # rest" "f_free s \<noteq> []"
  shows "f_inv lanes cap events (start_one e a rest s)"
proof -
  let ?s = "start_one e a rest s"
  have wf: "f_wf lanes cap s" and tm: "f_timed lanes s" and ky: "f_keyed events s"
    and ct: "f_count events s" and co: "contiguous events"
    using inv by (simp_all add: f_inv_def)
  have "e \<in> fst ` set (f_central s)" using c(1) by force
  from keyed_member [OF ky this] obtain k where e: "e \<in> set events" and k: "k < STREAMS" "key e = Inr k"
    by blast
  have get: "py_get events (sequence e) = Inr e" by (rule contiguous_get [OF co e])
  have "f_wf lanes cap ?s"
    using wf c by (auto simp: f_wf_def start_one_def Let_def simp flip: mset_butlast_last)
  moreover have "f_count events ?s"
    using ct c by (auto simp: f_count_def start_one_def Let_def)
  moreover have "f_keyed events ?s"
  proof -
    have "seq_key events (sequence e) = Inr k" using get k by (simp add: seq_key_def)
    then show ?thesis
      using ky c k get unfolding f_keyed_def f_flow_def
      by (auto simp: start_one_def Let_def length_filter_heappush key_count_def)
  qed
  moreover have "f_timed lanes ?s"
  proof -
    have busy: "length (f_busy s) < lanes"
      using f_lanes_size [OF wf] c(2)
      by (metis add_less_cancel_left length_greater_0_conv less_add_same_cancel2)
    have run: "mset (filter (\<lambda>c. f_cycle s < c) (map snd (map (\<lambda>p. snd (snd p)) (f_starts s)))) \<subseteq>#
        mset (map fst (f_busy s))" (is "?run \<subseteq># _")
      using tm by (simp add: f_timed_def)
    have "in_service t (map (\<lambda>p. snd (snd p)) (f_starts ?s)) \<le> lanes" for t
    proof (cases "f_cycle s \<le> t")
      case True
      have "in_service t (map (\<lambda>p. snd (snd p)) (f_starts s)) \<le> size ?run"
        by (rule in_service_le_running [OF True])
      also have "\<dots> \<le> length (f_busy s)" using size_mset_mono [OF run] by simp
      finally show ?thesis using busy by (simp add: start_one_def Let_def in_service_append)
    next
      case False
      then show ?thesis
        using tm by (simp add: start_one_def Let_def in_service_append f_timed_def)
    qed
    moreover have "mset (filter (\<lambda>c. f_cycle ?s < c) (map snd (map (\<lambda>p. snd (snd p)) (f_starts ?s))))
        \<subseteq># mset (map fst (f_busy ?s))"
      using run by (simp add: start_one_def Let_def subset_mset_addI)
    ultimately show ?thesis
      using tm c by (auto simp: f_timed_def start_one_def Let_def)
  qed
  ultimately show ?thesis using co by (simp add: f_inv_def)
qed

lemma start_one_sel [simp]:
  "f_cycle (start_one e a rest s) = f_cycle s" "f_central (start_one e a rest s) = rest"
  "f_upstream (start_one e a rest s) = f_upstream s" "f_source (start_one e a rest s) = f_source s"
  "f_delay (start_one e a rest s) = f_delay s"
  by (simp_all add: start_one_def Let_def)

lemma start_loop_inv:
  assumes "f_inv lanes cap events s" "f_central s = items"
  shows "f_inv lanes cap events (start_loop items s)"
  using assms
proof (induction items arbitrary: s)
  case (Cons p items)
  obtain e a where p: "p = (e, a)" by (cases p)
  show ?case
  proof (cases "f_free s = []")
    case False
    have "f_inv lanes cap events (start_loop items (start_one e a items s))"
      using Cons.prems False p by (intro Cons.IH start_one_inv) simp_all
    with False p show ?thesis by simp
  qed (use Cons.prems p in simp)
qed simp

lemma start_loop_frame:
  "f_cycle (start_loop items s) = f_cycle s \<and> f_upstream (start_loop items s) = f_upstream s \<and>
   f_source (start_loop items s) = f_source s \<and> f_delay (start_loop items s) = f_delay s"
proof (induction items arbitrary: s)
  case (Cons p items)
  then show ?case by (cases p) simp
qed simp

lemma start_ready_inv: "f_inv lanes cap events s \<Longrightarrow> f_inv lanes cap events (start_ready s)"
  by (simp add: start_ready_def start_loop_inv)

lemma start_ready_frame [simp]:
  "f_cycle (start_ready s) = f_cycle s" "f_upstream (start_ready s) = f_upstream s"
  "f_source (start_ready s) = f_source s" "f_delay (start_ready s) = f_delay s"
  by (simp_all add: start_ready_def start_loop_frame)

lemma f_timed_queues:
  assumes "f_timed lanes s" "f_starts s' = f_starts s" "f_busy s' = f_busy s" "f_cycle s' = f_cycle s"
    and "\<forall>(e, actual) \<in> set (f_central s') \<union> set (concat (f_source s')).
      (e, actual) \<in> set (f_central s) \<union> set (concat (f_source s)) \<or>
      arrival_cycle e \<le> actual \<and> actual \<le> f_cycle s"
  shows "f_timed lanes s'"
proof -
  have "\<forall>(e, actual) \<in> set (f_central s') \<union> set (concat (f_source s')).
      arrival_cycle e \<le> actual \<and> actual \<le> f_cycle s"
    using assms(1,5) unfolding f_timed_def by blast
  with assms(1-4) show ?thesis unfolding f_timed_def by simp
qed

lemma take_source_inv:
  assumes inv: "f_inv lanes cap events s" and src: "f_source s ! f_rr s = item # rest"
    and room: "length (f_central s) < CENTRAL_DEPTH"
  shows "f_inv lanes cap events (take_source item rest s)"
proof -
  let ?k = "f_rr s" and ?s = "take_source item rest s"
  have k: "?k < STREAMS" and len: "length (f_source s) = STREAMS"
    using inv by (simp_all add: f_inv_def f_wf_def)
  have old: "item # rest \<in> set (f_source s)" using k len src nth_mem by metis
  have lc: "Suc (length (concat ((f_source s)[?k := rest]))) = length (concat (f_source s))"
    using length_concat_update [of ?k "f_source s" rest] k len src by simp
  have "f_wf lanes cap ?s"
  proof -
    have "int (length rest) \<le> max 0 cap"
      using inv old by (fastforce simp: f_inv_def f_wf_def)
    then show ?thesis
      using inv room by (auto simp: f_inv_def f_wf_def take_source_def
          dest!: set_update_subset_insert [THEN subsetD])
  qed
  moreover have "f_count events ?s"
    using inv lc by (simp add: f_inv_def f_count_def take_source_def)
  moreover have "f_keyed events ?s"
  proof -
    have "\<forall>e \<in> fst ` set (item # rest). key e = Inr ?k"
      using inv k src by (auto simp: f_inv_def f_keyed_def)
    then show ?thesis
      using inv k len src unfolding f_inv_def f_keyed_def f_flow_def
      by (auto simp: take_source_def nth_list_update)
  qed
  moreover have "f_timed lanes ?s"
  proof -
    have "set (concat ((f_source s)[?k := rest])) \<subseteq> set (concat (f_source s))"
      using set_concat_update_subset [of "f_source s" ?k rest] set_nth_concat [of ?k "f_source s"]
        k len src by auto
    moreover have "item \<in> set (concat (f_source s))"
      using set_nth_concat [of ?k "f_source s"] k len src by auto
    moreover have "f_timed lanes s" using inv by (simp add: f_inv_def)
    ultimately show ?thesis
      by (elim f_timed_queues) (auto simp: take_source_def simp del: set_concat)
  qed
  ultimately show ?thesis using inv by (simp add: f_inv_def)
qed

lemma f_rr_step_inv:
  "f_inv lanes cap events s \<Longrightarrow> f_inv lanes cap events (s\<lparr>f_rr := Suc (f_rr s) mod STREAMS\<rparr>)"
  by (simp add: f_inv_def f_wf_def f_count_def f_keyed_def f_flow_def f_timed_def)

lemma admit_sources_inv:
  "f_inv lanes cap events s \<Longrightarrow> f_inv lanes cap events (snd (admit_sources n a c s))"
proof (induction n a c s rule: admit_sources.induct)
  case (1 n a c s)
  show ?case
  proof (cases "a < n \<and> length (f_central s) < CENTRAL_DEPTH \<and> c < STREAMS")
    case True
    show ?thesis
    proof (cases "f_source s ! f_rr s")
      case Nil
      with True 1(1) [OF True Nil] 1(3) show ?thesis
        by (simp add: admit_sources.simps [of n a c s] f_rr_step_inv)
    next
      case (Cons e rest)
      with True 1(2) [OF True Cons] 1(3) show ?thesis
        by (simp add: admit_sources.simps [of n a c s] take_source_inv)
    qed
  next
    case False
    have "admit_sources n a c s = (a, s)" by (subst admit_sources.simps) (simp only: False if_False)
    with 1(3) show ?thesis by simp
  qed
qed

lemma admit_sources_frame [simp]:
  "f_cycle (snd (admit_sources n a c s)) = f_cycle s"
  "f_upstream (snd (admit_sources n a c s)) = f_upstream s"
  "f_delay (snd (admit_sources n a c s)) = f_delay s"
proof -
  have "f_cycle (snd (admit_sources n a c s)) = f_cycle s \<and>
    f_upstream (snd (admit_sources n a c s)) = f_upstream s \<and>
    f_delay (snd (admit_sources n a c s)) = f_delay s"
  proof (induction n a c s rule: admit_sources.induct)
    case (1 n a c s)
    then show ?case
      by (subst (1 2 3) admit_sources.simps) (auto simp: take_source_def split: list.splits)
  qed
  then show "f_cycle (snd (admit_sources n a c s)) = f_cycle s"
    "f_upstream (snd (admit_sources n a c s)) = f_upstream s"
    "f_delay (snd (admit_sources n a c s)) = f_delay s" by simp_all
qed

lemma issue_stream_inv:
  assumes inv: "f_inv lanes cap events (fst sf)" and k: "k < STREAMS"
  shows "f_inv lanes cap events (fst (issue_stream cap k sf))"
proof (cases "f_upstream (fst sf) ! k")
  case Nil
  then show ?thesis using inv by (simp add: issue_stream_def Let_def)
next
  case (Cons e rest)
  define s where "s = fst sf"
  have inv: "f_inv lanes cap events s" using inv by (simp add: s_def)
  have up: "f_upstream s ! k = e # rest" using Cons by (simp add: s_def)
  let ?q = "f_source s ! k @ [(e, f_cycle s)]"
  let ?m = "s\<lparr>f_upstream := (f_upstream s)[k := rest], f_source := (f_source s)[k := ?q],
      f_issued := f_issued s + 1,
      f_max_issue_delay := max (f_max_issue_delay s) (f_cycle s - arrival_cycle e)\<rparr>"
  have len: "length (f_source s) = STREAMS" "length (f_upstream s) = STREAMS" "length (f_delay s) = STREAMS"
    using inv by (simp_all add: f_inv_def f_wf_def)
  have nn: "0 \<le> f_delay s ! k" using inv len k by (simp add: f_inv_def f_wf_def)
  have full: "f_inv lanes cap events (s\<lparr>f_delay := (f_delay s)[k := f_delay s ! k + 1],
      f_full_stream_cycles := f_full_stream_cycles s + 1\<rparr>)"
    using inv nn by (auto simp: f_inv_def f_wf_def f_count_def f_keyed_def f_flow_def f_timed_def
        dest!: set_update_subset_insert [THEN subsetD])
  have move: "f_inv lanes cap events ?m"
    if due: "arrival_cycle e + f_delay s ! k \<le> f_cycle s" and room: "int (length (f_source s ! k)) < cap"
  proof -
    have "f_wf lanes cap ?m"
      using inv room by (auto simp: f_inv_def f_wf_def dest!: set_update_subset_insert [THEN subsetD])
    moreover have "f_count events ?m"
      using inv len k up length_concat_update [of k "f_source s" ?q]
        length_concat_update [of k "f_upstream s" rest]
      by (simp add: f_inv_def f_count_def)
    moreover have "f_keyed events ?m"
    proof -
      have "\<forall>e' \<in> set (e # rest). key e' = Inr k" using inv k up by (auto simp: f_inv_def f_keyed_def)
      then show ?thesis
        using inv k len up unfolding f_inv_def f_keyed_def f_flow_def by (auto simp: nth_list_update)
    qed
    moreover have "f_timed lanes ?m"
    proof -
      have "set (concat ((f_source s)[k := ?q])) \<subseteq> set (concat (f_source s)) \<union> {(e, f_cycle s)}"
        using set_concat_update_subset [of "f_source s" k ?q] set_nth_concat [of k "f_source s"] k len
        by auto
      moreover have "f_timed lanes s" using inv by (simp add: f_inv_def)
      ultimately show ?thesis using due nn by (elim f_timed_queues) (auto simp del: set_concat)
    qed
    ultimately show ?thesis using inv by (simp add: f_inv_def)
  qed
  show ?thesis
    using inv full move up by (simp add: issue_stream_def Let_def flip: s_def)
qed

lemma issue_stream_frame [simp]:
  "f_cycle (fst (issue_stream cap k sf)) = f_cycle (fst sf)"
  "f_finished (fst (issue_stream cap k sf)) = f_finished (fst sf)"
  "f_central (fst (issue_stream cap k sf)) = f_central (fst sf)"
  "f_busy (fst (issue_stream cap k sf)) = f_busy (fst sf)"
  "f_starts (fst (issue_stream cap k sf)) = f_starts (fst sf)"
  "f_issued (fst sf) \<le> f_issued (fst (issue_stream cap k sf))"
  by (auto simp: issue_stream_def Let_def split: list.splits)

lemma issue_fold_frame:
  "f_cycle (fst (fold (issue_stream cap) ks sf)) = f_cycle (fst sf) \<and>
   f_finished (fst (fold (issue_stream cap) ks sf)) = f_finished (fst sf) \<and>
   f_central (fst (fold (issue_stream cap) ks sf)) = f_central (fst sf) \<and>
   f_busy (fst (fold (issue_stream cap) ks sf)) = f_busy (fst sf) \<and>
   f_starts (fst (fold (issue_stream cap) ks sf)) = f_starts (fst sf) \<and>
   f_issued (fst sf) \<le> f_issued (fst (fold (issue_stream cap) ks sf))"
proof (induction ks arbitrary: sf)
  case (Cons k ks)
  have "f_issued (fst sf) \<le> f_issued (fst (issue_stream cap k sf))" by simp
  with Cons.IH [of "issue_stream cap k sf"] show ?case by (simp del: issue_stream_frame(6))
qed simp

lemma issue_fold_inv:
  assumes "f_inv lanes cap events (fst sf)" "\<forall>k \<in> set ks. k < STREAMS"
  shows "f_inv lanes cap events (fst (fold (issue_stream cap) ks sf))"
  using assms by (induction ks arbitrary: sf) (simp_all add: issue_stream_inv)

lemma full_wall_inv:
  "f_inv lanes cap events s \<Longrightarrow> f_inv lanes cap events (s\<lparr>f_full_wall_cycles := c\<rparr>)"
  by (simp add: f_inv_def f_wf_def f_count_def f_keyed_def f_flow_def f_timed_def)

lemma issue_all_inv: "f_inv lanes cap events s \<Longrightarrow> f_inv lanes cap events (issue_all cap s)"
  using issue_fold_inv [of lanes cap events "(s, False)" "[0..<STREAMS]"]
  by (auto simp: issue_all_def full_wall_inv split: prod.splits)

lemma issue_all_frame [simp]:
  "f_cycle (issue_all cap s) = f_cycle s" "f_finished (issue_all cap s) = f_finished s"
  "f_central (issue_all cap s) = f_central s" "f_busy (issue_all cap s) = f_busy s"
  "f_starts (issue_all cap s) = f_starts s" "f_issued s \<le> f_issued (issue_all cap s)"
  using issue_fold_frame [of cap "[0..<STREAMS]" "(s, False)"]
  by (auto simp: issue_all_def split: prod.splits)

lemma note_peaks_inv:
  assumes "f_inv lanes cap events s"
  shows "f_inv lanes cap events (note_peaks s)"
proof -
  have "\<forall>p \<in> set (map2 (\<lambda>peak queue. max peak (int (length queue))) (f_source_peak s) (f_source s)).
      p \<le> max 0 cap"
  proof
    fix p assume "p \<in> set (map2 (\<lambda>peak queue. max peak (int (length queue))) (f_source_peak s) (f_source s))"
    then obtain a q where "p = max a (int (length q))" "(a, q) \<in> set (zip (f_source_peak s) (f_source s))"
      by auto
    then have "a \<in> set (f_source_peak s)" "q \<in> set (f_source s)" "p = max a (int (length q))"
      by (auto dest: set_zip_leftD set_zip_rightD)
    with assms show "p \<le> max 0 cap" unfolding f_inv_def f_wf_def by auto
  qed
  with assms show ?thesis
    by (simp add: f_inv_def f_wf_def f_count_def f_keyed_def f_flow_def f_timed_def note_peaks_def)
qed

lemma note_peaks_frame [simp]:
  "f_cycle (note_peaks s) = f_cycle s" "f_finished (note_peaks s) = f_finished s"
  "f_central (note_peaks s) = f_central s" "f_busy (note_peaks s) = f_busy s"
  "f_starts (note_peaks s) = f_starts s" "f_issued (note_peaks s) = f_issued s"
  "f_upstream (note_peaks s) = f_upstream s" "f_source (note_peaks s) = f_source s"
  "f_delay (note_peaks s) = f_delay s"
  by (simp_all add: note_peaks_def)

lemma finite_phases_inv:
  "f_inv lanes cap events s \<Longrightarrow> f_inv lanes cap events (finite_phases n cap s)"
  by (auto simp: finite_phases_def Let_def split: prod.splits if_splits
      intro!: note_peaks_inv start_ready_inv admit_sources_inv issue_all_inv)
    (metis admit_sources_inv start_ready_inv snd_conv)+

lemma f_clock_inv:
  assumes "f_inv lanes cap events s" "f_cycle s \<le> c"
  shows "f_inv lanes cap events (s\<lparr>f_cycle := c\<rparr>)"
proof -
  let ?ends = "map snd (map (\<lambda>p. snd (snd p)) (f_starts s))"
  have "mset (filter (\<lambda>x. c < x) ?ends) \<subseteq># mset (filter (\<lambda>x. f_cycle s < x) ?ends)"
    using assms(2) by (simp only: mset_filter) (rule filter_mset_mono_strong, auto)
  also have "\<dots> \<subseteq># mset (map fst (f_busy s))" using assms(1) by (simp add: f_inv_def f_timed_def)
  finally have run: "mset (filter (\<lambda>x. c < x) ?ends) \<subseteq># mset (map fst (f_busy s))" .
  have tm: "f_timed lanes s" using assms(1) by (simp add: f_inv_def)
  have "f_timed lanes (s\<lparr>f_cycle := c\<rparr>)"
    using tm run assms(2) unfolding f_timed_def by (auto simp: split_beta intro: order_trans)
  with assms(1) show ?thesis by (simp add: f_inv_def f_wf_def f_count_def f_keyed_def f_flow_def)
qed

lemma finite_phases_unfold:
  "finite_phases n cap s =
     (let a = admit_sources n 0 0 (start_ready s); s2 = issue_all cap (start_ready (snd a))
      in note_peaks (if fst a < n then start_ready (snd (admit_sources (n - fst a) 0 0 s2)) else s2))"
  by (simp add: finite_phases_def split_beta Let_def)

lemma finite_phases_frame [simp]:
  "f_cycle (finite_phases n cap s) = f_cycle s" "f_finished (finite_phases n cap s) = f_finished s"
proof -
  have st: "f_finished (start_loop items t) = f_finished t" for items t
  proof (induction items arbitrary: t)
    case (Cons p items)
    then show ?case by (cases p) (simp add: start_one_def Let_def)
  qed simp
  have ad: "f_finished (snd (admit_sources m a c t)) = f_finished t" for m a c t
  proof (induction m a c t rule: admit_sources.induct)
    case (1 n a c s)
    then show ?case
      by (subst admit_sources.simps) (auto simp: take_source_def split: list.splits)
  qed
  show "f_finished (finite_phases n cap s) = f_finished s"
    by (simp add: finite_phases_unfold Let_def ad start_ready_def st)
  show "f_cycle (finite_phases n cap s) = f_cycle s"
    by (simp add: finite_phases_unfold Let_def)
qed

section \<open>Outcomes of one cycle\<close>

lemma finite_cycle_step:
  assumes inv: "f_inv lanes cap events s" and run: "f_finished s < length events"
  obtains s1 where "finish_loop events (f_busy s) s = Inr s1" "f_inv lanes cap events s1"
    "f_inv lanes cap events (finite_phases lanes cap s1)" "f_cycle s1 = f_cycle s"
    "f_upstream s1 = f_upstream s" "f_delay s1 = f_delay s"
  using finish_loop_total [OF inv refl] finite_phases_inv by metis

lemma finite_cycle_Next_inv:
  assumes "f_inv lanes cap events s" "finite_cycle lanes cap events s = Next s'"
  shows "f_inv lanes cap events s'"
proof -
  have "f_finished s < length events" using assms(2) by (auto simp: finite_cycle_def split: if_splits)
  from finite_cycle_step [OF assms(1) this] obtain s1 where
    "finish_loop events (f_busy s) s = Inr s1" "f_inv lanes cap events (finite_phases lanes cap s1)" .
  with assms(2) show ?thesis
    by (auto simp: finite_cycle_def Let_def simp del: finite_phases_frame split: if_splits intro!: f_clock_inv)
qed

lemma finite_cycle_Raise:
  assumes "f_inv lanes cap events s" "finite_cycle lanes cap events s = Raise e"
  shows "e = RuntimeError ''finite source replay did not converge''"
proof -
  have "f_finished s < length events" using assms(2) by (auto simp: finite_cycle_def split: if_splits)
  from finite_cycle_step [OF assms(1) this] obtain s1 where "finish_loop events (f_busy s) s = Inr s1" .
  with assms(2) show ?thesis by (auto simp: finite_cycle_def Let_def split: if_splits)
qed

lemma finite_cycle_Done:
  assumes "f_inv lanes cap events s" "finite_cycle lanes cap events s = Done r"
  shows "f_inv lanes cap events r \<and> length events \<le> f_finished r"
proof (cases "f_finished s < length events")
  case True
  from finite_cycle_step [OF assms(1) this] obtain s1 where
    "finish_loop events (f_busy s) s = Inr s1" "f_inv lanes cap events (finite_phases lanes cap s1)" .
  with assms(2) True show ?thesis
    by (auto simp: finite_cycle_def Let_def simp del: finite_phases_frame split: if_splits)
next
  case False
  with assms show ?thesis by (auto simp: finite_cycle_def)
qed

lemma finite_done_empty:
  assumes "f_inv lanes cap events r" "length events \<le> f_finished r"
  shows "f_upstream r = replicate STREAMS [] \<and> f_source r = replicate STREAMS [] \<and> f_central r = [] \<and>
    f_busy r = [] \<and> f_issued r = length events \<and> f_started r = length events \<and> f_finished r = length events"
proof -
  have c: "f_count events r" and w: "f_wf lanes cap r" using assms(1) by (simp_all add: f_inv_def)
  from c assms(2) have z: "length (f_busy r) = 0" "length (f_central r) = 0"
    "length (concat (f_source r)) = 0" "length (concat (f_upstream r)) = 0"
    "f_issued r = length events" "f_started r = length events" "f_finished r = length events"
    unfolding f_count_def by linarith+
  have e: "qs = replicate STREAMS []" if "length (concat qs) = 0" "length qs = STREAMS" for qs :: "'b list list"
    using that by (intro replicate_eqI) (auto simp del: length_concat)
  from e [OF z(3)] e [OF z(4)] w z show ?thesis by (simp add: f_wf_def del: length_concat)
qed

section \<open>Termination\<close>

text \<open>
  \<open>due\<close>: some stream has a request whose effective arrival has come. After an idle jump one
  is due, and a due request with an empty source queue is issued, so two jumps never follow
  each other without progress.
\<close>

definition due_at :: "finite \<Rightarrow> nat \<Rightarrow> bool" where
  "due_at s k \<longleftrightarrow> (\<exists>e rest. f_upstream s ! k = e # rest \<and> arrival_cycle e + f_delay s ! k \<le> f_cycle s)"

definition due :: "finite \<Rightarrow> bool" where
  "due s \<longleftrightarrow> (\<exists>k < STREAMS. due_at s k)"

lemma issue_stream_other:
  "j \<noteq> k \<Longrightarrow> f_upstream (fst (issue_stream cap j sf)) ! k = f_upstream (fst sf) ! k \<and>
     f_source (fst (issue_stream cap j sf)) ! k = f_source (fst sf) ! k \<and>
     f_delay (fst (issue_stream cap j sf)) ! k = f_delay (fst sf) ! k"
  by (auto simp: issue_stream_def Let_def split: list.splits)

lemma issue_fold_progress:
  assumes "k \<in> set ks" "due_at (fst sf) k" "f_source (fst sf) ! k = []" "0 < cap"
  shows "f_issued (fst sf) < f_issued (fst (fold (issue_stream cap) ks sf))"
  using assms(1-3)
proof (induction ks arbitrary: sf)
  case (Cons j ks)
  show ?case
  proof (cases "j = k")
    case True
    have "f_issued (fst sf) < f_issued (fst (issue_stream cap k sf))"
      using Cons.prems(2,3) assms(4) by (auto simp: due_at_def issue_stream_def Let_def)
    moreover have "f_issued (fst (issue_stream cap k sf)) \<le>
        f_issued (fst (fold (issue_stream cap) ks (issue_stream cap k sf)))"
      using issue_fold_frame [of cap ks "issue_stream cap k sf"] by blast
    ultimately show ?thesis using True by simp
  next
    case False
    have "f_issued (fst (issue_stream cap j sf)) <
        f_issued (fst (fold (issue_stream cap) ks (issue_stream cap j sf)))"
      using Cons.prems issue_stream_other [OF False, of cap sf] False
      by (intro Cons.IH) (auto simp: due_at_def)
    moreover have "f_issued (fst sf) \<le> f_issued (fst (issue_stream cap j sf))" by simp
    ultimately show ?thesis by (simp del: issue_stream_frame(6))
  qed
qed simp

lemma issue_all_progress:
  assumes "due s" "\<forall>k < STREAMS. f_source s ! k = []" "0 < cap"
  shows "f_issued s < f_issued (issue_all cap s)"
proof -
  obtain k where "k < STREAMS" "due_at s k" using assms(1) by (auto simp: due_def)
  with assms issue_fold_progress [of k "[0..<STREAMS]" "(s, False)" cap] show ?thesis
    by (auto simp: issue_all_def split: prod.splits)
qed

lemma start_ready_frame2 [simp]:
  "f_issued (start_ready s) = f_issued s" "f_finished (start_ready s) = f_finished s"
proof -
  have st: "f_issued (start_loop items t) = f_issued t \<and> f_finished (start_loop items t) = f_finished t"
    for items t
  proof (induction items arbitrary: t)
    case (Cons p items)
    then show ?case by (cases p) (simp add: start_one_def Let_def)
  qed simp
  then show "f_issued (start_ready s) = f_issued s" "f_finished (start_ready s) = f_finished s"
    by (simp_all add: start_ready_def)
qed

lemma admit_sources_frame2 [simp]:
  "f_issued (snd (admit_sources n a c s)) = f_issued s"
  "f_finished (snd (admit_sources n a c s)) = f_finished s"
proof -
  have "f_issued (snd (admit_sources n a c s)) = f_issued s \<and>
    f_finished (snd (admit_sources n a c s)) = f_finished s"
  proof (induction n a c s rule: admit_sources.induct)
    case (1 n a c s)
    then show ?case
      by (subst (1 2) admit_sources.simps) (auto simp: take_source_def split: list.splits)
  qed
  then show "f_issued (snd (admit_sources n a c s)) = f_issued s"
    "f_finished (snd (admit_sources n a c s)) = f_finished s" by simp_all
qed

lemma source_total_eq: "source_total s = int (length (concat (f_source s)))"
proof -
  have "sum_list (map (int \<circ> length) qs) = int (length (concat qs))" for qs :: "'b list list"
    by (induction qs) auto
  then show ?thesis by (simp only: source_total_def)
qed

lemma due_cong:
  "f_upstream t = f_upstream s \<Longrightarrow> f_delay t = f_delay s \<Longrightarrow> f_cycle t = f_cycle s \<Longrightarrow> due t = due s"
  by (simp add: due_def due_at_def)

lemma idle_not_due:
  assumes inv: "f_inv lanes cap events s" and cap: "0 < cap"
    and s2: "s2 = finite_phases lanes cap s" and idle: "f_busy s2 = []" "f_central s2 = []" "source_total s2 = 0"
  shows "\<not> due s"
proof
  assume due: "due s"
  define a2 where "a2 = start_ready (snd (admit_sources lanes 0 0 (start_ready s)))"
  have i2: "f_inv lanes cap events a2" unfolding a2_def by (intro start_ready_inv admit_sources_inv inv)
  have c1: "f_count events s" and c2: "f_count events a2" and c3: "f_count events s2"
    using inv i2 finite_phases_inv [OF inv] by (simp_all add: f_inv_def s2)
  have issued: "f_issued (issue_all cap a2) = f_issued s2"
    by (simp add: s2 finite_phases_unfold Let_def a2_def)
  have mono: "f_issued a2 \<le> f_issued (issue_all cap a2)" by simp
  have a2: "f_issued a2 = f_issued s" "f_finished a2 = f_finished s" by (simp_all add: a2_def)
  have z: "length (concat (f_source s2)) = 0"
    using idle(3) by (simp only: source_total_eq of_nat_eq_0_iff)
  have fin: "f_finished s2 = f_finished s" by (simp add: s2)
  from c3 z idle(1,2) have "f_issued s2 = f_finished s2" unfolding f_count_def by simp
  with c1 c2 a2 issued mono fin have "length (concat (f_source a2)) = 0" "f_issued a2 = f_issued s2"
    unfolding f_count_def by linarith+
  then have "concat (f_source a2) = []" and same: "f_issued (issue_all cap a2) = f_issued a2"
    using issued by (simp_all del: length_concat)
  then have "\<forall>k < STREAMS. f_source a2 ! k = []"
    using i2 by (auto simp: f_inv_def f_wf_def)
  moreover have "due a2" using due due_cong [of a2 s] by (simp add: a2_def)
  ultimately show False using issue_all_progress [OF _ _ cap, of a2] same by simp
qed

lemma next_arrivals_iff:
  assumes "length (f_upstream s) = STREAMS" "length (f_delay s) = STREAMS"
  shows "x \<in> set (next_arrivals s) \<longleftrightarrow>
    (\<exists>k < STREAMS. \<exists>e rest. f_upstream s ! k = e # rest \<and> x = arrival_cycle e + f_delay s ! k)"
proof -
  have z: "set (zip (f_upstream s) (f_delay s)) = {(f_upstream s ! k, f_delay s ! k) | k. k < STREAMS}"
    using assms by (simp add: set_zip)
  have "x \<in> set (next_arrivals s) \<longleftrightarrow>
      (\<exists>k < STREAMS. x \<in> set (case f_upstream s ! k of [] \<Rightarrow> [] | event # _ \<Rightarrow> [arrival_cycle event + f_delay s ! k]))"
    unfolding next_arrivals_def by (auto simp: z)
  also have "\<dots> \<longleftrightarrow> (\<exists>k < STREAMS. \<exists>e rest. f_upstream s ! k = e # rest \<and> x = arrival_cycle e + f_delay s ! k)"
    by (intro ex_cong1 conj_cong refl) (simp split: list.split, metis)
  finally show ?thesis .
qed

definition f_budget :: "finite \<Rightarrow> nat" where
  "f_budget s = 2 * nat (FINITE_LIMIT + 1 - f_cycle s) + (if due s then 0 else 1)"

lemma finite_cycle_budget:
  assumes inv: "f_inv lanes cap events s" and cap: "0 < cap"
    and step: "finite_cycle lanes cap events s = Next s'"
  shows "f_budget s' < f_budget s"
proof -
  have "f_finished s < length events" using step by (auto simp: finite_cycle_def split: if_splits)
  from finite_cycle_step [OF inv this] obtain s1 where s1: "finish_loop events (f_busy s) s = Inr s1"
    "f_inv lanes cap events s1" "f_inv lanes cap events (finite_phases lanes cap s1)" "f_cycle s1 = f_cycle s"
    "f_upstream s1 = f_upstream s" "f_delay s1 = f_delay s" .
  define s2 where "s2 = finite_phases lanes cap s1"
  have cyc: "f_cycle s2 = f_cycle s" by (simp add: s2_def s1(4))
  show ?thesis
  proof (cases "f_busy s2 = [] \<and> f_central s2 = [] \<and> source_total s2 = 0 \<and> next_arrivals s2 \<noteq> []")
    case True
    then have s': "s' = s2\<lparr>f_cycle := max (f_cycle s2 + 1) (Min (set (next_arrivals s2)))\<rparr>"
      using step s1(1) by (auto simp: finite_cycle_def Let_def s2_def simp del: finite_phases_frame split: if_splits)
    have "\<not> due s1" using True idle_not_due [OF s1(2) cap s2_def] by simp
    then have nd: "\<not> due s" using due_cong [of s1 s] s1 by simp
    have len: "length (f_upstream s2) = STREAMS" "length (f_delay s2) = STREAMS"
      using s1(3) by (simp_all add: f_inv_def f_wf_def s2_def)
    have "Min (set (next_arrivals s2)) \<in> set (next_arrivals s2)" using True by (intro Min_in) auto
    then have "due s'" using next_arrivals_iff [OF len] by (auto simp: due_def due_at_def s')
    moreover have "f_cycle s < f_cycle s'" using cyc by (simp add: s')
    ultimately show ?thesis using nd by (simp add: f_budget_def)
  next
    case False
    then have "s' = s2\<lparr>f_cycle := f_cycle s2 + 1\<rparr> \<and> f_cycle s2 + 1 \<le> FINITE_LIMIT"
      using step s1(1) by (auto simp: finite_cycle_def Let_def s2_def simp del: finite_phases_frame split: if_splits)
    then show ?thesis using cyc by (auto simp: f_budget_def nat_less_eq_zless split: if_splits)
  qed
qed

interpretation fl: cycles "finite_cycle lanes cap events" "\<lambda>s. f_inv lanes cap events s \<and> 0 < cap" f_budget
  for lanes cap events
  by unfold_locales (use finite_cycle_Next_inv finite_cycle_budget in blast)+

text \<open>A loop that only ever advances does not return.\<close>

lemma blocked_cycle:
  assumes inv: "f_inv lanes cap events s" and cap: "cap \<le> 0" and ev: "events \<noteq> []"
    and fresh: "f_issued s = 0"
  shows "\<exists>s'. finite_cycle lanes cap events s = Next s' \<and> f_inv lanes cap events s' \<and> f_issued s' = 0"
proof -
  have c: "f_count events s" using inv by (simp add: f_inv_def)
  then have fin: "f_finished s = 0" using fresh unfolding f_count_def by linarith
  then have "f_finished s < length events" using ev by simp
  from finite_cycle_step [OF inv this] obtain s1 where s1: "finish_loop events (f_busy s) s = Inr s1"
    "f_inv lanes cap events s1" "f_inv lanes cap events (finite_phases lanes cap s1)" .
  have "f_busy s = []" using c fresh unfolding f_count_def by auto
  then have s1s: "s1 = s" using s1(1) by simp
  have stream: "f_issued (fst (issue_stream cap k sf)) = f_issued (fst sf)" for k sf
    using cap by (auto simp: issue_stream_def Let_def split: list.splits)
  have fold0: "f_issued (fst (fold (issue_stream cap) ks sf)) = f_issued (fst sf)" for ks sf
    by (induction ks arbitrary: sf) (simp_all add: stream del: issue_stream_frame(6))
  have "f_issued (issue_all cap t) = f_issued t" for t
    using fold0 [of "[0..<STREAMS]" "(t, False)"] by (auto simp: issue_all_def split: prod.splits)
  then have i2: "f_issued (finite_phases lanes cap s) = 0"
    by (simp add: finite_phases_unfold Let_def fresh del: issue_all_frame(6))
  define s2 where "s2 = finite_phases lanes cap s"
  have c2: "f_count events s2" "f_inv lanes cap events s2"
    using s1(3) by (simp_all add: f_inv_def s2_def s1s)
  have z: "f_busy s2 = []" "f_central s2 = []" "concat (f_source s2) = []" "f_finished s2 = 0"
    "length (concat (f_upstream s2)) = length events"
    using c2 i2 unfolding f_count_def s2_def by (auto simp del: length_concat)
  have tot: "source_total s2 = 0"
    using z(3) by (simp only: source_total_eq list.size(3) of_nat_0)
  have len: "length (f_upstream s2) = STREAMS" "length (f_delay s2) = STREAMS"
    using c2 by (simp_all add: f_inv_def f_wf_def)
  have "concat (f_upstream s2) \<noteq> []" using z(5) ev by (metis length_greater_0_conv)
  then obtain k e rest where "k < STREAMS" "f_upstream s2 ! k = e # rest"
    using len by (auto simp: in_set_conv_nth) (metis neq_Nil_conv)
  then have "next_arrivals s2 \<noteq> []" using next_arrivals_iff [OF len] by fastforce
  then have "finite_cycle lanes cap events s =
      Next (s2\<lparr>f_cycle := max (f_cycle s2 + 1) (Min (set (next_arrivals s2)))\<rparr>)"
    using z tot ev fin s1(1) by (simp add: finite_cycle_def Let_def s1s flip: s2_def)
  then show ?thesis using f_clock_inv [OF c2(2)] i2 by (simp add: s2_def)
qed

end
