(* ===== verification/Finite_Liveness.thy ===== *)
theory Finite_Liveness
  imports Finite_Facts
begin

text \<open>
  The finite-source replay converges: outstanding work never grows and shrinks whenever a lane
  is busy, and a full source queue, which delays its stream by a cycle, implies a busy lane.
  So effective arrivals are postponed by at most the work there is.
\<close>

section \<open>Outstanding work\<close>

definition f_waiting :: "finite \<Rightarrow> request multiset" where
  "f_waiting s = mset (map fst (f_central s)) + mset (map fst (concat (f_source s))) +
     mset (concat (f_upstream s))"

definition f_work :: "finite \<Rightarrow> int" where
  "f_work s = (\<Sum>e \<in># f_waiting s. service_cycles e + 1) + running_work (f_cycle s) (mset (f_busy s))"

lemma take_source_waiting:
  assumes "f_inv lanes cap events s" "f_source s ! f_rr s = item # rest"
  shows "f_waiting (take_source item rest s) = f_waiting s"
  using mset_concat_pop [of "f_rr s" "f_source s" item rest] assms
  by (simp add: f_waiting_def take_source_def f_inv_def f_wf_def del: mset_concat)

lemma admit_sources_waiting:
  "f_inv lanes cap events s \<Longrightarrow> f_waiting (snd (admit_sources n a c s)) = f_waiting s"
proof (induction n a c s rule: admit_sources.induct)
  case (1 n a c s)
  show ?case
  proof (cases "a < n \<and> length (f_central s) < CENTRAL_DEPTH \<and> c < STREAMS")
    case True
    show ?thesis
    proof (cases "f_source s ! f_rr s")
      case Nil
      with True 1(1) [OF True Nil] 1(3) show ?thesis
        by (simp add: admit_sources.simps [of n a c s] f_rr_step_inv) (simp add: f_waiting_def)
    next
      case (Cons e rest)
      with True 1(2) [OF True Cons] 1(3) show ?thesis
        by (simp add: admit_sources.simps [of n a c s] take_source_inv take_source_waiting)
    qed
  next
    case False
    have "admit_sources n a c s = (a, s)" by (subst admit_sources.simps) (simp only: False if_False)
    then show ?thesis by simp
  qed
qed

lemma start_loop_work:
  assumes "f_central s = items" "\<forall>e \<in># f_waiting s. 0 \<le> service_cycles e"
  shows "f_work (start_loop items s) = f_work s \<and> f_waiting (start_loop items s) \<subseteq># f_waiting s"
  using assms
proof (induction items arbitrary: s)
  case (Cons p items)
  obtain e a where p: "p = (e, a)" by (cases p)
  have w: "f_waiting s = add_mset e (f_waiting (start_one e a items s))"
    using Cons.prems p by (simp add: f_waiting_def)
  then have pos: "0 \<le> service_cycles e" "\<forall>x \<in># f_waiting (start_one e a items s). 0 \<le> service_cycles x"
    using Cons.prems(2) by auto
  have "f_work (start_one e a items s) = f_work s"
    using w pos(1) by (simp add: f_work_def running_work_def) (simp add: start_one_def Let_def)
  with Cons.IH [of "start_one e a items s"] p pos w show ?case
    by (auto intro: subset_mset_addI)
qed simp

lemma start_ready_work:
  assumes "\<forall>e \<in># f_waiting s. 0 \<le> service_cycles e"
  shows "f_work (start_ready s) = f_work s" "f_waiting (start_ready s) \<subseteq># f_waiting s"
  using start_loop_work [OF refl assms] by (simp_all add: start_ready_def)

lemma issue_stream_waiting:
  assumes "f_inv lanes cap events (fst sf)" "k < STREAMS"
  shows "f_waiting (fst (issue_stream cap k sf)) = f_waiting (fst sf)"
proof (cases "f_upstream (fst sf) ! k")
  case (Cons e rest)
  have len: "k < length (f_upstream (fst sf))" "k < length (f_source (fst sf))"
    using assms by (simp_all add: f_inv_def f_wf_def)
  show ?thesis
    using mset_concat_pop [OF len(1) Cons] mset_concat_push [OF len(2), of "(e, f_cycle (fst sf))"] Cons
    by (simp add: issue_stream_def Let_def f_waiting_def del: mset_concat)
qed (simp add: issue_stream_def Let_def)

lemma issue_fold_waiting:
  assumes "f_inv lanes cap events (fst sf)" "\<forall>k \<in> set ks. k < STREAMS"
  shows "f_waiting (fst (fold (issue_stream cap) ks sf)) = f_waiting (fst sf)"
  using assms
proof (induction ks arbitrary: sf)
  case (Cons k ks)
  then show ?case using issue_stream_waiting [of lanes cap events sf k]
    by (simp add: issue_stream_inv)
qed simp

lemma issue_all_waiting:
  assumes "f_inv lanes cap events s"
  shows "f_waiting (issue_all cap s) = f_waiting s" "f_work (issue_all cap s) = f_work s"
proof -
  have "f_waiting (issue_all cap s) = f_waiting (fst (fold (issue_stream cap) [0..<STREAMS] (s, False)))"
    by (simp add: issue_all_def f_waiting_def split: prod.split)
  then show w: "f_waiting (issue_all cap s) = f_waiting s"
    using issue_fold_waiting [of lanes cap events "(s, False)" "[0..<STREAMS]"] assms by simp
  show "f_work (issue_all cap s) = f_work s" by (simp add: f_work_def w)
qed

section \<open>A full source queue delays its stream by one cycle\<close>

lemma issue_stream_delays:
  assumes "length (f_delay (fst sf)) = STREAMS" "length (f_upstream (fst sf)) = STREAMS" "j < STREAMS" "k < STREAMS"
  shows "f_delay (fst (issue_stream cap j sf)) ! k \<le> f_delay (fst sf) ! k + (if j = k then 1 else 0)"
    and "set (f_upstream (fst (issue_stream cap j sf)) ! k) \<subseteq> set (f_upstream (fst sf) ! k)"
    and "length (f_delay (fst (issue_stream cap j sf))) = STREAMS"
    and "length (f_upstream (fst (issue_stream cap j sf))) = STREAMS"
  using assms by (auto simp: issue_stream_def Let_def nth_list_update split: list.splits)

lemma issue_fold_delays:
  assumes "length (f_delay (fst sf)) = STREAMS" "length (f_upstream (fst sf)) = STREAMS"
    and "\<forall>j \<in> set ks. j < STREAMS" "k < STREAMS" "distinct ks"
  shows "f_delay (fst (fold (issue_stream cap) ks sf)) ! k \<le> f_delay (fst sf) ! k + (if k \<in> set ks then 1 else 0) \<and>
    set (f_upstream (fst (fold (issue_stream cap) ks sf)) ! k) \<subseteq> set (f_upstream (fst sf) ! k)"
  using assms
proof (induction ks arbitrary: sf)
  case (Cons j ks)
  have j: "j < STREAMS" using Cons.prems by simp
  note d = issue_stream_delays [OF Cons.prems(1,2) j Cons.prems(4), of cap]
  have "f_delay (fst (fold (issue_stream cap) ks (issue_stream cap j sf))) ! k
      \<le> f_delay (fst (issue_stream cap j sf)) ! k + (if k \<in> set ks then 1 else 0) \<and>
    set (f_upstream (fst (fold (issue_stream cap) ks (issue_stream cap j sf))) ! k)
      \<subseteq> set (f_upstream (fst (issue_stream cap j sf)) ! k)"
    using Cons.prems d(3,4) by (intro Cons.IH) auto
  with d(1,2) Cons.prems(5) show ?case by (auto split: if_splits)
qed simp

lemma issue_all_delays:
  assumes "f_inv lanes cap events s" "k < STREAMS"
  shows "f_delay (issue_all cap s) ! k \<le> f_delay s ! k + 1"
    and "set (f_upstream (issue_all cap s) ! k) \<subseteq> set (f_upstream s ! k)"
  using issue_fold_delays [of "(s, False)" "[0..<STREAMS]" k cap] assms
  by (auto simp: f_inv_def f_wf_def issue_all_def split: prod.splits)

lemma issue_all_idle:
  assumes "\<not> due s"
  shows "issue_all cap s = s"
proof -
  have id: "issue_stream cap k (s, b) = (s, b)" if "k < STREAMS" for k b
    using assms that by (auto simp: due_def due_at_def issue_stream_def Let_def not_le split: list.splits)
  have "fold (issue_stream cap) ks (s, False) = (s, False)" if "\<forall>k \<in> set ks. k < STREAMS" for ks
    using that by (induction ks) (simp_all add: id)
  from this [of "[0..<STREAMS]"] show ?thesis by (simp add: issue_all_def)
qed

section \<open>Progress: a lane is busy whenever a request is queued\<close>

lemma start_loop_busy: "f_busy s \<noteq> [] \<Longrightarrow> f_busy (start_loop items s) \<noteq> []"
proof (induction items arbitrary: s)
  case (Cons p items)
  obtain e a where p: "p = (e, a)" by (cases p)
  have "length (f_busy (start_one e a items s)) \<noteq> 0" by (simp add: start_one_def Let_def)
  with Cons p show ?case by (metis start_loop.simps(2) list.size(3))
qed simp

lemma start_ready_busy:
  "f_busy s \<noteq> [] \<Longrightarrow> f_busy (start_ready s) \<noteq> []"
  by (simp add: start_ready_def start_loop_busy)

lemma start_ready_starts:
  assumes "f_busy (start_ready s) = []" "f_free s \<noteq> []"
  shows "f_central s = []" "start_ready s = s"
proof -
  show "f_central s = []"
  proof (cases "f_central s")
    case (Cons p items)
    obtain e a where p: "p = (e, a)" by (cases p)
    have "length (f_busy (start_one e a items s)) \<noteq> 0" by (simp add: start_one_def Let_def)
    then have "f_busy (start_one e a items s) \<noteq> []" by (metis list.size(3))
    then have "f_busy (start_ready s) \<noteq> []"
      using Cons p assms(2) by (simp add: start_ready_def start_loop_busy)
    with assms(1) show ?thesis by simp
  qed simp
  then show "start_ready s = s" by (simp add: start_ready_def)
qed

lemma admit_sources_lanes [simp]:
  "f_busy (snd (admit_sources n a c s)) = f_busy s" "f_free (snd (admit_sources n a c s)) = f_free s"
  "f_starts (snd (admit_sources n a c s)) = f_starts s"
proof -
  have "f_busy (snd (admit_sources n a c s)) = f_busy s \<and> f_free (snd (admit_sources n a c s)) = f_free s \<and>
    f_starts (snd (admit_sources n a c s)) = f_starts s"
  proof (induction n a c s rule: admit_sources.induct)
    case (1 n a c s)
    then show ?case
      by (subst (1 2 3) admit_sources.simps) (auto simp: take_source_def split: list.splits)
  qed
  then show "f_busy (snd (admit_sources n a c s)) = f_busy s" "f_free (snd (admit_sources n a c s)) = f_free s"
    "f_starts (snd (admit_sources n a c s)) = f_starts s" by simp_all
qed

text \<open>The number admitted is the growth of the central queue.\<close>

lemma admit_sources_count:
  "length (f_central (snd (admit_sources n a c s))) + a = length (f_central s) + fst (admit_sources n a c s)"
proof (induction n a c s rule: admit_sources.induct)
  case (1 n a c s)
  show ?case
  proof (cases "a < n \<and> length (f_central s) < CENTRAL_DEPTH \<and> c < STREAMS")
    case True
    show ?thesis
      using True 1(1) [OF True] 1(2) [OF True]
      by (cases "f_source s ! f_rr s") (auto simp: admit_sources.simps [of n a c s] take_source_def)
  next
    case False
    have "admit_sources n a c s = (a, s)" by (subst admit_sources.simps) (simp only: False if_False)
    then show ?thesis by simp
  qed
qed

lemma admit_sources_ge: "a \<le> fst (admit_sources n a c s)"
proof (induction n a c s rule: admit_sources.induct)
  case (1 n a c s)
  show ?case
  proof (cases "a < n \<and> length (f_central s) < CENTRAL_DEPTH \<and> c < STREAMS")
    case True
    show ?thesis
      using True 1(1) [OF True] 1(2) [OF True]
      by (cases "f_source s ! f_rr s") (auto simp: admit_sources.simps [of n a c s])
  next
    case False
    have "admit_sources n a c s = (a, s)" by (subst admit_sources.simps) (simp only: False if_False)
    then show ?thesis by simp
  qed
qed

text \<open>The scan reaches a non-empty queue at distance \<open>d\<close> before it has seen every stream.\<close>

lemma admit_sources_progress:
  assumes "a < n" "length (f_central s) < CENTRAL_DEPTH" "d + c < STREAMS"
    and "f_source s ! ((f_rr s + d) mod STREAMS) \<noteq> []" "f_rr s < STREAMS"
  shows "a < fst (admit_sources n a c s)"
  using assms
proof (induction d arbitrary: c s)
  case 0
  obtain item rest where src: "f_source s ! f_rr s = item # rest"
    using 0 by (cases "f_source s ! f_rr s") auto
  have "admit_sources n a c s = admit_sources n (a + 1) 0 (take_source item rest s)"
    using 0 src by (subst admit_sources.simps) simp
  then show ?case using admit_sources_ge [of "a + 1" n 0 "take_source item rest s"] by simp
next
  case (Suc d)
  show ?case
  proof (cases "f_source s ! f_rr s")
    case Nil
    define t where "t = s\<lparr>f_rr := (f_rr s + 1) mod STREAMS\<rparr>"
    have "admit_sources n a c s = admit_sources n a (c + 1) t"
      using Suc.prems Nil unfolding t_def by (subst admit_sources.simps) simp
    moreover have "a < fst (admit_sources n a (c + 1) t)"
      using Suc.prems unfolding t_def by (intro Suc.IH) (simp_all add: mod_add_left_eq)
    ultimately show ?thesis by simp
  next
    case (Cons item rest)
    have "admit_sources n a c s = admit_sources n (a + 1) 0 (take_source item rest s)"
      using Suc.prems Cons by (subst admit_sources.simps) simp
    then show ?thesis using admit_sources_ge [of "a + 1" n 0 "take_source item rest s"] by simp
  qed
qed

lemma rotation_distance:
  assumes "i < n" "r < (n::nat)"
  obtains d where "d < n" "(r + d) mod n = i"
proof
  show "(i + (n - r)) mod n < n" using assms by simp
  have "(r + (i + (n - r)) mod n) mod n = (r + (i + (n - r))) mod n" by (simp add: mod_add_right_eq)
  also have "\<dots> = (i + n) mod n" using assms(2) by (simp add: add.commute add.left_commute)
  finally show "(r + (i + (n - r)) mod n) mod n = i" using assms(1) by simp
qed

lemma admit_sources_empty:
  assumes "f_wf lanes cap s" "0 < n" "length (f_central s) < CENTRAL_DEPTH"
    and "fst (admit_sources n 0 0 s) = 0"
  shows "concat (f_source s) = []"
proof (rule ccontr)
  assume "concat (f_source s) \<noteq> []"
  moreover have len: "length (f_source s) = STREAMS" and rr: "f_rr s < STREAMS"
    using assms(1) by (simp_all add: f_wf_def)
  ultimately obtain i where i: "i < STREAMS" "f_source s ! i \<noteq> []"
    by (auto simp: in_set_conv_nth)
  obtain d where "d < STREAMS" "(f_rr s + d) mod STREAMS = i" by (rule rotation_distance [OF i(1) rr])
  with i(2) assms rr admit_sources_progress [of 0 n s d 0] show False by simp
qed

lemma finite_phases_progress:
  assumes inv: "f_inv lanes cap events s" and lanes: "0 < lanes"
    and idle: "f_busy (finite_phases lanes cap s) = []"
  shows "f_central (finite_phases lanes cap s) = [] \<and> source_total (finite_phases lanes cap s) = 0"
proof -
  define a0 where "a0 = start_ready s"
  define r where "r = admit_sources lanes 0 0 a0"
  define a2 where "a2 = start_ready (snd r)"
  define a3 where "a3 = issue_all cap a2"
  define a4 where "a4 = (if fst r < lanes then snd (admit_sources (lanes - fst r) 0 0 a3) else a3)"
  have e: "finite_phases lanes cap s = note_peaks (if fst r < lanes then start_ready a4 else a3)"
    by (simp add: finite_phases_unfold Let_def a0_def r_def a2_def a3_def a4_def)
  have i0: "f_inv lanes cap events a0" unfolding a0_def by (intro start_ready_inv inv)
  have i1: "f_inv lanes cap events (snd r)" unfolding r_def by (intro admit_sources_inv i0)
  have i2: "f_inv lanes cap events a2" unfolding a2_def by (intro start_ready_inv i1)
  have i3: "f_inv lanes cap events a3" unfolding a3_def by (intro issue_all_inv i2)
  have i4: "f_inv lanes cap events a4" unfolding a4_def by (simp add: admit_sources_inv i3)
  have free: "f_free t \<noteq> []" if "f_inv lanes cap events t" "f_busy t = []" for t
    using f_lanes_size [of lanes cap t] that lanes by (auto simp: f_inv_def)
  have b4: "f_busy a4 = f_busy a3" by (simp add: a4_def)
  have b3: "f_busy a3 = []"
    using idle start_ready_busy [of a4] b4 by (auto simp: e split: if_splits)
  then have b2: "f_busy a2 = []" by (simp add: a3_def)
  then have b1: "f_busy (snd r) = []" using start_ready_busy [of "snd r"] by (auto simp: a2_def)
  have c1: "f_central (snd r) = []" "a2 = snd r"
    using start_ready_starts [of "snd r"] free [OF i1 b1] b2 by (simp_all add: a2_def)
  then have "fst r = 0" using admit_sources_count [of lanes 0 0 a0] by (simp add: r_def)
  then have r0: "fst r < lanes" using lanes by simp
  have c3: "f_central a3 = []" using c1 by (simp add: a3_def)
  have "f_busy (start_ready a4) = []" using idle r0 by (simp add: e)
  then have c4: "f_central a4 = []" "start_ready a4 = a4"
    using start_ready_starts [of a4] free [OF i4] b3 b4 by simp_all
  have "fst (admit_sources lanes 0 0 a3) = 0"
    using admit_sources_count [of lanes 0 0 a3] c3 c4(1) \<open>fst r = 0\<close> lanes by (simp add: a4_def)
  then have "length (concat (f_source a3)) = 0"
    using admit_sources_empty [of lanes cap a3 lanes] i3 lanes c3
    by (simp add: f_inv_def CENTRAL_DEPTH_def del: length_concat)
  moreover have "f_count events a3" "f_count events a4" using i3 i4 by (simp_all add: f_inv_def)
  moreover have "f_issued a4 = f_issued a3" "length (f_starts a4) = length (f_starts a3)"
    by (simp_all add: a4_def)
  moreover have "length (f_central a3) = 0" "length (f_central a4) = 0" using c3 c4(1) by simp_all
  ultimately have "length (concat (f_source a4)) = 0" unfolding f_count_def by linarith
  then show ?thesis using c4 r0 by (simp add: e source_total_eq del: length_concat)
qed

lemma start_loop_due:
  assumes "f_central s = items" "\<forall>e \<in> fst ` set items. 0 \<le> service_cycles e" "\<forall>p \<in> set (f_busy s). f_cycle s \<le> fst p"
  shows "\<forall>p \<in> set (f_busy (start_loop items s)). f_cycle s \<le> fst p"
  using assms
proof (induction items arbitrary: s)
  case (Cons p items)
  obtain e a where p: "p = (e, a)" by (cases p)
  have "\<forall>q \<in> set (f_busy (start_one e a items s)). f_cycle s \<le> fst q"
    using Cons.prems p by (simp add: start_one_def Let_def)
  then show ?case using Cons.IH [of "start_one e a items s"] Cons.prems p by simp
qed simp

lemma start_ready_due:
  assumes "\<forall>e \<in># f_waiting s. 0 \<le> service_cycles e" "\<forall>p \<in> set (f_busy s). f_cycle s \<le> fst p"
  shows "\<forall>p \<in> set (f_busy (start_ready s)). f_cycle s \<le> fst p"
  using start_loop_due [OF refl, of s] assms by (auto simp: start_ready_def f_waiting_def)

text \<open>What the phases of a cycle do to the outstanding work, the running requests and the delays.\<close>

lemma finite_phases_work:
  assumes inv: "f_inv lanes cap events s" and pos: "\<forall>e \<in># f_waiting s. 0 \<le> service_cycles e"
    and later: "\<forall>p \<in> set (f_busy s). f_cycle s \<le> fst p"
  shows "f_work (finite_phases lanes cap s) = f_work s"
    and "f_waiting (finite_phases lanes cap s) \<subseteq># f_waiting s"
    and "\<forall>p \<in> set (f_busy (finite_phases lanes cap s)). f_cycle s \<le> fst p"
    and "\<forall>k < STREAMS. f_delay (finite_phases lanes cap s) ! k \<le> f_delay s ! k + 1 \<and>
           set (f_upstream (finite_phases lanes cap s) ! k) \<subseteq> set (f_upstream s ! k)"
proof -
  define a0 where "a0 = start_ready s"
  define r where "r = admit_sources lanes 0 0 a0"
  define a2 where "a2 = start_ready (snd r)"
  define a3 where "a3 = issue_all cap a2"
  define a4 where "a4 = (if fst r < lanes then snd (admit_sources (lanes - fst r) 0 0 a3) else a3)"
  have e: "finite_phases lanes cap s = note_peaks (if fst r < lanes then start_ready a4 else a3)"
    by (simp add: finite_phases_unfold Let_def a0_def r_def a2_def a3_def a4_def)
  have i0: "f_inv lanes cap events a0" unfolding a0_def by (intro start_ready_inv inv)
  have i1: "f_inv lanes cap events (snd r)" unfolding r_def by (intro admit_sources_inv i0)
  have i2: "f_inv lanes cap events a2" unfolding a2_def by (intro start_ready_inv i1)
  have i3: "f_inv lanes cap events a3" unfolding a3_def by (intro issue_all_inv i2)
  have cyc: "f_cycle a0 = f_cycle s" "f_cycle (snd r) = f_cycle s" "f_cycle a2 = f_cycle s"
    "f_cycle a3 = f_cycle s" "f_cycle a4 = f_cycle s"
    by (simp_all add: a0_def r_def a2_def a3_def a4_def)
  have w0: "f_work a0 = f_work s" "f_waiting a0 \<subseteq># f_waiting s"
    using start_ready_work [OF pos] by (simp_all add: a0_def)
  have w1: "f_waiting (snd r) = f_waiting a0" using admit_sources_waiting [OF i0] by (simp add: r_def)
  have ww1: "f_work (snd r) = f_work a0" using w1 cyc by (simp add: f_work_def) (simp add: r_def)
  have p1: "\<forall>e \<in># f_waiting (snd r). 0 \<le> service_cycles e"
    using pos w0(2) w1 by (auto dest: mset_subset_eqD)
  have w2: "f_work a2 = f_work (snd r)" "f_waiting a2 \<subseteq># f_waiting (snd r)"
    using start_ready_work [OF p1] by (simp_all add: a2_def)
  have w3: "f_waiting a3 = f_waiting a2" "f_work a3 = f_work a2"
    using issue_all_waiting [OF i2] by (simp_all add: a3_def)
  have w4: "f_waiting a4 = f_waiting a3" using admit_sources_waiting [OF i3] by (simp add: a4_def)
  have ww4: "f_work a4 = f_work a3" using w4 cyc by (simp add: f_work_def) (simp add: a4_def)
  have p4: "\<forall>e \<in># f_waiting a4. 0 \<le> service_cycles e"
    using p1 w2(2) w3(1) w4 by (auto dest: mset_subset_eqD)
  note w5 = start_ready_work [OF p4]
  have peaks: "f_work (note_peaks t) = f_work t" "f_waiting (note_peaks t) = f_waiting t" for t
    by (simp_all add: f_work_def f_waiting_def)
  show "f_work (finite_phases lanes cap s) = f_work s"
    using w0(1) ww1 w2(1) w3(2) ww4 w5(1) by (simp add: e peaks)
  have sub3: "f_waiting a3 \<subseteq># f_waiting s"
    using w0(2) w1 w2(2) w3(1) by (metis subset_mset.order_trans)
  show "f_waiting (finite_phases lanes cap s) \<subseteq># f_waiting s"
    using sub3 w4 w5(2) by (auto simp: e peaks intro: subset_mset.order_trans)
  have l0: "\<forall>p \<in> set (f_busy a0). f_cycle s \<le> fst p"
    unfolding a0_def by (rule start_ready_due [OF pos later])
  have l2: "\<forall>p \<in> set (f_busy a2). f_cycle s \<le> fst p"
    using start_ready_due [OF p1] l0 cyc by (simp add: a2_def r_def)
  have l4: "\<forall>p \<in> set (f_busy a4). f_cycle s \<le> fst p" using l2 by (simp add: a4_def a3_def)
  show "\<forall>p \<in> set (f_busy (finite_phases lanes cap s)). f_cycle s \<le> fst p"
    using start_ready_due [OF p4] l4 cyc by (simp add: e) (simp add: a4_def)
  have "f_delay a2 = f_delay s" "f_upstream a2 = f_upstream s"
    by (simp_all add: a2_def r_def a0_def)
  with issue_all_delays [OF i2] have d3: "\<forall>k < STREAMS. f_delay a3 ! k \<le> f_delay s ! k + 1 \<and>
      set (f_upstream a3 ! k) \<subseteq> set (f_upstream s ! k)" by (simp add: a3_def)
  then show "\<forall>k < STREAMS. f_delay (finite_phases lanes cap s) ! k \<le> f_delay s ! k + 1 \<and>
      set (f_upstream (finite_phases lanes cap s) ! k) \<subseteq> set (f_upstream s ! k)"
    by (simp add: e) (simp add: a4_def)
qed

section \<open>Convergence\<close>

text \<open>
  \<open>latest\<close> bounds the effective arrivals of everything upstream. A cycle in which a source
  queue is full may raise it by one, but a lane is busy then, so the outstanding work shrinks.
\<close>

definition f_live :: "nat \<Rightarrow> int \<Rightarrow> request list \<Rightarrow> int \<Rightarrow> finite \<Rightarrow> bool" where
  "f_live lanes cap events last_arrival s \<longleftrightarrow>
     f_inv lanes cap events s \<and> 0 < lanes \<and> 0 < cap \<and> serviceable last_arrival events \<and>
     last_arrival + total_work events \<le> FINITE_LIMIT \<and> set_mset (f_waiting s) \<subseteq> set events \<and>
     (\<exists>latest. (\<forall>k < STREAMS. \<forall>e \<in> set (f_upstream s ! k). arrival_cycle e + f_delay s ! k \<le> latest) \<and>
        max (f_cycle s) latest + f_work s \<le> last_arrival + total_work events)"

lemma f_work_nonneg: "\<forall>e \<in># f_waiting s. 0 \<le> service_cycles e \<Longrightarrow> 0 \<le> f_work s"
  using unstarted_work_nonneg [of "f_waiting s"] running_work_nonneg [of "f_cycle s" "mset (f_busy s)"]
  by (simp add: f_work_def)

lemma finish_loop_suffix:
  "finish_loop events busy s = Inr s' \<Longrightarrow> f_busy s = busy \<Longrightarrow>
     f_waiting s' = f_waiting s \<and> f_cycle s' = f_cycle s \<and> (\<exists>pre. f_busy s = pre @ f_busy s')"
proof (induction busy arbitrary: s)
  case (Cons p busy)
  obtain c lane seq where p: "p = (c, lane, seq)" by (cases p)
  show ?case
  proof (cases "c \<le> f_cycle s")
    case True
    with Cons.prems p obtain k where "finish_loop events busy (finish_one k lane busy s) = Inr s'"
      by (auto simp: and_then_eq_Inr)
    from Cons.IH [OF this] Cons.prems(2) p show ?thesis
      by (fastforce simp: finish_one_def f_waiting_def)
  qed (use Cons.prems p in auto)
qed simp

lemma finish_loop_work:
  assumes "finish_loop events (f_busy s) s = Inr s'"
  shows "f_work s' \<le> f_work s" "f_waiting s' = f_waiting s"
proof -
  note d = finish_loop_suffix [OF assms refl]
  then show w: "f_waiting s' = f_waiting s" by simp
  have "mset (f_busy s') \<subseteq># mset (f_busy s)" using d by auto
  from running_work_mono [OF this] d show "f_work s' \<le> f_work s" by (simp add: f_work_def)
qed

lemma finite_phases_idle:
  assumes "\<not> due s"
  shows "f_upstream (finite_phases lanes cap s) = f_upstream s" "f_delay (finite_phases lanes cap s) = f_delay s"
proof -
  define a2 where "a2 = start_ready (snd (admit_sources lanes 0 0 (start_ready s)))"
  have "\<not> due a2" using assms due_cong [of a2 s] by (simp add: a2_def)
  from issue_all_idle [OF this, of cap]
  show "f_upstream (finite_phases lanes cap s) = f_upstream s" "f_delay (finite_phases lanes cap s) = f_delay s"
    by (simp_all add: finite_phases_unfold Let_def flip: a2_def) (simp_all add: a2_def)
qed

lemma upstream_left:
  assumes "f_inv lanes cap events s" "f_busy s = []" "f_central s = []" "source_total s = 0"
    and "f_finished s \<noteq> length events"
  shows "next_arrivals s \<noteq> []"
proof -
  have len: "length (f_upstream s) = STREAMS" "length (f_delay s) = STREAMS"
    using assms(1) by (simp_all add: f_inv_def f_wf_def)
  have "length (concat (f_source s)) = 0" using assms(4) by (simp add: source_total_eq del: length_concat)
  moreover have "f_count events s" using assms(1) by (simp add: f_inv_def)
  moreover have "length (f_busy s) = 0" "length (f_central s) = 0" using assms(2,3) by simp_all
  ultimately have "length (concat (f_upstream s)) \<noteq> 0"
    using assms(5) unfolding f_count_def by linarith
  then have "concat (f_upstream s) \<noteq> []" by (metis list.size(3))
  then obtain k where "k < STREAMS" "f_upstream s ! k \<noteq> []"
    using len by (auto simp: in_set_conv_nth)
  then obtain e rest where "k < STREAMS" "f_upstream s ! k = e # rest" by (cases "f_upstream s ! k") auto
  then show ?thesis using next_arrivals_iff [OF len] by fastforce
qed

lemma finite_cycle_live:
  assumes "f_live lanes cap events last_arrival s"
  shows "case finite_cycle lanes cap events s of
           Next s' \<Rightarrow> f_live lanes cap events last_arrival s' | Done r \<Rightarrow> True | Raise e \<Rightarrow> False"
proof (cases "f_finished s < length events")
  case True
  note live = assms [unfolded f_live_def]
  then obtain latest where late: "\<forall>k < STREAMS. \<forall>e \<in> set (f_upstream s ! k). arrival_cycle e + f_delay s ! k \<le> latest"
    and fits: "max (f_cycle s) latest + f_work s \<le> last_arrival + total_work events" by blast
  have inv: "f_inv lanes cap events s" using live by simp
  obtain s1 where s1: "finish_loop events (f_busy s) s = Inr s1" "f_inv lanes cap events s1"
    "f_cycle s1 = f_cycle s" "f_upstream s1 = f_upstream s" "f_delay s1 = f_delay s"
    "\<forall>p \<in> set (f_busy s1). f_cycle s < fst p"
    using finish_loop_total [OF inv refl] by blast
  have w1: "f_work s1 \<le> f_work s" "f_waiting s1 = f_waiting s"
    using finish_loop_work [OF s1(1)] by simp_all
  have pos1: "\<forall>e \<in># f_waiting s1. 0 \<le> service_cycles e" using live w1 by (auto simp: serviceable_def)
  define s2 where "s2 = finite_phases lanes cap s1"
  have i2: "f_inv lanes cap events s2" unfolding s2_def by (intro finite_phases_inv s1)
  have c2: "f_cycle s2 = f_cycle s" by (simp add: s2_def s1)
  have w2: "f_work s2 \<le> f_work s" "f_waiting s2 \<subseteq># f_waiting s" "\<forall>p \<in> set (f_busy s2). f_cycle s \<le> fst p"
    "\<forall>k < STREAMS. f_delay s2 ! k \<le> f_delay s ! k + 1 \<and> set (f_upstream s2 ! k) \<subseteq> set (f_upstream s ! k)"
    using finite_phases_work [OF s1(2) pos1, of ] s1 w1 by (auto simp: s2_def order.strict_implies_order)
  have sub: "set_mset (f_waiting s2) \<subseteq> set events" using w2(2) live by (auto dest: mset_subset_eqD)
  show ?thesis
  proof (cases "f_busy s2 = []")
    case False
    define s3 where "s3 = s2\<lparr>f_cycle := f_cycle s2 + 1\<rparr>"
    have w3: "f_waiting s3 = f_waiting s2" by (simp add: s3_def f_waiting_def)
    have "running_work (f_cycle s2 + 1) (mset (f_busy s2)) < running_work (f_cycle s2) (mset (f_busy s2))"
      using False w2(3) c2 by (intro running_work_next) auto
    then have "f_work s3 < f_work s2" using w3 by (simp add: f_work_def s3_def)
    then have fits3: "max (f_cycle s3) (latest + 1) + f_work s3 \<le> last_arrival + total_work events"
      using fits w2(1) c2 by (simp add: s3_def)
    have late3: "\<forall>k < STREAMS. \<forall>e \<in> set (f_upstream s3 ! k). arrival_cycle e + f_delay s3 ! k \<le> latest + 1"
      using late w2(4) by (fastforce simp: s3_def)
    have "0 \<le> f_work s3"
      using w3 sub live by (intro f_work_nonneg) (auto simp: serviceable_def)
    then have lim: "f_cycle s3 \<le> FINITE_LIMIT" using fits3 live by linarith
    have "f_inv lanes cap events s3" unfolding s3_def by (intro f_clock_inv i2) simp
    with fits3 late3 live sub w3 have "f_live lanes cap events last_arrival s3"
      unfolding f_live_def by auto
    then show ?thesis
      using True s1(1) False lim by (auto simp: finite_cycle_def Let_def simp flip: s2_def s3_def) (simp add: s3_def)
  next
    case idle: True
    have q: "f_central s2 = []" "source_total s2 = 0"
      using finite_phases_progress [OF s1(2), of] idle live by (simp_all add: s2_def)
    show ?thesis
    proof (cases "f_finished s2 = length events")
      case fin: True
      then show ?thesis using True s1(1) by (simp add: finite_cycle_def Let_def flip: s2_def)
    next
      case nd: False
      have "\<not> due s1" using live idle q by (intro idle_not_due [OF s1(2) _ s2_def]) simp_all
      from finite_phases_idle [OF this]
      have same: "f_upstream s2 = f_upstream s" "f_delay s2 = f_delay s" by (simp_all add: s2_def s1)
      have len: "length (f_upstream s2) = STREAMS" "length (f_delay s2) = STREAMS"
        using i2 by (simp_all add: f_inv_def f_wf_def)
      define m where "m = Min (set (next_arrivals s2))"
      have ne: "next_arrivals s2 \<noteq> []" by (rule upstream_left [OF i2 idle q nd])
      then have "m \<in> set (next_arrivals s2)" unfolding m_def by (intro Min_in) auto
      then obtain k e rest where k: "k < STREAMS" "f_upstream s2 ! k = e # rest" "m = arrival_cycle e + f_delay s2 ! k"
        using next_arrivals_iff [OF len] by blast
      have "\<not> due s" using \<open>\<not> due s1\<close> due_cong [of s1 s] s1 by simp
      then have "f_cycle s < m" using k same by (auto simp: due_def due_at_def not_le)
      moreover have "m \<le> latest" using late k same by simp
      moreover define s3 where "s3 = s2\<lparr>f_cycle := max (f_cycle s2 + 1) m\<rparr>"
      moreover have w3: "f_work s3 \<le> f_work s2" "f_waiting s3 = f_waiting s2"
        using idle by (simp_all add: s3_def f_work_def f_waiting_def running_work_def)
      ultimately have fits3: "max (f_cycle s3) latest + f_work s3 \<le> last_arrival + total_work events"
        using fits w2(1) c2 by simp
      have "f_inv lanes cap events s3" unfolding s3_def by (intro f_clock_inv i2) simp
      with fits3 late live sub w3(2) same have "f_live lanes cap events last_arrival s3"
        unfolding f_live_def by (auto simp: s3_def)
      then show ?thesis
        using True s1(1) idle q ne nd
        by (simp add: finite_cycle_def Let_def m_def [symmetric] s2_def [symmetric] s3_def)
    qed
  qed
qed (simp add: finite_cycle_def)

interpretation fv: cycles "finite_cycle lanes cap events" "f_live lanes cap events last_arrival" f_budget
  for lanes cap events last_arrival
proof unfold_locales
  fix s s' :: finite
  assume l: "f_live lanes cap events last_arrival s" and n: "finite_cycle lanes cap events s = Next s'"
  show "f_live lanes cap events last_arrival s'" using finite_cycle_live [OF l] n by simp
  show "f_budget s' < f_budget s" using l n by (intro fl.next_budget) (auto simp: f_live_def)
qed

lemma distribute_ok:
  assumes "\<forall>e \<in> set es. 0 \<le> stream_id e \<and> stream_id e < int STREAMS"
  shows "\<exists>up' ex'. distribute es up ex = Inr (up', ex')"
  using assms by (induction es arbitrary: up ex) (auto simp: py_index_nonneg)

lemma finite_run_converges:
  assumes co: "contiguous events" and d: "distribute events (replicate STREAMS []) (replicate STREAMS 0) = Inr (up, ex)"
    and s: "serviceable last_arrival events" and "0 < lanes" "0 < cap"
    and first: "first \<le> last_arrival" and limit: "last_arrival + total_work events \<le> FINITE_LIMIT"
  shows "\<exists>s. finite_run events up lanes cap first = Some (Inr s)"
proof -
  define s0 where "s0 = finite_init up lanes first"
  have "mset (concat up) = mset events"
    using distribute_mset [OF d] by simp
  then have w: "f_waiting s0 = mset events"
    by (simp add: f_waiting_def s0_def finite_init_def del: mset_concat)
  then have "f_work s0 = total_work events"
    by (simp add: f_work_def running_work_def total_work_def s0_def finite_init_def flip: sum_mset_sum_list)
  moreover have "\<forall>k < STREAMS. \<forall>e \<in> set (f_upstream s0 ! k). arrival_cycle e + f_delay s0 ! k \<le> last_arrival"
    using distribute_spec [OF d] s by (auto simp: s0_def finite_init_def serviceable_def)
  moreover have "f_inv lanes cap events s0" "f_cycle s0 = first"
    using f_inv_init [OF co d] by (simp_all add: s0_def finite_init_def)
  ultimately have l: "f_live lanes cap events last_arrival s0"
    using assms w unfolding f_live_def by auto
  have "loop (finite_cycle lanes cap events) s0 \<noteq> Some (Inl e)" for e
  proof
    assume "loop (finite_cycle lanes cap events) s0 = Some (Inl e)"
    from fv.loop_raised [OF l this] finite_cycle_live show False by fastforce
  qed
  with fv.loop_total [OF l] show ?thesis
    by (auto simp: finite_run_def s0_def) (metis sum.exhaust)
qed

end
