(* ===== verification/Finite_Props.thy ===== *)
theory Finite_Props
  imports Finite_Liveness
begin

text \<open>
  The properties of the finite-source replay: it always returns for a positive source depth and
  never for a non-positive one; what it starts, in which order and when; how far the queues fill.
\<close>

section \<open>From a loop result to the invariant\<close>

lemma finite_run_Inr:
  assumes "contiguous events" "distribute events (replicate STREAMS []) (replicate STREAMS 0) = Inr (up, ex)"
    and "0 < cap" "finite_run events up lanes cap cycle = Some (Inr s)"
  shows "f_inv lanes cap events s \<and> length events \<le> f_finished s"
proof -
  have "f_inv lanes cap events (finite_init up lanes cycle) \<and> 0 < cap"
    using f_inv_init [OF assms(1,2)] assms(3) by simp
  from fl.loop_returned [OF this assms(4) [unfolded finite_run_def]] finite_cycle_Done show ?thesis
    by blast
qed

lemma finite_run_checks:
  assumes "contiguous events" "distribute events (replicate STREAMS []) (replicate STREAMS 0) = Inr (up, ex)"
    and "0 < cap" "finite_run events up lanes cap cycle = Some (Inr s)"
  shows "finite_checks events ex s = Inr s"
proof -
  note r = finite_run_Inr [OF assms]
  note e = finite_done_empty [OF conjunct1 [OF r] conjunct2 [OF r]]
  have ex: "length ex = STREAMS" "\<forall>k < STREAMS. ex ! k = key_count k events"
    using f_inv_init [OF assms(1,2)] by auto
  have "f_completed s = ex"
  proof (rule nth_equalityI)
    show "length (f_completed s) = length ex" using r ex by (simp add: f_inv_def f_wf_def)
  next
    fix k assume "k < length (f_completed s)"
    then have k: "k < STREAMS" using r by (simp add: f_inv_def f_wf_def)
    have "f_flow k s = filter (\<lambda>e. key e = Inr k) events"
      "f_completed s ! k + int (length (filter (\<lambda>p. seq_key events (snd (snd p)) = Inr k) (f_busy s)))
        = key_count k (map fst (f_starts s))"
      using r k by (auto simp: f_inv_def f_keyed_def)
    with e k ex show "f_completed s ! k = ex ! k" by (simp add: f_flow_def key_count_def)
  qed
  with e show ?thesis by (simp add: finite_checks_def)
qed

lemma finite_run_key_order:
  assumes "contiguous events" "distribute events (replicate STREAMS []) (replicate STREAMS 0) = Inr (up, ex)"
    and "0 < cap" "finite_run events up lanes cap cycle = Some (Inr s)"
  shows "filter (\<lambda>e. key e = r) (map fst (f_starts s)) = filter (\<lambda>e. key e = r) events"
proof -
  note r = finite_run_Inr [OF assms]
  note e = finite_done_empty [OF conjunct1 [OF r] conjunct2 [OF r]]
  have valid: "\<forall>e \<in> set events. \<exists>k. key e = Inr k" using f_inv_init [OF assms(1,2)] by blast
  have started: "\<forall>e \<in> fst ` set (f_starts s). \<exists>k. key e = Inr k"
    using r unfolding f_inv_def f_keyed_def by blast
  show ?thesis
  proof (cases "\<exists>k < STREAMS. r = Inr k")
    case True
    then obtain k where k: "k < STREAMS" "r = Inr k" by blast
    have "f_flow k s = filter (\<lambda>e. key e = Inr k) events"
      using r k(1) by (auto simp: f_inv_def f_keyed_def)
    with e k show ?thesis by (simp add: f_flow_def)
  next
    case False
    then have "key e \<noteq> r" if "\<exists>k. key e = Inr k" for e using that key_less by blast
    with valid started show ?thesis by (auto simp: filter_empty_conv)
  qed
qed

text \<open>An in-range trace is distributed; an out-of-range stream raises before the loop.\<close>

lemma finite_replay_total:
  assumes "contiguous events" "0 < cap"
  shows "finite_replay events pcu_count cap \<noteq> None"
proof (cases "distribute events (replicate STREAMS []) (replicate STREAMS 0)")
  case (Inr p)
  obtain up ex where p: "p = (up, ex)" by (cases p)
  have "finite_run events up lanes cap cycle \<noteq> None" for lanes cycle
    unfolding finite_run_def using f_inv_init [OF assms(1) Inr [unfolded p]] assms(2)
    by (intro fl.loop_total) simp
  with Inr p show ?thesis by (simp add: finite_replay_def split: sum.split)
qed (simp add: finite_replay_def)

lemma finite_sweep_total:
  assumes "contiguous events" "\<forall>(p, d) \<in> set configs. 0 < d"
  shows "finite_sweep events configs \<noteq> None"
  using assms(2)
proof (induction configs)
  case (Cons c configs)
  then show ?case
    using finite_replay_total [OF assms(1), of "snd c" "fst c"]
    by (cases c) (auto split: option.splits sum.splits)
qed simp

lemma finite_sweep_rows:
  assumes "finite_sweep events configs = Some (Inr rows)" "row \<in> set rows"
  shows "\<exists>p d rs. (p, d) \<in> set configs \<and> finite_replay events p d = Some (Inr rs) \<and> row \<in> set rs"
  using assms
proof (induction configs arbitrary: rows)
  case (Cons c configs)
  obtain p d where c: "c = (p, d)" by (cases c)
  with Cons.prems obtain rs more where "finite_replay events p d = Some (Inr rs)"
    "finite_sweep events configs = Some (Inr more)" "rows = rs @ more"
    by (auto simp: and_then_eq_Inr split: option.splits sum.splits)
  with Cons c show ?case by fastforce
qed simp

lemma finite_row_peaks:
  assumes "finite_row_of pcu_count cap s st = Inr row"
  shows "fr_source_depth row = cap \<and> fr_central_peak_entries row = f_central_peak s \<and>
    fr_stage row = st \<and> fr_source_peak_per_stream row \<in> set (f_source_peak s)"
  using assms py_max_eq [of "f_source_peak s"] Max_in [of "set (f_source_peak s)"]
  by (cases "f_source_peak s = []") (auto simp: finite_row_of_def Let_def and_then_eq_Inr py_max_def)

lemma finite_row_of_returns:
  assumes "f_inv lanes cap events s" "length (f_starts s) \<le> 1000000"
    and "\<exists>e \<in> fst ` set (f_starts s). stage e = st"
  shows "\<exists>row. finite_row_of pcu_count cap s st = Inr row"
proof -
  define selected where "selected = filter (\<lambda>(event, _, _, _). stage event = st) (f_starts s)"
  define issues where "issues = map (\<lambda>(event, actual, _, _). actual - arrival_cycle event) selected"
  define waits where "waits = map (\<lambda>(event, _, start, _). start - arrival_cycle event) selected"
  have ne: "selected \<noteq> []" using assms(3) by (fastforce simp: selected_def filter_empty_conv)
  have "length selected \<le> length (f_starts s)" unfolding selected_def by (rule length_filter_le)
  then have len: "int (length issues) \<le> 2 ^ 53" "int (length waits) \<le> 2 ^ 53"
    using assms(2) by (simp_all add: issues_def waits_def)
  have timed: "\<forall>(e, actual, start, _) \<in> set selected. arrival_cycle e \<le> actual \<and> actual \<le> start"
    using assms(1) by (auto simp: selected_def f_inv_def f_timed_def)
  then have pos: "\<forall>x \<in> set issues. 0 \<le> x" "\<forall>x \<in> set waits. 0 \<le> x"
    by (fastforce simp: issues_def waits_def)+
  obtain p m where i: "percentile (sort issues) p95 = Inr p" "py_get (sort issues) (- 1) = Inr m"
    using wait_quantiles [of issues] ne len pos by (auto simp: issues_def)
  obtain p' m' where w: "percentile (sort waits) p95 = Inr p'" "py_get (sort waits) (- 1) = Inr m'"
    using wait_quantiles [of waits] ne len pos by (auto simp: waits_def)
  have "sort issues \<noteq> []" "sort waits \<noteq> []"
    using ne by (simp_all add: sort_eq_Nil issues_def waits_def)
  then obtain a a' where a: "mean (sort issues) = Inr a" "mean (sort waits) = Inr a'"
    using mean_nonempty by blast
  obtain c where c: "py_max (map (\<lambda>(_, _, _, completion). completion) selected) = Inr c"
    using py_max_eq [of "map (\<lambda>(_, _, _, completion). completion) selected"] ne by simp
  have "f_source_peak s \<noteq> []"
    using assms(1) STREAMS_pos by (metis f_inv_def f_wf_def less_numeral_extra(3) list.size(3))
  then obtain d where d: "py_max (f_source_peak s) = Inr d" using py_max_eq by blast
  show ?thesis
    unfolding finite_row_of_def Let_def selected_def [symmetric] issues_def [symmetric] waits_def [symmetric]
    using a i w c d by simp
qed

lemma finite_replay_converges:
  assumes "contiguous events" "serviceable last_arrival events"
    and "last_arrival + total_work events \<le> FINITE_LIMIT" "0 \<le> last_arrival" "8 \<le> pcu_count" "0 < cap"
    and "{expand_pointwise, project_pointwise} \<subseteq> stage ` set events"
  shows "\<exists>rs. finite_replay events pcu_count cap = Some (Inr rs) \<and> length rs = 2"
proof -
  have ne: "events \<noteq> []" using assms(7) by auto
  have lanes: "0 < nat (pcu_count div 8)" using assms(5) by (simp add: pos_imp_zdiv_pos_iff)
  obtain first where f: "py_min (map arrival_cycle events) = Inr first" using ne py_min_eq by fastforce
  then have le: "first \<le> last_arrival"
    using py_min_Inr assms(2) by (fastforce simp: serviceable_def)
  obtain up ex where d: "distribute events (replicate STREAMS []) (replicate STREAMS 0) = Inr (up, ex)"
    using distribute_ok assms(2) unfolding serviceable_def by blast
  obtain s where s: "finite_run events up (nat (pcu_count div 8)) cap first = Some (Inr s)"
    using finite_run_converges [OF assms(1) d assms(2) lanes assms(6) le assms(3)] by blast
  note inv = conjunct1 [OF finite_run_Inr [OF assms(1) d assms(6) s]]
  have st: "mset (map fst (f_starts s)) = mset events"
    by (rule mset_eq_by_key [of key]) (rule finite_run_key_order [OF assms(1) d assms(6) s])
  have "int (length events) \<le> total_work events"
    using assms(2) unfolding total_work_def serviceable_def by (induction events) auto
  then have "length (f_starts s) \<le> 1000000"
    using assms(3,4) arg_cong [OF st, of size] by (simp add: FINITE_LIMIT_def)
  moreover have "fst ` set (f_starts s) = set events" using st by (metis list.set_map set_mset_mset)
  ultimately have row: "\<exists>row. finite_row_of pcu_count cap s st = Inr row" if "st \<in> stage ` set events" for st
    using finite_row_of_returns [OF inv, of st pcu_count] that by auto
  have "expand_pointwise \<in> stage ` set events" "project_pointwise \<in> stage ` set events"
    using assms(7) by simp_all
  then obtain r1 r2 where "finite_row_of pcu_count cap s expand_pointwise = Inr r1"
    "finite_row_of pcu_count cap s project_pointwise = Inr r2" using row by meson
  with f d s finite_run_checks [OF assms(1) d assms(6) s] show ?thesis
    by (simp add: finite_replay_def)
qed

lemma finite_main_all_rows:
  assumes "contiguous (sort_key sequence trace)" "serviceable last_arrival trace"
    and "last_arrival + total_work trace \<le> FINITE_LIMIT" "0 \<le> last_arrival"
    and "{expand_pointwise, project_pointwise} \<subseteq> stage ` set trace"
  shows "\<exists>rows. finite_main trace = Some (Inr rows) \<and> length rows = 18"
proof -
  define events where "events = sort_key sequence trace"
  have m: "mset events = mset trace" by (simp add: events_def)
  then have ev: "set events = set trace" by (metis set_mset_mset)
  have "total_work events = total_work trace"
    using m unfolding total_work_def by (metis mset_map sum_mset_sum_list)
  then have live: "contiguous events" "serviceable last_arrival events"
      "last_arrival + total_work events \<le> FINITE_LIMIT"
    using assms ev by (simp_all add: events_def serviceable_def)
  have "\<exists>rs. finite_replay events p d = Some (Inr rs) \<and> length rs = 2" if "8 \<le> p" "0 < d" for p d
    using finite_replay_converges [OF live assms(4) that] assms(5) ev by simp
  then have "\<exists>rows. finite_sweep events configs = Some (Inr rows) \<and> length rows = 2 * length configs"
    if "\<forall>(p, d) \<in> set configs. 8 \<le> p \<and> 0 < d" for configs
    using that
  proof (induction configs)
    case (Cons c configs)
    obtain p d where c: "c = (p, d)" by (cases c)
    with Cons obtain rs more where "finite_replay events p d = Some (Inr rs)" "length rs = 2"
      "finite_sweep events configs = Some (Inr more)" "length more = 2 * length configs" by fastforce
    with c show ?case by simp
  qed simp
  moreover have "\<forall>(p, d) \<in> set finite_configs. 8 \<le> p \<and> 0 < d" "length finite_configs = 9"
    by (auto simp: finite_configs_def FINITE_PCU_COUNTS_def SOURCE_DEPTHS_def)
  ultimately show ?thesis using live(1) by (fastforce simp: finite_main_def Let_def events_def)
qed

section \<open>Properties\<close>

text \<open>
  The script always ends: for every trace \<open>main\<close> returns rows or raises. The cycle
  limit is not checked on the idle-jump path of the loop, so this needs the argument that two
  jumps never follow each other without progress.
\<close>

theorem finite_main_returns: "finite_main trace \<noteq> None"
proof (cases "contiguous (sort_key sequence trace)")
  case True
  have "\<forall>(p, d) \<in> set finite_configs. 0 < d"
    by (auto simp: finite_configs_def FINITE_PCU_COUNTS_def SOURCE_DEPTHS_def)
  from finite_sweep_total [OF True this] show ?thesis by (simp add: finite_main_def Let_def)
qed (simp add: finite_main_def Let_def)

text \<open>
  C39: a non-positive source depth makes the replay loop for ever on every non-empty
  contiguous trace of in-range streams: nothing is ever issued, and the limit of the cycle
  count is only checked where the clock advances by one.
\<close>

theorem finite_replay_zero_depth_diverges:
  assumes "contiguous events" "events \<noteq> []" "source_capacity \<le> 0"
    and "\<forall>e \<in> set events. 0 \<le> stream_id e \<and> stream_id e < int STREAMS"
  shows "finite_replay events pcu_count source_capacity = None"
proof -
  obtain up ex where d: "distribute events (replicate STREAMS []) (replicate STREAMS 0) = Inr (up, ex)"
    using distribute_ok [OF assms(4)] by blast
  have "finite_run events up lanes source_capacity cycle = None" for lanes cycle
    unfolding finite_run_def
  proof (rule loop_never_returns [where P = "\<lambda>s. f_inv lanes source_capacity events s \<and> f_issued s = 0"])
    show "f_inv lanes source_capacity events (finite_init up lanes cycle) \<and> f_issued (finite_init up lanes cycle) = 0"
      using f_inv_init [OF assms(1) d] by (simp add: finite_init_def)
  qed (use blocked_cycle [OF _ assms(3,2)] in blast)
  moreover obtain c where "py_min (map arrival_cycle events) = Inr c"
    using assms(2) py_min_eq by fastforce
  ultimately show ?thesis using d by (simp add: finite_replay_def)
qed

text \<open>
  C14: whenever the replay loop returns, the started requests are a permutation of the
  trace and none of the three final RuntimeErrors (lost requests, pending state, per-stream
  completion mismatch) can be raised; the only error of the loop itself is non-convergence.
\<close>

theorem finite_run_loses_nothing:
  assumes "contiguous events" "distribute events (replicate STREAMS []) (replicate STREAMS 0) = Inr (up, expected)"
    and "0 < source_capacity"
  shows "case finite_run events up lanes source_capacity cycle of
           None \<Rightarrow> False
         | Some (Inl e) \<Rightarrow> e = RuntimeError ''finite source replay did not converge''
         | Some (Inr s) \<Rightarrow> mset (map fst (f_starts s)) = mset events \<and> finite_checks events expected s = Inr s"
proof -
  have i: "f_inv lanes source_capacity events (finite_init up lanes cycle) \<and> 0 < source_capacity"
    using f_inv_init [OF assms(1,2)] assms(3) by simp
  show ?thesis
  proof (cases "finite_run events up lanes source_capacity cycle")
    case None
    then show ?thesis using fl.loop_total [OF i] by (simp add: finite_run_def)
  next
    case (Some r)
    show ?thesis
    proof (cases r)
      case (Inl e)
      with Some fl.loop_raised [OF i] finite_cycle_Raise show ?thesis by (auto simp: finite_run_def)
    next
      case (Inr s)
      with Some have s: "finite_run events up lanes source_capacity cycle = Some (Inr s)" by simp
      have "mset (map fst (f_starts s)) = mset events"
        by (rule mset_eq_by_key [of key]) (rule finite_run_key_order [OF assms s])
      with finite_run_checks [OF assms s] s show ?thesis by simp
    qed
  qed
qed

text \<open>
  C33: backpressure never reorders a stream: its requests start in trace order, each no
  earlier than it was issued into its source queue and that no earlier than it arrived, and
  complete exactly their service time later; no more requests than lanes are in service.
\<close>

theorem finite_run_order_timing:
  assumes "contiguous events" "distribute events (replicate STREAMS []) (replicate STREAMS 0) = Inr (up, expected)"
    and "0 < source_capacity" "finite_run events up lanes source_capacity cycle = Some (Inr s)"
  shows "filter (\<lambda>e. stream_id e = i) (map fst (f_starts s)) = filter (\<lambda>e. stream_id e = i) events \<and>
    (\<forall>(e, issued, start, completion) \<in> set (f_starts s).
       arrival_cycle e \<le> issued \<and> issued \<le> start \<and> completion = start + service_cycles e) \<and>
    (\<forall>t. in_service t (map (\<lambda>p. snd (snd p)) (f_starts s)) \<le> lanes)"
proof -
  have "filter (\<lambda>e. stream_id e = i) (map fst (f_starts s)) = filter (\<lambda>e. stream_id e = i) events"
    using finite_run_key_order [OF assms, of "py_index STREAMS i"] by (metis filter_stream_key)
  moreover have "f_timed lanes s" using finite_run_Inr [OF assms] by (simp add: f_inv_def)
  ultimately show ?thesis by (auto simp: f_timed_def)
qed

text \<open>
  C31: no queue ever exceeds its capacity: in every row the script reports, the source peak
  is at most the source depth of that configuration and the central peak at most 64.
\<close>

theorem finite_main_queue_bounds:
  assumes "finite_main trace = Some (Inr rows)" "row \<in> set rows"
  shows "fr_source_peak_per_stream row \<le> fr_source_depth row \<and>
    fr_central_peak_entries row \<le> int CENTRAL_DEPTH \<and> fr_source_depth row \<in> set SOURCE_DEPTHS"
proof -
  define events where "events = sort_key sequence trace"
  have co: "contiguous events" using assms(1) by (auto simp: finite_main_def Let_def events_def split: if_splits)
  have "finite_sweep events finite_configs = Some (Inr rows)"
    using assms(1) co by (simp add: finite_main_def Let_def events_def)
  from finite_sweep_rows [OF this assms(2)]
  obtain p d rs where c: "d \<in> set SOURCE_DEPTHS" "finite_replay events p d = Some (Inr rs)" "row \<in> set rs"
    by (auto simp: finite_configs_def)
  then obtain up ex cycle s where s: "distribute events (replicate STREAMS []) (replicate STREAMS 0) = Inr (up, ex)"
      "finite_run events up (nat (p div 8)) d cycle = Some (Inr s)"
      "map_r (finite_row_of p d s) [expand_pointwise, project_pointwise] = Inr rs"
    using finite_run_checks [OF co] by (auto simp: finite_replay_def and_then_eq_Inr finite_checks_def split: sum.splits if_splits)
  obtain st where "finite_row_of p d s st = Inr row" using map_r_set [OF s(3) c(3)] by blast
  note row = finite_row_peaks [OF this]
  have pos: "0 < d" using c(1) by (auto simp: SOURCE_DEPTHS_def)
  have "f_wf (nat (p div 8)) d s" using finite_run_Inr [OF co s(1) pos s(2)] by (simp add: f_inv_def)
  with row pos c(1) show ?thesis by (auto simp: f_wf_def)
qed


section \<open>Witnesses\<close>

definition burst_request :: "int \<Rightarrow> string \<Rightarrow> int \<Rightarrow> int \<Rightarrow> request" where
  "burst_request seq st stream arrival =
     \<lparr>sequence = seq, stage = st, stream_id = stream, arrival_cycle = arrival,
      service_start_cycle = arrival, service_cycles = 4, completion_cycle = arrival + 4,
      queue_cycles = 0, blocks = 8, coalesced = 0, transfer_bytes = 64\<rparr>"

definition burst_trace :: "request list" where
  "burst_trace = [burst_request 0 expand_pointwise 3 5, burst_request 1 project_pointwise 0 5,
     burst_request 2 expand_pointwise 3 5]"

lemmas burst_defs = burst_trace_def burst_request_def

lemma burst_contiguous: "contiguous burst_trace"
  by (simp add: contiguous_def burst_defs)

lemma burst_serviceable: "serviceable 5 burst_trace"
  by (simp add: serviceable_def burst_defs STREAMS_def)

lemma burst_run:
  "\<exists>up expected s. distribute burst_trace (replicate STREAMS []) (replicate STREAMS 0) = Inr (up, expected) \<and>
     finite_run burst_trace up 2 1 5 = Some (Inr s)"
proof -
  have "\<forall>e \<in> set burst_trace. 0 \<le> stream_id e \<and> stream_id e < int STREAMS"
    using burst_serviceable by (simp add: serviceable_def)
  then obtain up ex where d: "distribute burst_trace (replicate STREAMS []) (replicate STREAMS 0) = Inr (up, ex)"
    using distribute_ok by blast
  have "\<exists>s. finite_run burst_trace up 2 1 5 = Some (Inr s)"
    by (rule finite_run_converges [OF burst_contiguous d burst_serviceable])
      (simp_all add: total_work_def burst_defs FINITE_LIMIT_def)
  with d show ?thesis by blast
qed

lemma burst_rows: "\<exists>rows. finite_main burst_trace = Some (Inr rows) \<and> rows \<noteq> []"
proof -
  have "\<exists>rows. finite_main burst_trace = Some (Inr rows) \<and> length rows = 18"
    by (rule finite_main_all_rows [OF _ burst_serviceable])
      (simp_all add: total_work_def contiguous_def burst_defs FINITE_LIMIT_def)
  then show ?thesis by fastforce
qed

theorem finite_replay_zero_depth_diverges_witness: "finite_replay burst_trace 16 0 = None"
  using burst_serviceable
  by (intro finite_replay_zero_depth_diverges burst_contiguous) (auto simp: serviceable_def burst_trace_def)

theorem finite_run_loses_nothing_witness:
  "\<exists>up s. finite_run burst_trace up 2 1 5 = Some (Inr s) \<and> mset (map fst (f_starts s)) = mset burst_trace"
proof -
  obtain up ex s where s: "distribute burst_trace (replicate STREAMS []) (replicate STREAMS 0) = Inr (up, ex)"
    "finite_run burst_trace up 2 1 5 = Some (Inr s)" using burst_run by blast
  from finite_run_loses_nothing [OF burst_contiguous s(1), of 1 2 5] s(2) show ?thesis by auto
qed

theorem finite_run_order_timing_witness:
  "\<exists>up s. finite_run burst_trace up 2 1 5 = Some (Inr s) \<and>
     filter (\<lambda>e. stream_id e = 3) (map fst (f_starts s)) =
       [burst_request 0 expand_pointwise 3 5, burst_request 2 expand_pointwise 3 5]"
proof -
  obtain up ex s where s: "distribute burst_trace (replicate STREAMS []) (replicate STREAMS 0) = Inr (up, ex)"
    "finite_run burst_trace up 2 1 5 = Some (Inr s)" using burst_run by blast
  from finite_run_order_timing [OF burst_contiguous s(1) _ s(2), of 3]
  have "filter (\<lambda>e. stream_id e = 3) (map fst (f_starts s)) = filter (\<lambda>e. stream_id e = 3) burst_trace" by simp
  with s(2) show ?thesis by (intro exI [of _ up] exI [of _ s]) (simp add: burst_defs)
qed


theorem finite_main_queue_bounds_witness:
  "\<exists>row rows. finite_main burst_trace = Some (Inr (row # rows)) \<and> fr_central_peak_entries row \<le> 64"
proof -
  have "\<exists>rows. finite_main burst_trace = Some (Inr rows) \<and> rows \<noteq> []"
    by (rule burst_rows)
  then obtain row rows where r: "finite_main burst_trace = Some (Inr (row # rows))"
    by (metis neq_Nil_conv)
  from finite_main_queue_bounds [OF r, of row] r show ?thesis by (auto simp: CENTRAL_DEPTH_def)
qed

end
