(* ===== verification/Json.thy ===== *)
theory Json
  imports Prelude Complex_Main
begin

text \<open>
  JSON values as Python holds them after \<open>json.loads\<close>, and the operations the gate scripts
  apply to them: \<open>==\<close>, truthiness, \<open>get\<close>, subscription, \<open>in\<close>, \<open>len\<close>,
  \<open>items\<close> and \<open>values\<close>, each with the exception it raises on a value of another type.
  An object is its list of items in insertion order, keys distinct.
\<close>

section \<open>Values\<close>

datatype py_float = Finite rat | Pos_Inf | Neg_Inf | NaN

datatype json =
    JNull
  | JBool bool
  | JInt int
  | JFloat py_float
  | JStr string
  | JArr "json list"
  | JObj "(string \<times> json) list"

text \<open>
  Numbers compare by value whatever their type, and \<open>True\<close> and \<open>False\<close> are the numbers
  1 and 0. NaN differs from everything.
\<close>

fun numeric :: "json \<Rightarrow> py_float option" where
  "numeric (JBool b) = Some (Finite (if b then 1 else 0))"
| "numeric (JInt i) = Some (Finite (of_int i))"
| "numeric (JFloat x) = Some x"
| "numeric _ = None"

fun py_eq :: "json \<Rightarrow> json \<Rightarrow> bool"
  and py_eq_list :: "json list \<Rightarrow> json list \<Rightarrow> bool"
  and py_eq_items :: "(string \<times> json) list \<Rightarrow> (string \<times> json) list \<Rightarrow> bool" where
  "py_eq (JArr xs) (JArr ys) = py_eq_list xs ys"
| "py_eq (JObj xs) (JObj ys) = (length xs = length ys \<and> py_eq_items xs ys)"
| "py_eq (JStr s) (JStr t) = (s = t)"
| "py_eq JNull JNull = True"
| "py_eq x y =
     (case (numeric x, numeric y) of (Some a, Some b) \<Rightarrow> a = b \<and> a \<noteq> NaN | _ \<Rightarrow> False)"
| "py_eq_list [] [] = True"
| "py_eq_list (x # xs) (y # ys) = (py_eq x y \<and> py_eq_list xs ys)"
| "py_eq_list _ _ = False"
| "py_eq_items [] ys = True"
| "py_eq_items ((k, x) # xs) ys =
     (case map_of ys k of None \<Rightarrow> False | Some y \<Rightarrow> py_eq x y \<and> py_eq_items xs ys)"

fun truthy :: "json \<Rightarrow> bool" where
  "truthy JNull = False"
| "truthy (JBool b) = b"
| "truthy (JInt i) = (i \<noteq> 0)"
| "truthy (JFloat x) = (x \<noteq> Finite 0)"
| "truthy (JStr s) = (s \<noteq> [])"
| "truthy (JArr xs) = (xs \<noteq> [])"
| "truthy (JObj xs) = (xs \<noteq> [])"

section \<open>Access\<close>

fun get :: "json \<Rightarrow> string \<Rightarrow> json \<Rightarrow> json result" where
  "get (JObj items) k d = Inr (case map_of items k of None \<Rightarrow> d | Some v \<Rightarrow> v)"
| "get _ k d = Inl (AttributeError ''get'')"

fun subscript :: "json \<Rightarrow> string \<Rightarrow> json result" where
  "subscript (JObj items) k = (case map_of items k of None \<Rightarrow> Inl (KeyError k) | Some v \<Rightarrow> Inr v)"
| "subscript _ k = Inl (TypeError ''not subscriptable by a string'')"

fun items :: "json \<Rightarrow> (string \<times> json) list result" where
  "items (JObj kvs) = Inr kvs"
| "items _ = Inl (AttributeError ''items'')"

fun py_values :: "json \<Rightarrow> json list result" where
  "py_values (JObj kvs) = Inr (map snd kvs)"
| "py_values _ = Inl (AttributeError ''values'')"

text \<open>\<open>sub in text\<close> and \<open>text.count(sub)\<close> on strings.\<close>

fun is_prefix :: "string \<Rightarrow> string \<Rightarrow> bool" where
  "is_prefix [] s = True"
| "is_prefix (c # p) [] = False"
| "is_prefix (c # p) (d # s) = (c = d \<and> is_prefix p s)"

fun substring :: "string \<Rightarrow> string \<Rightarrow> bool" where
  "substring p [] = (p = [])"
| "substring p (c # s) = (is_prefix p (c # s) \<or> substring p s)"

function count_sub :: "string \<Rightarrow> string \<Rightarrow> nat" where
  "count_sub p s =
     (if p = [] then length s + 1
      else case s of [] \<Rightarrow> 0
           | c # rest \<Rightarrow> if is_prefix p s then Suc (count_sub p (drop (length p) s)) else count_sub p rest)"
  by pat_completeness auto
termination by (relation "measure (length \<circ> snd)") auto

declare count_sub.simps [simp del]

text \<open>\<open>key in value\<close>: list membership, substring or key test.\<close>

fun py_in :: "string \<Rightarrow> json \<Rightarrow> bool result" where
  "py_in k (JArr xs) = Inr (\<exists>x \<in> set xs. py_eq x (JStr k))"
| "py_in k (JStr s) = Inr (substring k s)"
| "py_in k (JObj kvs) = Inr (k \<in> fst ` set kvs)"
| "py_in k _ = Inl (TypeError ''argument is not iterable'')"

fun py_len :: "json \<Rightarrow> int result" where
  "py_len (JArr xs) = Inr (int (length xs))"
| "py_len (JStr s) = Inr (int (length s))"
| "py_len (JObj kvs) = Inr (int (length kvs))"
| "py_len _ = Inl (TypeError ''object has no len()'')"

text \<open>A chain \<open>a and b and ...\<close> of tests that may raise: later tests run only after a true one.\<close>

definition and_also :: "bool result \<Rightarrow> bool result \<Rightarrow> bool result" where
  "and_also a b = and_then a (\<lambda>x. if x then b else Inr False)"

fun all_of :: "bool result list \<Rightarrow> bool result" where
  "all_of [] = Inr True"
| "all_of (t # ts) = and_also t (all_of ts)"

definition get_eq :: "json \<Rightarrow> string \<Rightarrow> json \<Rightarrow> bool result" where
  "get_eq obj k v = and_then (get obj k JNull) (\<lambda>x. Inr (py_eq x v))"

text \<open>\<open>x is True\<close>: identity with the constant, not equality.\<close>

definition get_is_true :: "json \<Rightarrow> string \<Rightarrow> bool result" where
  "get_is_true obj k = and_then (get obj k JNull) (\<lambda>x. Inr (x = JBool True))"

section \<open>Facts\<close>

lemma py_eq_from_Str [simp]: "py_eq (JStr s) x \<longleftrightarrow> x = JStr s"
  by (cases x) auto

lemma py_eq_from_Null [simp]: "py_eq JNull x \<longleftrightarrow> x = JNull"
  by (cases x) auto

lemma py_eq_Str [simp]: "py_eq x (JStr s) \<longleftrightarrow> x = JStr s"
  by (cases x) auto

lemma py_eq_int: "py_eq x (JInt i) \<longleftrightarrow> numeric x = Some (Finite (of_int i))"
  by (cases x) (auto split: if_splits)

lemma py_eq_from_int: "py_eq (JInt i) x \<longleftrightarrow> numeric x = Some (Finite (of_int i))"
  by (cases x) (auto split: if_splits)

lemma py_eq_zero: "py_eq x (JInt 0) \<longleftrightarrow> x = JInt 0 \<or> x = JFloat (Finite 0) \<or> x = JBool False"
  by (cases x) auto

declare py_eq.simps [simp del]

lemma and_also_True: "and_also a b = Inr True \<longleftrightarrow> a = Inr True \<and> b = Inr True"
  by (cases a) (auto simp: and_also_def)

lemma all_of_True: "all_of ts = Inr True \<longleftrightarrow> (\<forall>t \<in> set ts. t = Inr True)"
  by (induction ts) (auto simp: and_also_True)

lemma and_also_no_error:
  "a = Inr x \<Longrightarrow> b = Inr y \<Longrightarrow> and_also a b = Inr (x \<and> y)"
  by (simp add: and_also_def)

lemma get_eq_True: "get_eq obj k v = Inr True \<longleftrightarrow> (\<exists>x. get obj k JNull = Inr x \<and> py_eq x v)"
  by (auto simp: get_eq_def and_then_eq_Inr)

lemma get_is_true_True: "get_is_true obj k = Inr True \<longleftrightarrow> get obj k JNull = Inr (JBool True)"
  by (auto simp: get_is_true_def and_then_eq_Inr)

lemma is_prefix_iff: "is_prefix p s \<longleftrightarrow> (\<exists>t. s = p @ t)"
  by (induction p s rule: is_prefix.induct) auto

lemma substring_iff: "substring p s \<longleftrightarrow> (\<exists>a b. s = a @ p @ b)"
proof (induction s)
  case (Cons c s)
  show ?case
  proof
    assume "substring p (c # s)"
    then consider "is_prefix p (c # s)" | "substring p s" by auto
    then show "\<exists>a b. c # s = a @ p @ b"
    proof cases
      case 1
      then obtain t where "c # s = p @ t" by (auto simp: is_prefix_iff)
      then show ?thesis by (intro exI [of _ "[]"] exI [of _ t]) simp
    next
      case 2
      with Cons obtain a b where "s = a @ p @ b" by blast
      then show ?thesis by (intro exI [of _ "c # a"] exI [of _ b]) simp
    qed
  next
    assume "\<exists>a b. c # s = a @ p @ b"
    then obtain a b where ab: "c # s = a @ p @ b" by blast
    show "substring p (c # s)"
    proof (cases a)
      case Nil
      with ab have "is_prefix p (c # s)" unfolding is_prefix_iff by simp
      then show ?thesis by simp
    next
      case (Cons d a')
      with ab have "s = a' @ p @ b" by simp
      then have "substring p s" using Cons.IH by blast
      then show ?thesis by simp
    qed
  qed
qed auto

end
