(* ===== verification/Host.thy ===== *)
theory Host
  imports Json
begin

text \<open>
  What the gate scripts see of the machine: a file system, given as a map from paths to file
  contents with the set of directories, and an environment of library functions they only
  call. \<open>sha\<close> is \<open>hashlib.sha256(...).hexdigest()\<close>, \<open>decode\<close> UTF-8 decoding,
  \<open>loads\<close> decoding and \<open>json.loads\<close>, \<open>dumps\<close> the bytes a script writes for a JSON
  value, \<open>now\<close> the UTC time stamp and \<open>root\<close> the resolved repository root. All are
  parameters of the model.
\<close>

record host =
  files :: "string \<Rightarrow> string option"
  dirs :: "string \<Rightarrow> bool"

record env =
  sha :: "string \<Rightarrow> string"
  decode :: "string \<Rightarrow> string result"
  loads :: "string \<Rightarrow> json result"
  dumps :: "json \<Rightarrow> string"
  now :: string
  root :: string

section \<open>Paths\<close>

text \<open>
  \<open>str(Path(s))\<close> on POSIX: empty and \<open>.\<close> components disappear, a leading slash stays
  (two stay two), and nothing at all is the current directory.
\<close>

fun split_slash :: "string \<Rightarrow> string \<Rightarrow> string list" where
  "split_slash [] acc = [rev acc]"
| "split_slash (c # s) acc = (if c = CHR ''/'' then rev acc # split_slash s [] else split_slash s (c # acc))"

fun join_slash :: "string list \<Rightarrow> string" where
  "join_slash [] = []"
| "join_slash [p] = p"
| "join_slash (p # ps) = p @ ''/'' @ join_slash ps"

definition path_str :: "string \<Rightarrow> string" where
  "path_str s =
     (let parts = filter (\<lambda>p. p \<noteq> [] \<and> p \<noteq> ''.'') (split_slash s []);
          prefix = (if take 2 s = ''//'' \<and> take 3 s \<noteq> ''///'' then ''//''
                    else if take 1 s = ''/'' then ''/'' else '''');
          text = prefix @ join_slash parts
      in if text = '''' then ''.'' else text)"

text \<open>\<open>Path(value)\<close> for a JSON value: only strings are accepted.\<close>

fun to_path :: "json \<Rightarrow> string result" where
  "to_path (JStr s) = Inr (path_str s)"
| "to_path _ = Inl (TypeError ''expected str, bytes or os.PathLike object'')"

text \<open>\<open>parent / relative\<close> for normalised operands.\<close>

definition under :: "string \<Rightarrow> string \<Rightarrow> string" where
  "under parent relative = (if parent = ''/'' then ''/'' @ relative else parent @ ''/'' @ relative)"

lemma under_inject [simp]: "under parent a = under parent b \<longleftrightarrow> a = b"
  by (simp add: under_def)

section \<open>Files\<close>

definition is_file :: "host \<Rightarrow> string \<Rightarrow> bool" where
  "is_file h p \<longleftrightarrow> files h p \<noteq> None"

definition exists :: "host \<Rightarrow> string \<Rightarrow> bool" where
  "exists h p \<longleftrightarrow> is_file h p \<or> dirs h p"

definition read_bytes :: "host \<Rightarrow> string \<Rightarrow> string result" where
  "read_bytes h p =
     (case files h p of Some b \<Rightarrow> Inr b
      | None \<Rightarrow> Inl (if dirs h p then IsADirectoryError p else FileNotFoundError p))"

text \<open>Writing where the path is known not to be a directory and its parent to exist.\<close>

definition write_file :: "string \<Rightarrow> string \<Rightarrow> host \<Rightarrow> host" where
  "write_file p b h = h\<lparr>files := (files h)(p := Some b)\<rparr>"

section \<open>Directories\<close>

text \<open>\<open>str(path.parent)\<close>\<close>

definition parent_of :: "string \<Rightarrow> string" where
  "parent_of p =
     (let d = rev (dropWhile (\<lambda>c. c \<noteq> CHR ''/'') (rev p))
      in if d = [] then ''.'' else if list_all (\<lambda>c. c = CHR ''/'') d then d else butlast d)"

text \<open>
  \<open>path.mkdir(parents=True, exist_ok=True)\<close> creates the directory and those above it,
  unless a file is in the way.
\<close>

fun path_prefixes :: "string \<Rightarrow> string \<Rightarrow> string list" where
  "path_prefixes [] acc = [rev acc]"
| "path_prefixes (c # s) acc =
     (if c = CHR ''/'' \<and> acc \<noteq> [] then rev acc # path_prefixes s (c # acc) else path_prefixes s (c # acc))"

definition make_dirs :: "string \<Rightarrow> host \<Rightarrow> host result" where
  "make_dirs p h =
     (if is_file h p then Inl (FileExistsError p)
      else if list_ex (is_file h) (path_prefixes p []) then Inl (NotADirectoryError p)
      else Inr (h\<lparr>dirs := (\<lambda>d. dirs h d \<or> d \<in> set (path_prefixes p []))\<rparr>))"

text \<open>\<open>path.write_text(text)\<close>, where the path may be a directory.\<close>

definition write_text :: "string \<Rightarrow> string \<Rightarrow> host \<Rightarrow> host result" where
  "write_text p b h = (if dirs h p then Inl (IsADirectoryError p) else Inr (write_file p b h))"

section \<open>Reading\<close>

text \<open>The helpers every gate script defines: \<open>sha256\<close>, \<open>load\<close> and \<open>evidence\<close>.\<close>

definition sha256 :: "env \<Rightarrow> host \<Rightarrow> string \<Rightarrow> json result" where
  "sha256 env h p = and_then (read_bytes h p) (\<lambda>b. Inr (JStr (sha env b)))"

definition read_text :: "env \<Rightarrow> host \<Rightarrow> string \<Rightarrow> string result" where
  "read_text env h p = and_then (read_bytes h p) (decode env)"

definition load :: "env \<Rightarrow> host \<Rightarrow> string \<Rightarrow> json result" where
  "load env h p =
     and_then (read_bytes h p) (\<lambda>b. and_then (loads env b) (\<lambda>value.
       case value of JObj _ \<Rightarrow> Inr value | _ \<Rightarrow> Inl (ValueError ''expected JSON object'')))"

definition evidence :: "env \<Rightarrow> host \<Rightarrow> string \<Rightarrow> json result" where
  "evidence env h p =
     and_then (sha256 env h p) (\<lambda>d. Inr (JObj [(''path'', JStr p), (''sha256'', d)]))"

section \<open>Facts\<close>

lemma read_bytes_Inr: "read_bytes h p = Inr b \<longleftrightarrow> files h p = Some b"
  by (auto simp: read_bytes_def split: option.split)

lemma load_Inr: "load env h p = Inr v \<longleftrightarrow> (\<exists>b kvs. files h p = Some b \<and> loads env b = Inr v \<and> v = JObj kvs)"
proof -
  have "(case v' of JObj _ \<Rightarrow> Inr v' | _ \<Rightarrow> Inl e) = Inr v \<longleftrightarrow> v' = v \<and> (\<exists>kvs. v = JObj kvs)"
    for v' :: json and e :: exn by (cases v') auto
  then show ?thesis by (auto simp: load_def and_then_eq_Inr read_bytes_Inr)
qed

lemma write_file_sel [simp]:
  "files (write_file p b h) = (files h)(p := Some b)" "dirs (write_file p b h) = dirs h"
  by (simp_all add: write_file_def)

lemma exists_write_file [simp]: "exists (write_file p b h) p"
  by (simp add: exists_def is_file_def)

lemma make_dirs_Inr:
  assumes "make_dirs p h = Inr h'"
  shows "files h' = files h" "dirs h d \<Longrightarrow> dirs h' d" "exists h d \<Longrightarrow> exists h' d"
  using assms by (auto simp: make_dirs_def exists_def is_file_def split: if_splits)

lemma to_path_Inr: "to_path v = Inr p \<longleftrightarrow> (\<exists>s. v = JStr s \<and> p = path_str s)"
  by (cases v) auto

lemma evidence_Inr:
  "evidence env h p = Inr v \<longleftrightarrow>
     (\<exists>b. files h p = Some b \<and> v = JObj [(''path'', JStr p), (''sha256'', JStr (sha env b))])"
  by (auto simp: evidence_def sha256_def and_then_eq_Inr read_bytes_Inr)

end
