(* ===== verification/Strict_Gate.thy ===== *)
theory Strict_Gate
  imports Host
begin

text \<open>
  The Phase 6 strict gates \<open>tools/decide_b*_phase6_strict_gate.py\<close>: one script per variant
  decides, from the placement report, the route authorization, the route report and the
  congestion analysis, whether the variant may go on to clock-tree synthesis. The scripts
  share one body and differ in paths, names and texts, which are the fields of
  \<open>gate_variant\<close>; B3 has a weaker route contract, B3 to B5 no authorization.
\<close>

section \<open>The decision\<close>

text \<open>
  Paths are relative to the repository root. \<open>gv_route_contract\<close>: the script also tests the
  CUGR iteration count and the protected artifacts of the route report.
\<close>

record gate_variant =
  gv_name :: string
  gv_report :: string
  gv_placement :: string
  gv_authorization :: "string option"
  gv_route :: string
  gv_analysis :: string
  gv_route_contract :: bool
  gv_pass_reason :: string
  gv_recovery :: string

definition gv_output :: "gate_variant \<Rightarrow> string" where
  "gv_output v = gv_report v @ ''/phase6_decision_gate.json''"

definition cts_stage :: "gate_variant \<Rightarrow> string" where
  "cts_stage v = gv_name v @ ''_PHASE6_CTS''"

text \<open>The four \<open>load\<close> calls, in order.\<close>

definition gate_load :: "gate_variant \<Rightarrow> env \<Rightarrow> host \<Rightarrow> (json \<times> json option \<times> json \<times> json) result" where
  "gate_load v env h =
     (let loc = under (root env) in
      and_then (load env h (loc (gv_placement v))) (\<lambda>placement.
      and_then (case gv_authorization v of
                  None \<Rightarrow> Inr None
                | Some p \<Rightarrow> and_then (load env h (loc p)) (\<lambda>a. Inr (Some a))) (\<lambda>authorization.
      and_then (load env h (loc (gv_route v))) (\<lambda>route.
      and_then (load env h (loc (gv_analysis v))) (\<lambda>analysis.
        Inr (placement, authorization, route, analysis))))))"

text \<open>One entry of the loop over the route outputs: the check recorded and its \<open>match\<close>.\<close>

definition artifact_check :: "env \<Rightarrow> host \<Rightarrow> string \<times> json \<Rightarrow> (json \<times> bool) result" where
  "artifact_check env h entry =
     (let (name, item) = entry in
      and_then (subscript item ''path'') (\<lambda>p.
      and_then (to_path p) (\<lambda>path.
      let actual = (case files h path of None \<Rightarrow> JNull | Some b \<Rightarrow> JStr (sha env b)) in
      and_then (get item ''sha256'' JNull) (\<lambda>expected.
      let match = py_eq actual expected \<and> actual \<noteq> JNull in
        Inr (JObj [(''name'', JStr name), (''path'', JStr path), (''expected_sha256'', expected),
                   (''actual_sha256'', actual), (''match'', JBool match)], match)))))"

definition artifact_checks :: "env \<Rightarrow> host \<Rightarrow> json \<Rightarrow> (json \<times> bool) list result" where
  "artifact_checks env h route =
     and_then (get route ''outputs'' (JObj [])) (\<lambda>outputs.
     and_then (items outputs) (map_r (artifact_check env h)))"

definition preserved_match :: "json \<Rightarrow> bool result" where
  "preserved_match analysis =
     and_then (get analysis ''preserved_routed_odb'' (JObj [])) (\<lambda>preserved.
     and_then (py_values preserved) (\<lambda>entries.
       all_of (map (\<lambda>item. and_then (get item ''match'' JNull) (\<lambda>m. Inr (truthy m))) entries)))"

definition hash_tests ::
  "gate_variant \<Rightarrow> json \<Rightarrow> json option \<Rightarrow> json \<Rightarrow> (json \<times> bool) list \<Rightarrow> json \<Rightarrow> bool result list" where
  "hash_tests v placement authorization route checks analysis =
     [get_eq placement ''status'' (JStr ''PASS'')] @
     (case authorization of None \<Rightarrow> [] | Some a \<Rightarrow> [get_eq a ''decision'' (JStr ''PASS'')]) @
     [get_eq route ''status'' (JStr ''PASS''), get_eq route ''invocation_count'' (JInt 1)] @
     (if gv_route_contract v
      then [get_eq route ''cugr_congestion_iterations'' (JInt 1),
            get_is_true route ''protected_artifacts_preserved'']
      else []) @
     [Inr (list_all snd checks), preserved_match analysis]"

definition condition :: "json \<Rightarrow> json \<Rightarrow> bool \<Rightarrow> json" where
  "condition required actual ok =
     JObj [(''required'', required), (''actual'', actual),
           (''result'', JStr (if ok then ''PASS'' else ''FAIL''))]"

definition gate_inputs :: "gate_variant \<Rightarrow> env \<Rightarrow> host \<Rightarrow> json result" where
  "gate_inputs v env h =
     (let ev = (\<lambda>name p. and_then (evidence env h (under (root env) p)) (\<lambda>e. Inr (name, e)))
      in and_then (map_r (\<lambda>(name, p). ev name p)
           ([(''placement_execution_report'', gv_placement v)] @
            (case gv_authorization v of None \<Rightarrow> [] | Some p \<Rightarrow> [(''global_route_authorization'', p)]) @
            [(''global_route_execution_report'', gv_route v), (''direct_congestion_analysis'', gv_analysis v)]))
         (\<lambda>entries. Inr (JObj entries)))"

definition gate_payload ::
  "gate_variant \<Rightarrow> env \<Rightarrow> json \<Rightarrow> json \<Rightarrow> bool \<Rightarrow> bool \<Rightarrow> bool \<Rightarrow> json list \<Rightarrow> json \<Rightarrow> json \<Rightarrow> json" where
  "gate_payload v env residual overflow hashes explicit passed checks inputs invocations =
     JObj [(''schema_version'', JInt 2), (''generated_at_utc'', JStr (now env)), (''phase'', JInt 6),
       (''variant'', JStr (gv_name v)),
       (''decision'', JStr (if passed then ''PASS'' else ''BLOCKED_RESIDUAL_CONGESTION'')),
       (''reason'', JStr (if passed then gv_pass_reason v else
          ''One or more strict zero-congestion/hash conditions failed; Phase 6 remains fail-closed.'')),
       (''conditions'', JObj
          [(''residual_congestion_zero'', condition (JInt 0) residual (py_eq residual (JInt 0))),
           (''overflow_edges_zero'', condition (JInt 0) overflow (py_eq overflow (JInt 0))),
           (''input_artifact_hashes_match'', condition (JBool True) (JBool hashes) hashes),
           (''explicit_phase6_pass'', condition (JBool True) (JBool explicit) explicit)]),
       (''artifact_hash_checks'', JArr checks), (''inputs'', inputs),
       (''global_route_invocation_count'', invocations),
       (''authorizes'', JArr (if passed then [JStr (cts_stage v)] else [])),
       (''next_stage'', if passed then JStr (cts_stage v) else JNull),
       (''blocked_recovery'', if passed then JNull else JStr (gv_recovery v))]"

text \<open>\<open>main\<close> after the loads, then whole: the exit code and the file system after the run,
  or the exception.\<close>

definition gate_decide ::
  "gate_variant \<Rightarrow> env \<Rightarrow> host \<Rightarrow> json \<times> json option \<times> json \<times> json \<Rightarrow> (int \<times> host) result" where
  "gate_decide v env h loaded =
     (let (placement, authorization, route, analysis) = loaded in
      and_then (artifact_checks env h route) (\<lambda>checks.
      and_then (all_of (hash_tests v placement authorization route checks analysis)) (\<lambda>hashes.
      and_then (get analysis ''totals'' (JObj [])) (\<lambda>totals.
      and_then (get totals ''rrr_residual'' JNull) (\<lambda>residual.
      and_then (get totals ''overflow_edges'' JNull) (\<lambda>overflow.
      let explicit = py_eq residual (JInt 0) \<and> py_eq overflow (JInt 0) \<and> hashes;
          passed = list_all id [py_eq residual (JInt 0), py_eq overflow (JInt 0), hashes, explicit]
      in and_then (gate_inputs v env h) (\<lambda>inputs.
         and_then (get route ''invocation_count'' JNull) (\<lambda>invocations.
           let payload = gate_payload v env residual overflow hashes explicit passed (map fst checks) inputs invocations
           in Inr (if passed then 0 else 2,
                   write_file (under (root env) (gv_output v)) (dumps env payload) h)))))))))"

definition strict_gate_main :: "gate_variant \<Rightarrow> env \<Rightarrow> host \<Rightarrow> (int \<times> host) result" where
  "strict_gate_main v env h =
     (if exists h (under (root env) (gv_output v))
      then Inl (FileExistsError ''refusing to overwrite Phase 6 gate'')
      else and_then (gate_load v env h) (gate_decide v env h))"

section \<open>The variants\<close>

definition reports :: "string \<Rightarrow> string" where
  "reports lower = ''reports/groot_normalization/quad_local_'' @ lower"

definition routed_variant :: "string \<Rightarrow> string \<Rightarrow> string \<Rightarrow> string \<Rightarrow> gate_variant" where
  "routed_variant name lower placement recovery =
     \<lparr>gv_name = name, gv_report = reports lower, gv_placement = placement,
      gv_authorization = Some (reports lower @ ''/'' @ lower @ ''_global_route_authorization.json''),
      gv_route = reports lower @ ''/physical/'' @ lower @ ''_global_route_execution_report.json'',
      gv_analysis = reports lower @ ''/'' @ lower @ ''_residual_congestion_analysis.json'',
      gv_route_contract = True,
      gv_pass_reason = name @ '' has zero RRR residual, zero numeric overflow edges, matching artifact hashes, and an explicit Phase 6 PASS.'',
      gv_recovery = recovery\<rparr>"

definition placed_by :: "string \<Rightarrow> string" where
  "placed_by lower = reports lower @ ''/physical/'' @ lower @ ''_placement_execution_report.json''"

definition b3_gate :: gate_variant where
  "b3_gate =
     \<lparr>gv_name = ''B3'', gv_report = reports ''b3'', gv_placement = placed_by ''b3'',
      gv_authorization = None,
      gv_route = reports ''b3'' @ ''/physical/b3_global_route_execution_report.json'',
      gv_analysis = reports ''b3'' @ ''/b3_residual_congestion_analysis.json'',
      gv_route_contract = False,
      gv_pass_reason = ''B3 has zero RRR residual, zero numeric overflow edges, matching input hashes, and this explicit PASS.'',
      gv_recovery = ''Seal B3 without reroute; create a separately justified B4 ECO variant.''\<rparr>"

definition b4_gate :: gate_variant where
  "b4_gate =
     \<lparr>gv_name = ''B4'', gv_report = reports ''b4'', gv_placement = placed_by ''b4'',
      gv_authorization = None,
      gv_route = reports ''b4'' @ ''/physical/b4_global_route_execution_report.json'',
      gv_analysis = reports ''b4'' @ ''/b4_residual_congestion_analysis.json'',
      gv_route_contract = True,
      gv_pass_reason = ''B4 has zero RRR residual, zero numeric overflow edges, matching input hashes, and this explicit PASS.'',
      gv_recovery = ''Seal B4 without reroute; create a separately justified B5 ECO variant.''\<rparr>"

definition b5_gate :: gate_variant where
  "b5_gate =
     \<lparr>gv_name = ''B5'', gv_report = reports ''b5'', gv_placement = placed_by ''b5'',
      gv_authorization = None,
      gv_route = reports ''b5'' @ ''/physical/b5_global_route_execution_report.json'',
      gv_analysis = reports ''b5'' @ ''/b5_residual_congestion_analysis.json'',
      gv_route_contract = True,
      gv_pass_reason = ''B5 has zero RRR residual, zero numeric overflow edges, matching input hashes, and this explicit PASS.'',
      gv_recovery = ''Seal B5 without reroute; create a separately justified B6 ECO variant.''\<rparr>"

definition b6_gate :: gate_variant where
  "b6_gate = routed_variant ''B6'' ''b6'' (placed_by ''b6'')
     ''Seal B6 without reroute; select one evidence-based B7 ECO and re-run smoke plus authorization.''"

definition b7_gate :: gate_variant where
  "b7_gate = routed_variant ''B7'' ''b7'' (placed_by ''b7'')
     ''Seal B7 without reroute; select one evidence-based B8 ECO and re-run smoke plus authorization.''"

definition b9_gate :: gate_variant where
  "b9_gate = routed_variant ''B9'' ''b9'' (placed_by ''b9'')
     ''Seal B9 without reroute; create B10 with one evidence-based ECO and re-run smoke plus authorization.''"

definition b10_gate :: gate_variant where
  "b10_gate = routed_variant ''B10'' ''b10'' (placed_by ''b9'')
     ''Seal B10 without reroute; create B10 with one evidence-based ECO and re-run smoke plus authorization.''"

definition b11_gate :: gate_variant where
  "b11_gate = routed_variant ''B11'' ''b11'' (placed_by ''b9'')
     ''Seal B11 without reroute; create B11 with one evidence-based ECO and re-run smoke plus authorization.''"

definition b12_gate :: gate_variant where
  "b12_gate = routed_variant ''B12'' ''b12'' (placed_by ''b9'')
     ''Seal B12 without reroute; create B12 with one evidence-based ECO and re-run smoke plus authorization.''"

definition b13_gate :: gate_variant where
  "b13_gate = routed_variant ''B13'' ''b13'' (placed_by ''b9'')
     ''Seal B13 without reroute; create B13 with one evidence-based ECO and re-run smoke plus authorization.''"

definition b14_gate :: gate_variant where
  "b14_gate = routed_variant ''B14'' ''b14'' (placed_by ''b9'')
     ''Seal B14 without reroute; create B14 with one evidence-based ECO and re-run smoke plus authorization.''"

definition b15_gate :: gate_variant where
  "b15_gate = routed_variant ''B15'' ''b15'' (placed_by ''b9'')
     ''Seal B15 without reroute; create B15 with one evidence-based ECO and re-run smoke plus authorization.''"

definition b16_gate :: gate_variant where
  "b16_gate = routed_variant ''B16'' ''b16'' (placed_by ''b9'')
     ''Seal B16 without reroute; create B16 with one evidence-based ECO and re-run smoke plus authorization.''"

definition b17_gate :: gate_variant where
  "b17_gate = routed_variant ''B17'' ''b17'' (placed_by ''b9'')
     ''Seal B17 without reroute; create B17 with one evidence-based ECO and re-run smoke plus authorization.''"

definition b18_gate :: gate_variant where
  "b18_gate = routed_variant ''B18'' ''b18'' (placed_by ''b9'')
     ''Seal B18 without reroute; create B18 with one evidence-based ECO and re-run smoke plus authorization.''"

definition b19_gate :: gate_variant where
  "b19_gate = routed_variant ''B19'' ''b19'' (placed_by ''b9'')
     ''Seal B19 without reroute; create B19 with one evidence-based ECO and re-run smoke plus authorization.''"

definition b20_gate :: gate_variant where
  "b20_gate = routed_variant ''B20'' ''b20'' (placed_by ''b9'')
     ''Seal B20 without reroute; create B20 with one evidence-based ECO and re-run smoke plus authorization.''"

definition b21_gate :: gate_variant where
  "b21_gate = routed_variant ''B21'' ''b21'' (placed_by ''b9'')
     ''Seal B21 without reroute; create B21 with one evidence-based ECO and re-run smoke plus authorization.''"

definition b22_gate :: gate_variant where
  "b22_gate = routed_variant ''B22'' ''b22'' (placed_by ''b9'')
     ''Seal B22 without reroute; create B22 with one evidence-based ECO and re-run smoke plus authorization.''"

definition b23_gate :: gate_variant where
  "b23_gate = routed_variant ''B23'' ''b23'' (placed_by ''b9'')
     ''Seal B23 without reroute; create B23 with one evidence-based ECO and re-run smoke plus authorization.''"

definition b24_gate :: gate_variant where
  "b24_gate = routed_variant ''B24'' ''b24'' (placed_by ''b9'')
     ''Seal B24 without reroute; create B24 with one evidence-based ECO and re-run smoke plus authorization.''"

text \<open>The scripts themselves.\<close>

definition decide_b3 :: "env \<Rightarrow> host \<Rightarrow> (int \<times> host) result" where
  "decide_b3 = strict_gate_main b3_gate"

definition decide_b4 :: "env \<Rightarrow> host \<Rightarrow> (int \<times> host) result" where
  "decide_b4 = strict_gate_main b4_gate"

definition decide_b5 :: "env \<Rightarrow> host \<Rightarrow> (int \<times> host) result" where
  "decide_b5 = strict_gate_main b5_gate"

definition decide_b6 :: "env \<Rightarrow> host \<Rightarrow> (int \<times> host) result" where
  "decide_b6 = strict_gate_main b6_gate"

definition decide_b7 :: "env \<Rightarrow> host \<Rightarrow> (int \<times> host) result" where
  "decide_b7 = strict_gate_main b7_gate"

definition decide_b9 :: "env \<Rightarrow> host \<Rightarrow> (int \<times> host) result" where
  "decide_b9 = strict_gate_main b9_gate"

definition decide_b10 :: "env \<Rightarrow> host \<Rightarrow> (int \<times> host) result" where
  "decide_b10 = strict_gate_main b10_gate"

definition decide_b11 :: "env \<Rightarrow> host \<Rightarrow> (int \<times> host) result" where
  "decide_b11 = strict_gate_main b11_gate"

definition decide_b12 :: "env \<Rightarrow> host \<Rightarrow> (int \<times> host) result" where
  "decide_b12 = strict_gate_main b12_gate"

definition decide_b13 :: "env \<Rightarrow> host \<Rightarrow> (int \<times> host) result" where
  "decide_b13 = strict_gate_main b13_gate"

definition decide_b14 :: "env \<Rightarrow> host \<Rightarrow> (int \<times> host) result" where
  "decide_b14 = strict_gate_main b14_gate"

definition decide_b15 :: "env \<Rightarrow> host \<Rightarrow> (int \<times> host) result" where
  "decide_b15 = strict_gate_main b15_gate"

definition decide_b16 :: "env \<Rightarrow> host \<Rightarrow> (int \<times> host) result" where
  "decide_b16 = strict_gate_main b16_gate"

definition decide_b17 :: "env \<Rightarrow> host \<Rightarrow> (int \<times> host) result" where
  "decide_b17 = strict_gate_main b17_gate"

definition decide_b18 :: "env \<Rightarrow> host \<Rightarrow> (int \<times> host) result" where
  "decide_b18 = strict_gate_main b18_gate"

definition decide_b19 :: "env \<Rightarrow> host \<Rightarrow> (int \<times> host) result" where
  "decide_b19 = strict_gate_main b19_gate"

definition decide_b20 :: "env \<Rightarrow> host \<Rightarrow> (int \<times> host) result" where
  "decide_b20 = strict_gate_main b20_gate"

definition decide_b21 :: "env \<Rightarrow> host \<Rightarrow> (int \<times> host) result" where
  "decide_b21 = strict_gate_main b21_gate"

definition decide_b22 :: "env \<Rightarrow> host \<Rightarrow> (int \<times> host) result" where
  "decide_b22 = strict_gate_main b22_gate"

definition decide_b23 :: "env \<Rightarrow> host \<Rightarrow> (int \<times> host) result" where
  "decide_b23 = strict_gate_main b23_gate"

definition decide_b24 :: "env \<Rightarrow> host \<Rightarrow> (int \<times> host) result" where
  "decide_b24 = strict_gate_main b24_gate"

definition gate_variants :: "gate_variant list" where
  "gate_variants = [b3_gate, b4_gate, b5_gate, b6_gate, b7_gate, b9_gate, b10_gate, b11_gate, b12_gate, b13_gate, b14_gate, b15_gate, b16_gate, b17_gate, b18_gate, b19_gate, b20_gate, b21_gate, b22_gate, b23_gate, b24_gate]"

lemmas gate_variant_defs = reports_def placed_by_def routed_variant_def
  b3_gate_def b4_gate_def b5_gate_def b6_gate_def b7_gate_def b9_gate_def b10_gate_def b11_gate_def b12_gate_def b13_gate_def b14_gate_def b15_gate_def b16_gate_def b17_gate_def b18_gate_def b19_gate_def b20_gate_def b21_gate_def b22_gate_def b23_gate_def b24_gate_def

end
