(* ===== verification/Strict_Gate_Props.thy ===== *)
theory Strict_Gate_Props
  imports Strict_Gate
begin

text \<open>
  What a Phase 6 release means: the gate passes exactly on clean evidence, writes its decision
  once, and the variants do not interfere.
\<close>

section \<open>Clean evidence\<close>

text \<open>Every recorded route output is a file whose digest is the recorded one.\<close>

definition outputs_intact :: "env \<Rightarrow> host \<Rightarrow> json \<Rightarrow> bool" where
  "outputs_intact env h route \<longleftrightarrow>
     (\<exists>outs. get route ''outputs'' (JObj []) = Inr (JObj outs) \<and>
        (\<forall>(name, item) \<in> set outs. \<exists>p b. subscript item ''path'' = Inr (JStr p) \<and>
           files h (path_str p) = Some b \<and> get item ''sha256'' JNull = Inr (JStr (sha env b))))"

definition odb_preserved :: "json \<Rightarrow> bool" where
  "odb_preserved analysis \<longleftrightarrow>
     (\<exists>entries. get analysis ''preserved_routed_odb'' (JObj []) = Inr (JObj entries) \<and>
        (\<forall>(name, item) \<in> set entries. \<exists>m. get item ''match'' JNull = Inr m \<and> truthy m))"

definition no_congestion :: "json \<Rightarrow> bool" where
  "no_congestion analysis \<longleftrightarrow>
     (\<exists>totals. get analysis ''totals'' (JObj []) = Inr totals \<and>
        get_eq totals ''rrr_residual'' (JInt 0) = Inr True \<and>
        get_eq totals ''overflow_edges'' (JInt 0) = Inr True)"

definition field_is :: "json \<Rightarrow> string \<Rightarrow> json \<Rightarrow> bool" where
  "field_is obj k v \<longleftrightarrow> get_eq obj k v = Inr True"

definition phase6_clear :: "gate_variant \<Rightarrow> env \<Rightarrow> host \<Rightarrow> bool" where
  "phase6_clear v env h \<longleftrightarrow>
     (\<exists>placement authorization route analysis.
        gate_load v env h = Inr (placement, authorization, route, analysis) \<and>
        field_is placement ''status'' (JStr ''PASS'') \<and>
        (\<forall>a. authorization = Some a \<longrightarrow> field_is a ''decision'' (JStr ''PASS'')) \<and>
        field_is route ''status'' (JStr ''PASS'') \<and> field_is route ''invocation_count'' (JInt 1) \<and>
        (gv_route_contract v \<longrightarrow> field_is route ''cugr_congestion_iterations'' (JInt 1) \<and>
           get_is_true route ''protected_artifacts_preserved'' = Inr True) \<and>
        outputs_intact env h route \<and> odb_preserved analysis \<and> no_congestion analysis)"

section \<open>The tests compute it\<close>

lemma artifact_check_match:
  assumes "artifact_check env h (name, item) = Inr (j, m)"
  shows "m \<longleftrightarrow> (\<exists>p b. subscript item ''path'' = Inr (JStr p) \<and> files h (path_str p) = Some b \<and>
                   get item ''sha256'' JNull = Inr (JStr (sha env b)))"
proof -
  from assms obtain p path expected where *: "subscript item ''path'' = Inr p" "to_path p = Inr path"
      "get item ''sha256'' JNull = Inr expected"
    and m: "m \<longleftrightarrow> py_eq (case files h path of None \<Rightarrow> JNull | Some b \<Rightarrow> JStr (sha env b)) expected \<and>
        (case files h path of None \<Rightarrow> JNull | Some b \<Rightarrow> JStr (sha env b)) \<noteq> JNull"
    by (auto simp: artifact_check_def Let_def and_then_eq_Inr)
  from *(2) obtain s where s: "p = JStr s" "path = path_str s" by (cases p) auto
  have "py_eq (JStr d) e \<longleftrightarrow> e = JStr d" for d e by (cases e) auto
  with m * s show ?thesis by (auto split: option.splits)
qed

lemma artifact_checks_intact:
  assumes "artifact_checks env h route = Inr checks"
  shows "list_all snd checks \<longleftrightarrow> outputs_intact env h route"
proof -
  obtain o' where o': "get route ''outputs'' (JObj []) = Inr o'"
    and rest: "and_then (items o') (map_r (artifact_check env h)) = Inr checks"
    using assms by (auto simp: artifact_checks_def and_then_eq_Inr)
  then obtain outs where outs: "o' = JObj outs" "map_r (artifact_check env h) outs = Inr checks"
    by (cases o') auto
  have "list_all snd checks \<longleftrightarrow> (\<forall>(name, item) \<in> set outs. \<exists>p b. subscript item ''path'' = Inr (JStr p) \<and>
           files h (path_str p) = Some b \<and> get item ''sha256'' JNull = Inr (JStr (sha env b)))"
    using outs(2)
  proof (induction outs arbitrary: checks)
    case (Cons e outs)
    obtain name item where e: "e = (name, item)" by (cases e)
    with Cons.prems obtain j m more where c: "artifact_check env h (name, item) = Inr (j, m)"
        "map_r (artifact_check env h) outs = Inr more" "checks = (j, m) # more"
      by (auto simp: and_then_eq_Inr)
    from Cons.IH [OF c(2)] artifact_check_match [OF c(1)] c(3) e show ?case by simp
  qed simp
  with o' outs(1) show ?thesis by (auto simp: outputs_intact_def)
qed

lemma preserved_match_True: "preserved_match analysis = Inr True \<longleftrightarrow> odb_preserved analysis"
proof -
  have v: "py_values x = Inr vs \<longleftrightarrow> (\<exists>kvs. x = JObj kvs \<and> vs = map snd kvs)" for x vs by (cases x) auto
  show ?thesis
    unfolding preserved_match_def odb_preserved_def and_then_eq_Inr v all_of_True
    by (fastforce simp: and_then_eq_Inr)
qed

lemma hash_tests_True:
  assumes "artifact_checks env h route = Inr checks"
  shows "all_of (hash_tests v placement authorization route checks analysis) = Inr True \<longleftrightarrow>
    field_is placement ''status'' (JStr ''PASS'') \<and>
    (\<forall>a. authorization = Some a \<longrightarrow> field_is a ''decision'' (JStr ''PASS'')) \<and>
    field_is route ''status'' (JStr ''PASS'') \<and> field_is route ''invocation_count'' (JInt 1) \<and>
    (gv_route_contract v \<longrightarrow> field_is route ''cugr_congestion_iterations'' (JInt 1) \<and>
       get_is_true route ''protected_artifacts_preserved'' = Inr True) \<and>
    outputs_intact env h route \<and> odb_preserved analysis"
  using artifact_checks_intact [OF assms] preserved_match_True [of analysis]
  by (cases authorization) (auto simp: hash_tests_def and_also_True field_is_def)

text \<open>A run that ends normally, decomposed once.\<close>

lemma strict_gate_run:
  assumes "strict_gate_main v env h = Inr (code, h')"
  obtains placement authorization route analysis checks hashes residual overflow passed explicit inputs invocations
  where "\<not> exists h (under (root env) (gv_output v))"
    "gate_load v env h = Inr (placement, authorization, route, analysis)"
    "artifact_checks env h route = Inr checks"
    "all_of (hash_tests v placement authorization route checks analysis) = Inr hashes"
    "passed \<longleftrightarrow> hashes \<and> no_congestion analysis"
    "code = (if passed then 0 else 2)"
    "h' = write_file (under (root env) (gv_output v)) (dumps env
       (gate_payload v env residual overflow hashes explicit passed (map fst checks) inputs invocations)) h"
proof -
  let ?out = "under (root env) (gv_output v)"
  have fresh: "\<not> exists h ?out" using assms by (auto simp: strict_gate_main_def split: if_splits)
  with assms obtain loaded where l': "gate_load v env h = Inr loaded" "gate_decide v env h loaded = Inr (code, h')"
    by (auto simp: strict_gate_main_def and_then_eq_Inr)
  obtain placement authorization route analysis where
    l: "gate_load v env h = Inr (placement, authorization, route, analysis)"
    and d: "gate_decide v env h (placement, authorization, route, analysis) = Inr (code, h')"
    using l' by (cases loaded) auto
  from d obtain checks hashes totals residual overflow inputs invocations where
    c: "artifact_checks env h route = Inr checks"
    and t: "all_of (hash_tests v placement authorization route checks analysis) = Inr hashes"
    and g: "get analysis ''totals'' (JObj []) = Inr totals" "get totals ''rrr_residual'' JNull = Inr residual"
      "get totals ''overflow_edges'' JNull = Inr overflow"
    and e: "let explicit = py_eq residual (JInt 0) \<and> py_eq overflow (JInt 0) \<and> hashes;
          passed = list_all id [py_eq residual (JInt 0), py_eq overflow (JInt 0), hashes, explicit]
        in code = (if passed then 0 else 2) \<and> h' = write_file ?out (dumps env
             (gate_payload v env residual overflow hashes explicit passed (map fst checks) inputs invocations)) h"
    unfolding gate_decide_def prod.case Let_def
    by (auto simp only: and_then_eq_Inr Inr_inject sum.inject prod.inject)
  have "no_congestion analysis \<longleftrightarrow> py_eq residual (JInt 0) \<and> py_eq overflow (JInt 0)"
    using g by (simp add: no_congestion_def get_eq_def)
  moreover define explicit where "explicit \<longleftrightarrow> py_eq residual (JInt 0) \<and> py_eq overflow (JInt 0) \<and> hashes"
  moreover define passed where "passed = list_all id [py_eq residual (JInt 0), py_eq overflow (JInt 0), hashes, explicit]"
  ultimately have "passed \<longleftrightarrow> hashes \<and> no_congestion analysis" by auto
  moreover have "code = (if passed then 0 else 2)" "h' = write_file ?out (dumps env
      (gate_payload v env residual overflow hashes explicit passed (map fst checks) inputs invocations)) h"
    using e unfolding Let_def explicit_def passed_def by blast+
  ultimately show ?thesis by (rule that [OF fresh l c t])
qed

lemma gate_payload_fields:
  "get (gate_payload v env residual overflow hashes explicit passed checks inputs invocations) ''authorizes'' JNull =
     Inr (JArr (if passed then [JStr (cts_stage v)] else []))"
  "get (gate_payload v env residual overflow hashes explicit passed checks inputs invocations) ''decision'' JNull =
     Inr (JStr (if passed then ''PASS'' else ''BLOCKED_RESIDUAL_CONGESTION''))"
  by (simp_all add: gate_payload_def)

lemma strict_gate_code:
  assumes "strict_gate_main v env h = Inr (code, h')"
  shows "code = (if phase6_clear v env h then 0 else 2)"
proof -
  obtain placement authorization route analysis checks hashes residual overflow passed explicit inputs invocations
    where r: "\<not> exists h (under (root env) (gv_output v))"
      "gate_load v env h = Inr (placement, authorization, route, analysis)"
      "artifact_checks env h route = Inr checks"
      "all_of (hash_tests v placement authorization route checks analysis) = Inr hashes"
      "passed \<longleftrightarrow> hashes \<and> no_congestion analysis" "code = (if passed then 0 else 2)"
      "h' = write_file (under (root env) (gv_output v)) (dumps env
         (gate_payload v env residual overflow hashes explicit passed (map fst checks) inputs invocations)) h"
    using assms by (rule strict_gate_run)
  have "phase6_clear v env h \<longleftrightarrow>
      all_of (hash_tests v placement authorization route checks analysis) = Inr True \<and> no_congestion analysis"
    unfolding hash_tests_True [OF r(3)] phase6_clear_def using r(2) by auto
  then show ?thesis using r(4-6) by auto
qed

lemma strict_gate_fresh: "strict_gate_main v env h = Inr r \<Longrightarrow> \<not> exists h (under (root env) (gv_output v))"
  by (auto simp: strict_gate_main_def split: if_splits)

lemma strict_gate_written:
  assumes "strict_gate_main v env h = Inr (code, h')"
  shows "\<exists>residual overflow hashes explicit passed checks inputs invocations.
    code = (if passed then 0 else 2) \<and>
    h' = write_file (under (root env) (gv_output v)) (dumps env
       (gate_payload v env residual overflow hashes explicit passed checks inputs invocations)) h"
  by (rule strict_gate_run [OF assms], intro exI conjI, assumption+)

section \<open>Paths of the variants\<close>

definition gate_input_paths :: "gate_variant \<Rightarrow> string list" where
  "gate_input_paths v =
     [gv_placement v, gv_route v, gv_analysis v] @ (case gv_authorization v of None \<Rightarrow> [] | Some p \<Rightarrow> [p])"

text \<open>No gate reads a file named like a decision file, and each has its own report directory.\<close>

lemma variant_inputs:
  "v \<in> set gate_variants \<Longrightarrow> p \<in> set (gate_input_paths v) \<Longrightarrow> p \<noteq> q @ ''/phase6_decision_gate.json''"
proof -
  have "list_all (\<lambda>v. list_all (\<lambda>p. take 9 (rev p) \<noteq> rev ''gate.json'') (gate_input_paths v)) gate_variants"
    by (simp add: gate_variants_def gate_input_paths_def gate_variant_defs)
  moreover assume "v \<in> set gate_variants" "p \<in> set (gate_input_paths v)"
  ultimately have "take 9 (rev p) \<noteq> rev ''gate.json''" by (auto simp: list_all_iff)
  moreover have "take 9 (rev (q @ ''/phase6_decision_gate.json'')) = rev ''gate.json''" by simp
  ultimately show ?thesis by metis
qed

lemma variant_report:
  assumes "v \<in> set gate_variants"
  shows "gv_report v = reports (CHR ''b'' # tl (gv_name v)) \<and> gv_name v = CHR ''B'' # tl (gv_name v)"
proof -
  have "list_all (\<lambda>v. gv_report v = reports (CHR ''b'' # tl (gv_name v)) \<and> gv_name v = CHR ''B'' # tl (gv_name v))
      gate_variants"
    by (simp add: gate_variants_def gate_variant_defs)
  with assms show ?thesis by (auto simp: list_all_iff)
qed

section \<open>Properties\<close>

text \<open>
  C7: the strict gate decides. Whenever it ends normally it exits with 0 or 2, with 0
  exactly on clean evidence: placement, authorization and route passed, one route invocation
  with one CUGR iteration, protected artifacts preserved, every route output still the file
  that was recorded, the routed database preserved, no residual and no overflow. The decision
  it writes authorizes the variant's own clock-tree stage then, and nothing otherwise.
\<close>

theorem strict_gate_decides:
  assumes "strict_gate_main v env h = Inr (code, h')"
  shows "code = (if phase6_clear v env h then 0 else 2) \<and>
    (\<exists>payload. h' = write_file (under (root env) (gv_output v)) (dumps env payload) h \<and>
       get payload ''authorizes'' JNull = Inr (JArr (if code = 0 then [JStr (gv_name v @ ''_PHASE6_CTS'')] else [])) \<and>
       get payload ''decision'' JNull = Inr (JStr (if code = 0 then ''PASS'' else ''BLOCKED_RESIDUAL_CONGESTION'')))"
proof -
  obtain residual overflow hashes explicit passed checks inputs invocations where
    w: "code = (if passed then 0 else 2)" "h' = write_file (under (root env) (gv_output v)) (dumps env
       (gate_payload v env residual overflow hashes explicit passed checks inputs invocations)) h"
    using strict_gate_written [OF assms] by blast
  have "passed \<longleftrightarrow> code = 0" using w(1) by simp
  with w(2) strict_gate_code [OF assms] show ?thesis
    by (intro conjI exI [of _ "gate_payload v env residual overflow hashes explicit passed checks inputs invocations"])
      (simp_all add: gate_payload_fields cts_stage_def)
qed

text \<open>
  A decision is final. After a run that wrote one, every further run of the same gate
  refuses to overwrite it, whatever happened to its inputs.
\<close>

theorem strict_gate_runs_once:
  assumes "strict_gate_main v env h = Inr (code, h')" "root env' = root env"
    and "exists later (under (root env) (gv_output v)) = exists h' (under (root env) (gv_output v))"
  shows "strict_gate_main v env' later = Inl (FileExistsError ''refusing to overwrite Phase 6 gate'')"
proof -
  have "exists h' (under (root env) (gv_output v))"
    using strict_gate_written [OF assms(1)] by auto
  with assms(2,3) show ?thesis by (simp add: strict_gate_main_def Let_def)
qed

text \<open>
  C29: tampering is detected. If the route report lists an output whose file is gone, or
  whose digest is not the recorded one, the gate does not release the variant.
\<close>

theorem strict_gate_detects_tampering:
  assumes "load env h (under (root env) (gv_route v)) = Inr route"
    and "get route ''outputs'' (JObj []) = Inr (JObj outs)" "(name, item) \<in> set outs"
    and "get item ''path'' JNull = Inr (JStr p)" "get item ''sha256'' JNull = Inr (JStr digest)"
    and "\<forall>b. files h (path_str p) = Some b \<longrightarrow> sha env b \<noteq> digest"
  shows "strict_gate_main v env h \<noteq> Inr (0, h')"
proof
  assume "strict_gate_main v env h = Inr (0, h')"
  from strict_gate_code [OF this] have "phase6_clear v env h" by (simp split: if_splits)
  then obtain placement authorization route' analysis where
    l: "gate_load v env h = Inr (placement, authorization, route', analysis)" and o': "outputs_intact env h route'"
    by (auto simp: phase6_clear_def)
  have "route' = route" using l assms(1) by (auto simp: gate_load_def Let_def and_then_eq_Inr)
  with o' assms(2,3) obtain q b where q: "subscript item ''path'' = Inr (JStr q)" "files h (path_str q) = Some b"
      "get item ''sha256'' JNull = Inr (JStr (sha env b))"
    by (fastforce simp: outputs_intact_def)
  have "q = p" using q(1) assms(4) by (cases item) (auto split: option.splits)
  with q assms(5,6) show False by auto
qed

text \<open>
  The variants do not interfere: after the gate of one variant has run, the gate of any
  other still reads the same reports, and its decision file exists exactly if it did before.
\<close>

theorem strict_gates_independent:
  assumes "v \<in> set gate_variants" "w \<in> set gate_variants" "gv_name v \<noteq> gv_name w"
    and "strict_gate_main v env h = Inr (code, h')"
  shows "gate_load w env h' = gate_load w env h \<and>
    exists h' (under (root env) (gv_output w)) = exists h (under (root env) (gv_output w))"
proof -
  have ne: "gv_output v \<notin> set (gate_input_paths w)"
    using variant_inputs [OF assms(2)] by (auto simp: gv_output_def)
  have "gv_output v \<noteq> gv_output w"
    using variant_report [OF assms(1)] variant_report [OF assms(2)] assms(3)
    by (cases "gv_name v"; cases "gv_name w") (auto simp: gv_output_def reports_def)
  moreover obtain b where h': "h' = write_file (under (root env) (gv_output v)) b h"
    using strict_gate_written [OF assms(4)] by blast
  moreover have "load env h' (under (root env) p) = load env h (under (root env) p)"
    if "p \<in> set (gate_input_paths w)" for p
    using that ne h' by (auto simp: load_def read_bytes_def)
  ultimately show ?thesis
    by (auto simp: gate_load_def Let_def gate_input_paths_def exists_def is_file_def split: option.splits)
qed

section \<open>Witnesses\<close>

text \<open>
  A small repository at \<open>/r\<close> for B9: its four reports, one routed database, a digest that
  is the content itself and a parser that knows these four documents.
\<close>

definition sample_route :: json where
  "sample_route = JObj [(''status'', JStr ''PASS''), (''invocation_count'', JInt 1),
     (''cugr_congestion_iterations'', JInt 1), (''protected_artifacts_preserved'', JBool True),
     (''outputs'', JObj [(''odb'', JObj [(''path'', JStr ''/o/./x.odb''), (''sha256'', JStr ''ODB'')])])]"

definition sample_analysis :: "int \<Rightarrow> json" where
  "sample_analysis residual = JObj
     [(''preserved_routed_odb'', JObj [(''odb'', JObj [(''match'', JBool True)])]),
      (''totals'', JObj [(''rrr_residual'', JInt residual), (''overflow_edges'', JFloat (Finite 0))])]"

definition sample_env :: env where
  "sample_env =
     \<lparr>sha = (\<lambda>b. b), decode = (\<lambda>b. Inr b),
      loads = (\<lambda>b. case map_of
        [(''P'', JObj [(''status'', JStr ''PASS'')]), (''A'', JObj [(''decision'', JStr ''PASS'')]),
         (''R'', sample_route), (''N'', sample_analysis 0), (''D'', sample_analysis 7)] b of
          None \<Rightarrow> Inl (JSONDecodeError b) | Some v \<Rightarrow> Inr v),
      dumps = (\<lambda>_. ''decision''), now = ''2026'', root = ''/r''\<rparr>"

definition sample_host :: "string \<Rightarrow> string \<Rightarrow> host" where
  "sample_host analysis odb =
     \<lparr>files = map_of [(under ''/r'' (gv_placement b9_gate), ''P''),
        (under ''/r'' (the (gv_authorization b9_gate)), ''A''), (under ''/r'' (gv_route b9_gate), ''R''),
        (under ''/r'' (gv_analysis b9_gate), analysis), (''/o/x.odb'', odb)],
      dirs = (\<lambda>_. False)\<rparr>"

definition exit_code :: "(int \<times> host) result \<Rightarrow> int option" where
  "exit_code r = (case r of Inl _ \<Rightarrow> None | Inr (code, _) \<Rightarrow> Some code)"

lemma exit_code_Some: "exit_code r = Some c \<Longrightarrow> \<exists>h'. r = Inr (c, h')"
  by (auto simp: exit_code_def split: sum.splits)

lemma sample_release: "exit_code (decide_b9 sample_env (sample_host ''N'' ''ODB'')) = Some 0"
  by code_simp

lemma gate_sample_run: "\<exists>h'. strict_gate_main b9_gate sample_env (sample_host ''N'' ''ODB'') = Inr (0, h')"
  using exit_code_Some [OF sample_release] by (simp add: decide_b9_def)

theorem strict_gate_decides_witness: "phase6_clear b9_gate sample_env (sample_host ''N'' ''ODB'')"
proof -
  obtain h' where "strict_gate_main b9_gate sample_env (sample_host ''N'' ''ODB'') = Inr (0, h')"
    using gate_sample_run by blast
  from strict_gate_decides [OF this] show ?thesis by (simp split: if_splits)
qed

theorem strict_gate_runs_once_witness:
  "\<exists>h'. strict_gate_main b9_gate sample_env (sample_host ''N'' ''ODB'') = Inr (0, h') \<and>
     strict_gate_main b9_gate sample_env h' = Inl (FileExistsError ''refusing to overwrite Phase 6 gate'')"
  using gate_sample_run strict_gate_runs_once [OF _ refl refl] by blast

theorem strict_gate_detects_tampering_witness:
  "\<forall>h'. strict_gate_main b9_gate sample_env (sample_host ''N'' ''other'') \<noteq> Inr (0, h')"
proof (intro allI, rule strict_gate_detects_tampering [where name = "''odb''" and
      item = "JObj [(''path'', JStr ''/o/./x.odb''), (''sha256'', JStr ''ODB'')]"])
  show "load sample_env (sample_host ''N'' ''other'') (under (root sample_env) (gv_route b9_gate)) = Inr sample_route"
    by code_simp
  show "get sample_route ''outputs'' (JObj []) =
      Inr (JObj [(''odb'', JObj [(''path'', JStr ''/o/./x.odb''), (''sha256'', JStr ''ODB'')])])"
    by (simp add: sample_route_def)
  have "files (sample_host ''N'' ''other'') (path_str ''/o/./x.odb'') = Some ''other''" by code_simp
  then show "\<forall>b. files (sample_host ''N'' ''other'') (path_str ''/o/./x.odb'') = Some b \<longrightarrow> sha sample_env b \<noteq> ''ODB''"
    by (simp add: sample_env_def)
qed simp_all

theorem strict_gates_independent_witness:
  "\<exists>h'. strict_gate_main b9_gate sample_env (sample_host ''N'' ''ODB'') = Inr (0, h') \<and>
     gate_load b10_gate sample_env h' = gate_load b10_gate sample_env (sample_host ''N'' ''ODB'')"
proof -
  obtain h' where h': "strict_gate_main b9_gate sample_env (sample_host ''N'' ''ODB'') = Inr (0, h')"
    using gate_sample_run by blast
  from strict_gates_independent [OF _ _ _ h', of b10_gate] h' show ?thesis
    by (auto simp: gate_variants_def b9_gate_def b10_gate_def routed_variant_def)
qed

end
