(* ===== verification/Route_Authorization.thy ===== *)
theory Route_Authorization
  imports Strict_Gate
begin

text \<open>
  \<open>tools/authorize_b*_global_route.py\<close> for B6, B7, B9 to B24: before the only global-route
  attempt of a variant, some twenty conditions on the placement evidence, the selected
  engineering change, the runner script and the Tcl script are evaluated and the decision is
  written with the digests of everything it rests on. The scripts share one body; the fields
  of \<open>auth_variant\<close> are where they differ.
\<close>

section \<open>Variants\<close>

text \<open>
  \<open>av_placed\<close> is the variant whose placement is routed (from B10 on that of B9),
  \<open>av_other\<close> the variant whose paths the runner and the Tcl script must not mention,
  \<open>av_limits\<close> the object and key of the decision that hold the invocation limit.
\<close>

record auth_variant =
  av_name :: string
  av_lower :: string
  av_placed_name :: string
  av_placed :: string
  av_numeric :: bool
  av_anchors :: int
  av_smoke :: bool
  av_selected :: string
  av_eco :: "(string \<times> json \<times> json) option"
  av_new_anchors :: "int option"
  av_other :: "string \<times> string"
  av_limits :: "string \<times> string"

definition av_report :: "auth_variant \<Rightarrow> string \<Rightarrow> string" where
  "av_report v name = reports (av_lower v) @ ''/'' @ av_lower v @ name"

definition av_physical :: "auth_variant \<Rightarrow> string \<Rightarrow> string" where
  "av_physical v name = reports (av_lower v) @ ''/physical/'' @ av_lower v @ name"

definition av_placement :: "auth_variant \<Rightarrow> string \<Rightarrow> string" where
  "av_placement v name = reports (av_placed v) @ ''/physical/'' @ av_placed v @ name"

definition av_script :: "auth_variant \<Rightarrow> string \<Rightarrow> string \<Rightarrow> string" where
  "av_script v before after =
     ''verification/groot_normalization/'' @ before @ ''wbq_quad_local_'' @ av_lower v @ after"

definition av_physical_auth :: "auth_variant \<Rightarrow> string" where
  "av_physical_auth v =
     (if av_smoke v then av_physical v ''_route_pin_smoke_execution_report.json''
      else av_report v ''_physical_authorization.json'')"

definition av_output :: "auth_variant \<Rightarrow> string" where
  "av_output v = av_report v ''_global_route_authorization.json''"

definition av_runner :: "auth_variant \<Rightarrow> string" where
  "av_runner v = av_script v ''run_'' ''_global_route.sh''"

definition av_tcl :: "auth_variant \<Rightarrow> string" where
  "av_tcl v = av_script v '''' ''_global_route.tcl''"

definition av_route_stage :: "auth_variant \<Rightarrow> string" where
  "av_route_stage v = av_name v @ ''_SINGLE_GLOBAL_ROUTE''"

section \<open>Loading\<close>

record auth_inputs =
  ai_placement :: json
  ai_targeted :: json
  ai_numeric :: json
  ai_decision :: json
  ai_physical :: json
  ai_runner :: string
  ai_tcl :: string
  ai_odb_item :: json
  ai_sdc_item :: json
  ai_odb :: string
  ai_sdc :: string
  ai_outputs_match :: bool

definition get2 :: "json \<Rightarrow> string \<Rightarrow> string \<Rightarrow> json \<Rightarrow> json result" where
  "get2 obj k1 k2 d = and_then (get obj k1 (JObj [])) (\<lambda>x. get x k2 d)"

definition get3 :: "json \<Rightarrow> string \<Rightarrow> string \<Rightarrow> string \<Rightarrow> json result" where
  "get3 obj k1 k2 k3 = and_then (get2 obj k1 k2 (JObj [])) (\<lambda>x. get x k3 JNull)"

text \<open>\<open>sha256(path) == item.get("sha256")\<close>\<close>

definition digest_matches :: "env \<Rightarrow> host \<Rightarrow> string \<Rightarrow> json \<Rightarrow> bool result" where
  "digest_matches env h p item =
     and_then (sha256 env h p) (\<lambda>d. and_then (get item ''sha256'' JNull) (\<lambda>e. Inr (py_eq d e)))"

definition auth_load :: "auth_variant \<Rightarrow> env \<Rightarrow> host \<Rightarrow> auth_inputs result" where
  "auth_load v env h =
     (let loc = under (root env) in
      and_then (load env h (loc (av_placement v ''_placement_execution_report.json''))) (\<lambda>placement.
      and_then (load env h (loc (av_placement v ''_targeted_placement_reopen_audit.json''))) (\<lambda>targeted.
      and_then (if av_numeric v then load env h (loc (av_placement v ''_placement_numeric_analysis.json''))
                else Inr JNull) (\<lambda>numeric.
      and_then (load env h (loc (av_report v ''_eco_decision.json''))) (\<lambda>decision.
      and_then (load env h (loc (av_physical_auth v))) (\<lambda>physical.
      and_then (read_text env h (loc (av_runner v))) (\<lambda>runner.
      and_then (read_text env h (loc (av_tcl v))) (\<lambda>tcl.
      and_then (get2 placement ''outputs'' (av_placed v @ ''_place_odb'') (JObj [])) (\<lambda>odb_item.
      and_then (get2 placement ''outputs'' (av_placed v @ ''_place_sdc'') (JObj [])) (\<lambda>sdc_item.
      and_then (and_then (get odb_item ''path'' (JStr '''')) to_path) (\<lambda>odb.
      and_then (and_then (get sdc_item ''path'' (JStr '''')) to_path) (\<lambda>sdc.
      and_then (all_of [Inr (is_file h odb), Inr (is_file h sdc), digest_matches env h odb odb_item,
                        digest_matches env h sdc sdc_item]) (\<lambda>outputs_match.
        Inr \<lparr>ai_placement = placement, ai_targeted = targeted, ai_numeric = numeric,
             ai_decision = decision, ai_physical = physical, ai_runner = runner, ai_tcl = tcl,
             ai_odb_item = odb_item, ai_sdc_item = sdc_item, ai_odb = odb, ai_sdc = sdc,
             ai_outputs_match = outputs_match\<rparr>)))))))))))))"

section \<open>Conditions\<close>

definition get2_eq :: "json \<Rightarrow> string \<Rightarrow> string \<Rightarrow> json \<Rightarrow> bool result" where
  "get2_eq obj k1 k2 v = and_then (get2 obj k1 k2 JNull) (\<lambda>x. Inr (py_eq x v))"

text \<open>\<open>name in obj.get("authorizes", [])\<close>\<close>

definition authorizes_stage :: "json \<Rightarrow> string \<Rightarrow> bool result" where
  "authorizes_stage obj stage = and_then (get obj ''authorizes'' (JArr [])) (py_in stage)"

definition route_outputs :: "auth_variant \<Rightarrow> string \<Rightarrow> string list" where
  "route_outputs v base =
     map (under base)
       [av_physical v ''_global_route_invocation.json'', av_physical v ''_global_route_execution_report.json'',
        av_physical v ''_global_route.log'', av_report v ''_residual_congestion_analysis.json'',
        av_report v ''_residual_congestion_analysis.md''] @
     map (\<lambda>name. ''/dev/shm/wbq_'' @ av_lower v @ ''_phase6_10/quad_local_'' @ av_lower v @ ''/'' @ av_lower v @ name)
       [''_quad_local.route_guide'', ''_quad_local.congestion.rpt'', ''_quad_local_global_route.odb'',
        ''_quad_local_global_route.sdc'']"

definition numeric_conditions :: "auth_variant \<Rightarrow> env \<Rightarrow> host \<Rightarrow> auth_inputs \<Rightarrow> (string \<times> bool result) list" where
  "numeric_conditions v env h i =
     [(''placement_numeric_analysis_pass'',
         all_of [get_eq (ai_numeric i) ''status'' (JStr ''PASS''),
                 get_eq (ai_numeric i) ''authorizes''
                   (JArr [JStr (av_placed_name v @ ''_TARGETED_PLACEMENT_REOPEN_AUDIT'')])]),
      (''placement_numeric_inputs_match'',
         all_of [and_then (get3 (ai_numeric i) ''inputs'' ''placement_manifest'' ''sha256'') (\<lambda>recorded.
                   and_then (sha256 env h (under (root env) (av_placement v ''_placement_execution_report.json'')))
                     (\<lambda>actual. Inr (py_eq recorded actual))),
                 and_then (get3 (ai_numeric i) ''inputs'' ''placement_log'' ''sha256'') (\<lambda>recorded.
                   and_then (get3 (ai_placement i) ''outputs'' ''log'' ''sha256'')
                     (\<lambda>actual. Inr (py_eq recorded actual)))])]"

definition policy_condition :: "auth_variant \<Rightarrow> auth_inputs \<Rightarrow> bool result" where
  "policy_condition v i =
     all_of ([get_eq (ai_decision i) ''decision'' (JStr (av_selected v))] @
       (case av_eco v of None \<Rightarrow> [] | Some (variable, before, after) \<Rightarrow>
          [get2_eq (ai_decision i) ''selected_eco'' ''single_independent_variable'' (JStr variable),
           get2_eq (ai_decision i) ''selected_eco'' ''before'' before,
           get2_eq (ai_decision i) ''selected_eco'' ''after'' after]) @
       (case av_new_anchors v of None \<Rightarrow> [] | Some n \<Rightarrow>
          [and_then (get2 (ai_decision i) ''selected_eco'' ''new_anchors'' (JArr [])) (\<lambda>anchors.
             and_then (py_len anchors) (\<lambda>len. Inr (len = n)))]))"

definition placement_conditions :: "auth_variant \<Rightarrow> auth_inputs \<Rightarrow> (string \<times> bool result) list" where
  "placement_conditions v i =
     [(''placement_pass'', get_eq (ai_placement i) ''status'' (JStr ''PASS'')),
      (''placement_audit_pass'', get_eq (ai_placement i) ''placement_legality_and_fence_audit'' (JStr ''PASS'')),
      (if av_numeric v
       then (''placement_authorizes_numeric_and_reopen'',
             authorizes_stage (ai_placement i) (av_placed_name v @ ''_TARGETED_PLACEMENT_REOPEN_AUDIT''))
       else (''placement_authorizes_one_route'', authorizes_stage (ai_placement i) (av_route_stage v))),
      (''placement_outputs_match'', Inr (ai_outputs_match i))]"

definition audit_conditions :: "auth_variant \<Rightarrow> auth_inputs \<Rightarrow> (string \<times> bool result) list" where
  "audit_conditions v i =
     [(''targeted_reopen_audit_pass'',
         all_of [get_eq (ai_targeted i) ''status'' (JStr ''PASS''),
                 authorizes_stage (ai_targeted i) (av_placed_name v @ ''_GLOBAL_ROUTE_AUTHORIZATION'')]),
      (''targeted_reopen_anchor_count'', get2_eq (ai_targeted i) ''metrics'' ''anchors_verified'' (JInt (av_anchors v))),
      (''targeted_reopen_legality'',
         all_of [get2_eq (ai_targeted i) ''metrics'' ''outside_fence'' (JInt 0),
                 get2_eq (ai_targeted i) ''metrics'' ''unplaced'' (JInt 0),
                 get2_eq (ai_targeted i) ''metrics'' ''placement_violations'' (JInt 0)]),
      (''physical_authorization_pass'',
         if av_smoke v
         then all_of [get_eq (ai_physical i) ''status'' (JStr ''PASS''),
                      get_eq (ai_physical i) ''authorizes'' (JArr [JStr (av_name v @ ''_ROUTE_AUTHORIZATION'')])]
         else get_eq (ai_physical i) ''decision'' (JStr ''PASS'')),
      (''selected_'' @ av_lower v @ ''_policy'', policy_condition v i),
      (''one_route_invocation'', get2_eq (ai_decision i) (fst (av_limits v)) (snd (av_limits v)) (JInt 1)),
      (''one_cugr_iteration'', get2_eq (ai_decision i) (fst (av_limits v)) ''cugr_congestion_iterations'' (JInt 1))]"

definition script_conditions :: "auth_variant \<Rightarrow> auth_inputs \<Rightarrow> (string \<times> bool result) list" where
  "script_conditions v i =
     (let runner_has = (\<lambda>s. Inr (substring s (ai_runner i))) in
      [(av_lower v @ ''_only_paths'',
          all_of [Inr (\<not> substring (''quad_local_'' @ fst (av_other v)) (ai_runner i)),
                  Inr (\<not> substring (''WBQ_'' @ snd (av_other v)) (ai_tcl i))]),
       (''runner_refuses_duplicates'', runner_has ''refusing duplicate''),
       (''runner_records_compute_pid'',
          all_of [runner_has ''compute_pid'', runner_has ''launcher_pid'', runner_has ''wrapper_pid'']),
       (''runner_has_signal_traps'',
          all_of [runner_has ''trap 'on_signal INT' INT'', runner_has ''trap 'on_signal TERM' TERM'']),
       (''direct_numeric_parser'', runner_has ''analyze_variant_residual_congestion.py''),
       (''compact_parser_output'',
          all_of [runner_has ''--max-windows-in-output 0'', runner_has ''--max-hotspots-in-output 500'']),
       (''tcl_one_iteration_guard'', Inr (substring ''$iterations != 1'' (ai_tcl i))),
       (''tcl_single_route_command'', Inr (count_sub (''global_route '' @ [CHR 0x5C]) (ai_tcl i) = 1))])"

definition auth_conditions :: "auth_variant \<Rightarrow> env \<Rightarrow> host \<Rightarrow> auth_inputs \<Rightarrow> (string \<times> bool result) list" where
  "auth_conditions v env h i =
     placement_conditions v i @ (if av_numeric v then numeric_conditions v env h i else []) @
     audit_conditions v i @ script_conditions v i @
     [(''no_prior_route_artifact'', Inr (\<not> list_ex (exists h) (route_outputs v (root env))))]"

text \<open>The dictionary of conditions: evaluated in order, the first exception ends the script.\<close>

definition evaluate :: "(string \<times> bool result) list \<Rightarrow> (string \<times> bool) list result" where
  "evaluate = map_r (\<lambda>(name, test). and_then test (\<lambda>b. Inr (name, b)))"

section \<open>The decision\<close>

definition placed_evidence :: "env \<Rightarrow> host \<Rightarrow> string \<Rightarrow> json result" where
  "placed_evidence env h p =
     (if is_file h p then evidence env h p else Inr (JObj [(''path'', JStr p), (''sha256'', JNull)]))"

definition evidence_tests :: "auth_variant \<Rightarrow> env \<Rightarrow> host \<Rightarrow> auth_inputs \<Rightarrow> (string \<times> json result) list" where
  "evidence_tests v env h i =
     (let ev = (\<lambda>p. evidence env h (under (root env) p)) in
      [(''placement_execution_report'', ev (av_placement v ''_placement_execution_report.json''))] @
      (if av_numeric v
       then [(''placement_numeric_analysis'', ev (av_placement v ''_placement_numeric_analysis.json''))]
       else []) @
      [(''targeted_placement_reopen_audit'', ev (av_placement v ''_targeted_placement_reopen_audit.json'')),
       (av_lower v @ ''_eco_decision'', ev (av_report v ''_eco_decision.json'')),
       (av_lower v @ ''_physical_authorization'', ev (av_physical_auth v)),
       (av_placed v @ ''_place_odb'', placed_evidence env h (ai_odb i)),
       (av_placed v @ ''_place_sdc'', placed_evidence env h (ai_sdc i)),
       (''route_runner'', ev (av_runner v)), (''route_tcl'', ev (av_tcl v)),
       (''direct_numeric_parser'', ev ''tools/analyze_variant_residual_congestion.py''),
       (''strict_phase6_gate'', ev (''tools/decide_'' @ av_lower v @ ''_phase6_strict_gate.py'')),
       (''silence_snapshot_tool'', ev ''tools/capture_openroad_stage_snapshot.py''),
       (''silence_compare_tool'', ev ''tools/compare_openroad_stage_snapshots.py'')])"

definition auth_evidence :: "auth_variant \<Rightarrow> env \<Rightarrow> host \<Rightarrow> auth_inputs \<Rightarrow> json result" where
  "auth_evidence v env h i =
     and_then (map_r (\<lambda>(name, test). and_then test (\<lambda>e. Inr (name, e))) (evidence_tests v env h i))
       (\<lambda>entries. Inr (JObj entries))"

definition auth_payload :: "auth_variant \<Rightarrow> env \<Rightarrow> (string \<times> bool) list \<Rightarrow> json \<Rightarrow> bool \<Rightarrow> json" where
  "auth_payload v env conditions inputs passed =
     JObj [(''schema_version'', JInt 1), (''generated_at_utc'', JStr (now env)),
       (''variant'', JStr (av_name v)), (''stage'', JStr ''single_global_route_authorization''),
       (''decision'', JStr (if passed then ''PASS'' else ''BLOCKED'')),
       (''conditions'', JObj (map (\<lambda>(name, ok). (name, JStr (if ok then ''PASS'' else ''FAIL''))) conditions)),
       (''inputs'', inputs),
       (''policy'', JObj [(''global_route_invocation_limit'', JInt 1), (''cugr_congestion_iterations'', JInt 1),
          (''service'', JStr (''wbq-'' @ av_lower v @ ''-global-route.service'')), (''fail_closed'', JBool True)]),
       (''authorizes'', JArr (if passed then [JStr (av_route_stage v)] else [])),
       (''next_stage'', if passed then JStr (av_route_stage v) else JNull)]"

text \<open>The decision with its payload, then \<open>main\<close>, which writes it.\<close>

definition auth_decide :: "auth_variant \<Rightarrow> env \<Rightarrow> host \<Rightarrow> (bool \<times> json) result" where
  "auth_decide v env h =
     and_then (auth_load v env h) (\<lambda>i.
     and_then (evaluate (auth_conditions v env h i)) (\<lambda>conditions.
       let passed = list_all snd conditions in
       and_then (auth_evidence v env h i) (\<lambda>inputs.
         Inr (passed, auth_payload v env conditions inputs passed))))"

definition route_authorization_main :: "auth_variant \<Rightarrow> env \<Rightarrow> host \<Rightarrow> (int \<times> host) result" where
  "route_authorization_main v env h =
     (if exists h (under (root env) (av_output v))
      then Inl (FileExistsError ''refusing to overwrite route authorization'')
      else and_then (auth_decide v env h) (\<lambda>(passed, payload).
        Inr (if passed then 0 else 1, write_file (under (root env) (av_output v)) (dumps env payload) h)))"

section \<open>The scripts\<close>

text \<open>From B10 on a variant routes the placement of B9 after a route-pin smoke run.\<close>

definition routing_b9 :: "string \<Rightarrow> string \<Rightarrow> string \<Rightarrow> string \<Rightarrow> json \<Rightarrow> json \<Rightarrow> auth_variant" where
  "routing_b9 name lower selected variable before after =
     \<lparr>av_name = name, av_lower = lower, av_placed_name = ''B9'', av_placed = ''b9'', av_numeric = True,
      av_anchors = 9, av_smoke = True, av_selected = ''SELECT_'' @ name @ selected,
      av_eco = Some (variable, before, after), av_new_anchors = None, av_other = (''b7'', ''B7''),
      av_limits = (''unchanged_contract'', ''global_route_invocation_limit'')\<rparr>"

definition b6_route :: auth_variant where
  "b6_route =
     \<lparr>av_name = ''B6'', av_lower = ''b6'', av_placed_name = ''B6'', av_placed = ''b6'', av_numeric = False,
      av_anchors = 2, av_smoke = False, av_selected = ''SELECT_B6_TARGETED_ANCHOR_LOCK_ECO'', av_eco = None,
      av_new_anchors = None, av_other = (''b5'', ''B5''), av_limits = (''global_route'', ''invocation_limit'')\<rparr>"

definition b7_route :: auth_variant where
  "b7_route =
     \<lparr>av_name = ''B7'', av_lower = ''b7'', av_placed_name = ''B7'', av_placed = ''b7'', av_numeric = True,
      av_anchors = 2, av_smoke = False, av_selected = ''SELECT_B7_LOWER_MAX_PHI_ECO'', av_eco = None,
      av_new_anchors = None, av_other = (''b6'', ''B6''),
      av_limits = (''unchanged_contract'', ''global_route_invocation_limit'')\<rparr>"

definition b9_route :: auth_variant where
  "b9_route =
     \<lparr>av_name = ''B9'', av_lower = ''b9'', av_placed_name = ''B9'', av_placed = ''b9'', av_numeric = True,
      av_anchors = 9, av_smoke = False, av_selected = ''SELECT_B9_SEVEN_ADDITIONAL_ANCHORS_ECO'',
      av_eco = Some (''locked_anchor_targets'', JInt 2, JInt 9), av_new_anchors = Some 7,
      av_other = (''b7'', ''B7''), av_limits = (''unchanged_contract'', ''global_route_invocation_limit'')\<rparr>"

definition b10_route :: auth_variant where
  "b10_route = routing_b9 ''B10'' ''b10'' ''_ROUTE_PIN_GRID_COLUMNS_ECO'' ''route_bump_pin_grid_columns'' (JInt 25) (JInt 29)"

definition b11_route :: auth_variant where
  "b11_route = routing_b9 ''B11'' ''b11'' ''_ROUTE_PIN_GRID_COLUMNS_ECO'' ''route_bump_pin_grid_columns'' (JInt 25) (JInt 21)"

definition b12_route :: auth_variant where
  "b12_route = routing_b9 ''B12'' ''b12'' ''_SIGNAL_LAYER_BOTTOM_ECO'' ''route_signal_layer_bottom'' (JStr ''met1'') (JStr ''met2'')"

definition b13_route :: auth_variant where
  "b13_route = routing_b9 ''B13'' ''b13'' ''_BUMP_GRID_WIDER_ECO'' ''route_bump_pin_grid_columns'' (JInt 21) (JInt 33)"

definition b14_route :: auth_variant where
  "b14_route = routing_b9 ''B14'' ''b14'' ''_BUMP_GRID_WIDER_ECO'' ''route_bump_pin_grid_columns'' (JInt 33) (JInt 17)"

definition b15_route :: auth_variant where
  "b15_route = routing_b9 ''B15'' ''b15'' ''_CLOCK_LAYER_RESTORE_ECO'' ''route_clock_layer_bottom'' (JStr ''met1'') (JStr ''met2'')"

definition b16_route :: auth_variant where
  "b16_route = routing_b9 ''B16'' ''b16'' ''_BUMP_GRID_COLUMNS_ECO'' ''route_bump_pin_grid_columns'' (JInt 17) (JInt 23)"

definition b17_route :: auth_variant where
  "b17_route = routing_b9 ''B17'' ''b17'' ''_BUMP_PITCH_ECO'' ''route_bump_pin_pitch'' (JFloat (Finite 250)) (JFloat (Finite 300))"

definition b18_route :: auth_variant where
  "b18_route = routing_b9 ''B18'' ''b18'' ''_BUMP_PITCH_ECO'' ''route_bump_pin_pitch'' (JFloat (Finite 300)) (JFloat (Finite 350))"

definition b19_route :: auth_variant where
  "b19_route = routing_b9 ''B19'' ''b19'' ''_BUMP_PITCH_ECO'' ''route_bump_pin_pitch'' (JFloat (Finite 350)) (JFloat (Finite 340))"

definition b20_route :: auth_variant where
  "b20_route = routing_b9 ''B20'' ''b20'' ''_BUMP_Y_ORIGIN_ECO'' ''route_bump_pin_y_origin'' (JFloat (Finite 1500)) (JFloat (Finite 1000))"

definition b21_route :: auth_variant where
  "b21_route = routing_b9 ''B21'' ''b21'' ''_BUMP_ORIGIN_ECO'' ''route_bump_pin_y_origin'' (JFloat (Finite 1500)) (JFloat (Finite 1000))"

definition b22_route :: auth_variant where
  "b22_route = routing_b9 ''B22'' ''b22'' ''_BUMP_ORIGIN_ECO'' ''route_bump_pin_y_origin'' (JFloat (Finite 1000)) (JFloat (Finite 500))"

definition b23_route :: auth_variant where
  "b23_route = routing_b9 ''B23'' ''b23'' ''_BUMP_ORIGIN_ECO'' ''route_bump_pin_y_origin'' (JFloat (Finite 1000)) (JFloat (Finite 750))"

definition b24_route :: auth_variant where
  "b24_route = routing_b9 ''B24'' ''b24'' ''_BUMP_ORIGIN_ECO'' ''route_bump_pin_y_origin'' (JFloat (Finite 1000)) (JFloat (Finite 1250))"

definition authorize_b6 :: "env \<Rightarrow> host \<Rightarrow> (int \<times> host) result" where
  "authorize_b6 = route_authorization_main b6_route"

definition authorize_b7 :: "env \<Rightarrow> host \<Rightarrow> (int \<times> host) result" where
  "authorize_b7 = route_authorization_main b7_route"

definition authorize_b9 :: "env \<Rightarrow> host \<Rightarrow> (int \<times> host) result" where
  "authorize_b9 = route_authorization_main b9_route"

definition authorize_b10 :: "env \<Rightarrow> host \<Rightarrow> (int \<times> host) result" where
  "authorize_b10 = route_authorization_main b10_route"

definition authorize_b11 :: "env \<Rightarrow> host \<Rightarrow> (int \<times> host) result" where
  "authorize_b11 = route_authorization_main b11_route"

definition authorize_b12 :: "env \<Rightarrow> host \<Rightarrow> (int \<times> host) result" where
  "authorize_b12 = route_authorization_main b12_route"

definition authorize_b13 :: "env \<Rightarrow> host \<Rightarrow> (int \<times> host) result" where
  "authorize_b13 = route_authorization_main b13_route"

definition authorize_b14 :: "env \<Rightarrow> host \<Rightarrow> (int \<times> host) result" where
  "authorize_b14 = route_authorization_main b14_route"

definition authorize_b15 :: "env \<Rightarrow> host \<Rightarrow> (int \<times> host) result" where
  "authorize_b15 = route_authorization_main b15_route"

definition authorize_b16 :: "env \<Rightarrow> host \<Rightarrow> (int \<times> host) result" where
  "authorize_b16 = route_authorization_main b16_route"

definition authorize_b17 :: "env \<Rightarrow> host \<Rightarrow> (int \<times> host) result" where
  "authorize_b17 = route_authorization_main b17_route"

definition authorize_b18 :: "env \<Rightarrow> host \<Rightarrow> (int \<times> host) result" where
  "authorize_b18 = route_authorization_main b18_route"

definition authorize_b19 :: "env \<Rightarrow> host \<Rightarrow> (int \<times> host) result" where
  "authorize_b19 = route_authorization_main b19_route"

definition authorize_b20 :: "env \<Rightarrow> host \<Rightarrow> (int \<times> host) result" where
  "authorize_b20 = route_authorization_main b20_route"

definition authorize_b21 :: "env \<Rightarrow> host \<Rightarrow> (int \<times> host) result" where
  "authorize_b21 = route_authorization_main b21_route"

definition authorize_b22 :: "env \<Rightarrow> host \<Rightarrow> (int \<times> host) result" where
  "authorize_b22 = route_authorization_main b22_route"

definition authorize_b23 :: "env \<Rightarrow> host \<Rightarrow> (int \<times> host) result" where
  "authorize_b23 = route_authorization_main b23_route"

definition authorize_b24 :: "env \<Rightarrow> host \<Rightarrow> (int \<times> host) result" where
  "authorize_b24 = route_authorization_main b24_route"

definition route_variants :: "auth_variant list" where
  "route_variants = [b6_route, b7_route, b9_route, b10_route, b11_route, b12_route, b13_route, b14_route, b15_route, b16_route, b17_route, b18_route, b19_route, b20_route, b21_route, b22_route, b23_route, b24_route]"

lemmas route_variant_defs = routing_b9_def
  b6_route_def b7_route_def b9_route_def b10_route_def b11_route_def b12_route_def b13_route_def b14_route_def b15_route_def b16_route_def b17_route_def b18_route_def b19_route_def b20_route_def b21_route_def b22_route_def b23_route_def b24_route_def

end
