(* ===== verification/Stage_Authorization.thy ===== *)
theory Stage_Authorization
  imports Route_Authorization
begin

text \<open>
  The authorizations after the strict gate, which exist for B6 and B7:
  \<open>tools/authorize_b*_phase6_cts.py\<close> releases clock-tree synthesis,
  \<open>authorize_b*_phase6_post_cts_route.py\<close> the route that follows it and
  \<open>authorize_b*_phase7_detailed_route.py\<close> the detailed route. The scripts of the two
  variants share one body each and differ in the two spellings of the variant.
\<close>

record stage_variant =
  sv_name :: string
  sv_lower :: string

definition sv_report :: "stage_variant \<Rightarrow> string \<Rightarrow> string" where
  "sv_report v name = reports (sv_lower v) @ ''/'' @ name"

definition sv_own :: "stage_variant \<Rightarrow> string \<Rightarrow> string \<Rightarrow> string" where
  "sv_own v directory name = reports (sv_lower v) @ ''/'' @ directory @ ''/'' @ sv_lower v @ name"

definition sv_script :: "stage_variant \<Rightarrow> string \<Rightarrow> string \<Rightarrow> string" where
  "sv_script v before after =
     ''verification/groot_normalization/'' @ before @ ''wbq_'' @ sv_lower v @ after"

definition sv_scratch :: "stage_variant \<Rightarrow> string \<Rightarrow> string" where
  "sv_scratch v name = ''/dev/shm/wbq_'' @ sv_lower v @ ''_phase6_10/'' @ name"

definition sv_stage :: "stage_variant \<Rightarrow> string \<Rightarrow> string" where
  "sv_stage v stage = sv_name v @ stage"

section \<open>Shared steps\<close>

text \<open>The dictionary of evidence entries, and an artifact a report records: its path and item.\<close>

definition evidence_object :: "(string \<times> json result) list \<Rightarrow> json result" where
  "evidence_object tests =
     and_then (map_r (\<lambda>(name, test). and_then test (\<lambda>e. Inr (name, e))) tests) (\<lambda>entries. Inr (JObj entries))"

definition recorded_item :: "json \<Rightarrow> string \<Rightarrow> string \<Rightarrow> (json \<times> string) result" where
  "recorded_item report table name =
     and_then (get2 report table name (JObj [])) (\<lambda>item.
     and_then (get item ''path'' (JStr '''')) (\<lambda>value.
     and_then (to_path value) (\<lambda>path. Inr (item, path))))"

definition items_match :: "env \<Rightarrow> host \<Rightarrow> json \<times> string \<Rightarrow> json \<times> string \<Rightarrow> bool result" where
  "items_match env h odb sdc =
     all_of [Inr (is_file h (snd odb)), Inr (is_file h (snd sdc)), digest_matches env h (snd odb) (fst odb),
             digest_matches env h (snd sdc) (fst sdc)]"

definition pass_fail :: "(string \<times> bool) list \<Rightarrow> json" where
  "pass_fail conditions = JObj (map (\<lambda>(name, ok). (name, JStr (if ok then ''PASS'' else ''FAIL''))) conditions)"

definition released :: "string \<Rightarrow> bool \<Rightarrow> (string \<times> json) list" where
  "released stage passed =
     [(''authorizes'', JArr (if passed then [JStr stage] else [])),
      (''next_stage'', if passed then JStr stage else JNull)]"

section \<open>Clock-tree synthesis\<close>

definition gate_path :: "stage_variant \<Rightarrow> string" where
  "gate_path v = sv_report v ''phase6_decision_gate.json''"

definition cts_output :: "stage_variant \<Rightarrow> string" where
  "cts_output v = sv_own v ''phase6'' ''_phase6_cts_authorization.json''"

definition cts_placement :: "stage_variant \<Rightarrow> string" where
  "cts_placement v = sv_own v ''physical'' ''_placement_execution_report.json''"

definition cts_route :: "stage_variant \<Rightarrow> string" where
  "cts_route v = sv_own v ''physical'' ''_global_route_execution_report.json''"

definition cts_physical_auth :: "stage_variant \<Rightarrow> string" where
  "cts_physical_auth v = sv_report v (sv_lower v @ ''_physical_authorization.json'')"

definition cts_config :: "stage_variant \<Rightarrow> string" where
  "cts_config v = ''flow/designs/sky130hd/normalization_hbm_quad_local_'' @ sv_lower v @ ''/config.mk''"

definition cts_runner :: "stage_variant \<Rightarrow> string" where
  "cts_runner v = sv_script v ''run_'' ''_phase6_cts.sh''"

definition cts_audit :: "stage_variant \<Rightarrow> string" where
  "cts_audit v = sv_script v ''audit_'' ''_phase6_cts.tcl''"

record cts_inputs =
  ci_gate :: json
  ci_placement :: json
  ci_route :: json
  ci_physical :: json
  ci_config :: string
  ci_runner :: string
  ci_audit :: string
  ci_odb :: "json \<times> string"
  ci_sdc :: "json \<times> string"
  ci_hashes_match :: bool
  ci_netlist_unchanged :: bool

definition cts_load :: "stage_variant \<Rightarrow> env \<Rightarrow> host \<Rightarrow> cts_inputs result" where
  "cts_load v env h =
     (let loc = under (root env) in
      and_then (load env h (loc (gate_path v))) (\<lambda>gate.
      and_then (load env h (loc (cts_placement v))) (\<lambda>placement.
      and_then (load env h (loc (cts_route v))) (\<lambda>route.
      and_then (load env h (loc (cts_physical_auth v))) (\<lambda>physical.
      and_then (read_text env h (loc (cts_config v))) (\<lambda>config.
      and_then (read_text env h (loc (cts_runner v))) (\<lambda>runner.
      and_then (read_text env h (loc (cts_audit v))) (\<lambda>audit.
      and_then (get2 placement ''outputs'' (sv_lower v @ ''_place_odb'') (JObj [])) (\<lambda>odb_item.
      and_then (get2 placement ''outputs'' (sv_lower v @ ''_place_sdc'') (JObj [])) (\<lambda>sdc_item.
      and_then (and_then (get odb_item ''path'' (JStr '''')) to_path) (\<lambda>odb.
      and_then (and_then (get sdc_item ''path'' (JStr '''')) to_path) (\<lambda>sdc.
      and_then (items_match env h (odb_item, odb) (sdc_item, sdc)) (\<lambda>hashes.
      and_then (recorded_item physical ''inputs'' ''b2_mapped_netlist'') (\<lambda>b2.
      and_then (recorded_item physical ''inputs'' ''b5_mapped_netlist'') (\<lambda>b5.
      and_then (all_of [Inr (is_file h (snd b2)), Inr (is_file h (snd b5)),
                        and_then (sha256 env h (snd b2)) (\<lambda>d. and_then (sha256 env h (snd b5)) (\<lambda>e.
                          Inr (py_eq d e)))]) (\<lambda>unchanged.
        Inr \<lparr>ci_gate = gate, ci_placement = placement, ci_route = route, ci_physical = physical,
             ci_config = config, ci_runner = runner, ci_audit = audit, ci_odb = (odb_item, odb),
             ci_sdc = (sdc_item, sdc), ci_hashes_match = hashes, ci_netlist_unchanged = unchanged\<rparr>))))))))))))))))"

definition cts_prior_outputs :: "stage_variant \<Rightarrow> string \<Rightarrow> string list" where
  "cts_prior_outputs v base =
     map (\<lambda>name. under base (sv_own v ''phase6'' name))
       [''_phase6_cts_preflight.json'', ''_phase6_cts_invocation.json'', ''_phase6_cts_execution_report.json'',
        ''_phase6_cts.log'', ''_phase6_cts_audit.log''] @
     map (sv_scratch v)
       [''phase6_cts/'' @ sv_lower v @ ''_phase6_cts.odb'', ''phase6_cts/'' @ sv_lower v @ ''_phase6_cts.sdc''] @
     map (\<lambda>name. sv_scratch v (''orfs/results/sky130hd/normalization_hbm_quad_local_'' @ sv_lower v @ ''/base/'' @ name))
       [''4_1_cts.odb'', ''4_cts.odb'', ''4_cts.sdc'']"

definition quote :: string where "quote = [CHR 0x22]"

definition cts_conditions :: "stage_variant \<Rightarrow> env \<Rightarrow> host \<Rightarrow> cts_inputs \<Rightarrow> (string \<times> bool result) list" where
  "cts_conditions v env h i =
     (let config_has = (\<lambda>s. Inr (substring s (ci_config i))); runner_has = (\<lambda>s. Inr (substring s (ci_runner i)));
          audit_has = (\<lambda>s. Inr (substring s (ci_audit i)))
      in
      [(''strict_gate_pass'',
          all_of [get_eq (ci_gate i) ''decision'' (JStr ''PASS''),
                  authorizes_stage (ci_gate i) (sv_stage v ''_PHASE6_CTS'')]),
       (''placement_pass'', get_eq (ci_placement i) ''status'' (JStr ''PASS'')),
       (''placement_hashes_match'', Inr (ci_hashes_match i)),
       (''pre_cts_route_valid'',
          all_of [get_eq (ci_route i) ''status'' (JStr ''PASS''), get_eq (ci_route i) ''invocation_count'' (JInt 1)]),
       (''physical_authorization_pass'', get_eq (ci_physical i) ''decision'' (JStr ''PASS'')),
       (''mapped_netlist_unchanged'', Inr (ci_netlist_unchanged i)),
       (sv_lower v @ ''_design_nickname'',
          config_has (''DESIGN_NICKNAME = normalization_hbm_quad_local_'' @ sv_lower v)),
       (sv_lower v @ ''_top_name'', config_has ''DESIGN_NAME = logic_die_normalization_hbm_quad_local_b2_top''),
       (''explicit_cts_policy'', all_of [runner_has ''do-4_1_cts'', runner_has ''repair_clock_nets'']),
       (''runner_records_compute_pid'', all_of [runner_has ''compute_pid'', runner_has ''wrapper_pid'']),
       (''runner_has_signal_traps'',
          all_of [runner_has ''trap 'on_signal INT' INT'', runner_has ''trap 'on_signal TERM' TERM'']),
       (''audit_requires_clock_network'', audit_has ''clock_net_count < 1''),
       (''audit_requires_legal_placement'', audit_has (''violations ne '' @ quote @ quote)),
       (''no_prior_cts_artifact'', Inr (\<not> list_ex (exists h) (cts_prior_outputs v (root env))))])"

definition cts_evidence :: "stage_variant \<Rightarrow> env \<Rightarrow> host \<Rightarrow> cts_inputs \<Rightarrow> (string \<times> json result) list" where
  "cts_evidence v env h i =
     (let ev = (\<lambda>p. evidence env h (under (root env) p)) in
      [(''strict_phase6_gate'', ev (gate_path v)), (''placement_execution_report'', ev (cts_placement v)),
       (''pre_cts_route_execution_report'', ev (cts_route v)), (''physical_authorization'', ev (cts_physical_auth v)),
       (sv_lower v @ ''_place_odb'', placed_evidence env h (snd (ci_odb i))),
       (sv_lower v @ ''_place_sdc'', placed_evidence env h (snd (ci_sdc i))),
       (''config'', ev (cts_config v)), (''runner'', ev (cts_runner v)), (''audit_tcl'', ev (cts_audit v)),
       (''silence_snapshot_tool'', ev ''tools/capture_openroad_stage_snapshot.py''),
       (''silence_compare_tool'', ev ''tools/compare_openroad_stage_snapshots.py'')])"

definition cts_payload :: "stage_variant \<Rightarrow> env \<Rightarrow> (string \<times> bool) list \<Rightarrow> json \<Rightarrow> bool \<Rightarrow> json" where
  "cts_payload v env conditions inputs passed =
     JObj ([(''schema_version'', JInt 1), (''generated_at_utc'', JStr (now env)), (''phase'', JInt 6),
        (''variant'', JStr (sv_stage v ''_PHASE6_CTS'')),
        (''decision'', JStr (if passed then ''PASS'' else ''BLOCKED'')),
        (''conditions'', pass_fail conditions), (''inputs'', inputs),
        (''policy'', JObj
           [(''service'', JStr (''wbq-'' @ sv_lower v @ ''-phase6-cts.service'')),
            (''openroad_compute_invocation_limit'', JInt 1),
            (''clock_distribution'', JStr ''ORFS TritonCTS with repair_clock_nets''),
            (''signal_layers'', JStr ''met1-met5''), (''clock_layers'', JStr ''met2-met5''),
            (''fail_closed'', JBool True)])] @
        released (sv_stage v ''_PHASE6_CTS_COMPUTE'') passed)"

definition cts_decide :: "stage_variant \<Rightarrow> env \<Rightarrow> host \<Rightarrow> (bool \<times> json) result" where
  "cts_decide v env h =
     and_then (cts_load v env h) (\<lambda>i.
     and_then (evaluate (cts_conditions v env h i)) (\<lambda>conditions.
       let passed = list_all snd conditions in
       and_then (evidence_object (cts_evidence v env h i)) (\<lambda>inputs.
         Inr (passed, cts_payload v env conditions inputs passed))))"

text \<open>The end of every one of these scripts: the decision is written and gives the exit code.\<close>

definition write_decision :: "env \<Rightarrow> string \<Rightarrow> host \<Rightarrow> bool \<times> json \<Rightarrow> (int \<times> host) result" where
  "write_decision env output h decision =
     Inr (if fst decision then 0 else 1, write_file output (dumps env (snd decision)) h)"

definition cts_authorization_main :: "stage_variant \<Rightarrow> env \<Rightarrow> host \<Rightarrow> (int \<times> host) result" where
  "cts_authorization_main v env h =
     (let output = under (root env) (cts_output v) in
      if exists h output then Inl (FileExistsError ''refusing to overwrite CTS authorization'')
      else and_then (cts_decide v env h) (\<lambda>decision.
        and_then (make_dirs (under (root env) (sv_report v ''phase6'')) h) (\<lambda>h'.
          write_decision env output h' decision)))"

section \<open>The route after clock-tree synthesis\<close>

definition post_cts_output :: "stage_variant \<Rightarrow> string" where
  "post_cts_output v = sv_own v ''phase6'' ''_phase6_post_cts_route_authorization.json''"

definition cts_manifest :: "stage_variant \<Rightarrow> string" where
  "cts_manifest v = sv_own v ''phase6'' ''_phase6_cts_execution_report.json''"

definition post_cts_runner :: "stage_variant \<Rightarrow> string" where
  "post_cts_runner v = sv_script v ''run_'' ''_phase6_post_cts_global_route.sh''"

definition post_cts_tcl :: "stage_variant \<Rightarrow> string" where
  "post_cts_tcl v = sv_script v '''' ''_phase6_post_cts_global_route.tcl''"

definition post_cts_audit :: "stage_variant \<Rightarrow> string" where
  "post_cts_audit v = sv_script v ''audit_'' ''_phase6_post_cts_route.tcl''"

record post_cts_inputs =
  pi_cts :: json
  pi_runner :: string
  pi_tcl :: string
  pi_audit :: string
  pi_odb :: "json \<times> string"
  pi_sdc :: "json \<times> string"
  pi_hashes_match :: bool

definition post_cts_load :: "stage_variant \<Rightarrow> env \<Rightarrow> host \<Rightarrow> post_cts_inputs result" where
  "post_cts_load v env h =
     (let loc = under (root env) in
      and_then (load env h (loc (cts_manifest v))) (\<lambda>cts.
      and_then (read_text env h (loc (post_cts_runner v))) (\<lambda>runner.
      and_then (read_text env h (loc (post_cts_tcl v))) (\<lambda>tcl.
      and_then (read_text env h (loc (post_cts_audit v))) (\<lambda>audit.
      and_then (get2 cts ''artifacts'' ''cts_odb'' (JObj [])) (\<lambda>odb_item.
      and_then (get2 cts ''artifacts'' ''cts_sdc'' (JObj [])) (\<lambda>sdc_item.
      and_then (and_then (get odb_item ''path'' (JStr '''')) to_path) (\<lambda>odb.
      and_then (and_then (get sdc_item ''path'' (JStr '''')) to_path) (\<lambda>sdc.
      and_then (items_match env h (odb_item, odb) (sdc_item, sdc)) (\<lambda>hashes.
        Inr \<lparr>pi_cts = cts, pi_runner = runner, pi_tcl = tcl, pi_audit = audit, pi_odb = (odb_item, odb),
             pi_sdc = (sdc_item, sdc), pi_hashes_match = hashes\<rparr>))))))))))"

definition post_cts_prior_outputs :: "stage_variant \<Rightarrow> string \<Rightarrow> string list" where
  "post_cts_prior_outputs v base =
     map (\<lambda>name. under base (sv_own v ''phase6'' name))
       [''_phase6_post_cts_preflight.json'', ''_phase6_post_cts_global_route_invocation.json'',
        ''_phase6_post_cts_global_route_execution_report.json'', ''_phase6_post_cts_global_route.log'',
        ''_phase6_post_cts_route_audit.log'', ''_phase6_post_cts_congestion_analysis.json'',
        ''_phase6_post_cts_congestion_analysis.md''] @
     map (\<lambda>name. sv_scratch v (''phase6_post_cts/'' @ sv_lower v @ name))
       [''_phase6_post_cts.route_guide'', ''_phase6_post_cts.congestion.rpt'',
        ''_phase6_post_cts_global_route.odb'', ''_phase6_post_cts_global_route.sdc'']"

definition post_cts_conditions ::
  "stage_variant \<Rightarrow> env \<Rightarrow> host \<Rightarrow> post_cts_inputs \<Rightarrow> (string \<times> bool result) list" where
  "post_cts_conditions v env h i =
     (let runner_has = (\<lambda>s. Inr (substring s (pi_runner i))); audit_has = (\<lambda>s. Inr (substring s (pi_audit i))) in
      [(''cts_pass'', get_eq (pi_cts i) ''status'' (JStr ''PASS'')),
       (''cts_authorizes_post_route'',
          authorizes_stage (pi_cts i) (sv_stage v ''_PHASE6_POST_CTS_GLOBAL_ROUTE_AUTHORIZATION'')),
       (''cts_hashes_match'', Inr (pi_hashes_match i)),
       (''one_route_invocation'', runner_has (''global_route_invocation_limit'' @ quote @ '': 1'')),
       (''ten_cugr_iterations'', Inr (substring ''$iterations != 10'' (pi_tcl i))),
       (''tcl_single_route_command'', Inr (count_sub (''global_route '' @ [CHR 0x5C]) (pi_tcl i) = 1)),
       (''runner_refuses_duplicates'', runner_has ''refusing duplicate''),
       (''runner_records_exact_pids'',
          all_of [runner_has ''launcher_pid'', runner_has ''compute_pid'', runner_has ''audit_compute_pid'']),
       (''runner_has_signal_traps'',
          all_of [runner_has ''trap 'on_signal INT' INT'', runner_has ''trap 'on_signal TERM' TERM'']),
       (''direct_numeric_compact_parser'', runner_has ''--max-windows-in-output 0''),
       (''audit_requires_clock_and_routes'', all_of [audit_has ''clock_net_count < 1'', audit_has ''!$has_routes'']),
       (''no_prior_route_artifact'', Inr (\<not> list_ex (exists h) (post_cts_prior_outputs v (root env))))])"

definition post_cts_evidence :: "stage_variant \<Rightarrow> env \<Rightarrow> host \<Rightarrow> post_cts_inputs \<Rightarrow> (string \<times> json result) list" where
  "post_cts_evidence v env h i =
     (let ev = (\<lambda>p. evidence env h (under (root env) p)) in
      [(''cts_execution_report'', ev (cts_manifest v)),
       (''cts_odb'', placed_evidence env h (snd (pi_odb i))), (''cts_sdc'', placed_evidence env h (snd (pi_sdc i))),
       (''runner'', ev (post_cts_runner v)), (''route_tcl'', ev (post_cts_tcl v)),
       (''audit_tcl'', ev (post_cts_audit v)),
       (''direct_numeric_parser'', ev ''tools/analyze_variant_residual_congestion.py''),
       (''silence_snapshot_tool'', ev ''tools/capture_openroad_stage_snapshot.py''),
       (''silence_compare_tool'', ev ''tools/compare_openroad_stage_snapshots.py'')])"

definition post_cts_payload :: "stage_variant \<Rightarrow> env \<Rightarrow> (string \<times> bool) list \<Rightarrow> json \<Rightarrow> bool \<Rightarrow> json" where
  "post_cts_payload v env conditions inputs passed =
     JObj ([(''schema_version'', JInt 1), (''generated_at_utc'', JStr (now env)), (''phase'', JInt 6),
        (''variant'', JStr (sv_stage v ''_PHASE6_POST_CTS'')),
        (''decision'', JStr (if passed then ''PASS'' else ''BLOCKED'')),
        (''conditions'', pass_fail conditions), (''inputs'', inputs),
        (''policy'', JObj
           [(''service'', JStr (''wbq-'' @ sv_lower v @ ''-phase6-post-cts-route.service'')),
            (''global_route_invocation_limit'', JInt 1), (''cugr_congestion_iterations'', JInt 10),
            (''skip_large_fanout_nets'', JInt 20000), (''require_no_skipped_nets'', JBool True),
            (''require_zero_residual_and_overflow'', JBool True), (''fail_closed'', JBool True)])] @
        released (sv_stage v ''_PHASE6_POST_CTS_GLOBAL_ROUTE_COMPUTE'') passed)"

definition post_cts_decide :: "stage_variant \<Rightarrow> env \<Rightarrow> host \<Rightarrow> (bool \<times> json) result" where
  "post_cts_decide v env h =
     and_then (post_cts_load v env h) (\<lambda>i.
     and_then (evaluate (post_cts_conditions v env h i)) (\<lambda>conditions.
       let passed = list_all snd conditions in
       and_then (evidence_object (post_cts_evidence v env h i)) (\<lambda>inputs.
         Inr (passed, post_cts_payload v env conditions inputs passed))))"

definition post_cts_authorization_main :: "stage_variant \<Rightarrow> env \<Rightarrow> host \<Rightarrow> (int \<times> host) result" where
  "post_cts_authorization_main v env h =
     (let output = under (root env) (post_cts_output v) in
      if exists h output then Inl (FileExistsError ''refusing to overwrite post-CTS route authorization'')
      else and_then (post_cts_decide v env h) (write_decision env output h))"

section \<open>The detailed route\<close>

text \<open>
  \<open>text.splitlines()\<close> and \<open>line.strip()\<close>, of which only the emptiness counts. Text is a
  list of 8-bit characters, so of Python's line boundaries and white space those below 256.
\<close>

definition line_breaks :: string where
  "line_breaks = map char_of [10, 11, 12, 13, 28, 29, 30, 133 :: nat]"

definition white_space :: string where
  "white_space = map char_of [9, 10, 11, 12, 13, 28, 29, 30, 31, 32, 133, 160 :: nat]"

fun splitlines :: "string \<Rightarrow> string \<Rightarrow> string list" where
  "splitlines [] acc = (if acc = [] then [] else [rev acc])"
| "splitlines (c # s) acc =
     (if c \<in> set line_breaks
      then rev acc # splitlines (if c = CHR 0x0D \<and> s \<noteq> [] \<and> hd s = CHR 0x0A then tl s else s) []
      else splitlines s (c # acc))"

definition nonblank_lines :: "string \<Rightarrow> string list" where
  "nonblank_lines text = filter (list_ex (\<lambda>c. c \<notin> set white_space)) (splitlines text [])"

text \<open>
  \<open>setting\<close> is the environment variable that may move the routed files, \<open>pgrep\<close> the outcome
  of the process listing: the standard output, or the exception when it cannot run.
\<close>

definition detailed_output :: "stage_variant \<Rightarrow> string" where
  "detailed_output v = sv_own v ''phase7'' ''_phase7_detailed_route_authorization.json''"

definition detailed_source :: "stage_variant \<Rightarrow> string" where
  "detailed_source v = sv_own v ''phase6'' ''_phase6_post_cts_global_route_execution_report.json''"

definition input_root :: "stage_variant \<Rightarrow> string option \<Rightarrow> string" where
  "input_root v setting = path_str (case setting of None \<Rightarrow> sv_scratch v ''phase6_post_cts'' | Some s \<Rightarrow> s)"

definition routed_file :: "stage_variant \<Rightarrow> string option \<Rightarrow> string \<Rightarrow> string" where
  "routed_file v setting suffix = under (input_root v setting) (sv_lower v @ ''_phase6_post_cts_global_route'' @ suffix)"

definition pinned_tools :: "stage_variant \<Rightarrow> (string \<times> string) list" where
  "pinned_tools v =
     [(''authorization_tool'', ''tools/authorize_'' @ sv_lower v @ ''_phase7_detailed_route.py''),
      (''runner'', sv_script v ''run_'' ''_phase7_detailed_route.sh''),
      (''route_tcl'', sv_script v '''' ''_phase7_detailed_route.tcl''),
      (''audit_tcl'', sv_script v ''audit_'' ''_phase7_detailed_route.tcl''),
      (''silence_snapshot_tool'', ''tools/capture_openroad_stage_snapshot.py''),
      (''silence_compare_tool'', ''tools/compare_openroad_stage_snapshots.py'')]"

definition refuse_if_present :: "stage_variant \<Rightarrow> string list" where
  "refuse_if_present v =
     map (sv_own v ''phase7'')
       [''_phase7_preflight.json'', ''_phase7_detailed_route_invocation.json'',
        ''_phase7_detailed_route_execution_report.json'', ''_phase7_detailed_route.log'']"

text \<open>\<open>item(path)\<close> and the test that a file is there and not empty.\<close>

definition file_item :: "env \<Rightarrow> host \<Rightarrow> string \<Rightarrow> json result" where
  "file_item env h p =
     and_then (read_bytes h p) (\<lambda>b.
       Inr (JObj [(''path'', JStr p), (''bytes'', JInt (int (length b))), (''sha256'', JStr (sha env b))]))"

definition require_nonempty :: "host \<Rightarrow> string \<Rightarrow> unit result" where
  "require_nonempty h p =
     (case files h p of Some b \<Rightarrow> if b = [] then Inl (FileNotFoundError p) else Inr ()
      | None \<Rightarrow> Inl (FileNotFoundError p))"

definition detailed_checks ::
  "stage_variant \<Rightarrow> string option \<Rightarrow> env \<Rightarrow> host \<Rightarrow> json \<Rightarrow> json \<Rightarrow> string list \<Rightarrow> (string \<times> bool result) list" where
  "detailed_checks v setting env h source recorded processes =
     (let recorded_is = (\<lambda>name p. and_then (get2 recorded name ''sha256'' JNull) (\<lambda>d.
            and_then (sha256 env h p) (\<lambda>e. Inr (py_eq d e))))
      in
      [(''post_cts_status_pass'', get_eq source ''status'' (JStr ''PASS'')),
       (''post_cts_authorizes_phase7'', authorizes_stage source (sv_stage v ''_PHASE7_DETAILED_ROUTE_AUTHORIZATION'')),
       (''zero_rrr_residual'', get2_eq source ''metrics'' ''rrr_residual'' (JInt 0)),
       (''zero_overflow_edges'', get2_eq source ''metrics'' ''overflow_edges'' (JInt 0)),
       (''no_skipped_nets'', get_eq source ''skipped_nets'' (JArr [])),
       (''protected_artifacts_preserved'', get_is_true source ''protected_artifacts_preserved''),
       (''routed_odb_hash'', recorded_is ''routed_odb'' (routed_file v setting ''.odb'')),
       (''routed_sdc_hash'', recorded_is ''routed_sdc'' (routed_file v setting ''.sdc'')),
       (''no_prior_phase7_attempt'',
          Inr (\<not> list_ex (\<lambda>p. exists h (under (root env) p)) (refuse_if_present v))),
       (''no_openroad_process'', Inr (processes = []))])"

definition detailed_evidence :: "stage_variant \<Rightarrow> string option \<Rightarrow> env \<Rightarrow> host \<Rightarrow> (string \<times> json result) list" where
  "detailed_evidence v setting env h =
     [(''phase6_post_cts_manifest'', file_item env h (under (root env) (detailed_source v))),
      (''routed_odb'', file_item env h (routed_file v setting ''.odb'')),
      (''routed_sdc'', file_item env h (routed_file v setting ''.sdc''))] @
     map (\<lambda>(name, p). (name, file_item env h (under (root env) p))) (pinned_tools v)"

definition detailed_payload ::
  "stage_variant \<Rightarrow> env \<Rightarrow> (string \<times> bool) list \<Rightarrow> string list \<Rightarrow> json \<Rightarrow> bool \<Rightarrow> json" where
  "detailed_payload v env checks processes inputs passed =
     JObj ([(''schema_version'', JInt 1), (''phase'', JInt 7),
        (''variant'', JStr (sv_stage v ''_PHASE7_DETAILED_ROUTE'')), (''generated_at_utc'', JStr (now env)),
        (''decision'', JStr (if passed then ''PASS'' else ''BLOCKED'')),
        (''checks'', JObj (map (\<lambda>(name, ok). (name, JBool ok)) checks)),
        (''openroad_processes'', JArr (map JStr processes)), (''inputs'', inputs),
        (''resource_contract'', JObj
           [(''minimum_mem_available_gib'', JInt 32), (''minimum_output_free_gib'', JInt 12),
            (''basis'', JStr (''B2/'' @ sv_name v @ '' ODBs are approximately 3.3-4.4 GiB; 12 GiB retains headroom for ODB, DEF, reports, and logs in the bounded tmpfs.''))]),
        (''invocation_limit'', JInt 1)] @
        released (sv_stage v ''_PHASE7_DETAILED_ROUTE_COMPUTE'') passed)"

definition detailed_decide ::
  "stage_variant \<Rightarrow> string option \<Rightarrow> string result \<Rightarrow> env \<Rightarrow> host \<Rightarrow> (bool \<times> json) result" where
  "detailed_decide v setting pgrep env h =
     and_then (map_r (require_nonempty h)
       ([under (root env) (detailed_source v), routed_file v setting ''.odb'', routed_file v setting ''.sdc''] @
        map (\<lambda>(_, p). under (root env) p) (pinned_tools v))) (\<lambda>_.
     and_then (and_then (read_bytes h (under (root env) (detailed_source v))) (loads env)) (\<lambda>source.
     and_then (get source ''artifacts'' (JObj [])) (\<lambda>recorded.
     and_then pgrep (\<lambda>listing.
     let processes = nonblank_lines listing in
     and_then (evaluate (detailed_checks v setting env h source recorded processes)) (\<lambda>checks.
       let passed = list_all snd checks in
       and_then (evidence_object (detailed_evidence v setting env h)) (\<lambda>inputs.
         Inr (passed, detailed_payload v env checks processes inputs passed)))))))"

definition detailed_authorization_main ::
  "stage_variant \<Rightarrow> string option \<Rightarrow> string result \<Rightarrow> env \<Rightarrow> host \<Rightarrow> (int \<times> host) result" where
  "detailed_authorization_main v setting pgrep env h =
     (let output = under (root env) (detailed_output v) in
      and_then (make_dirs (under (root env) (sv_report v ''phase7'')) h) (\<lambda>h'.
      if exists h' output then Inl (FileExistsError ''refusing to overwrite'')
      else and_then (detailed_decide v setting pgrep env h') (write_decision env output h')))"

section \<open>The scripts\<close>

definition b6_stages :: stage_variant where "b6_stages = \<lparr>sv_name = ''B6'', sv_lower = ''b6''\<rparr>"

definition b7_stages :: stage_variant where "b7_stages = \<lparr>sv_name = ''B7'', sv_lower = ''b7''\<rparr>"

definition authorize_b6_cts :: "env \<Rightarrow> host \<Rightarrow> (int \<times> host) result" where
  "authorize_b6_cts = cts_authorization_main b6_stages"

definition authorize_b7_cts :: "env \<Rightarrow> host \<Rightarrow> (int \<times> host) result" where
  "authorize_b7_cts = cts_authorization_main b7_stages"

definition authorize_b6_post_cts :: "env \<Rightarrow> host \<Rightarrow> (int \<times> host) result" where
  "authorize_b6_post_cts = post_cts_authorization_main b6_stages"

definition authorize_b7_post_cts :: "env \<Rightarrow> host \<Rightarrow> (int \<times> host) result" where
  "authorize_b7_post_cts = post_cts_authorization_main b7_stages"

definition authorize_b6_detailed :: "string option \<Rightarrow> string result \<Rightarrow> env \<Rightarrow> host \<Rightarrow> (int \<times> host) result" where
  "authorize_b6_detailed = detailed_authorization_main b6_stages"

definition authorize_b7_detailed :: "string option \<Rightarrow> string result \<Rightarrow> env \<Rightarrow> host \<Rightarrow> (int \<times> host) result" where
  "authorize_b7_detailed = detailed_authorization_main b7_stages"

end
