(* ===== verification/Route_Authorization_Props.thy ===== *)
theory Route_Authorization_Props
  imports Route_Authorization Strict_Gate_Props
begin

text \<open>
  What a route authorization means: it is issued exactly when the variant may be routed, at most
  once, never after a route has left anything behind, and it pins the files it rests on.
\<close>

section \<open>Conditions\<close>

text \<open>
  What has to hold before a variant may be routed, over the documents, the scripts and the
  files themselves. \<open>document_at\<close> and \<open>text_at\<close> say what a file holds.
\<close>

definition document_at :: "env \<Rightarrow> host \<Rightarrow> string \<Rightarrow> json \<Rightarrow> bool" where
  "document_at env h p v \<longleftrightarrow>
     (\<exists>b kvs. files h (under (root env) p) = Some b \<and> loads env b = Inr v \<and> v = JObj kvs)"

definition text_at :: "env \<Rightarrow> host \<Rightarrow> string \<Rightarrow> string \<Rightarrow> bool" where
  "text_at env h p s \<longleftrightarrow> (\<exists>b. files h (under (root env) p) = Some b \<and> decode env b = Inr s)"

definition nested_is :: "json \<Rightarrow> string \<Rightarrow> string \<Rightarrow> json \<Rightarrow> bool" where
  "nested_is obj k1 k2 v \<longleftrightarrow> (\<exists>x. get obj k1 (JObj []) = Inr x \<and> field_is x k2 v)"

definition releases :: "json \<Rightarrow> string \<Rightarrow> bool" where
  "releases report stage \<longleftrightarrow>
     (\<exists>stages. get report ''authorizes'' (JArr []) = Inr stages \<and> py_in stage stages = Inr True)"

text \<open>
  A report names a file in one of its tables, by its path and its digest: \<open>recorded_path\<close> is the
  path, and the file is intact when it is there with the recorded digest.
\<close>

definition recorded_path :: "json \<Rightarrow> string \<Rightarrow> string \<Rightarrow> string \<Rightarrow> bool" where
  "recorded_path report table name p \<longleftrightarrow>
     (\<exists>entries item s. get report table (JObj []) = Inr entries \<and> get entries name (JObj []) = Inr item \<and>
        get item ''path'' (JStr '''') = Inr (JStr s) \<and> p = path_str s)"

definition recorded_digest :: "json \<Rightarrow> string \<Rightarrow> string \<Rightarrow> json \<Rightarrow> bool" where
  "recorded_digest report table name d \<longleftrightarrow>
     (\<exists>entries item. get report table (JObj []) = Inr entries \<and> get entries name (JObj []) = Inr item \<and>
        get item ''sha256'' JNull = Inr d)"

definition table_intact :: "env \<Rightarrow> host \<Rightarrow> json \<Rightarrow> string \<Rightarrow> string \<Rightarrow> bool" where
  "table_intact env h report table name \<longleftrightarrow>
     (\<exists>p b. recorded_path report table name p \<and> files h p = Some b \<and>
        recorded_digest report table name (JStr (sha env b)))"

definition placement_accepted :: "auth_variant \<Rightarrow> env \<Rightarrow> host \<Rightarrow> json \<Rightarrow> bool" where
  "placement_accepted v env h placement \<longleftrightarrow>
     field_is placement ''status'' (JStr ''PASS'') \<and>
     field_is placement ''placement_legality_and_fence_audit'' (JStr ''PASS'') \<and>
     releases placement (if av_numeric v then av_placed_name v @ ''_TARGETED_PLACEMENT_REOPEN_AUDIT''
                         else av_name v @ ''_SINGLE_GLOBAL_ROUTE'') \<and>
     table_intact env h placement ''outputs'' (av_placed v @ ''_place_odb'') \<and>
     table_intact env h placement ''outputs'' (av_placed v @ ''_place_sdc'')"

text \<open>The numeric analysis was made of this placement report and of the log it records.\<close>

definition numeric_accepted :: "auth_variant \<Rightarrow> env \<Rightarrow> host \<Rightarrow> json \<Rightarrow> json \<Rightarrow> bool" where
  "numeric_accepted v env h placement analysis \<longleftrightarrow>
     field_is analysis ''status'' (JStr ''PASS'') \<and>
     field_is analysis ''authorizes'' (JArr [JStr (av_placed_name v @ ''_TARGETED_PLACEMENT_REOPEN_AUDIT'')]) \<and>
     (\<exists>b. files h (under (root env) (av_placement v ''_placement_execution_report.json'')) = Some b \<and>
        recorded_digest analysis ''inputs'' ''placement_manifest'' (JStr (sha env b))) \<and>
     (\<exists>d e. recorded_digest analysis ''inputs'' ''placement_log'' d \<and>
        recorded_digest placement ''outputs'' ''log'' e \<and> py_eq d e)"

definition audit_accepted :: "auth_variant \<Rightarrow> json \<Rightarrow> bool" where
  "audit_accepted v audit \<longleftrightarrow>
     field_is audit ''status'' (JStr ''PASS'') \<and>
     releases audit (av_placed_name v @ ''_GLOBAL_ROUTE_AUTHORIZATION'') \<and>
     nested_is audit ''metrics'' ''anchors_verified'' (JInt (av_anchors v)) \<and>
     (\<forall>metric \<in> {''outside_fence'', ''unplaced'', ''placement_violations''}. nested_is audit ''metrics'' metric (JInt 0))"

definition physically_authorized :: "auth_variant \<Rightarrow> json \<Rightarrow> bool" where
  "physically_authorized v report \<longleftrightarrow>
     (if av_smoke v
      then field_is report ''status'' (JStr ''PASS'') \<and>
           field_is report ''authorizes'' (JArr [JStr (av_name v @ ''_ROUTE_AUTHORIZATION'')])
      else field_is report ''decision'' (JStr ''PASS''))"

text \<open>The selected engineering change is the variant's own, and it allows one route of one iteration.\<close>

definition change_selected :: "auth_variant \<Rightarrow> json \<Rightarrow> bool" where
  "change_selected v decision \<longleftrightarrow>
     field_is decision ''decision'' (JStr (av_selected v)) \<and>
     (\<forall>variable before_value after_value. av_eco v = Some (variable, before_value, after_value) \<longrightarrow>
        nested_is decision ''selected_eco'' ''single_independent_variable'' (JStr variable) \<and>
        nested_is decision ''selected_eco'' ''before'' before_value \<and>
        nested_is decision ''selected_eco'' ''after'' after_value) \<and>
     (\<forall>n. av_new_anchors v = Some n \<longrightarrow>
        (\<exists>eco anchors. get decision ''selected_eco'' (JObj []) = Inr eco \<and>
           get eco ''new_anchors'' (JArr []) = Inr anchors \<and> py_len anchors = Inr n)) \<and>
     nested_is decision (fst (av_limits v)) (snd (av_limits v)) (JInt 1) \<and>
     nested_is decision (fst (av_limits v)) ''cugr_congestion_iterations'' (JInt 1)"

definition mentions :: "string \<Rightarrow> string \<Rightarrow> bool" where
  "mentions script phrase \<longleftrightarrow> (\<exists>a b. script = a @ phrase @ b)"

definition runner_guarded :: "auth_variant \<Rightarrow> string \<Rightarrow> bool" where
  "runner_guarded v runner \<longleftrightarrow>
     \<not> mentions runner (''quad_local_'' @ fst (av_other v)) \<and>
     (\<forall>phrase \<in> {''refusing duplicate'', ''compute_pid'', ''launcher_pid'', ''wrapper_pid'',
        ''trap 'on_signal INT' INT'', ''trap 'on_signal TERM' TERM'', ''analyze_variant_residual_congestion.py'',
        ''--max-windows-in-output 0'', ''--max-hotspots-in-output 500''}. mentions runner phrase)"

definition tcl_guarded :: "auth_variant \<Rightarrow> string \<Rightarrow> bool" where
  "tcl_guarded v tcl \<longleftrightarrow>
     \<not> mentions tcl (''WBQ_'' @ snd (av_other v)) \<and> mentions tcl ''$iterations != 1'' \<and>
     count_sub (''global_route '' @ [CHR 0x5C]) tcl = 1"

definition route_ready :: "auth_variant \<Rightarrow> env \<Rightarrow> host \<Rightarrow> bool" where
  "route_ready v env h \<longleftrightarrow>
     (\<exists>placement audit decision physical runner tcl.
        document_at env h (av_placement v ''_placement_execution_report.json'') placement \<and>
        document_at env h (av_placement v ''_targeted_placement_reopen_audit.json'') audit \<and>
        document_at env h (av_report v ''_eco_decision.json'') decision \<and>
        document_at env h (av_physical_auth v) physical \<and>
        text_at env h (av_runner v) runner \<and> text_at env h (av_tcl v) tcl \<and>
        placement_accepted v env h placement \<and>
        (av_numeric v \<longrightarrow> (\<exists>analysis. document_at env h (av_placement v ''_placement_numeric_analysis.json'') analysis \<and>
           numeric_accepted v env h placement analysis)) \<and>
        audit_accepted v audit \<and> physically_authorized v physical \<and> change_selected v decision \<and>
        runner_guarded v runner \<and> tcl_guarded v tcl) \<and>
     (\<forall>p \<in> set (route_outputs v (root env)). \<not> exists h p)"

section \<open>The conditions compute it\<close>

abbreviation conditions_hold :: "(string \<times> bool result) list \<Rightarrow> bool" where
  "conditions_hold tests \<equiv> list_all (\<lambda>c. snd c = Inr True) tests"

lemma load_document: "load env h (under (root env) p) = Inr v \<longleftrightarrow> document_at env h p v"
  by (simp add: load_Inr document_at_def)

lemma read_text_at: "read_text env h (under (root env) p) = Inr s \<longleftrightarrow> text_at env h p s"
  by (auto simp: read_text_def text_at_def and_then_eq_Inr read_bytes_Inr)

lemma document_at_unique: "document_at env h p a \<Longrightarrow> document_at env h p b \<longleftrightarrow> b = a"
  by (auto simp: document_at_def)

lemma text_at_unique: "text_at env h p a \<Longrightarrow> text_at env h p b \<longleftrightarrow> b = a"
  by (auto simp: text_at_def)

lemma mentions_substring: "substring phrase script \<longleftrightarrow> mentions script phrase"
  by (simp add: substring_iff mentions_def)

lemma get2_Inr: "get2 obj k1 k2 d = Inr v \<longleftrightarrow> (\<exists>x. get obj k1 (JObj []) = Inr x \<and> get x k2 d = Inr v)"
  by (auto simp: get2_def and_then_eq_Inr)

lemma get2_eq_nested: "get2_eq obj k1 k2 v = Inr True \<longleftrightarrow> nested_is obj k1 k2 v"
  by (auto simp: get2_eq_def get2_def and_then_eq_Inr nested_is_def field_is_def get_eq_True)

lemma authorizes_stage_True: "authorizes_stage report stage = Inr True \<longleftrightarrow> releases report stage"
  by (auto simp: authorizes_stage_def releases_def and_then_eq_Inr)

lemma get3_recorded: "get3 obj k1 k2 ''sha256'' = Inr d \<longleftrightarrow> recorded_digest obj k1 k2 d"
  by (auto simp: get3_def get2_def and_then_eq_Inr recorded_digest_def)

lemma sha256_Inr: "sha256 env h p = Inr v \<longleftrightarrow> (\<exists>b. files h p = Some b \<and> v = JStr (sha env b))"
  by (auto simp: sha256_def and_then_eq_Inr read_bytes_Inr)

lemmas condition_simps = and_also_True get2_eq_nested authorizes_stage_True field_is_def [symmetric] mentions_substring

lemma digest_matches_True:
  "digest_matches env h p item = Inr True \<longleftrightarrow>
     (\<exists>b. files h p = Some b \<and> get item ''sha256'' JNull = Inr (JStr (sha env b)))"
  by (auto simp: digest_matches_def and_then_eq_Inr sha256_Inr)

lemma table_intact_item:
  assumes "get2 report table name (JObj []) = Inr item" "get item ''path'' (JStr '''') = Inr value" "to_path value = Inr p"
  shows "table_intact env h report table name \<longleftrightarrow> is_file h p \<and> digest_matches env h p item = Inr True"
  using assms
  by (auto simp: table_intact_def recorded_path_def recorded_digest_def get2_Inr to_path_Inr digest_matches_True is_file_def)

lemma auth_load_Inr:
  assumes "auth_load v env h = Inr i"
  shows "document_at env h (av_placement v ''_placement_execution_report.json'') (ai_placement i)"
    and "document_at env h (av_placement v ''_targeted_placement_reopen_audit.json'') (ai_targeted i)"
    and "av_numeric v \<Longrightarrow> document_at env h (av_placement v ''_placement_numeric_analysis.json'') (ai_numeric i)"
    and "document_at env h (av_report v ''_eco_decision.json'') (ai_decision i)"
    and "document_at env h (av_physical_auth v) (ai_physical i)"
    and "text_at env h (av_runner v) (ai_runner i)" "text_at env h (av_tcl v) (ai_tcl i)"
    and "ai_outputs_match i \<longleftrightarrow> table_intact env h (ai_placement i) ''outputs'' (av_placed v @ ''_place_odb'') \<and>
           table_intact env h (ai_placement i) ''outputs'' (av_placed v @ ''_place_sdc'')"
proof -
  obtain placement targeted numeric decision physical runner tcl odb_item sdc_item odb_value odb sdc_value sdc ok
    where d: "load env h (under (root env) (av_placement v ''_placement_execution_report.json'')) = Inr placement"
      "load env h (under (root env) (av_placement v ''_targeted_placement_reopen_audit.json'')) = Inr targeted"
      "(if av_numeric v then load env h (under (root env) (av_placement v ''_placement_numeric_analysis.json''))
        else Inr JNull) = Inr numeric"
      "load env h (under (root env) (av_report v ''_eco_decision.json'')) = Inr decision"
      "load env h (under (root env) (av_physical_auth v)) = Inr physical"
      "read_text env h (under (root env) (av_runner v)) = Inr runner" "read_text env h (under (root env) (av_tcl v)) = Inr tcl"
    and o': "get2 placement ''outputs'' (av_placed v @ ''_place_odb'') (JObj []) = Inr odb_item"
      "get odb_item ''path'' (JStr '''') = Inr odb_value" "to_path odb_value = Inr odb"
      "get2 placement ''outputs'' (av_placed v @ ''_place_sdc'') (JObj []) = Inr sdc_item"
      "get sdc_item ''path'' (JStr '''') = Inr sdc_value" "to_path sdc_value = Inr sdc"
    and m: "all_of [Inr (is_file h odb), Inr (is_file h sdc), digest_matches env h odb odb_item,
        digest_matches env h sdc sdc_item] = Inr ok"
    and i: "i = \<lparr>ai_placement = placement, ai_targeted = targeted, ai_numeric = numeric,
        ai_decision = decision, ai_physical = physical, ai_runner = runner, ai_tcl = tcl, ai_odb_item = odb_item,
        ai_sdc_item = sdc_item, ai_odb = odb, ai_sdc = sdc, ai_outputs_match = ok\<rparr>"
    using assms unfolding auth_load_def Let_def and_then_eq_Inr sum.inject by metis
  show "document_at env h (av_placement v ''_placement_execution_report.json'') (ai_placement i)"
    "document_at env h (av_placement v ''_targeted_placement_reopen_audit.json'') (ai_targeted i)"
    "document_at env h (av_report v ''_eco_decision.json'') (ai_decision i)"
    "document_at env h (av_physical_auth v) (ai_physical i)"
    "text_at env h (av_runner v) (ai_runner i)" "text_at env h (av_tcl v) (ai_tcl i)"
    using d by (simp_all add: i load_document read_text_at)
  show "document_at env h (av_placement v ''_placement_numeric_analysis.json'') (ai_numeric i)" if "av_numeric v"
    using d(3) that by (simp add: i load_document)
  have "ok \<longleftrightarrow> all_of [Inr (is_file h odb), Inr (is_file h sdc), digest_matches env h odb odb_item,
        digest_matches env h sdc sdc_item] = Inr True" using m by simp
  then show "ai_outputs_match i \<longleftrightarrow> table_intact env h (ai_placement i) ''outputs'' (av_placed v @ ''_place_odb'') \<and>
      table_intact env h (ai_placement i) ''outputs'' (av_placed v @ ''_place_sdc'')"
    by (auto simp: i and_also_True table_intact_item [OF o'(1-3)] table_intact_item [OF o'(4-6)])
qed

lemma placement_conditions_hold:
  assumes "auth_load v env h = Inr i"
  shows "conditions_hold (placement_conditions v i) \<longleftrightarrow> placement_accepted v env h (ai_placement i)"
  by (auto simp: placement_conditions_def placement_accepted_def condition_simps auth_load_Inr(8) [OF assms] av_route_stage_def)

lemma numeric_conditions_hold:
  "conditions_hold (numeric_conditions v env h i) \<longleftrightarrow> numeric_accepted v env h (ai_placement i) (ai_numeric i)"
  by (auto simp: numeric_conditions_def numeric_accepted_def condition_simps and_then_eq_Inr get3_recorded sha256_Inr)

lemma policy_condition_True:
  "policy_condition v i = Inr True \<longleftrightarrow>
     field_is (ai_decision i) ''decision'' (JStr (av_selected v)) \<and>
     (\<forall>variable before_value after_value. av_eco v = Some (variable, before_value, after_value) \<longrightarrow>
        nested_is (ai_decision i) ''selected_eco'' ''single_independent_variable'' (JStr variable) \<and>
        nested_is (ai_decision i) ''selected_eco'' ''before'' before_value \<and>
        nested_is (ai_decision i) ''selected_eco'' ''after'' after_value) \<and>
     (\<forall>n. av_new_anchors v = Some n \<longrightarrow>
        (\<exists>eco anchors. get (ai_decision i) ''selected_eco'' (JObj []) = Inr eco \<and>
           get eco ''new_anchors'' (JArr []) = Inr anchors \<and> py_len anchors = Inr n))"
  by (cases "av_eco v"; cases "av_new_anchors v")
    (auto simp: policy_condition_def condition_simps and_then_eq_Inr get2_Inr)

lemma audit_conditions_hold:
  "conditions_hold (audit_conditions v i) \<longleftrightarrow>
     audit_accepted v (ai_targeted i) \<and> physically_authorized v (ai_physical i) \<and> change_selected v (ai_decision i)"
  by (auto simp: audit_conditions_def audit_accepted_def physically_authorized_def change_selected_def condition_simps
      policy_condition_True)

lemma script_conditions_hold:
  "conditions_hold (script_conditions v i) \<longleftrightarrow> runner_guarded v (ai_runner i) \<and> tcl_guarded v (ai_tcl i)"
  by (auto simp: script_conditions_def runner_guarded_def tcl_guarded_def condition_simps Let_def)

lemma auth_conditions_hold:
  assumes "auth_load v env h = Inr i"
  shows "conditions_hold (auth_conditions v env h i) \<longleftrightarrow> route_ready v env h"
proof -
  note l = auth_load_Inr [OF assms]
  have "conditions_hold (auth_conditions v env h i) \<longleftrightarrow>
      placement_accepted v env h (ai_placement i) \<and>
      (av_numeric v \<longrightarrow> numeric_accepted v env h (ai_placement i) (ai_numeric i)) \<and>
      audit_accepted v (ai_targeted i) \<and> physically_authorized v (ai_physical i) \<and> change_selected v (ai_decision i) \<and>
      runner_guarded v (ai_runner i) \<and> tcl_guarded v (ai_tcl i) \<and>
      (\<forall>p \<in> set (route_outputs v (root env)). \<not> exists h p)"
    by (auto simp: auth_conditions_def placement_conditions_hold [OF assms] numeric_conditions_hold audit_conditions_hold
        script_conditions_hold list_ex_iff)
  then show ?thesis
    unfolding route_ready_def l(1,2,4,5) [THEN document_at_unique] l(6,7) [THEN text_at_unique]
    using l(3) [THEN document_at_unique] by auto
qed

section \<open>The decision\<close>

lemma evaluate_True:
  assumes "evaluate tests = Inr results"
  shows "list_all snd results \<longleftrightarrow> list_all (\<lambda>c. snd c = Inr True) tests"
    and "map fst results = map fst tests"
proof -
  have "(list_all snd results \<longleftrightarrow> list_all (\<lambda>c. snd c = Inr True) tests) \<and> map fst results = map fst tests"
    using assms unfolding evaluate_def
  proof (induction tests arbitrary: results)
    case (Cons t tests)
    obtain name test where t: "t = (name, test)" by (cases t)
    with Cons.prems obtain b more where "test = Inr b" "results = (name, b) # more"
        "map_r (\<lambda>(name, test). and_then test (\<lambda>b. Inr (name, b))) tests = Inr more"
      by (auto simp: and_then_eq_Inr)
    with Cons.IH t show ?case by auto
  qed simp
  then show "list_all snd results \<longleftrightarrow> list_all (\<lambda>c. snd c = Inr True) tests"
    "map fst results = map fst tests" by simp_all
qed

lemma auth_decide_Inr:
  assumes "auth_decide v env h = Inr (passed, payload)"
  shows "\<exists>i results inputs. auth_load v env h = Inr i \<and> evaluate (auth_conditions v env h i) = Inr results \<and>
    auth_evidence v env h i = Inr inputs \<and> passed = list_all snd results \<and>
    payload = auth_payload v env results inputs passed"
  using assms by (auto simp: auth_decide_def and_then_eq_Inr Let_def)

lemma auth_decide_ready:
  assumes "auth_decide v env h = Inr (passed, payload)"
  shows "passed \<longleftrightarrow> route_ready v env h"
proof -
  from auth_decide_Inr [OF assms] obtain i results where
    "auth_load v env h = Inr i" "evaluate (auth_conditions v env h i) = Inr results" "passed = list_all snd results"
    by blast
  with evaluate_True(1) [of "auth_conditions v env h i" results] auth_conditions_hold [of v env h i] show ?thesis
    by simp
qed

lemma auth_payload_fields:
  assumes "auth_decide v env h = Inr (passed, payload)"
  shows "get payload ''authorizes'' JNull = Inr (JArr (if passed then [JStr (av_route_stage v)] else []))"
    and "get payload ''decision'' JNull = Inr (JStr (if passed then ''PASS'' else ''BLOCKED''))"
    and "\<exists>kvs. payload = JObj kvs"
proof -
  from auth_decide_Inr [OF assms] obtain results inputs where
    "payload = auth_payload v env results inputs passed" by blast
  then show "get payload ''authorizes'' JNull = Inr (JArr (if passed then [JStr (av_route_stage v)] else []))"
    "get payload ''decision'' JNull = Inr (JStr (if passed then ''PASS'' else ''BLOCKED''))"
    "\<exists>kvs. payload = JObj kvs"
    by (simp_all add: auth_payload_def)
qed

lemma route_authorization_Inr:
  assumes "route_authorization_main v env h = Inr (code, h')"
  obtains passed payload where "auth_decide v env h = Inr (passed, payload)" "code = (if passed then 0 else 1)"
    "h' = write_file (under (root env) (av_output v)) (dumps env payload) h"
    "\<not> exists h (under (root env) (av_output v))"
proof -
  have fresh: "\<not> exists h (under (root env) (av_output v))"
    using assms by (auto simp: route_authorization_main_def split: if_splits)
  with assms obtain r where "auth_decide v env h = Inr r"
    "(case r of (passed, payload) \<Rightarrow> Inr (if passed then 0 else 1,
        write_file (under (root env) (av_output v)) (dumps env payload) h)) = (Inr (code, h') :: (int \<times> host) result)"
    by (auto simp: route_authorization_main_def and_then_eq_Inr simp del: split_paired_All split_paired_Ex)
  with fresh that show ?thesis by (cases r) auto
qed

lemma route_authorization_code:
  assumes "route_authorization_main v env h = Inr (code, h')"
  shows "code = (if route_ready v env h then 0 else 1)"
proof -
  obtain passed payload where "auth_decide v env h = Inr (passed, payload)" "code = (if passed then 0 else 1)"
    "h' = write_file (under (root env) (av_output v)) (dumps env payload) h"
    "\<not> exists h (under (root env) (av_output v))"
    using assms by (rule route_authorization_Inr)
  then show ?thesis using auth_decide_ready by blast
qed

lemma route_ready_fresh:
  "route_ready v env h \<Longrightarrow> p \<in> set (route_outputs v (root env)) \<Longrightarrow> \<not> exists h p"
  by (simp add: route_ready_def)

section \<open>Evidence\<close>

definition pinned_paths :: "auth_variant \<Rightarrow> string list" where
  "pinned_paths v =
     [av_placement v ''_placement_execution_report.json''] @
     (if av_numeric v then [av_placement v ''_placement_numeric_analysis.json''] else []) @
     [av_placement v ''_targeted_placement_reopen_audit.json'', av_report v ''_eco_decision.json'',
      av_physical_auth v, av_runner v, av_tcl v, ''tools/analyze_variant_residual_congestion.py'',
      ''tools/decide_'' @ av_lower v @ ''_phase6_strict_gate.py'', ''tools/capture_openroad_stage_snapshot.py'',
      ''tools/compare_openroad_stage_snapshots.py'']"

lemma named_results:
  assumes "map_r (\<lambda>(name, test). and_then test (\<lambda>e. Inr (name, e))) entries = Inr results"
    and "evidence env h q \<in> snd ` set entries"
  shows "\<exists>name b. files h q = Some b \<and>
    (name, JObj [(''path'', JStr q), (''sha256'', JStr (sha env b))]) \<in> set results"
  using assms
proof (induction entries arbitrary: results)
  case (Cons t entries)
  obtain name test where t: "t = (name, test)" by (cases t)
  with Cons.prems(1) obtain e more where e: "test = Inr e" "results = (name, e) # more"
      "map_r (\<lambda>(name, test). and_then test (\<lambda>e. Inr (name, e))) entries = Inr more"
    by (auto simp: and_then_eq_Inr)
  show ?case
  proof (cases "test = evidence env h q")
    case True
    with e(1) have "evidence env h q = Inr e" by simp
    then obtain b where "files h q = Some b" "e = JObj [(''path'', JStr q), (''sha256'', JStr (sha env b))]"
      by (auto simp: evidence_Inr)
    with e(2) show ?thesis by auto
  next
    case False
    with Cons.prems(2) t have "evidence env h q \<in> snd ` set entries" by auto
    from Cons.IH [OF e(3) this] e(2) show ?thesis by auto
  qed
qed simp

lemma auth_evidence_pins:
  assumes "auth_evidence v env h i = Inr inputs" "p \<in> set (pinned_paths v)"
  shows "\<exists>entries name b. inputs = JObj entries \<and> files h (under (root env) p) = Some b \<and>
    (name, JObj [(''path'', JStr (under (root env) p)), (''sha256'', JStr (sha env b))]) \<in> set entries"
proof -
  obtain entries where t: "map_r (\<lambda>(name, test). and_then test (\<lambda>e. Inr (name, e))) (evidence_tests v env h i) = Inr entries"
      "inputs = JObj entries"
    using assms(1) by (auto simp: auth_evidence_def and_then_eq_Inr)
  have "set (map (\<lambda>p. evidence env h (under (root env) p)) (pinned_paths v)) \<subseteq> set (map snd (evidence_tests v env h i))"
    unfolding evidence_tests_def pinned_paths_def Let_def map_append set_append list.map snd_conv list.set by auto
  then have "evidence env h (under (root env) p) \<in> snd ` set (evidence_tests v env h i)" using assms(2) by auto
  with named_results [OF t(1)] t(2) show ?thesis by blast
qed

section \<open>Properties\<close>

text \<open>
  C8: the authorization is issued exactly when the variant may be routed. A run that ends exits 0
  when the placement is accepted and its files are the recorded ones, the numeric analysis and the
  reopen audit are clean, the selected change is the variant's own, the runner and the Tcl script
  are guarded and no route has left anything behind, and exits 1 otherwise; it writes a decision
  that authorizes the variant's single global route in the first case and nothing in the second.
\<close>

theorem route_authorization_decides:
  assumes "route_authorization_main v env h = Inr (code, h')"
  shows "code = (if route_ready v env h then 0 else 1) \<and>
    (\<exists>payload. h' = write_file (under (root env) (av_output v)) (dumps env payload) h \<and>
       get payload ''authorizes'' JNull = Inr (JArr (if code = 0 then [JStr (av_name v @ ''_SINGLE_GLOBAL_ROUTE'')] else [])) \<and>
       get payload ''decision'' JNull = Inr (JStr (if code = 0 then ''PASS'' else ''BLOCKED'')))"
proof -
  obtain passed payload where d: "auth_decide v env h = Inr (passed, payload)" "code = (if passed then 0 else 1)"
    "h' = write_file (under (root env) (av_output v)) (dumps env payload) h"
    "\<not> exists h (under (root env) (av_output v))"
    using assms by (rule route_authorization_Inr)
  have p: "passed \<longleftrightarrow> code = 0" using d(2) by simp
  show ?thesis
    using route_authorization_code [OF assms] d(3) auth_payload_fields(1,2) [OF d(1), unfolded p av_route_stage_def]
    by blast
qed

text \<open>
  C30: one route at most. Once any route artifact of the variant exists (its invocation
  record, report, log, congestion analysis or routed files), no run of the script issues an
  authorization; and after a run that decided, every further run refuses.
\<close>

theorem single_route_attempt:
  "((\<exists>p \<in> set (route_outputs v (root env)). exists h p) \<longrightarrow> (\<forall>h'. route_authorization_main v env h \<noteq> Inr (0, h'))) \<and>
   (\<forall>code h'. route_authorization_main v env h = Inr (code, h') \<longrightarrow>
      route_authorization_main v env h' = Inl (FileExistsError ''refusing to overwrite route authorization''))"
proof (intro conjI allI impI)
  fix h' :: host assume p: "\<exists>p \<in> set (route_outputs v (root env)). exists h p"
  show "route_authorization_main v env h \<noteq> Inr (0, h')"
  proof
    assume "route_authorization_main v env h = Inr (0, h')"
    then have "route_ready v env h" using route_authorization_code [of v env h 0 h'] by (auto split: if_splits)
    with p route_ready_fresh show False by blast
  qed
next
  fix code :: int and h' :: host
  assume "route_authorization_main v env h = Inr (code, h')"
  then have "exists h' (under (root env) (av_output v))" by (rule route_authorization_Inr) simp
  then show "route_authorization_main v env h' = Inl (FileExistsError ''refusing to overwrite route authorization'')"
    by (simp add: route_authorization_main_def)
qed

text \<open>
  The decision pins what it rests on: the reports, the runner, the Tcl script, the
  parser, the strict gate and the snapshot tools all existed when it was taken, and their
  digests at that moment are recorded in it.
\<close>

theorem route_authorization_pins:
  assumes "route_authorization_main v env h = Inr (code, h')" "p \<in> set (pinned_paths v)"
  shows "\<exists>payload entries name b. h' = write_file (under (root env) (av_output v)) (dumps env payload) h \<and>
    get payload ''inputs'' JNull = Inr (JObj entries) \<and> files h (under (root env) p) = Some b \<and>
    (name, JObj [(''path'', JStr (under (root env) p)), (''sha256'', JStr (sha env b))]) \<in> set entries"
proof -
  obtain passed payload where d: "auth_decide v env h = Inr (passed, payload)" "code = (if passed then 0 else 1)"
    "h' = write_file (under (root env) (av_output v)) (dumps env payload) h"
    "\<not> exists h (under (root env) (av_output v))"
    using assms(1) by (rule route_authorization_Inr)
  from auth_decide_Inr [OF d(1)] obtain i results inputs where
    e: "auth_evidence v env h i = Inr inputs" "payload = auth_payload v env results inputs passed" by blast
  from auth_evidence_pins [OF e(1) assms(2)] obtain entries name b where
    "inputs = JObj entries" "files h (under (root env) p) = Some b"
    "(name, JObj [(''path'', JStr (under (root env) p)), (''sha256'', JStr (sha env b))]) \<in> set entries" by blast
  moreover have "get payload ''inputs'' JNull = Inr inputs" by (simp add: e(2) auth_payload_def)
  ultimately show ?thesis using d(3) by metis
qed

section \<open>Witnesses\<close>

text \<open>A repository at \<open>/r\<close> in which B9 may be routed.\<close>

definition sample_runner :: string where
  "sample_runner = ''refusing duplicate wrapper_pid compute_pid launcher_pid trap 'on_signal INT' INT trap 'on_signal TERM' TERM analyze_variant_residual_congestion.py --max-windows-in-output 0 --max-hotspots-in-output 500''"

definition sample_tcl :: string where
  "sample_tcl = ''if $iterations != 1 exit; global_route '' @ [CHR 0x5C] @ '' -guide_file''"

definition sample_placement :: json where
  "sample_placement = JObj
     [(''status'', JStr ''PASS''), (''placement_legality_and_fence_audit'', JStr ''PASS''),
      (''authorizes'', JArr [JStr ''B9_TARGETED_PLACEMENT_REOPEN_AUDIT'']),
      (''outputs'', JObj
         [(''b9_place_odb'', JObj [(''path'', JStr ''/o/p.odb''), (''sha256'', JStr ''ODB'')]),
          (''b9_place_sdc'', JObj [(''path'', JStr ''/o/p.sdc''), (''sha256'', JStr ''SDC'')]),
          (''log'', JObj [(''sha256'', JStr ''LOG'')])])]"

definition sample_numeric :: json where
  "sample_numeric = JObj
     [(''status'', JStr ''PASS''), (''authorizes'', JArr [JStr ''B9_TARGETED_PLACEMENT_REOPEN_AUDIT'']),
      (''inputs'', JObj [(''placement_manifest'', JObj [(''sha256'', JStr ''P'')]),
                         (''placement_log'', JObj [(''sha256'', JStr ''LOG'')])])]"

definition sample_targeted :: json where
  "sample_targeted = JObj
     [(''status'', JStr ''PASS''), (''authorizes'', JArr [JStr ''B9_GLOBAL_ROUTE_AUTHORIZATION'']),
      (''metrics'', JObj [(''anchors_verified'', JInt 9), (''outside_fence'', JInt 0),
                          (''unplaced'', JInt 0), (''placement_violations'', JInt 0)])]"

definition sample_decision :: json where
  "sample_decision = JObj
     [(''decision'', JStr ''SELECT_B9_SEVEN_ADDITIONAL_ANCHORS_ECO''),
      (''selected_eco'', JObj [(''single_independent_variable'', JStr ''locked_anchor_targets''),
         (''before'', JInt 2), (''after'', JInt 9), (''new_anchors'', JArr (replicate 7 (JStr ''a'')))]),
      (''unchanged_contract'', JObj [(''global_route_invocation_limit'', JInt 1),
         (''cugr_congestion_iterations'', JInt 1)])]"

definition sample_auth_env :: env where
  "sample_auth_env =
     \<lparr>sha = (\<lambda>b. b), decode = (\<lambda>b. Inr b),
      loads = (\<lambda>b. case map_of
        [(''P'', sample_placement), (''T'', sample_targeted), (''Q'', sample_numeric),
         (''S'', sample_decision), (''A'', JObj [(''decision'', JStr ''PASS'')])] b of
          None \<Rightarrow> Inl (JSONDecodeError b) | Some v \<Rightarrow> Inr v),
      dumps = (\<lambda>_. ''decision''), now = ''2026'', root = ''/r''\<rparr>"

definition sample_auth_files :: "(string \<times> string) list" where
  "sample_auth_files =
     (''/o/p.odb'', ''ODB'') # (''/o/p.sdc'', ''SDC'') #
     map (\<lambda>(p, b). (under ''/r'' p, b))
       [(av_placement b9_route ''_placement_execution_report.json'', ''P''),
        (av_placement b9_route ''_targeted_placement_reopen_audit.json'', ''T''),
        (av_placement b9_route ''_placement_numeric_analysis.json'', ''Q''),
        (av_report b9_route ''_eco_decision.json'', ''S''), (av_physical_auth b9_route, ''A''),
        (av_runner b9_route, sample_runner), (av_tcl b9_route, sample_tcl),
        (''tools/analyze_variant_residual_congestion.py'', ''t1''),
        (''tools/decide_b9_phase6_strict_gate.py'', ''t2''),
        (''tools/capture_openroad_stage_snapshot.py'', ''t3''),
        (''tools/compare_openroad_stage_snapshots.py'', ''t4'')]"

definition sample_auth_host :: host where
  "sample_auth_host = \<lparr>files = map_of sample_auth_files, dirs = (\<lambda>_. False)\<rparr>"

lemma sample_authorized: "exit_code (authorize_b9 sample_auth_env sample_auth_host) = Some 0"
  by code_simp

lemma sample_auth_run: "\<exists>h'. route_authorization_main b9_route sample_auth_env sample_auth_host = Inr (0, h')"
  using exit_code_Some [OF sample_authorized] by (simp add: authorize_b9_def)

theorem route_authorization_decides_witness: "route_ready b9_route sample_auth_env sample_auth_host"
proof -
  obtain h' where "route_authorization_main b9_route sample_auth_env sample_auth_host = Inr (0, h')"
    using sample_auth_run by blast
  from route_authorization_decides [OF this] show ?thesis by (simp split: if_splits)
qed

theorem single_route_attempt_witness:
  "\<exists>h'. route_authorization_main b9_route sample_auth_env sample_auth_host = Inr (0, h') \<and>
     route_authorization_main b9_route sample_auth_env h' =
       Inl (FileExistsError ''refusing to overwrite route authorization'')"
  using sample_auth_run single_route_attempt by blast

theorem route_authorization_pins_witness:
  "\<exists>h' payload entries name. route_authorization_main b9_route sample_auth_env sample_auth_host = Inr (0, h') \<and>
     get payload ''inputs'' JNull = Inr (JObj entries) \<and>
     (name, JObj [(''path'', JStr (under ''/r'' (av_tcl b9_route))), (''sha256'', JStr sample_tcl)]) \<in> set entries"
proof -
  obtain h' where h': "route_authorization_main b9_route sample_auth_env sample_auth_host = Inr (0, h')"
    using sample_auth_run by blast
  have "files sample_auth_host (under ''/r'' (av_tcl b9_route)) = Some sample_tcl" by code_simp
  moreover have "av_tcl b9_route \<in> set (pinned_paths b9_route)" by (simp add: pinned_paths_def)
  moreover have "root sample_auth_env = ''/r''" "sha sample_auth_env = (\<lambda>b. b)" by (simp_all add: sample_auth_env_def)
  ultimately show ?thesis using route_authorization_pins [OF h', of "av_tcl b9_route"] h' by fastforce
qed

end
