(* ===== verification/Stage_Authorization_Props.thy ===== *)
theory Stage_Authorization_Props
  imports Stage_Authorization Route_Authorization_Props
begin

text \<open>
  What the three authorizations of B6 and B7 after the strict gate mean: each is issued
  exactly on its evidence and rests on files that are still the recorded ones.
\<close>

section \<open>One decision\<close>

text \<open>
  The three scripts decide alike: all conditions are evaluated, and the decision lists the
  stage it releases.
\<close>

definition all_hold :: "(string \<times> bool result) list \<Rightarrow> bool" where
  "all_hold tests = list_all (\<lambda>c. snd c = Inr True) tests"

definition decision_for :: "string \<Rightarrow> bool \<times> json \<Rightarrow> bool" where
  "decision_for stage d \<longleftrightarrow>
     get (snd d) ''decision'' JNull = Inr (JStr (if fst d then ''PASS'' else ''BLOCKED'')) \<and>
     get (snd d) ''authorizes'' JNull = Inr (JArr (if fst d then [JStr stage] else [])) \<and>
     (\<exists>kvs. snd d = JObj kvs)"

text \<open>
  Before clock-tree synthesis: the strict gate has passed and released it, the placement is the
  recorded one, one global route passed, the mapped netlist is still that of B2, and the flow
  configuration, the runner and the audit script hold their guards.
\<close>

definition same_netlist :: "env \<Rightarrow> host \<Rightarrow> json \<Rightarrow> bool" where
  "same_netlist env h physical \<longleftrightarrow>
     (\<exists>p q a b. recorded_path physical ''inputs'' ''b2_mapped_netlist'' p \<and>
        recorded_path physical ''inputs'' ''b5_mapped_netlist'' q \<and>
        files h p = Some a \<and> files h q = Some b \<and> sha env a = sha env b)"

definition cts_documents_accepted :: "stage_variant \<Rightarrow> env \<Rightarrow> host \<Rightarrow> json \<Rightarrow> json \<Rightarrow> json \<Rightarrow> json \<Rightarrow> bool" where
  "cts_documents_accepted v env h gate placement route physical \<longleftrightarrow>
     field_is gate ''decision'' (JStr ''PASS'') \<and> releases gate (sv_name v @ ''_PHASE6_CTS'') \<and>
     field_is placement ''status'' (JStr ''PASS'') \<and>
     table_intact env h placement ''outputs'' (sv_lower v @ ''_place_odb'') \<and>
     table_intact env h placement ''outputs'' (sv_lower v @ ''_place_sdc'') \<and>
     field_is route ''status'' (JStr ''PASS'') \<and> field_is route ''invocation_count'' (JInt 1) \<and>
     field_is physical ''decision'' (JStr ''PASS'') \<and> same_netlist env h physical"

definition cts_scripts_guarded :: "stage_variant \<Rightarrow> string \<Rightarrow> string \<Rightarrow> string \<Rightarrow> bool" where
  "cts_scripts_guarded v config runner audit \<longleftrightarrow>
     mentions config (''DESIGN_NICKNAME = normalization_hbm_quad_local_'' @ sv_lower v) \<and>
     mentions config ''DESIGN_NAME = logic_die_normalization_hbm_quad_local_b2_top'' \<and>
     (\<forall>phrase \<in> {''do-4_1_cts'', ''repair_clock_nets'', ''compute_pid'', ''wrapper_pid'',
        ''trap 'on_signal INT' INT'', ''trap 'on_signal TERM' TERM''}. mentions runner phrase) \<and>
     mentions audit ''clock_net_count < 1'' \<and> mentions audit (''violations ne '' @ quote @ quote)"

definition cts_ready :: "stage_variant \<Rightarrow> env \<Rightarrow> host \<Rightarrow> bool" where
  "cts_ready v env h \<longleftrightarrow>
     (\<exists>gate placement route physical config runner audit.
        document_at env h (gate_path v) gate \<and> document_at env h (cts_placement v) placement \<and>
        document_at env h (cts_route v) route \<and> document_at env h (cts_physical_auth v) physical \<and>
        text_at env h (cts_config v) config \<and> text_at env h (cts_runner v) runner \<and> text_at env h (cts_audit v) audit \<and>
        cts_documents_accepted v env h gate placement route physical \<and> cts_scripts_guarded v config runner audit) \<and>
     (\<forall>p \<in> set (cts_prior_outputs v (root env)). \<not> exists h p)"

text \<open>
  Before the route after it: clock-tree synthesis passed and released it, its files are the
  recorded ones, and the runner, the Tcl script and the audit hold their guards.
\<close>

definition post_cts_scripts_guarded :: "string \<Rightarrow> string \<Rightarrow> string \<Rightarrow> bool" where
  "post_cts_scripts_guarded runner tcl audit \<longleftrightarrow>
     (\<forall>phrase \<in> {''global_route_invocation_limit'' @ quote @ '': 1'', ''refusing duplicate'', ''launcher_pid'', ''compute_pid'',
        ''audit_compute_pid'', ''trap 'on_signal INT' INT'', ''trap 'on_signal TERM' TERM'',
        ''--max-windows-in-output 0''}. mentions runner phrase) \<and>
     mentions tcl ''$iterations != 10'' \<and> count_sub (''global_route '' @ [CHR 0x5C]) tcl = 1 \<and>
     mentions audit ''clock_net_count < 1'' \<and> mentions audit ''!$has_routes''"

definition post_cts_ready :: "stage_variant \<Rightarrow> env \<Rightarrow> host \<Rightarrow> bool" where
  "post_cts_ready v env h \<longleftrightarrow>
     (\<exists>cts runner tcl audit.
        document_at env h (cts_manifest v) cts \<and> text_at env h (post_cts_runner v) runner \<and>
        text_at env h (post_cts_tcl v) tcl \<and> text_at env h (post_cts_audit v) audit \<and>
        field_is cts ''status'' (JStr ''PASS'') \<and>
        releases cts (sv_name v @ ''_PHASE6_POST_CTS_GLOBAL_ROUTE_AUTHORIZATION'') \<and>
        table_intact env h cts ''artifacts'' ''cts_odb'' \<and> table_intact env h cts ''artifacts'' ''cts_sdc'' \<and>
        post_cts_scripts_guarded runner tcl audit) \<and>
     (\<forall>p \<in> set (post_cts_prior_outputs v (root env)). \<not> exists h p)"

lemma evaluated: "evaluate tests = Inr results \<Longrightarrow> list_all snd results \<longleftrightarrow> all_hold tests"
  by (simp add: evaluate_True(1) all_hold_def)

lemma items_match_intact:
  assumes "get2 report table a (JObj []) = Inr odb_item" "get odb_item ''path'' (JStr '''') = Inr x" "to_path x = Inr odb"
    and "get2 report table b (JObj []) = Inr sdc_item" "get sdc_item ''path'' (JStr '''') = Inr y" "to_path y = Inr sdc"
    and "items_match env h (odb_item, odb) (sdc_item, sdc) = Inr ok"
  shows "ok \<longleftrightarrow> table_intact env h report table a \<and> table_intact env h report table b"
proof -
  have "ok \<longleftrightarrow> items_match env h (odb_item, odb) (sdc_item, sdc) = Inr True" using assms(7) by simp
  then show ?thesis
    unfolding table_intact_item [OF assms(1-3)] table_intact_item [OF assms(4-6)]
    by (auto simp: items_match_def and_also_True)
qed

lemma recorded_item_Inr:
  "recorded_item report table name = Inr (item, p) \<longleftrightarrow>
     get2 report table name (JObj []) = Inr item \<and>
     (\<exists>s. get item ''path'' (JStr '''') = Inr (JStr s) \<and> p = path_str s)"
  by (auto simp: recorded_item_def and_then_eq_Inr to_path_Inr)

lemma recorded_item_path:
  assumes "recorded_item report table name = Inr r"
  shows "recorded_path report table name p \<longleftrightarrow> p = snd r"
  using assms by (cases r) (auto simp: recorded_path_def recorded_item_Inr get2_Inr)

lemma netlist_unchanged:
  assumes "recorded_item physical ''inputs'' ''b2_mapped_netlist'' = Inr b2"
    and "recorded_item physical ''inputs'' ''b5_mapped_netlist'' = Inr b5"
    and "all_of [Inr (is_file h (snd b2)), Inr (is_file h (snd b5)),
           and_then (sha256 env h (snd b2)) (\<lambda>d. and_then (sha256 env h (snd b5)) (\<lambda>e. Inr (py_eq d e)))] = Inr ok"
  shows "ok \<longleftrightarrow> same_netlist env h physical"
proof -
  have "ok \<longleftrightarrow> all_of [Inr (is_file h (snd b2)), Inr (is_file h (snd b5)),
      and_then (sha256 env h (snd b2)) (\<lambda>d. and_then (sha256 env h (snd b5)) (\<lambda>e. Inr (py_eq d e)))] = Inr True"
    using assms(3) by simp
  then show ?thesis
    by (auto simp: and_also_True and_then_eq_Inr sha256_Inr is_file_def same_netlist_def recorded_item_path [OF assms(1)]
        recorded_item_path [OF assms(2)])
qed

lemma cts_load_Inr:
  assumes "cts_load v env h = Inr i"
  shows "document_at env h (gate_path v) (ci_gate i)" "document_at env h (cts_placement v) (ci_placement i)"
    and "document_at env h (cts_route v) (ci_route i)" "document_at env h (cts_physical_auth v) (ci_physical i)"
    and "text_at env h (cts_config v) (ci_config i)" "text_at env h (cts_runner v) (ci_runner i)"
    and "text_at env h (cts_audit v) (ci_audit i)"
    and "ci_hashes_match i \<longleftrightarrow> table_intact env h (ci_placement i) ''outputs'' (sv_lower v @ ''_place_odb'') \<and>
           table_intact env h (ci_placement i) ''outputs'' (sv_lower v @ ''_place_sdc'')"
    and "ci_netlist_unchanged i \<longleftrightarrow> same_netlist env h (ci_physical i)"
proof -
  obtain gate placement route physical config runner audit odb_item sdc_item x odb y sdc hashes b2 b5 unchanged
    where d: "load env h (under (root env) (gate_path v)) = Inr gate"
      "load env h (under (root env) (cts_placement v)) = Inr placement"
      "load env h (under (root env) (cts_route v)) = Inr route"
      "load env h (under (root env) (cts_physical_auth v)) = Inr physical"
      "read_text env h (under (root env) (cts_config v)) = Inr config"
      "read_text env h (under (root env) (cts_runner v)) = Inr runner"
      "read_text env h (under (root env) (cts_audit v)) = Inr audit"
    and o': "get2 placement ''outputs'' (sv_lower v @ ''_place_odb'') (JObj []) = Inr odb_item"
      "get odb_item ''path'' (JStr '''') = Inr x" "to_path x = Inr odb"
      "get2 placement ''outputs'' (sv_lower v @ ''_place_sdc'') (JObj []) = Inr sdc_item"
      "get sdc_item ''path'' (JStr '''') = Inr y" "to_path y = Inr sdc"
    and m: "items_match env h (odb_item, odb) (sdc_item, sdc) = Inr hashes"
    and n: "recorded_item physical ''inputs'' ''b2_mapped_netlist'' = Inr b2"
      "recorded_item physical ''inputs'' ''b5_mapped_netlist'' = Inr b5"
      "all_of [Inr (is_file h (snd b2)), Inr (is_file h (snd b5)),
         and_then (sha256 env h (snd b2)) (\<lambda>d. and_then (sha256 env h (snd b5)) (\<lambda>e. Inr (py_eq d e)))] = Inr unchanged"
    and i: "i = \<lparr>ci_gate = gate, ci_placement = placement, ci_route = route, ci_physical = physical,
         ci_config = config, ci_runner = runner, ci_audit = audit, ci_odb = (odb_item, odb),
         ci_sdc = (sdc_item, sdc), ci_hashes_match = hashes, ci_netlist_unchanged = unchanged\<rparr>"
    using assms unfolding cts_load_def Let_def and_then_eq_Inr sum.inject by metis
  show "document_at env h (gate_path v) (ci_gate i)" "document_at env h (cts_placement v) (ci_placement i)"
    "document_at env h (cts_route v) (ci_route i)" "document_at env h (cts_physical_auth v) (ci_physical i)"
    "text_at env h (cts_config v) (ci_config i)" "text_at env h (cts_runner v) (ci_runner i)"
    "text_at env h (cts_audit v) (ci_audit i)"
    using d by (simp_all add: i load_document read_text_at)
  show "ci_hashes_match i \<longleftrightarrow> table_intact env h (ci_placement i) ''outputs'' (sv_lower v @ ''_place_odb'') \<and>
      table_intact env h (ci_placement i) ''outputs'' (sv_lower v @ ''_place_sdc'')"
    using items_match_intact [OF o' m] by (simp add: i)
  show "ci_netlist_unchanged i \<longleftrightarrow> same_netlist env h (ci_physical i)"
    using netlist_unchanged [OF n] by (simp add: i)
qed

lemma cts_conditions_hold:
  assumes "cts_load v env h = Inr i"
  shows "all_hold (cts_conditions v env h i) \<longleftrightarrow> cts_ready v env h"
proof -
  note l = cts_load_Inr [OF assms]
  have "all_hold (cts_conditions v env h i) \<longleftrightarrow>
      cts_documents_accepted v env h (ci_gate i) (ci_placement i) (ci_route i) (ci_physical i) \<and>
      cts_scripts_guarded v (ci_config i) (ci_runner i) (ci_audit i) \<and>
      (\<forall>p \<in> set (cts_prior_outputs v (root env)). \<not> exists h p)"
    by (auto simp: all_hold_def cts_conditions_def cts_documents_accepted_def cts_scripts_guarded_def condition_simps
        l(8,9) sv_stage_def list_ex_iff Let_def)
  then show ?thesis
    unfolding cts_ready_def l(1-4) [THEN document_at_unique] l(5-7) [THEN text_at_unique] by simp
qed

lemma post_cts_load_Inr:
  assumes "post_cts_load v env h = Inr i"
  shows "document_at env h (cts_manifest v) (pi_cts i)" "text_at env h (post_cts_runner v) (pi_runner i)"
    and "text_at env h (post_cts_tcl v) (pi_tcl i)" "text_at env h (post_cts_audit v) (pi_audit i)"
    and "pi_hashes_match i \<longleftrightarrow>
           table_intact env h (pi_cts i) ''artifacts'' ''cts_odb'' \<and> table_intact env h (pi_cts i) ''artifacts'' ''cts_sdc''"
proof -
  obtain cts runner tcl audit odb_item sdc_item x odb y sdc hashes
    where d: "load env h (under (root env) (cts_manifest v)) = Inr cts"
      "read_text env h (under (root env) (post_cts_runner v)) = Inr runner"
      "read_text env h (under (root env) (post_cts_tcl v)) = Inr tcl"
      "read_text env h (under (root env) (post_cts_audit v)) = Inr audit"
    and o': "get2 cts ''artifacts'' ''cts_odb'' (JObj []) = Inr odb_item"
      "get odb_item ''path'' (JStr '''') = Inr x" "to_path x = Inr odb"
      "get2 cts ''artifacts'' ''cts_sdc'' (JObj []) = Inr sdc_item"
      "get sdc_item ''path'' (JStr '''') = Inr y" "to_path y = Inr sdc"
    and m: "items_match env h (odb_item, odb) (sdc_item, sdc) = Inr hashes"
    and i: "i = \<lparr>pi_cts = cts, pi_runner = runner, pi_tcl = tcl, pi_audit = audit, pi_odb = (odb_item, odb),
         pi_sdc = (sdc_item, sdc), pi_hashes_match = hashes\<rparr>"
    using assms unfolding post_cts_load_def Let_def and_then_eq_Inr sum.inject by metis
  show "document_at env h (cts_manifest v) (pi_cts i)" "text_at env h (post_cts_runner v) (pi_runner i)"
    "text_at env h (post_cts_tcl v) (pi_tcl i)" "text_at env h (post_cts_audit v) (pi_audit i)"
    using d by (simp_all add: i load_document read_text_at)
  show "pi_hashes_match i \<longleftrightarrow>
      table_intact env h (pi_cts i) ''artifacts'' ''cts_odb'' \<and> table_intact env h (pi_cts i) ''artifacts'' ''cts_sdc''"
    using items_match_intact [OF o' m] by (simp add: i)
qed

lemma post_cts_conditions_hold:
  assumes "post_cts_load v env h = Inr i"
  shows "all_hold (post_cts_conditions v env h i) \<longleftrightarrow> post_cts_ready v env h"
proof -
  note l = post_cts_load_Inr [OF assms]
  have "all_hold (post_cts_conditions v env h i) \<longleftrightarrow>
      field_is (pi_cts i) ''status'' (JStr ''PASS'') \<and>
      releases (pi_cts i) (sv_name v @ ''_PHASE6_POST_CTS_GLOBAL_ROUTE_AUTHORIZATION'') \<and>
      table_intact env h (pi_cts i) ''artifacts'' ''cts_odb'' \<and> table_intact env h (pi_cts i) ''artifacts'' ''cts_sdc'' \<and>
      post_cts_scripts_guarded (pi_runner i) (pi_tcl i) (pi_audit i) \<and>
      (\<forall>p \<in> set (post_cts_prior_outputs v (root env)). \<not> exists h p)"
    by (auto simp: all_hold_def post_cts_conditions_def post_cts_scripts_guarded_def condition_simps l(5) sv_stage_def
        list_ex_iff Let_def)
  then show ?thesis
    unfolding post_cts_ready_def l(1) [THEN document_at_unique] l(2-4) [THEN text_at_unique] by simp
qed

lemma cts_decides:
  assumes "cts_decide v env h = Inr d"
  shows "(fst d \<longleftrightarrow> cts_ready v env h) \<and> decision_for (sv_stage v ''_PHASE6_CTS_COMPUTE'') d"
  using assms
  by (auto simp: cts_decide_def cts_conditions_hold Let_def and_then_eq_Inr evaluated decision_for_def cts_payload_def released_def)

lemma post_cts_decides:
  assumes "post_cts_decide v env h = Inr d"
  shows "(fst d \<longleftrightarrow> post_cts_ready v env h) \<and>
    decision_for (sv_stage v ''_PHASE6_POST_CTS_GLOBAL_ROUTE_COMPUTE'') d"
  using assms
  by (auto simp: post_cts_decide_def post_cts_conditions_hold Let_def and_then_eq_Inr evaluated decision_for_def
      post_cts_payload_def released_def)

lemma cts_main_Inr:
  assumes "cts_authorization_main v env h = Inr (code, h')"
  obtains d h1 where "\<not> exists h (under (root env) (cts_output v))" "cts_decide v env h = Inr d"
    "make_dirs (under (root env) (sv_report v ''phase6'')) h = Inr h1" "code = (if fst d then 0 else 1)"
    "h' = write_file (under (root env) (cts_output v)) (dumps env (snd d)) h1"
  using assms by (auto simp: cts_authorization_main_def write_decision_def Let_def and_then_eq_Inr split: if_splits)

lemma post_cts_main_Inr:
  assumes "post_cts_authorization_main v env h = Inr (code, h')"
  obtains d where "\<not> exists h (under (root env) (post_cts_output v))" "post_cts_decide v env h = Inr d"
    "code = (if fst d then 0 else 1)"
    "h' = write_file (under (root env) (post_cts_output v)) (dumps env (snd d)) h"
  using assms
  by (auto simp: post_cts_authorization_main_def write_decision_def Let_def and_then_eq_Inr split: if_splits)

lemma detailed_main_Inr:
  assumes "detailed_authorization_main v setting pgrep env h = Inr (code, h')"
  obtains d h1 where "make_dirs (under (root env) (sv_report v ''phase7'')) h = Inr h1"
    "\<not> exists h1 (under (root env) (detailed_output v))" "detailed_decide v setting pgrep env h1 = Inr d"
    "code = (if fst d then 0 else 1)"
    "h' = write_file (under (root env) (detailed_output v)) (dumps env (snd d)) h1"
  using assms
  by (auto simp: detailed_authorization_main_def write_decision_def Let_def and_then_eq_Inr split: if_splits)

section \<open>The detailed route\<close>

text \<open>
  What the script demands of the routed design: a passed route that releases Phase 7, no
  residual, no overflow and no skipped net, untouched protected artifacts, and routed files
  that are byte for byte those the route recorded.
\<close>

definition recorded_intact :: "env \<Rightarrow> host \<Rightarrow> json \<Rightarrow> string \<Rightarrow> string \<Rightarrow> bool" where
  "recorded_intact env h report name p \<longleftrightarrow>
     (\<exists>b artifacts item. files h p = Some b \<and> get report ''artifacts'' (JObj []) = Inr artifacts \<and>
        get artifacts name (JObj []) = Inr item \<and> get item ''sha256'' JNull = Inr (JStr (sha env b)))"

definition routed_clean :: "stage_variant \<Rightarrow> string option \<Rightarrow> env \<Rightarrow> host \<Rightarrow> json \<Rightarrow> bool" where
  "routed_clean v setting env h source \<longleftrightarrow>
     field_is source ''status'' (JStr ''PASS'') \<and>
     releases source (sv_name v @ ''_PHASE7_DETAILED_ROUTE_AUTHORIZATION'') \<and>
     (\<exists>metrics. get source ''metrics'' (JObj []) = Inr metrics \<and>
        field_is metrics ''rrr_residual'' (JInt 0) \<and> field_is metrics ''overflow_edges'' (JInt 0)) \<and>
     get source ''skipped_nets'' JNull = Inr (JArr []) \<and>
     get source ''protected_artifacts_preserved'' JNull = Inr (JBool True) \<and>
     recorded_intact env h source ''routed_odb'' (routed_file v setting ''.odb'') \<and>
     recorded_intact env h source ''routed_sdc'' (routed_file v setting ''.sdc'')"

definition detailed_ready :: "stage_variant \<Rightarrow> string option \<Rightarrow> string result \<Rightarrow> env \<Rightarrow> host \<Rightarrow> bool" where
  "detailed_ready v setting pgrep env h \<longleftrightarrow>
     (\<exists>b source. files h (under (root env) (detailed_source v)) = Some b \<and> loads env b = Inr source \<and>
        routed_clean v setting env h source) \<and>
     (\<forall>p \<in> set (refuse_if_present v). \<not> exists h (under (root env) p)) \<and>
     (\<exists>listing. pgrep = Inr listing \<and> nonblank_lines listing = [])"

lemma py_eq_Nil: "py_eq x (JArr []) \<longleftrightarrow> x = JArr []"
proof (cases x)
  case (JArr ys)
  then show ?thesis by (cases ys) (simp_all add: py_eq.simps)
qed (simp_all add: py_eq.simps)

lemma get2_eq_True:
  "get2_eq obj k1 k2 v = Inr True \<longleftrightarrow> (\<exists>x. get obj k1 (JObj []) = Inr x \<and> field_is x k2 v)"
  by (auto simp: get2_eq_def get2_def and_then_eq_Inr field_is_def get_eq_True)

lemma detailed_conditions:
  assumes "get source ''artifacts'' (JObj []) = Inr recorded"
  shows "all_hold (detailed_checks v setting env h source recorded processes) \<longleftrightarrow>
    routed_clean v setting env h source \<and>
    (\<forall>p \<in> set (refuse_if_present v). \<not> exists h (under (root env) p)) \<and> processes = []"
proof -
  have digest: "(and_then (get2 recorded name ''sha256'' JNull) (\<lambda>d. and_then (sha256 env h p) (\<lambda>e. Inr (py_eq d e))) = Inr True)
      \<longleftrightarrow> recorded_intact env h source name p" for name p
    using assms by (auto simp: recorded_intact_def get2_def sha256_def and_then_eq_Inr read_bytes_Inr)
  show ?thesis
    unfolding detailed_checks_def Let_def all_hold_def list.pred_inject snd_conv digest authorizes_stage_True get2_eq_True
      get_is_true_True routed_clean_def sv_stage_def field_is_def
    by (auto simp: get_eq_True py_eq_Nil list_ex_iff)
qed

lemma detailed_decides:
  assumes "detailed_decide v setting pgrep env h = Inr d"
  shows "(fst d \<longleftrightarrow> detailed_ready v setting pgrep env h) \<and>
    decision_for (sv_stage v ''_PHASE7_DETAILED_ROUTE_COMPUTE'') d"
proof -
  from assms obtain b source recorded listing checks inputs where
    s: "files h (under (root env) (detailed_source v)) = Some b" "loads env b = Inr source"
      "get source ''artifacts'' (JObj []) = Inr recorded" "pgrep = Inr listing"
    and c: "evaluate (detailed_checks v setting env h source recorded (nonblank_lines listing)) = Inr checks"
    and d: "d = (list_all snd checks, detailed_payload v env checks (nonblank_lines listing) inputs (list_all snd checks))"
    by (auto simp: detailed_decide_def Let_def and_then_eq_Inr read_bytes_Inr)
  have "fst d \<longleftrightarrow> detailed_ready v setting pgrep env h"
    using s evaluated [OF c] d by (simp add: detailed_conditions detailed_ready_def)
  with d show ?thesis by (simp add: decision_for_def detailed_payload_def released_def)
qed

section \<open>Properties\<close>

text \<open>
  C9: the detailed route is released exactly on a clean route. A run that ends exits 0 when
  the routed design is clean, Phase 7 has left nothing behind and no OpenROAD process runs,
  and 1 otherwise; the decision it adds to the file system releases the detailed route of the
  variant in the first case and nothing in the second.
\<close>

theorem detailed_route_decides:
  assumes "detailed_authorization_main v setting pgrep env h = Inr (code, h')"
  shows "\<exists>ready payload. code = (if ready then 0 else 1) \<and>
    (ready \<longleftrightarrow> (\<exists>h1. make_dirs (under (root env) (sv_report v ''phase7'')) h = Inr h1 \<and> detailed_ready v setting pgrep env h1)) \<and>
    files h' = (files h)(under (root env) (detailed_output v) \<mapsto> dumps env payload) \<and>
    get payload ''authorizes'' JNull = Inr (JArr (if ready then [JStr (sv_name v @ ''_PHASE7_DETAILED_ROUTE_COMPUTE'')] else [])) \<and>
    get payload ''decision'' JNull = Inr (JStr (if ready then ''PASS'' else ''BLOCKED''))"
proof -
  from assms obtain d h1 where d: "make_dirs (under (root env) (sv_report v ''phase7'')) h = Inr h1"
    "\<not> exists h1 (under (root env) (detailed_output v))" "detailed_decide v setting pgrep env h1 = Inr d"
    "code = (if fst d then 0 else 1)"
    "h' = write_file (under (root env) (detailed_output v)) (dumps env (snd d)) h1"
    by (rule detailed_main_Inr)
  note ready = detailed_decides [OF d(3)]
  show ?thesis
  proof (intro exI conjI)
    show "code = (if fst d then 0 else 1)" by (rule d(4))
    show "fst d \<longleftrightarrow> (\<exists>h1. make_dirs (under (root env) (sv_report v ''phase7'')) h = Inr h1 \<and> detailed_ready v setting pgrep env h1)"
      using ready d(1) by auto
    show "files h' = (files h)(under (root env) (detailed_output v) \<mapsto> dumps env (snd d))"
      using d(5) make_dirs_Inr(1) [OF d(1)] by simp
  qed (use ready in \<open>auto simp: decision_for_def sv_stage_def\<close>)
qed


section \<open>Witness\<close>

text \<open>B6 routed and clean in a repository at \<open>/r\<close>, and no OpenROAD process.\<close>

definition routed_source :: json where
  "routed_source = JObj
     [(''status'', JStr ''PASS''), (''authorizes'', JArr [JStr ''B6_PHASE7_DETAILED_ROUTE_AUTHORIZATION'']),
      (''metrics'', JObj [(''rrr_residual'', JInt 0), (''overflow_edges'', JInt 0)]), (''skipped_nets'', JArr []),
      (''protected_artifacts_preserved'', JBool True),
      (''artifacts'', JObj [(''routed_odb'', JObj [(''sha256'', JStr ''ODB'')]), (''routed_sdc'', JObj [(''sha256'', JStr ''SDC'')])])]"

definition routed_env :: env where
  "routed_env = \<lparr>sha = (\<lambda>b. b), decode = (\<lambda>b. Inr b),
     loads = (\<lambda>b. if b = ''M'' then Inr routed_source else Inl (JSONDecodeError b)),
     dumps = (\<lambda>_. ''decision''), now = ''2026'', root = ''/r''\<rparr>"

definition routed_host :: host where
  "routed_host =
     \<lparr>files = map_of ([(under ''/r'' (detailed_source b6_stages), ''M''), (routed_file b6_stages (Some ''/t//p6/'') ''.odb'', ''ODB''),
         (routed_file b6_stages (Some ''/t//p6/'') ''.sdc'', ''SDC'')] @
        map (\<lambda>(_, p). (under ''/r'' p, ''tool'')) (pinned_tools b6_stages)),
      dirs = (\<lambda>_. False)\<rparr>"

lemma routed_run: "\<exists>h'. detailed_authorization_main b6_stages (Some ''/t//p6/'') (Inr [CHR 0x0A]) routed_env routed_host = Inr (0, h')"
proof -
  have "exit_code (detailed_authorization_main b6_stages (Some ''/t//p6/'') (Inr [CHR 0x0A]) routed_env routed_host) = Some 0"
    by code_simp
  then show ?thesis by (rule exit_code_Some)
qed

theorem detailed_route_decides_witness:
  "\<exists>h1. make_dirs (under ''/r'' (sv_report b6_stages ''phase7'')) routed_host = Inr h1 \<and>
     detailed_ready b6_stages (Some ''/t//p6/'') (Inr [CHR 0x0A]) routed_env h1"
proof -
  obtain h' where "detailed_authorization_main b6_stages (Some ''/t//p6/'') (Inr [CHR 0x0A]) routed_env routed_host = Inr (0, h')"
    using routed_run by blast
  from detailed_route_decides [OF this] obtain ready where "0 = (if ready then 0 else 1 :: int)"
    "ready \<longleftrightarrow> (\<exists>h1. make_dirs (under (root routed_env) (sv_report b6_stages ''phase7'')) routed_host = Inr h1 \<and>
       detailed_ready b6_stages (Some ''/t//p6/'') (Inr [CHR 0x0A]) routed_env h1)" by blast
  moreover have "root routed_env = ''/r''" by (simp add: routed_env_def)
  ultimately show ?thesis by (simp split: if_splits)
qed

end
