(* ===== verification/Release_Chain.thy ===== *)
theory Release_Chain
  imports Route_Authorization_Props
begin

text \<open>
  The two gates of a variant in sequence: the route authorization a variant obtains is the
  file its strict gate demands. So clock-tree synthesis is released only after an
  authorization whose conditions all held, and which preceded every route artifact.
\<close>

definition staged_variants :: "(gate_variant \<times> auth_variant) list" where
  "staged_variants =
     [(b6_gate, b6_route), (b7_gate, b7_route), (b9_gate, b9_route), (b10_gate, b10_route), (b11_gate, b11_route),
      (b12_gate, b12_route), (b13_gate, b13_route), (b14_gate, b14_route), (b15_gate, b15_route),
      (b16_gate, b16_route), (b17_gate, b17_route), (b18_gate, b18_route), (b19_gate, b19_route),
      (b20_gate, b20_route), (b21_gate, b21_route), (b22_gate, b22_route), (b23_gate, b23_route),
      (b24_gate, b24_route)]"

lemma staged_paths:
  assumes "(g, r) \<in> set staged_variants"
  shows "gv_authorization g = Some (av_output r) \<and> under base (gv_route g) \<in> set (route_outputs r base)"
proof -
  have "list_all (\<lambda>(g, r). gv_authorization g = Some (av_output r) \<and>
      gv_route g = av_physical r ''_global_route_execution_report.json'') staged_variants"
    by (simp add: staged_variants_def av_output_def av_report_def av_physical_def gate_variant_defs route_variant_defs)
  with assms show ?thesis by (auto simp: list_all_iff route_outputs_def)
qed

lemma quoting: "length ''trap 'on_signal INT' INT'' = 24"
  by simp

text \<open>
  Release needs authorization. If the authorization script of a variant ran, the file it
  wrote is still there and parses to what was written, and the strict gate later releases the
  variant, then the authorization had passed: all its conditions held when it ran, and none
  of the route artifacts, the route report the gate reads among them, existed at that time.
\<close>

theorem release_needs_authorization:
  assumes "(g, r) \<in> set staged_variants"
    and "route_authorization_main r env before = Inr (code, after)"
    and "auth_decide r env before = Inr (passed, payload)" "loads env (dumps env payload) = Inr payload"
    and "files later (under (root env) (av_output r)) = files after (under (root env) (av_output r))"
    and "strict_gate_main g env later = Inr (0, released)"
  shows "code = 0 \<and> route_ready r env before \<and> (\<forall>p \<in> set (route_outputs r (root env)). \<not> exists before p) \<and>
    exists later (under (root env) (gv_route g)) \<and> \<not> exists before (under (root env) (gv_route g))"
proof -
  note paths = staged_paths [OF assms(1), of "root env"]
  from strict_gate_code [OF assms(6)] have "phase6_clear g env later" by (simp split: if_splits)
  then obtain placement a route analysis where
    l: "gate_load g env later = Inr (placement, Some a, route, analysis)"
    and a: "field_is a ''decision'' (JStr ''PASS'')"
    using paths by (auto simp: phase6_clear_def gate_load_def Let_def and_then_eq_Inr)
  have "load env later (under (root env) (av_output r)) = Inr a"
    and route: "load env later (under (root env) (gv_route g)) = Inr route"
    using l paths by (auto simp: gate_load_def Let_def and_then_eq_Inr)
  moreover have "after = write_file (under (root env) (av_output r)) (dumps env payload) before"
    using assms(2,3) by (auto simp: route_authorization_main_def split: if_splits)
  ultimately have "a = payload" using assms(4,5) by (auto simp: load_Inr)
  with a auth_payload_fields(2) [OF assms(3)] have "passed" by (auto simp: field_is_def get_eq_True split: if_splits)
  then have ready: "route_ready r env before" using auth_decide_ready [OF assms(3)] by simp
  have "exists later (under (root env) (gv_route g))" using route by (auto simp: load_Inr exists_def is_file_def)
  with ready route_authorization_code [OF assms(2)] route_ready_fresh [OF ready] paths show ?thesis by simp
qed

section \<open>Witness\<close>

text \<open>
  B9 from authorization to release: the parser now also knows the authorization payload, the
  route report and the analysis; the later file system holds the four reports of the gate.
\<close>

definition sample_payload :: json where
  "sample_payload = (case auth_decide b9_route sample_auth_env sample_auth_host of Inl _ \<Rightarrow> JNull | Inr (_, p) \<Rightarrow> p)"

definition chain_env :: env where
  "chain_env = sample_auth_env\<lparr>loads := (\<lambda>b.
     if b = ''decision'' then Inr sample_payload else if b = ''R'' then Inr sample_route
     else if b = ''N'' then Inr (sample_analysis 0) else loads sample_auth_env b)\<rparr>"

definition released_host :: host where
  "released_host =
     \<lparr>files = map_of [(under ''/r'' (gv_placement b9_gate), ''P''), (under ''/r'' (av_output b9_route), ''decision''),
        (under ''/r'' (gv_route b9_gate), ''R''), (under ''/r'' (gv_analysis b9_gate), ''N''), (''/o/x.odb'', ''ODB'')],
      dirs = (\<lambda>_. False)\<rparr>"

lemma chain_authorized: "exit_code (route_authorization_main b9_route chain_env sample_auth_host) = Some 0"
  by code_simp

lemma chain_payload: "auth_decide b9_route chain_env sample_auth_host = Inr (True, sample_payload)"
  by code_simp

lemma chain_released: "exit_code (strict_gate_main b9_gate chain_env released_host) = Some 0"
  by code_simp

theorem release_needs_authorization_witness:
  "route_ready b9_route chain_env sample_auth_host \<and> exists released_host (under ''/r'' (gv_route b9_gate))"
proof -
  obtain after where after: "route_authorization_main b9_route chain_env sample_auth_host = Inr (0, after)"
    using exit_code_Some [OF chain_authorized] by blast
  obtain released where released: "strict_gate_main b9_gate chain_env released_host = Inr (0, released)"
    using exit_code_Some [OF chain_released] by blast
  have r: "root chain_env = ''/r''" "loads chain_env (dumps chain_env sample_payload) = Inr sample_payload"
    by (simp_all add: chain_env_def sample_auth_env_def)
  have "files after (under ''/r'' (av_output b9_route)) = Some ''decision''"
    using after chain_payload r(1)
    by (auto simp: route_authorization_main_def chain_env_def sample_auth_env_def split: if_splits)
  moreover have "files released_host (under ''/r'' (av_output b9_route)) = Some ''decision''"
    by code_simp
  moreover have "(b9_gate, b9_route) \<in> set staged_variants" by (simp add: staged_variants_def)
  ultimately show ?thesis
    using release_needs_authorization [OF _ after chain_payload r(2) _ released] r(1) by simp
qed

end
