(* ===== verification/Release_History.thy ===== *)
theory Release_History
  imports Stage_Authorization_Props Release_Chain
begin

text \<open>
  The deciding scripts over time. Strict gates, route authorizations and the later stage
  authorizations of all variants run in any order and at any time, interleaved with
  everything else that changes the file system except the decision files. Whatever the
  order, a decision once written is final, and a variant reaches clock-tree synthesis only
  through its route authorization and its strict gate, in this order.
\<close>

section \<open>One-shot scripts\<close>

text \<open>
  The contract of a deciding script: it ends only when its decision file does not exist yet,
  and then that file is all it writes.
\<close>

locale one_shot =
  fixes run :: "env \<Rightarrow> host \<Rightarrow> (int \<times> host) result" and target :: "env \<Rightarrow> string"
  assumes fresh: "run env h = Inr (code, h') \<Longrightarrow> \<not> exists h (target env)"
    and writes: "run env h = Inr (code, h') \<Longrightarrow> \<exists>b. files h' = (files h)(target env \<mapsto> b)"
begin

lemma creates: "run env h = Inr (code, h') \<Longrightarrow> exists h' (target env)"
  using writes by (fastforce simp: exists_def is_file_def)

lemma runs_once: "run env h = Inr (code, h') \<Longrightarrow> run env h' \<noteq> Inr r"
  using creates fresh by (cases r) blast

lemma keeps: "run env h = Inr (code, h') \<Longrightarrow> files h p = Some b \<Longrightarrow> files h' p = Some b"
  using writes fresh by (fastforce simp: exists_def is_file_def)

lemma other_files: "run env h = Inr (code, h') \<Longrightarrow> p \<noteq> target env \<Longrightarrow> files h' p = files h p"
  using writes by fastforce

end

interpretation gates: one_shot "strict_gate_main v" "\<lambda>env. under (root env) (gv_output v)" for v
proof
  fix env h code h' assume r: "strict_gate_main v env h = Inr (code, h')"
  then show "\<not> exists h (under (root env) (gv_output v))" by (rule strict_gate_fresh)
  from strict_gate_written [OF r] show "\<exists>b. files h' = (files h)(under (root env) (gv_output v) \<mapsto> b)" by auto
qed

interpretation routes: one_shot "route_authorization_main v" "\<lambda>env. under (root env) (av_output v)" for v
proof
  fix env h code h' assume r: "route_authorization_main v env h = Inr (code, h')"
  from r show "\<not> exists h (under (root env) (av_output v))" by (rule route_authorization_Inr)
  from r show "\<exists>b. files h' = (files h)(under (root env) (av_output v) \<mapsto> b)" by (rule route_authorization_Inr) auto
qed

interpretation cts: one_shot "cts_authorization_main v" "\<lambda>env. under (root env) (cts_output v)" for v
proof
  fix env h code h' assume r: "cts_authorization_main v env h = Inr (code, h')"
  from r show "\<not> exists h (under (root env) (cts_output v))" by (rule cts_main_Inr)
  from r show "\<exists>b. files h' = (files h)(under (root env) (cts_output v) \<mapsto> b)"
    by (rule cts_main_Inr) (auto simp: make_dirs_Inr)
qed

interpretation post_cts: one_shot "post_cts_authorization_main v" "\<lambda>env. under (root env) (post_cts_output v)" for v
proof
  fix env h code h' assume r: "post_cts_authorization_main v env h = Inr (code, h')"
  from r show "\<not> exists h (under (root env) (post_cts_output v))" by (rule post_cts_main_Inr)
  from r show "\<exists>b. files h' = (files h)(under (root env) (post_cts_output v) \<mapsto> b)" by (rule post_cts_main_Inr) auto
qed

interpretation detailed: one_shot "detailed_authorization_main v setting pgrep"
  "\<lambda>env. under (root env) (detailed_output v)" for v setting pgrep
proof
  fix env h code h' assume r: "detailed_authorization_main v setting pgrep env h = Inr (code, h')"
  from r show "\<not> exists h (under (root env) (detailed_output v))"
    by (rule detailed_main_Inr) (use make_dirs_Inr(3) in blast)
  from r show "\<exists>b. files h' = (files h)(under (root env) (detailed_output v) \<mapsto> b)"
    by (rule detailed_main_Inr) (auto simp: make_dirs_Inr)
qed

section \<open>Histories\<close>

datatype script =
    Gate gate_variant
  | Route auth_variant
  | Cts stage_variant
  | Post_Cts stage_variant
  | Detailed stage_variant "string option" "string result"

fun run_script :: "script \<Rightarrow> env \<Rightarrow> host \<Rightarrow> (int \<times> host) result" where
  "run_script (Gate v) = strict_gate_main v"
| "run_script (Route v) = route_authorization_main v"
| "run_script (Cts v) = cts_authorization_main v"
| "run_script (Post_Cts v) = post_cts_authorization_main v"
| "run_script (Detailed v setting pgrep) = detailed_authorization_main v setting pgrep"

fun script_output :: "script \<Rightarrow> string" where
  "script_output (Gate v) = gv_output v"
| "script_output (Route v) = av_output v"
| "script_output (Cts v) = cts_output v"
| "script_output (Post_Cts v) = post_cts_output v"
| "script_output (Detailed v setting pgrep) = detailed_output v"

definition stage_variants :: "stage_variant list" where
  "stage_variants = [b6_stages, b7_stages]"

fun known :: "script \<Rightarrow> bool" where
  "known (Gate v) \<longleftrightarrow> v \<in> set gate_variants"
| "known (Route v) \<longleftrightarrow> v \<in> set route_variants"
| "known (Cts v) \<longleftrightarrow> v \<in> set stage_variants"
| "known (Post_Cts v) \<longleftrightarrow> v \<in> set stage_variants"
| "known (Detailed v setting pgrep) \<longleftrightarrow> v \<in> set stage_variants"

interpretation scripts: one_shot "run_script s" "\<lambda>env. under (root env) (script_output s)" for s
proof
  fix env h code h' assume r: "run_script s env h = Inr (code, h')"
  then show "\<not> exists h (under (root env) (script_output s))"
    by (cases s) (auto dest: gates.fresh routes.fresh cts.fresh post_cts.fresh detailed.fresh)
  from r show "\<exists>b. files h' = (files h)(under (root env) (script_output s) \<mapsto> b)"
    by (cases s) (auto dest: gates.writes routes.writes cts.writes post_cts.writes detailed.writes)
qed

text \<open>
  One step of the world: a script of the repository ends at some time \<open>t\<close>, or anything else
  happens that leaves the decision files alone.
\<close>

inductive release_step :: "env \<Rightarrow> host \<Rightarrow> host \<Rightarrow> bool" for env where
  script: "known s \<Longrightarrow> run_script s (env\<lparr>now := t\<rparr>) h = Inr (code, h') \<Longrightarrow> release_step env h h'"
| outside: "\<forall>s. known s \<longrightarrow> files h' (under (root env) (script_output s)) = files h (under (root env) (script_output s)) \<Longrightarrow>
     release_step env h h'"

definition history :: "env \<Rightarrow> host \<Rightarrow> host \<Rightarrow> bool" where
  "history env = (release_step env)\<^sup>*\<^sup>*"

lemma history_refl [simp]: "history env h h"
  by (simp add: history_def)

lemma history_step: "history env h h' \<Longrightarrow> release_step env h' h'' \<Longrightarrow> history env h h''"
  by (simp add: history_def rtranclp.rtrancl_into_rtrancl)

lemma history_trans: "history env h h' \<Longrightarrow> history env h' h'' \<Longrightarrow> history env h h''"
  by (simp add: history_def)

text \<open>Different scripts have different decision files.\<close>

fun script_key :: "script \<Rightarrow> script" where
  "script_key (Detailed v setting pgrep) = Detailed v None (Inr [])"
| "script_key s = s"

definition script_keys :: "script list" where
  "script_keys = map Gate gate_variants @ map Route route_variants @ map Cts stage_variants @
     map Post_Cts stage_variants @ map (\<lambda>v. Detailed v None (Inr [])) stage_variants"

lemma known_key: "known s \<Longrightarrow> script_key s \<in> set script_keys \<and> script_output (script_key s) = script_output s"
  by (cases s) (auto simp: script_keys_def)

lemma outputs_distinct: "distinct (map script_output script_keys)"
  by code_simp

lemma same_output:
  assumes "known s" "known s'" "script_output s = script_output s'"
  shows "script_key s = script_key s'"
  using assms known_key [of s] known_key [of s'] outputs_distinct unfolding distinct_map inj_on_def by metis


section \<open>Decisions are final\<close>

lemma script_output_now [simp]: "root (env\<lparr>now := t\<rparr>) = root env"
  by simp

lemma release_step_keeps:
  assumes "release_step env h h'" "known s" "files h (under (root env) (script_output s)) = Some b"
  shows "files h' (under (root env) (script_output s)) = Some b"
  using assms scripts.keeps by cases auto

lemma history_keeps:
  assumes "history env h h'" "known s" "files h (under (root env) (script_output s)) = Some b"
  shows "files h' (under (root env) (script_output s)) = Some b"
  using assms(1,3) unfolding history_def by induction (auto intro: release_step_keeps [OF _ assms(2)])

lemma history_created:
  assumes "history env h h'" "known s" "files h (under (root env) (script_output s)) = None"
    and "files h' (under (root env) (script_output s)) = Some b"
  shows "\<exists>s' t h1 h2 code. history env h h1 \<and> known s' \<and> script_key s' = script_key s \<and>
    run_script s' (env\<lparr>now := t\<rparr>) h1 = Inr (code, h2) \<and> files h2 (under (root env) (script_output s)) = Some b \<and>
    history env h2 h'"
  using assms(1,4) unfolding history_def
proof (induction rule: rtranclp_induct)
  case base
  with assms(3) show ?case by simp
next
  case (step y z)
  show ?case
  proof (cases "files y (under (root env) (script_output s)) = None")
    case False
    then obtain b' where "files y (under (root env) (script_output s)) = Some b'" by blast
    with release_step_keeps [OF step.hyps(2) assms(2)] step.prems have "files y (under (root env) (script_output s)) = Some b" by simp
    from step.IH [OF this] step.hyps(2) show ?thesis by (meson rtranclp.rtrancl_into_rtrancl)
  next
    case True
    from step.hyps(2) show ?thesis
    proof cases
      case (script s' t code)
      have "script_output s = script_output s'"
        using scripts.other_files [OF script(2), of "under (root env) (script_output s)"] True step.prems by auto
      then have "script_key s' = script_key s" using same_output [OF script(1) assms(2)] by simp
      with script step.hyps(1) step.prems show ?thesis
        by (intro exI [of _ s'] exI [of _ t] exI [of _ y] exI [of _ z] exI [of _ code]) simp
    next
      case outside
      with assms(2) True step.prems show ?thesis by auto
    qed
  qed
qed

section \<open>The order of release\<close>

text \<open>
  What a written decision says when it is read back: \<open>json.loads\<close> of a document that
  \<open>json.dumps\<close> wrote has the same decision and the same released stages.
\<close>

definition readable :: "env \<Rightarrow> bool" where
  "readable env \<longleftrightarrow>
     (\<forall>j d. loads env (dumps env j) = Inr d \<longrightarrow> get d ''decision'' JNull = get j ''decision'' JNull \<and>
        get d ''authorizes'' JNull = get j ''authorizes'' JNull)"

lemma readable_decision:
  "readable env \<Longrightarrow> loads env (dumps env j) = Inr d \<Longrightarrow> field_is d ''decision'' (JStr s) \<longleftrightarrow> get j ''decision'' JNull = Inr (JStr s)"
  by (auto simp: readable_def field_is_def get_eq_True)

lemma gate_read_back:
  assumes "readable env" "strict_gate_main g (env\<lparr>now := t\<rparr>) h = Inr (code, h')"
    and "load env h'' (under (root env) (gv_output g)) = Inr d" "field_is d ''decision'' (JStr ''PASS'')"
    and "files h'' (under (root env) (gv_output g)) = files h' (under (root env) (gv_output g))"
  shows "code = 0 \<and> phase6_clear g (env\<lparr>now := t\<rparr>) h"
proof -
  obtain residual overflow hashes explicit passed checks inputs invocations where
    w: "code = (if passed then 0 else 2)" "h' = write_file (under (root env) (gv_output g)) (dumps env
       (gate_payload g (env\<lparr>now := t\<rparr>) residual overflow hashes explicit passed checks inputs invocations)) h"
    using strict_gate_written [OF assms(2)] by auto
  with assms(3,5) have "loads env (dumps env
      (gate_payload g (env\<lparr>now := t\<rparr>) residual overflow hashes explicit passed checks inputs invocations)) = Inr d"
    by (auto simp: load_Inr)
  from readable_decision [OF assms(1) this, of "''PASS''"] assms(4) have "passed"
    by (simp add: gate_payload_fields split: if_splits)
  with w(1) strict_gate_code [OF assms(2)] show ?thesis by (simp split: if_splits)
qed

lemma route_read_back:
  assumes "readable env" "route_authorization_main r (env\<lparr>now := t\<rparr>) h = Inr (code, h')"
    and "load env h'' (under (root env) (av_output r)) = Inr d" "field_is d ''decision'' (JStr ''PASS'')"
    and "files h'' (under (root env) (av_output r)) = files h' (under (root env) (av_output r))"
  shows "code = 0 \<and> route_ready r (env\<lparr>now := t\<rparr>) h"
  using assms(2)
proof (rule route_authorization_Inr)
  fix passed payload
  assume p: "auth_decide r (env\<lparr>now := t\<rparr>) h = Inr (passed, payload)" "code = (if passed then 0 else 1)"
    "h' = write_file (under (root (env\<lparr>now := t\<rparr>)) (av_output r)) (dumps (env\<lparr>now := t\<rparr>) payload) h"
  with assms(3,5) have "loads env (dumps env payload) = Inr d" by (auto simp: load_Inr)
  from readable_decision [OF assms(1) this, of "''PASS''"] assms(4) have "passed"
    by (simp add: auth_payload_fields(2) [OF p(1)] split: if_splits)
  with p(2) auth_decide_ready [OF p(1)] show ?thesis by simp
qed

definition release_chains :: "(stage_variant \<times> gate_variant \<times> auth_variant) list" where
  "release_chains = [(b6_stages, b6_gate, b6_route), (b7_stages, b7_gate, b7_route)]"

lemma chain_member:
  assumes "(v, g, r) \<in> set release_chains"
  shows "known (Cts v)" "known (Gate g)" "known (Route r)" "gate_path v = gv_output g" "gv_authorization g = Some (av_output r)"
    "sv_name v = gv_name g"
proof -
  have "list_all (\<lambda>(v, g, r). known (Cts v) \<and> known (Gate g) \<and> known (Route r) \<and> gate_path v = gv_output g \<and>
      gv_authorization g = Some (av_output r) \<and> sv_name v = gv_name g) release_chains"
    by (simp add: release_chains_def stage_variants_def gate_variants_def route_variants_def gate_path_def sv_report_def
        gv_output_def b6_stages_def b7_stages_def av_output_def av_report_def gate_variant_defs b6_route_def b7_route_def)
  with assms show "known (Cts v)" "known (Gate g)" "known (Route r)" "gate_path v = gv_output g"
    "gv_authorization g = Some (av_output r)" "sv_name v = gv_name g" by (auto simp: list_all_iff)
qed

lemma cts_ready_gate:
  assumes "cts_ready v env h"
  shows "\<exists>gate. load env h (under (root env) (gate_path v)) = Inr gate \<and> field_is gate ''decision'' (JStr ''PASS'')"
  using assms
  by (auto simp: cts_ready_def cts_documents_accepted_def load_document)

lemma phase6_clear_authorization:
  assumes "phase6_clear g env h" "gv_authorization g = Some p"
  shows "\<exists>a. load env h (under (root env) p) = Inr a \<and> field_is a ''decision'' (JStr ''PASS'')"
  using assms by (auto simp: phase6_clear_def gate_load_def Let_def and_then_eq_Inr)

lemma load_now [simp]: "load (env\<lparr>now := t\<rparr>) = load env"
  by (simp add: load_def fun_eq_iff)


text \<open>The script that wrote a decision, recognised by the decision file.\<close>

lemma gate_created:
  assumes "history env h0 h" "known (Gate g)" "files h0 (under (root env) (gv_output g)) = None"
    and "files h (under (root env) (gv_output g)) = Some b"
  shows "\<exists>t h1 h2 code. history env h0 h1 \<and> strict_gate_main g (env\<lparr>now := t\<rparr>) h1 = Inr (code, h2) \<and>
    files h2 (under (root env) (gv_output g)) = Some b \<and> history env h2 h"
proof -
  from history_created [OF assms(1,2)] assms(3,4) obtain s' t h1 h2 code where
    c: "history env h0 h1" "script_key s' = Gate g" "run_script s' (env\<lparr>now := t\<rparr>) h1 = Inr (code, h2)"
      "files h2 (under (root env) (gv_output g)) = Some b" "history env h2 h" by auto
  from c(2) have "s' = Gate g" by (cases s') auto
  with c show ?thesis by auto
qed

lemma route_created:
  assumes "history env h0 h" "known (Route r)" "files h0 (under (root env) (av_output r)) = None"
    and "files h (under (root env) (av_output r)) = Some b"
  shows "\<exists>t h1 h2 code. history env h0 h1 \<and> route_authorization_main r (env\<lparr>now := t\<rparr>) h1 = Inr (code, h2) \<and>
    files h2 (under (root env) (av_output r)) = Some b \<and> history env h2 h"
proof -
  from history_created [OF assms(1,2)] assms(3,4) obtain s' t h1 h2 code where
    c: "history env h0 h1" "script_key s' = Route r" "run_script s' (env\<lparr>now := t\<rparr>) h1 = Inr (code, h2)"
      "files h2 (under (root env) (av_output r)) = Some b" "history env h2 h" by auto
  from c(2) have "s' = Route r" by (cases s') auto
  with c show ?thesis by auto
qed

text \<open>An authorized clock-tree synthesis traced back to the decisions it rests on.\<close>

lemma cts_traced_back:
  assumes "readable env" "(v, g, r) \<in> set release_chains"
    and "files h0 (under (root env) (gv_output g)) = None" "files h0 (under (root env) (av_output r)) = None"
    and "history env h0 h" "cts_authorization_main v (env\<lparr>now := t\<rparr>) h = Inr (0, h')"
  shows "\<exists>t1 h1 h2 t3 h3 h4.
    history env h0 h1 \<and> route_ready r (env\<lparr>now := t1\<rparr>) h1 \<and>
      route_authorization_main r (env\<lparr>now := t1\<rparr>) h1 = Inr (0, h2) \<and>
    history env h2 h3 \<and> phase6_clear g (env\<lparr>now := t3\<rparr>) h3 \<and>
      strict_gate_main g (env\<lparr>now := t3\<rparr>) h3 = Inr (0, h4) \<and>
    history env h4 h"
proof -
  note chain = chain_member [OF assms(2)]
  have "cts_ready v (env\<lparr>now := t\<rparr>) h" using assms(6)
    by (rule cts_main_Inr) (use cts_decides in \<open>auto split: if_splits\<close>)
  from cts_ready_gate [OF this] chain(4) obtain d where
    d: "load env h (under (root env) (gv_output g)) = Inr d" "field_is d ''decision'' (JStr ''PASS'')" by auto
  then obtain b where "files h (under (root env) (gv_output g)) = Some b" by (auto simp: load_Inr)
  from gate_created [OF assms(5) chain(2) assms(3) this] \<open>files h _ = Some b\<close> obtain t3 h3 h4 code where
    g: "history env h0 h3" "strict_gate_main g (env\<lparr>now := t3\<rparr>) h3 = Inr (code, h4)" "history env h4 h"
      "files h (under (root env) (gv_output g)) = files h4 (under (root env) (gv_output g))" by auto
  have clear: "code = 0" "phase6_clear g (env\<lparr>now := t3\<rparr>) h3"
    using gate_read_back [OF assms(1) g(2) d g(4)] by simp_all
  from phase6_clear_authorization [OF clear(2) chain(5)] obtain a where
    a: "load env h3 (under (root env) (av_output r)) = Inr a" "field_is a ''decision'' (JStr ''PASS'')" by auto
  then obtain b' where "files h3 (under (root env) (av_output r)) = Some b'" by (auto simp: load_Inr)
  from route_created [OF g(1) chain(3) assms(4) this] \<open>files h3 _ = Some b'\<close> obtain t1 h1 h2 code' where
    r: "history env h0 h1" "route_authorization_main r (env\<lparr>now := t1\<rparr>) h1 = Inr (code', h2)" "history env h2 h3"
      "files h3 (under (root env) (av_output r)) = files h2 (under (root env) (av_output r))" by auto
  have "code' = 0" "route_ready r (env\<lparr>now := t1\<rparr>) h1"
    using route_read_back [OF assms(1) r(2) a r(4)] by simp_all
  with r g clear show ?thesis by blast
qed

section \<open>Properties\<close>

text \<open>
  C6: decisions are final. In every history of the repository, whatever the scripts and the
  rest of the world do and in whatever order, the decision a script has written keeps its
  content, and the script never decides a second time.
\<close>

theorem decisions_are_final:
  assumes "history env h h'" "known s" "files h (under (root env) (script_output s)) = Some b"
  shows "files h' (under (root env) (script_output s)) = Some b \<and>
    (\<forall>t r. run_script s (env\<lparr>now := t\<rparr>) h' \<noteq> Inr r)"
proof -
  have b: "files h' (under (root env) (script_output s)) = Some b"
    using assms by (rule history_keeps)
  then have "exists h' (under (root (env\<lparr>now := t\<rparr>)) (script_output s))" for t
    by (simp add: exists_def is_file_def)
  with scripts.fresh have "run_script s (env\<lparr>now := t\<rparr>) h' \<noteq> Inr r" for t r by (cases r) blast
  with b show ?thesis by blast
qed

text \<open>
  C4: the order of release. Start from a repository in which neither the route nor the gate
  of B6 or B7 is decided. If at any later time its clock-tree synthesis is authorized, then
  the route authorization was issued at some moment, on a repository where all its conditions
  held, and the strict gate passed at a later moment, on clean evidence.
\<close>

theorem release_order:
  assumes "readable env" "(v, g, r) \<in> set release_chains"
    and "files h0 (under (root env) (gv_output g)) = None" "files h0 (under (root env) (av_output r)) = None"
    and "history env h0 h" "cts_authorization_main v (env\<lparr>now := t\<rparr>) h = Inr (0, h')"
  shows "\<exists>t1 h1 h2 t3 h3 h4.
    history env h0 h1 \<and> route_ready r (env\<lparr>now := t1\<rparr>) h1 \<and>
      route_authorization_main r (env\<lparr>now := t1\<rparr>) h1 = Inr (0, h2) \<and>
    history env h2 h3 \<and> phase6_clear g (env\<lparr>now := t3\<rparr>) h3 \<and>
      strict_gate_main g (env\<lparr>now := t3\<rparr>) h3 = Inr (0, h4) \<and>
    history env h4 h"
  using assms by (rule cts_traced_back)

section \<open>Witness\<close>

text \<open>
  B6 from placement to clock-tree synthesis in a repository at \<open>/r\<close>: the documents below,
  a digest that is the content itself, and a writer that keeps of a document what a reader of
  decisions asks for.
\<close>

definition b6_placement :: json where
  "b6_placement = JObj
     [(''status'', JStr ''PASS''), (''placement_legality_and_fence_audit'', JStr ''PASS''),
      (''authorizes'', JArr [JStr ''B6_SINGLE_GLOBAL_ROUTE'']),
      (''outputs'', JObj
         [(''b6_place_odb'', JObj [(''path'', JStr ''/o/p.odb''), (''sha256'', JStr ''ODB'')]),
          (''b6_place_sdc'', JObj [(''path'', JStr ''/o/p.sdc''), (''sha256'', JStr ''SDC'')])])]"

definition b6_targeted :: json where
  "b6_targeted = JObj
     [(''status'', JStr ''PASS''), (''authorizes'', JArr [JStr ''B6_GLOBAL_ROUTE_AUTHORIZATION'']),
      (''metrics'', JObj [(''anchors_verified'', JInt 2), (''outside_fence'', JInt 0),
                          (''unplaced'', JInt 0), (''placement_violations'', JInt 0)]),
      (''outputs'', JObj [(''audit'', JObj [(''path'', JStr ''/o/p.odb''), (''sha256'', JStr ''ODB'')])])]"

definition b6_eco :: json where
  "b6_eco = JObj
     [(''decision'', JStr ''SELECT_B6_TARGETED_ANCHOR_LOCK_ECO''),
      (''global_route'', JObj [(''invocation_limit'', JInt 1), (''cugr_congestion_iterations'', JInt 1)])]"

definition b6_physical :: json where
  "b6_physical = JObj
     [(''decision'', JStr ''PASS''),
      (''inputs'', JObj [(''b2_mapped_netlist'', JObj [(''path'', JStr ''/o/b2.v'')]),
                         (''b5_mapped_netlist'', JObj [(''path'', JStr ''/o/b5.v'')])])]"

definition b6_config :: string where
  "b6_config = ''DESIGN_NICKNAME = normalization_hbm_quad_local_b6 DESIGN_NAME = logic_die_normalization_hbm_quad_local_b2_top''"

definition b6_cts_runner :: string where
  "b6_cts_runner = ''do-4_1_cts repair_clock_nets compute_pid wrapper_pid trap 'on_signal INT' INT trap 'on_signal TERM' TERM''"

definition b6_cts_audit :: string where
  "b6_cts_audit = ''clock_net_count < 1 violations ne '' @ quote @ quote"

definition b6_cts_report :: json where
  "b6_cts_report = JObj
     [(''status'', JStr ''PASS''), (''authorizes'', JArr [JStr ''B6_PHASE6_POST_CTS_GLOBAL_ROUTE_AUTHORIZATION'']),
      (''artifacts'', JObj
         [(''cts_odb'', JObj [(''path'', JStr ''/o/p.odb''), (''sha256'', JStr ''ODB'')]),
          (''cts_sdc'', JObj [(''path'', JStr ''/o/p.sdc''), (''sha256'', JStr ''SDC'')])])]"

definition b6_post_cts_report :: json where
  "b6_post_cts_report = JObj
     [(''status'', JStr ''PASS''), (''authorizes'', JArr [JStr ''B6_PHASE7_DETAILED_ROUTE_AUTHORIZATION'']),
      (''metrics'', JObj [(''rrr_residual'', JInt 0), (''overflow_edges'', JInt 0)]), (''skipped_nets'', JArr []),
      (''protected_artifacts_preserved'', JBool True),
      (''artifacts'', JObj
         [(''routed_odb'', JObj [(''path'', JStr (routed_file b6_stages None ''.odb'')), (''sha256'', JStr ''ODB'')]),
          (''routed_sdc'', JObj [(''path'', JStr (routed_file b6_stages None ''.sdc'')), (''sha256'', JStr ''SDC'')])])]"

definition b6_later_report :: json where
  "b6_later_report = JObj
     [(''status'', JStr ''PASS''), (''overall_result'', JStr ''PASS''), (''gates'', JArr (replicate 9 JNull)),
      (''metrics'', JObj [(''worst_slack_ns'', JInt 0), (''max_slew_violation_rows'', JInt 0),
         (''max_capacitance_violation_rows'', JInt 0), (''max_fanout_violation_rows'', JInt 0)]),
      (''gds'', JObj [(''path'', JStr ''/o/x.odb''), (''sha256'', JStr ''ODB'')]),
      (''artifacts'', JObj [(''layout'', JObj [(''path'', JStr ''/o/x.odb''), (''sha256'', JStr ''ODB'')])])]"

definition b6_final_report :: json where
  "b6_final_report = JObj
     [(''status'', JStr ''PASS''), (''authorizes'', JArr [JStr ''B6_PHASE10_COMPLETION_AUDIT'']),
      (''artifacts'', JObj
         [(''recipe'', JObj [(''path'', JStr ''/o/recipe'')]), (''final_lyp'', JObj [(''path'', JStr ''/o/final.lyp'')]),
          (''final_gds'', JObj [(''path'', JStr ''/o/x.odb''), (''sha256'', JStr ''ODB'')])])]"

definition b6_post_cts_runner :: string where
  "b6_post_cts_runner = ''global_route_invocation_limit'' @ quote @
     '': 1 refusing duplicate launcher_pid audit_compute_pid trap 'on_signal INT' INT trap 'on_signal TERM' TERM --max-windows-in-output 0''"

definition b6_post_cts_tcl :: string where
  "b6_post_cts_tcl = ''if $iterations != 10 exit; global_route '' @ [CHR 0x5C]"

definition b6_post_cts_audit :: string where
  "b6_post_cts_audit = ''clock_net_count < 1 !$has_routes''"

definition b6_dumps :: "json \<Rightarrow> string" where
  "b6_dumps j =
     (case (get j ''decision'' JNull, get j ''authorizes'' JNull) of
        (Inr (JStr d), Inr (JArr [JStr stage])) \<Rightarrow> if d = ''PASS'' then CHR ''!'' # stage else ''?''
      | _ \<Rightarrow> ''?'')"

definition b6_loads :: "string \<Rightarrow> json result" where
  "b6_loads b =
     (case b of
        CHR ''!'' # stage \<Rightarrow> Inr (JObj [(''decision'', JStr ''PASS''), (''authorizes'', JArr [JStr stage])])
      | _ \<Rightarrow> (case map_of [(''P'', b6_placement), (''T'', b6_targeted), (''S'', b6_eco), (''A'', b6_physical),
                          (''R'', sample_route), (''N'', sample_analysis 0), (''C'', b6_cts_report),
                          (''M'', b6_post_cts_report), (''U'', b6_later_report), (''F'', b6_final_report),
                          (''E'', JObj [(''output'', JObj [])])] b of
                None \<Rightarrow> Inl (JSONDecodeError b) | Some v \<Rightarrow> Inr v))"

definition b6_env :: env where
  "b6_env = \<lparr>sha = (\<lambda>b. b), decode = (\<lambda>b. Inr b), loads = b6_loads, dumps = b6_dumps, now = ''2026'', root = ''/r''\<rparr>"

definition b6_files :: "(string \<times> string) list" where
  "b6_files =
     [(''/o/p.odb'', ''ODB''), (''/o/p.sdc'', ''SDC''), (''/o/x.odb'', ''ODB''), (''/o/b2.v'', ''V''), (''/o/b5.v'', ''V''),
      (''/o/recipe'', ''E''), (''/o/openroad'', ''exe'')] @
     map (\<lambda>(p, b). (under ''/r'' p, b))
       [(av_placement b6_route ''_placement_execution_report.json'', ''P''),
        (av_placement b6_route ''_targeted_placement_reopen_audit.json'', ''T''),
        (av_report b6_route ''_eco_decision.json'', ''S''), (av_physical_auth b6_route, ''A''),
        (av_runner b6_route, sample_runner), (av_tcl b6_route, sample_tcl),
        (cts_config b6_stages, b6_config), (cts_runner b6_stages, b6_cts_runner), (cts_audit b6_stages, b6_cts_audit),
        (post_cts_runner b6_stages, b6_post_cts_runner), (post_cts_tcl b6_stages, b6_post_cts_tcl),
        (post_cts_audit b6_stages, b6_post_cts_audit),
        (''tools/authorize_b6_phase7_detailed_route.py'', ''t0''), (sv_script b6_stages ''run_'' ''_phase7_detailed_route.sh'', ''t5''),
        (sv_script b6_stages '''' ''_phase7_detailed_route.tcl'', ''t6''), (sv_script b6_stages ''audit_'' ''_phase7_detailed_route.tcl'', ''t7''),
        (''tools/analyze_variant_residual_congestion.py'', ''t1''), (''tools/decide_b6_phase6_strict_gate.py'', ''t2''),
        (''tools/capture_openroad_stage_snapshot.py'', ''t3''), (''tools/compare_openroad_stage_snapshots.py'', ''t4'')]"

definition b6_start :: host where
  "b6_start = \<lparr>files = map_of b6_files, dirs = (\<lambda>_. False)\<rparr>"

definition b6_authorized :: host where
  "b6_authorized = write_file (under ''/r'' (av_output b6_route)) ''!B6_SINGLE_GLOBAL_ROUTE'' b6_start"

definition b6_route_files :: "(string \<times> string) list" where
  "b6_route_files = [(under ''/r'' (gv_route b6_gate), ''R''), (under ''/r'' (gv_analysis b6_gate), ''N'')]"

fun add_files :: "(string \<times> string) list \<Rightarrow> host \<Rightarrow> host" where
  "add_files [] h = h"
| "add_files ((p, b) # entries) h = add_files entries (write_file p b h)"

definition b6_routed :: host where
  "b6_routed = add_files b6_route_files b6_authorized"

definition b6_gated :: host where
  "b6_gated = write_file (under ''/r'' (gv_output b6_gate)) ''!B6_PHASE6_CTS'' b6_routed"

definition written :: "(int \<times> host) result \<Rightarrow> string \<Rightarrow> (int \<times> string option) option" where
  "written r p = (case r of Inl _ \<Rightarrow> None | Inr (code, h) \<Rightarrow> Some (code, files h p))"

lemma written_back:
  assumes "written r p = Some (c, Some b)" "\<And>code h'. r = Inr (code, h') \<Longrightarrow> \<exists>b'. h' = write_file p b' h"
  shows "r = Inr (c, write_file p b h)"
proof -
  obtain h' where r: "r = Inr (c, h')" and b: "files h' p = Some b"
    using assms(1) by (auto simp: written_def split: sum.splits prod.splits)
  with assms(2) show ?thesis by fastforce
qed

lemma b6_route_run: "route_authorization_main b6_route b6_env b6_start = Inr (0, b6_authorized)"
  unfolding b6_authorized_def
proof (rule written_back)
  show "written (route_authorization_main b6_route b6_env b6_start) (under ''/r'' (av_output b6_route)) =
      Some (0, Some ''!B6_SINGLE_GLOBAL_ROUTE'')" by code_simp
  fix code h' assume r: "route_authorization_main b6_route b6_env b6_start = Inr (code, h')"
  then show "\<exists>b'. h' = write_file (under ''/r'' (av_output b6_route)) b' b6_start"
    by (rule route_authorization_Inr) (auto simp: b6_env_def)
qed

lemma b6_gate_run: "strict_gate_main b6_gate b6_env b6_routed = Inr (0, b6_gated)"
  unfolding b6_gated_def
proof (rule written_back)
  show "written (strict_gate_main b6_gate b6_env b6_routed) (under ''/r'' (gv_output b6_gate)) =
      Some (0, Some ''!B6_PHASE6_CTS'')" by code_simp
  fix code h' assume "strict_gate_main b6_gate b6_env b6_routed = Inr (code, h')"
  from strict_gate_written [OF this] show "\<exists>b'. h' = write_file (under ''/r'' (gv_output b6_gate)) b' b6_routed"
    by (auto simp: b6_env_def)
qed

lemma b6_cts_run: "\<exists>h'. cts_authorization_main b6_stages b6_env b6_gated = Inr (0, h')"
proof -
  have "exit_code (cts_authorization_main b6_stages b6_env b6_gated) = Some 0" by code_simp
  then show ?thesis using exit_code_Some by blast
qed

lemma b6_env_now: "b6_env\<lparr>now := ''2026''\<rparr> = b6_env"
  by (simp add: b6_env_def)

lemma b6_readable: "readable b6_env"
proof -
  have "get d ''decision'' JNull = get j ''decision'' JNull \<and> get d ''authorizes'' JNull = get j ''authorizes'' JNull"
    if l: "b6_loads (b6_dumps j) = Inr d" for j d
  proof -
    have "b6_dumps j = ''?'' \<or> (\<exists>stage. get j ''decision'' JNull = Inr (JStr ''PASS'') \<and>
        get j ''authorizes'' JNull = Inr (JArr [JStr stage]) \<and> b6_dumps j = CHR ''!'' # stage)"
      by (simp add: b6_dumps_def split: sum.split json.split list.split)
    with l show ?thesis by (auto simp: b6_loads_def)
  qed
  then show ?thesis by (simp add: readable_def b6_env_def)
qed

text \<open>Files other than the decision files may appear at any time.\<close>

definition no_decision :: "string \<Rightarrow> bool" where
  "no_decision p \<longleftrightarrow> list_all (\<lambda>s. under ''/r'' (script_output s) \<noteq> p) script_keys"

lemma no_decision_known: "no_decision p \<Longrightarrow> known s \<Longrightarrow> under ''/r'' (script_output s) \<noteq> p"
  using known_key [of s] unfolding no_decision_def list_all_iff by metis

lemma add_files_step:
  assumes "list_all (\<lambda>(p, b). no_decision p) entries"
  shows "release_step b6_env h (add_files entries h)"
proof (rule release_step.outside, intro allI impI)
  fix s assume s: "known s"
  show "files (add_files entries h) (under (root b6_env) (script_output s)) = files h (under (root b6_env) (script_output s))"
    using assms
  proof (induction entries arbitrary: h)
    case (Cons entry entries)
    then show ?case using no_decision_known [OF _ s] by (cases entry) (auto simp: b6_env_def)
  qed simp
qed

lemma b6_history: "history b6_env b6_start b6_gated"
proof -
  have known: "known (Route b6_route)" "known (Gate b6_gate)" by (simp_all add: route_variants_def gate_variants_def)
  have "history b6_env b6_start b6_authorized"
    by (rule history_step [OF history_refl release_step.script [OF known(1), where t = "''2026''"]])
       (simp only: run_script.simps b6_env_now b6_route_run)
  moreover have "release_step b6_env b6_authorized b6_routed"
  proof -
    have "list_all (\<lambda>(p, b). no_decision p) b6_route_files" by code_simp
    then show ?thesis unfolding b6_routed_def by (rule add_files_step)
  qed
  moreover have "release_step b6_env b6_routed b6_gated"
    by (rule release_step.script [OF known(2), where t = "''2026''"]) (simp only: run_script.simps b6_env_now b6_gate_run)
  ultimately show ?thesis by (meson history_step)
qed

theorem release_order_witness:
  "\<exists>t1 h1 t3 h3. route_ready b6_route (b6_env\<lparr>now := t1\<rparr>) h1 \<and> history b6_env h1 h3 \<and>
     phase6_clear b6_gate (b6_env\<lparr>now := t3\<rparr>) h3 \<and> history b6_env h3 b6_gated"
proof -
  obtain h' where "cts_authorization_main b6_stages b6_env b6_gated = Inr (0, h')" using b6_cts_run by blast
  then have run: "cts_authorization_main b6_stages (b6_env\<lparr>now := ''2026''\<rparr>) b6_gated = Inr (0, h')"
    by (simp only: b6_env_now)
  have none: "files b6_start (under (root b6_env) (gv_output b6_gate)) = None"
    "files b6_start (under (root b6_env) (av_output b6_route)) = None" by code_simp+
  have chain: "(b6_stages, b6_gate, b6_route) \<in> set release_chains" by (simp add: release_chains_def)
  obtain t1 h1 h2 t3 h3 h4 where
    a: "route_ready b6_route (b6_env\<lparr>now := t1\<rparr>) h1" "route_authorization_main b6_route (b6_env\<lparr>now := t1\<rparr>) h1 = Inr (0, h2)"
      "history b6_env h2 h3" "phase6_clear b6_gate (b6_env\<lparr>now := t3\<rparr>) h3"
      "strict_gate_main b6_gate (b6_env\<lparr>now := t3\<rparr>) h3 = Inr (0, h4)" "history b6_env h4 b6_gated"
    using release_order [OF b6_readable chain none b6_history run] by blast
  have known: "known (Route b6_route)" "known (Gate b6_gate)" by (simp_all add: route_variants_def gate_variants_def)
  have "history b6_env h1 h2"
    by (rule history_step [OF history_refl release_step.script [OF known(1), where t = t1]]) (simp add: a(2))
  moreover have "history b6_env h3 h4"
    by (rule history_step [OF history_refl release_step.script [OF known(2), where t = t3]]) (simp add: a(5))
  ultimately show ?thesis using a(1,3,4,6) history_trans by blast
qed

theorem decisions_are_final_witness:
  "files b6_gated (under ''/r'' (av_output b6_route)) = Some ''!B6_SINGLE_GLOBAL_ROUTE'' \<and>
   (\<forall>r. route_authorization_main b6_route b6_env b6_gated \<noteq> Inr r)"
proof -
  have known: "known (Route b6_route)" "known (Gate b6_gate)" by (simp_all add: route_variants_def gate_variants_def)
  have "release_step b6_env b6_routed b6_gated"
    by (rule release_step.script [OF known(2), where t = "''2026''"]) (simp only: run_script.simps b6_env_now b6_gate_run)
  then have "history b6_env b6_routed b6_gated" by (rule history_step [OF history_refl])
  moreover have "files b6_routed (under (root b6_env) (script_output (Route b6_route))) = Some ''!B6_SINGLE_GLOBAL_ROUTE''"
    by code_simp
  ultimately have "files b6_gated (under (root b6_env) (script_output (Route b6_route))) = Some ''!B6_SINGLE_GLOBAL_ROUTE''"
    "\<forall>t r. run_script (Route b6_route) (b6_env\<lparr>now := t\<rparr>) b6_gated \<noteq> Inr r"
    using decisions_are_final [OF _ known(1)] by blast+
  then show ?thesis by (metis b6_env_now run_script.simps(2) script_output.simps(2) env.select_convs(6) b6_env_def)
qed

end
