(* ===== verification/Post_Route.thy ===== *)
theory Post_Route
  imports Host "HOL-Library.List_Lexorder"
begin

text \<open>
  \<open>tools/decide_wbq_post_route.py\<close>: from the manifest of the Phase 4 global route, decide
  whether the flow goes on to clock and detailed route, back to the architecture, or stops.
  \<open>realpath\<close> is \<open>Path.resolve\<close> on an absolute path and \<open>loads_sig\<close> decoding with
  \<open>utf-8-sig\<close> followed by \<open>json.loads\<close>; both are parameters.
\<close>

section \<open>Paths and expected artifacts\<close>

definition absolute :: "(string \<Rightarrow> string) \<Rightarrow> env \<Rightarrow> string \<Rightarrow> string" where
  "absolute realpath env value =
     (let path = path_str value
      in if take 1 path = ''/'' then realpath path else realpath (under (root env) path))"

fun absolute_of :: "(string \<Rightarrow> string) \<Rightarrow> env \<Rightarrow> json \<Rightarrow> string result" where
  "absolute_of realpath env (JStr s) = Inr (absolute realpath env s)"
| "absolute_of realpath env _ = Inl (TypeError ''expected str, bytes or os.PathLike object'')"

lemma absolute_of_Inr: "absolute_of realpath env v = Inr p \<longleftrightarrow> (\<exists>s. v = JStr s \<and> p = absolute realpath env s)"
  by (cases v) auto

definition SCHEMA_V1_ARTIFACT_KEYS :: "string list" where
  "SCHEMA_V1_ARTIFACT_KEYS =
     [''route_log'', ''route_guide'', ''congestion_report'', ''routed_odb'', ''routed_sdc'']"

definition SCHEMA_V2_ARTIFACT_KEYS :: "string list" where
  "SCHEMA_V2_ARTIFACT_KEYS = SCHEMA_V1_ARTIFACT_KEYS @ [''placement_manifest_at_route_launch'']"

text \<open>The version must be an integer by type, so \<open>True\<close> and \<open>1.0\<close> are no version.\<close>

fun expected_artifact_keys :: "json \<Rightarrow> string list option" where
  "expected_artifact_keys (JInt i) =
     (if i = 1 then Some SCHEMA_V1_ARTIFACT_KEYS else if i = 2 then Some SCHEMA_V2_ARTIFACT_KEYS else None)"
| "expected_artifact_keys _ = None"

text \<open>\<open>isinstance(artifacts, dict) and ... and set(artifacts) == expected\<close>\<close>

fun inventory_ok :: "json \<Rightarrow> string list option \<Rightarrow> bool" where
  "inventory_ok (JObj kvs) (Some keys) = (set (map fst kvs) = set keys)"
| "inventory_ok _ _ = False"

section \<open>Checks\<close>

definition manifest_checks :: "json \<Rightarrow> json \<Rightarrow> string list option \<Rightarrow> (string \<times> bool) list result" where
  "manifest_checks manifest artifacts expected =
     map_r (\<lambda>(name, test). and_then test (\<lambda>b. Inr (name, b)))
       [(''schema_version'', Inr (expected \<noteq> None)),
        (''top'', get_eq manifest ''top'' (JStr ''logic_die_normalization_hbm_top'')),
        (''variant'', get_eq manifest ''variant'' (JStr ''wbq_v4_control'')),
        (''same_metric_definition'', get_is_true manifest ''same_metric_definition''),
        (''placement_gate_pass'', get_is_true manifest ''placement_gate_pass''),
        (''placement_input_hashes_match'', get_is_true manifest ''placement_input_hashes_match''),
        (''clean_completion'', get_is_true manifest ''clean_completion''),
        (''artifact_inventory'', Inr (inventory_ok artifacts expected))]"

text \<open>
  One artifact: the resolved path, whether it is a non-empty file, and whether size and digest
  are the recorded ones. An entry that is no object stands for the repository root.
\<close>

definition artifact_result :: "(string \<Rightarrow> string) \<Rightarrow> env \<Rightarrow> host \<Rightarrow> json \<Rightarrow> (json \<times> bool) result" where
  "artifact_result realpath env h item =
     and_then (case item of JObj _ \<Rightarrow> and_then (get item ''path'' (JStr '''')) (absolute_of realpath env)
               | _ \<Rightarrow> Inr (root env)) (\<lambda>artifact.
       let content = (case files h artifact of Some b \<Rightarrow> if b = [] then None else Some b | None \<Rightarrow> None);
           actual_hash = (case content of Some b \<Rightarrow> JStr (sha env b) | None \<Rightarrow> JNull);
           actual_bytes = (case content of Some b \<Rightarrow> JInt (int (length b)) | None \<Rightarrow> JNull);
           match = (case item of
                      JObj kvs \<Rightarrow> content \<noteq> None \<and>
                        py_eq actual_hash (case map_of kvs ''sha256'' of Some v \<Rightarrow> v | None \<Rightarrow> JNull) \<and>
                        py_eq actual_bytes (case map_of kvs ''bytes'' of Some v \<Rightarrow> v | None \<Rightarrow> JNull)
                    | _ \<Rightarrow> False)
       in Inr (JObj [(''path'', JStr artifact), (''exists_nonempty'', JBool (content \<noteq> None)),
                     (''bytes'', actual_bytes), (''sha256'', actual_hash), (''manifest_match'', JBool match)], match))"

fun artifact_item :: "json \<Rightarrow> string \<Rightarrow> json" where
  "artifact_item (JObj kvs) name = (case map_of kvs name of Some v \<Rightarrow> v | None \<Rightarrow> JNull)"
| "artifact_item _ name = JNull"

text \<open>The loop over \<open>sorted(expected_artifact_keys)\<close>, run only on a matching inventory.\<close>

definition sorted_keys :: "string list \<Rightarrow> string list" where
  "sorted_keys keys = sort_key (map (of_char :: char \<Rightarrow> nat)) keys"

definition artifact_results ::
  "(string \<Rightarrow> string) \<Rightarrow> env \<Rightarrow> host \<Rightarrow> json \<Rightarrow> string list option \<Rightarrow> (string \<times> json \<times> bool) list result" where
  "artifact_results realpath env h artifacts expected =
     (if inventory_ok artifacts expected
      then map_r (\<lambda>name. and_then (artifact_result realpath env h (artifact_item artifacts name))
             (\<lambda>(r, match). Inr (name, r, match))) (sorted_keys (the expected))
      else Inr [])"

section \<open>Decision\<close>

definition verdicts :: "string list" where
  "verdicts = [''PASS_PF4'', ''IMPROVED_NOT_CLOSED'', ''NO_IMPROVEMENT'']"

text \<open>\<open>verdict not in {...}\<close> needs a hashable value.\<close>

fun known_verdict :: "json \<Rightarrow> bool result" where
  "known_verdict (JArr _) = Inl (TypeError ''unhashable type: list'')"
| "known_verdict (JObj _) = Inl (TypeError ''unhashable type: dict'')"
| "known_verdict v = Inr (\<exists>s \<in> set verdicts. py_eq v (JStr s))"

definition choose_decision :: "json \<Rightarrow> bool \<Rightarrow> json \<Rightarrow> string result" where
  "choose_decision manifest evidence_valid verdict =
     and_then (and_also (Inr evidence_valid) (known_verdict verdict)) (\<lambda>usable.
       if \<not> usable then Inr ''STOP_INVALID_RUN''
       else if py_eq verdict (JStr ''PASS_PF4'')
       then and_then (get manifest ''current_wbq'' (JObj [])) (\<lambda>current.
            and_then (all_of [get_eq current ''residual_congestion'' (JInt 0), get_eq current ''overflow_edges'' (JInt 0),
                              get_is_true current ''all_skipped_nets_allowlisted'']) (\<lambda>ok.
              Inr (if ok then ''PHASE6_CLOCK_AND_DETAILED_ROUTE'' else ''STOP_INVALID_RUN'')))
       else Inr ''PHASE5_HIERARCHICAL_ARCHITECTURE'')"

definition decide :: "(string \<Rightarrow> string) \<Rightarrow> (string \<Rightarrow> json result) \<Rightarrow> env \<Rightarrow> host \<Rightarrow> string \<Rightarrow> json result" where
  "decide realpath loads_sig env h manifest_path =
     (let path = absolute realpath env manifest_path in
      and_then (read_bytes h path) (\<lambda>text.
      and_then (loads_sig text) (\<lambda>manifest.
      and_then (get manifest ''artifacts'' (JObj [])) (\<lambda>artifacts.
      and_then (get manifest ''schema_version'' JNull) (\<lambda>schema_version.
      let expected = expected_artifact_keys schema_version in
      and_then (manifest_checks manifest artifacts expected) (\<lambda>checks.
      and_then (artifact_results realpath env h artifacts expected) (\<lambda>results.
      let all_checks = checks @ map (\<lambda>(name, _, match). (''artifact_'' @ name, match)) results;
          evidence_valid = list_all snd all_checks in
      and_then (get manifest ''verdict'' JNull) (\<lambda>verdict.
      and_then (choose_decision manifest evidence_valid verdict) (\<lambda>decision.
      and_then (sha256 env h path) (\<lambda>digest.
        Inr (JObj [(''schema_version'', JInt 1), (''source_manifest'', JStr path),
          (''source_manifest_sha256'', digest), (''source_schema_version'', schema_version),
          (''verdict'', verdict), (''evidence_valid'', JBool evidence_valid),
          (''checks'', JObj (map (\<lambda>(name, ok). (name, JBool ok)) all_checks)),
          (''artifact_results'', JObj (map (\<lambda>(name, r, _). (name, r)) results)),
          (''decision'', JStr decision),
          (''claim_boundary'', JStr ''Decision gate only; it does not itself establish CTS, detailed-route, GDS, or manufacturing signoff.'')])))))))))))"

text \<open>
  \<open>main\<close>: \<open>OSError\<close> and \<open>ValueError\<close> (JSON and decoding errors and the scripts' own
  subclasses among them) end with exit code 2 and no output file; other exceptions escape, as
  do those of creating the output directory and writing the output.
\<close>

fun caught :: "exn \<Rightarrow> bool" where
  "caught (FileNotFoundError _) = True"
| "caught (IsADirectoryError _) = True"
| "caught (NotADirectoryError _) = True"
| "caught (FileExistsError _) = True"
| "caught (ValueError _) = True"
| "caught (JSONDecodeError _) = True"
| "caught (FloorplanValidationError _) = True"
| "caught (PhysicalFeasibilityError _) = True"
| "caught _ = False"

definition decision_of :: "json \<Rightarrow> json" where
  "decision_of document = (case get document ''decision'' JNull of Inr v \<Rightarrow> v | Inl _ \<Rightarrow> JNull)"

definition write_output :: "(string \<Rightarrow> string) \<Rightarrow> env \<Rightarrow> string option \<Rightarrow> json \<Rightarrow> host \<Rightarrow> host result" where
  "write_output realpath env output document h =
     (case output of
        None \<Rightarrow> Inr h
      | Some value \<Rightarrow>
          if value = [] then Inr h
          else let p = absolute realpath env value in
            and_then (make_dirs (parent_of p) h) (write_text p (dumps env document)))"

definition post_route_main ::
  "(string \<Rightarrow> string) \<Rightarrow> (string \<Rightarrow> json result) \<Rightarrow> env \<Rightarrow> host \<Rightarrow> string \<Rightarrow> string option \<Rightarrow> (int \<times> host) result" where
  "post_route_main realpath loads_sig env h manifest output =
     (case decide realpath loads_sig env h manifest of
        Inl e \<Rightarrow> if caught e then Inr (2, h) else Inl e
      | Inr document \<Rightarrow>
          and_then (write_output realpath env output document h) (\<lambda>h'.
            Inr (if decision_of document = JStr ''STOP_INVALID_RUN'' then 2 else 0, h')))"

end
