(* ===== verification/Post_Route_Props.thy ===== *)
theory Post_Route_Props
  imports Post_Route
begin

text \<open>
  The Phase 4 decision is a classification of the evidence: what each outcome means, and that
  anything short of complete, untampered evidence stops the flow.
\<close>

section \<open>Evidence\<close>

definition holds :: "bool result \<Rightarrow> bool" where
  "holds t \<longleftrightarrow> t = Inr True"

definition artifact_sound :: "(string \<Rightarrow> string) \<Rightarrow> env \<Rightarrow> host \<Rightarrow> json \<Rightarrow> bool" where
  "artifact_sound realpath env h item \<longleftrightarrow>
     (\<exists>kvs p b. item = JObj kvs \<and> get item ''path'' (JStr '''') = Inr (JStr p) \<and>
        files h (absolute realpath env p) = Some b \<and> b \<noteq> [] \<and>
        holds (get_eq item ''sha256'' (JStr (sha env b))) \<and> holds (get_eq item ''bytes'' (JInt (int (length b)))))"

definition route_evidence :: "(string \<Rightarrow> string) \<Rightarrow> env \<Rightarrow> host \<Rightarrow> json \<Rightarrow> bool" where
  "route_evidence realpath env h manifest \<longleftrightarrow>
     holds (get_eq manifest ''top'' (JStr ''logic_die_normalization_hbm_top'')) \<and>
     holds (get_eq manifest ''variant'' (JStr ''wbq_v4_control'')) \<and>
     (\<forall>flag \<in> {''same_metric_definition'', ''placement_gate_pass'', ''placement_input_hashes_match'', ''clean_completion''}.
        holds (get_is_true manifest flag)) \<and>
     (\<exists>version keys arts. get manifest ''schema_version'' JNull = Inr version \<and>
        expected_artifact_keys version = Some keys \<and> get manifest ''artifacts'' (JObj []) = Inr (JObj arts) \<and>
        fst ` set arts = set keys \<and>
        (\<forall>name \<in> set keys. \<exists>item. map_of arts name = Some item \<and> artifact_sound realpath env h item))"

definition route_closed :: "json \<Rightarrow> bool" where
  "route_closed manifest \<longleftrightarrow>
     (\<exists>current. get manifest ''current_wbq'' (JObj []) = Inr current \<and>
        holds (get_eq current ''residual_congestion'' (JInt 0)) \<and> holds (get_eq current ''overflow_edges'' (JInt 0)) \<and>
        holds (get_is_true current ''all_skipped_nets_allowlisted''))"

definition classify :: "bool \<Rightarrow> bool \<Rightarrow> json \<Rightarrow> string" where
  "classify sound clean verdict =
     (if sound \<and> verdict = JStr ''PASS_PF4'' \<and> clean then ''PHASE6_CLOCK_AND_DETAILED_ROUTE''
      else if sound \<and> verdict \<in> {JStr ''IMPROVED_NOT_CLOSED'', JStr ''NO_IMPROVEMENT''}
      then ''PHASE5_HIERARCHICAL_ARCHITECTURE'' else ''STOP_INVALID_RUN'')"

section \<open>The code computes it\<close>

lemma choose_decision_Inr:
  assumes "choose_decision manifest valid verdict = Inr d"
  shows "d = classify valid (route_closed manifest) verdict"
proof (cases "valid \<and> (\<exists>s \<in> set verdicts. verdict = JStr s)")
  case True
  then obtain s where s: "valid" "verdict = JStr s" "s \<in> set verdicts" by blast
  show ?thesis
  proof (cases "s = ''PASS_PF4''")
    case True
    with s assms obtain current ok where c: "get manifest ''current_wbq'' (JObj []) = Inr current"
        "all_of [get_eq current ''residual_congestion'' (JInt 0), get_eq current ''overflow_edges'' (JInt 0),
                 get_is_true current ''all_skipped_nets_allowlisted''] = Inr ok"
        "d = (if ok then ''PHASE6_CLOCK_AND_DETAILED_ROUTE'' else ''STOP_INVALID_RUN'')"
      by (auto simp: choose_decision_def and_then_eq_Inr and_also_def verdicts_def simp del: all_of.simps split: if_splits)
    have "ok \<longleftrightarrow> route_closed manifest"
      using c(1,2) all_of_True [of "[get_eq current ''residual_congestion'' (JInt 0), get_eq current ''overflow_edges'' (JInt 0),
                 get_is_true current ''all_skipped_nets_allowlisted'']"]
      by (auto simp: route_closed_def holds_def simp del: all_of.simps)
    with c(3) s True show ?thesis by (simp add: classify_def)
  next
    case False
    with s assms show ?thesis
      by (auto simp: choose_decision_def and_also_def classify_def verdicts_def)
  qed
next
  case False
  then show ?thesis
    using assms
    by (cases verdict) (auto simp: choose_decision_def and_also_def classify_def verdicts_def split: if_splits)
qed

lemma artifact_result_match:
  assumes "artifact_result realpath env h item = Inr (r, match)"
  shows "match \<longleftrightarrow> artifact_sound realpath env h item"
proof (cases "\<exists>kvs. item = JObj kvs")
  case True
  then obtain kvs where item: "item = JObj kvs" by blast
  from assms have "\<exists>a. and_then (get item ''path'' (JStr '''')) (absolute_of realpath env) = Inr a"
    unfolding artifact_result_def item json.case and_then_eq_Inr by blast
  then obtain p where p: "get item ''path'' (JStr '''') = Inr (JStr p)"
    by (auto simp: and_then_eq_Inr absolute_of_Inr)
  let ?content = "case files h (absolute realpath env p) of Some b \<Rightarrow> if b = [] then None else Some b | None \<Rightarrow> None"
  have "match \<longleftrightarrow> ?content \<noteq> None \<and>
      py_eq (case ?content of Some b \<Rightarrow> JStr (sha env b) | None \<Rightarrow> JNull)
        (case map_of kvs ''sha256'' of Some v \<Rightarrow> v | None \<Rightarrow> JNull) \<and>
      py_eq (case ?content of Some b \<Rightarrow> JInt (int (length b)) | None \<Rightarrow> JNull)
        (case map_of kvs ''bytes'' of Some v \<Rightarrow> v | None \<Rightarrow> JNull)"
    using assms p by (simp add: artifact_result_def item Let_def)
  then show ?thesis
    using p
    by (auto simp: artifact_sound_def item holds_def get_eq_def py_eq_int py_eq_from_int split: option.splits if_splits)
qed (use assms in \<open>auto simp: artifact_result_def artifact_sound_def Let_def split: json.splits\<close>)

lemma map_r_all:
  assumes "map_r f xs = Inr ys" "\<And>x y. f x = Inr y \<Longrightarrow> P y \<longleftrightarrow> Q x"
  shows "list_all P ys \<longleftrightarrow> (\<forall>x \<in> set xs. Q x)"
  using assms(1)
proof (induction xs arbitrary: ys)
  case (Cons x xs)
  then obtain y more where "f x = Inr y" "map_r f xs = Inr more" "ys = y # more"
    by (auto simp: and_then_eq_Inr)
  with Cons.IH assms(2) show ?case by auto
qed simp

lemma sorted_keys_set [simp]: "set (sorted_keys keys) = set keys"
  by (simp add: sorted_keys_def)

lemma artifact_results_sound:
  assumes "artifact_results realpath env h artifacts expected = Inr results" "inventory_ok artifacts expected"
  shows "list_all (\<lambda>(name, r, match). match) results \<longleftrightarrow>
    (\<forall>name \<in> set (the expected). artifact_sound realpath env h (artifact_item artifacts name))"
proof -
  have "map_r (\<lambda>name. and_then (artifact_result realpath env h (artifact_item artifacts name))
      (\<lambda>(r, match). Inr (name, r, match))) (sorted_keys (the expected)) = Inr results"
    using assms by (simp add: artifact_results_def)
  from map_r_all [OF this, of "\<lambda>(name, r, match). match" "\<lambda>name. artifact_sound realpath env h (artifact_item artifacts name)"]
  show ?thesis by (auto simp: and_then_eq_Inr artifact_result_match)
qed

lemma manifest_checks_all:
  assumes "manifest_checks manifest artifacts expected = Inr checks"
  shows "list_all snd checks \<longleftrightarrow> expected \<noteq> None \<and> inventory_ok artifacts expected \<and>
    holds (get_eq manifest ''top'' (JStr ''logic_die_normalization_hbm_top'')) \<and>
    holds (get_eq manifest ''variant'' (JStr ''wbq_v4_control'')) \<and>
    (\<forall>flag \<in> {''same_metric_definition'', ''placement_gate_pass'', ''placement_input_hashes_match'', ''clean_completion''}.
       holds (get_is_true manifest flag))"
  using assms by (auto simp: manifest_checks_def and_then_eq_Inr holds_def)

lemma evidence_valid_iff:
  assumes "get manifest ''artifacts'' (JObj []) = Inr artifacts" "get manifest ''schema_version'' JNull = Inr version"
    and "manifest_checks manifest artifacts (expected_artifact_keys version) = Inr checks"
    and "artifact_results realpath env h artifacts (expected_artifact_keys version) = Inr results"
  shows "list_all snd (checks @ map (\<lambda>(name, _, match). (''artifact_'' @ name, match)) results) \<longleftrightarrow>
    route_evidence realpath env h manifest"
proof (cases "inventory_ok artifacts (expected_artifact_keys version)")
  case True
  then obtain arts keys where a: "artifacts = JObj arts" "expected_artifact_keys version = Some keys"
      "fst ` set arts = set keys"
    by (cases artifacts; cases "expected_artifact_keys version") auto
  have item: "artifact_item artifacts name = the (map_of arts name) \<and> map_of arts name \<noteq> None" if "name \<in> set keys" for name
    using that a by (auto simp: map_of_eq_None_iff split: option.split)
  have "(\<forall>name \<in> set keys. artifact_sound realpath env h (artifact_item artifacts name)) \<longleftrightarrow>
      (\<forall>name \<in> set keys. \<exists>item. map_of arts name = Some item \<and> artifact_sound realpath env h item)"
    using item by fastforce
  moreover have "list_all snd (map (\<lambda>(name, _, match). (''artifact_'' @ name, match)) results) \<longleftrightarrow>
      list_all (\<lambda>(name, r, match). match) results"
    by (induction results) auto
  ultimately show ?thesis
    using artifact_results_sound [OF assms(4) True] manifest_checks_all [OF assms(3)] True a assms(1,2)
    by (auto simp: route_evidence_def)
next
  case False
  have "\<not> route_evidence realpath env h manifest"
    using False assms(1,2) by (auto simp: route_evidence_def)
  with False manifest_checks_all [OF assms(3)] show ?thesis by simp
qed

lemma decide_Inr:
  assumes "decide realpath loads_sig env h manifest_path = Inr document"
  obtains bytes manifest verdict where
    "files h (absolute realpath env manifest_path) = Some bytes" "loads_sig bytes = Inr manifest"
    "get manifest ''verdict'' JNull = Inr verdict"
    "get document ''decision'' JNull =
       Inr (JStr (classify (route_evidence realpath env h manifest) (route_closed manifest) verdict))"
    "get document ''evidence_valid'' JNull = Inr (JBool (route_evidence realpath env h manifest))"
    "get document ''verdict'' JNull = Inr verdict" "\<exists>kvs. document = JObj kvs"
proof -
  from assms obtain bytes manifest artifacts version checks results verdict decision digest where
    r: "read_bytes h (absolute realpath env manifest_path) = Inr bytes" "loads_sig bytes = Inr manifest"
      "get manifest ''artifacts'' (JObj []) = Inr artifacts" "get manifest ''schema_version'' JNull = Inr version"
      "manifest_checks manifest artifacts (expected_artifact_keys version) = Inr checks"
      "artifact_results realpath env h artifacts (expected_artifact_keys version) = Inr results"
      "get manifest ''verdict'' JNull = Inr verdict"
    and d: "choose_decision manifest (list_all snd (checks @ map (\<lambda>(name, _, match). (''artifact_'' @ name, match)) results)) verdict = Inr decision"
    and doc: "get document ''decision'' JNull = Inr (JStr decision)" "get document ''verdict'' JNull = Inr verdict"
      "get document ''evidence_valid'' JNull =
         Inr (JBool (list_all snd (checks @ map (\<lambda>(name, _, match). (''artifact_'' @ name, match)) results)))"
      "\<exists>kvs. document = JObj kvs"
    unfolding decide_def Let_def and_then_eq_Inr by (auto simp del: list_all_append)
  note v = evidence_valid_iff [OF r(3-6)]
  show ?thesis
    by (rule that [of bytes manifest verdict])
      (use r d doc choose_decision_Inr [OF d [unfolded v]] v in \<open>simp_all add: read_bytes_Inr\<close>)
qed

section \<open>Properties\<close>

text \<open>
  C1: the decision classifies the evidence. PHASE6 exactly when the manifest is complete and
  untampered, its verdict is PASS_PF4 and no congestion is left; PHASE5 exactly when it is
  complete and untampered and the verdict is one of the two unclosed ones; otherwise STOP.
\<close>

theorem post_route_classifies:
  assumes "decide realpath loads_sig env h manifest_path = Inr document"
  shows "\<exists>bytes manifest verdict. files h (absolute realpath env manifest_path) = Some bytes \<and>
    loads_sig bytes = Inr manifest \<and> get manifest ''verdict'' JNull = Inr verdict \<and>
    get document ''decision'' JNull =
      Inr (JStr (if route_evidence realpath env h manifest \<and> verdict = JStr ''PASS_PF4'' \<and> route_closed manifest
                 then ''PHASE6_CLOCK_AND_DETAILED_ROUTE''
                 else if route_evidence realpath env h manifest \<and>
                   verdict \<in> {JStr ''IMPROVED_NOT_CLOSED'', JStr ''NO_IMPROVEMENT''}
                 then ''PHASE5_HIERARCHICAL_ARCHITECTURE'' else ''STOP_INVALID_RUN''))"
  by (rule decide_Inr [OF assms]) (auto simp: classify_def)

text \<open>
  C35: the script fails closed. A manifest that does not exist (or is a directory), or whose
  content is no JSON or no UTF-8, gives exit code 2 and leaves the file system as it was. A run
  that ends has exit code 0 or 2; it is 0 only on a manifest that was read, is complete and
  untampered and got a decision other than STOP, and 2 on every STOP.
\<close>

theorem post_route_fails_closed:
  "let p = absolute realpath env manifest_path; run = post_route_main realpath loads_sig env h manifest_path output in
    (files h p = None \<longrightarrow> run = Inr (2, h)) \<and>
    (\<forall>b s. files h p = Some b \<and> loads_sig b \<in> {Inl (JSONDecodeError s), Inl (ValueError s)} \<longrightarrow> run = Inr (2, h)) \<and>
    (\<forall>code h'. run = Inr (code, h') \<longrightarrow>
       code = 0 \<and> (\<exists>b m document decision. files h p = Some b \<and> loads_sig b = Inr m \<and> route_evidence realpath env h m \<and>
         decide realpath loads_sig env h manifest_path = Inr document \<and>
         get document ''decision'' JNull = Inr (JStr decision) \<and> decision \<noteq> ''STOP_INVALID_RUN'') \<or>
       code = 2 \<and> (\<forall>document. decide realpath loads_sig env h manifest_path = Inr document \<longrightarrow>
         get document ''decision'' JNull = Inr (JStr ''STOP_INVALID_RUN'')))"
proof -
  let ?p = "absolute realpath env manifest_path" and ?run = "post_route_main realpath loads_sig env h manifest_path output"
  show ?thesis
    unfolding Let_def
  proof (intro conjI allI impI)
  assume "files h ?p = None"
  then have "\<exists>e. decide realpath loads_sig env h manifest_path = Inl e \<and> caught e"
    by (simp add: decide_def Let_def read_bytes_def)
  then show "?run = Inr (2, h)" by (auto simp: post_route_main_def)
next
  fix b s assume "files h ?p = Some b \<and> loads_sig b \<in> {Inl (JSONDecodeError s), Inl (ValueError s)}"
  then have "\<exists>e. decide realpath loads_sig env h manifest_path = Inl e \<and> caught e"
    by (auto simp: decide_def Let_def read_bytes_def)
  then show "?run = Inr (2, h)" by (auto simp: post_route_main_def)
next
  fix code h' assume run: "?run = Inr (code, h')"
  show "code = 0 \<and> (\<exists>b m document decision. files h ?p = Some b \<and> loads_sig b = Inr m \<and> route_evidence realpath env h m \<and>
      decide realpath loads_sig env h manifest_path = Inr document \<and>
      get document ''decision'' JNull = Inr (JStr decision) \<and> decision \<noteq> ''STOP_INVALID_RUN'') \<or>
    code = 2 \<and> (\<forall>document. decide realpath loads_sig env h manifest_path = Inr document \<longrightarrow>
      get document ''decision'' JNull = Inr (JStr ''STOP_INVALID_RUN''))"
  proof (cases "decide realpath loads_sig env h manifest_path")
    case (Inl e)
    with run show ?thesis by (auto simp: post_route_main_def split: if_splits)
  next
    case (Inr document)
    show ?thesis
    proof (rule decide_Inr [OF Inr])
      fix b m verdict
      assume r: "files h (absolute realpath env manifest_path) = Some b" "loads_sig b = Inr m"
        and d: "get document ''decision'' JNull =
            Inr (JStr (classify (route_evidence realpath env h m) (route_closed m) verdict))"
      have "code = (if classify (route_evidence realpath env h m) (route_closed m) verdict = ''STOP_INVALID_RUN'' then 2 else 0)"
        using run Inr d by (auto simp: post_route_main_def decision_of_def and_then_eq_Inr)
      with Inr r d show ?thesis by (auto simp: classify_def split: if_splits)
    qed
  qed
qed
qed

section \<open>Witnesses\<close>

definition pf4_manifest :: json where
  "pf4_manifest = JObj
     [(''schema_version'', JInt 1), (''top'', JStr ''logic_die_normalization_hbm_top''), (''variant'', JStr ''wbq_v4_control''),
      (''same_metric_definition'', JBool True), (''placement_gate_pass'', JBool True),
      (''placement_input_hashes_match'', JBool True), (''clean_completion'', JBool True), (''verdict'', JStr ''PASS_PF4''),
      (''current_wbq'', JObj [(''residual_congestion'', JInt 0), (''overflow_edges'', JInt 0),
         (''all_skipped_nets_allowlisted'', JBool True)]),
      (''artifacts'', JObj (map (\<lambda>name. (name, JObj [(''path'', JStr (''out/'' @ name)), (''sha256'', JStr name),
         (''bytes'', JInt (int (length name)))])) SCHEMA_V1_ARTIFACT_KEYS))]"

definition pf4_loads :: "string \<Rightarrow> json result" where
  "pf4_loads b = (if b = ''M'' then Inr pf4_manifest else Inl (JSONDecodeError b))"

definition pf4_env :: env where
  "pf4_env = \<lparr>sha = (\<lambda>b. b), decode = (\<lambda>b. Inr b), loads = pf4_loads, dumps = (\<lambda>_. ''D''), now = ''2026'', root = ''/r''\<rparr>"

definition pf4_host :: host where
  "pf4_host = \<lparr>files = map_of ((''/r/m.json'', ''M'') # map (\<lambda>name. (''/r/out/'' @ name, name)) SCHEMA_V1_ARTIFACT_KEYS),
     dirs = (\<lambda>_. False)\<rparr>"

definition pf4_decision :: "json result" where
  "pf4_decision = decide (\<lambda>p. p) pf4_loads pf4_env pf4_host ''m.json''"

lemma pf4_decided:
  "and_then pf4_decision (\<lambda>d. get d ''decision'' JNull) = Inr (JStr ''PHASE6_CLOCK_AND_DETAILED_ROUTE'')"
  by code_simp

lemma pf4_manifest_at: "files pf4_host (absolute (\<lambda>p. p) pf4_env ''m.json'') = Some ''M''"
  by code_simp

theorem post_route_classifies_witness:
  "route_evidence (\<lambda>p. p) pf4_env pf4_host pf4_manifest \<and> route_closed pf4_manifest"
proof -
  obtain document where d: "decide (\<lambda>p. p) pf4_loads pf4_env pf4_host ''m.json'' = Inr document"
      "get document ''decision'' JNull = Inr (JStr ''PHASE6_CLOCK_AND_DETAILED_ROUTE'')"
    using pf4_decided by (auto simp: and_then_eq_Inr pf4_decision_def)
  from post_route_classifies [OF d(1)] d(2) pf4_manifest_at show ?thesis
    by (auto simp: pf4_loads_def split: if_splits)
qed

theorem post_route_fails_closed_witness:
  "post_route_main (\<lambda>p. p) pf4_loads pf4_env pf4_host ''absent.json'' (Some ''d.json'') = Inr (2, pf4_host) \<and>
   post_route_main (\<lambda>p. p) pf4_loads pf4_env pf4_host ''out/routed_odb'' (Some ''d.json'') = Inr (2, pf4_host) \<and>
   (\<exists>h' m. post_route_main (\<lambda>p. p) pf4_loads pf4_env pf4_host ''m.json'' (Some ''d.json'') = Inr (0, h') \<and>
      route_evidence (\<lambda>p. p) pf4_env pf4_host m)"
proof (intro conjI)
  note closed = post_route_fails_closed [of "\<lambda>p. p" pf4_env _ pf4_loads pf4_host "Some ''d.json''", unfolded Let_def]
  have "files pf4_host (absolute (\<lambda>p. p) pf4_env ''absent.json'') = None" by code_simp
  then show "post_route_main (\<lambda>p. p) pf4_loads pf4_env pf4_host ''absent.json'' (Some ''d.json'') = Inr (2, pf4_host)"
    using closed by blast
  have "files pf4_host (absolute (\<lambda>p. p) pf4_env ''out/routed_odb'') = Some ''routed_odb''"
    "pf4_loads ''routed_odb'' = Inl (JSONDecodeError ''routed_odb'')" by code_simp+
  then show "post_route_main (\<lambda>p. p) pf4_loads pf4_env pf4_host ''out/routed_odb'' (Some ''d.json'') = Inr (2, pf4_host)"
    using closed by blast
  have "map_sum (\<lambda>e. e) fst (post_route_main (\<lambda>p. p) pf4_loads pf4_env pf4_host ''m.json'' (Some ''d.json'')) = Inr 0"
    by code_simp
  then obtain h' where run: "post_route_main (\<lambda>p. p) pf4_loads pf4_env pf4_host ''m.json'' (Some ''d.json'') = Inr (0, h')"
    by (cases "post_route_main (\<lambda>p. p) pf4_loads pf4_env pf4_host ''m.json'' (Some ''d.json'')") auto
  then have "\<exists>m. route_evidence (\<lambda>p. p) pf4_env pf4_host m"
    using closed [of "''m.json''"] by fastforce
  with run show "\<exists>h' m. post_route_main (\<lambda>p. p) pf4_loads pf4_env pf4_host ''m.json'' (Some ''d.json'') = Inr (0, h') \<and>
      route_evidence (\<lambda>p. p) pf4_env pf4_host m" by blast
qed

end
