(* ===== verification/Transition.thy ===== *)
theory Transition
  imports Post_Route_Props
begin

text \<open>
  \<open>tools/run_wbq_post_route_transition.py\<close>: run the evidence collector and the decision
  gate as subprocesses, and keep a status document that says at every moment which stage runs,
  passed, failed or waits. A subprocess is a parameter: a function from its command and the
  file system to an exit code and a file system.
\<close>

section \<open>Objects as the code mutates them\<close>

text \<open>\<open>d[k] = v\<close>, \<open>d.setdefault(k, v)\<close> and \<open>d.pop(k, None)\<close> on the items of a dictionary.\<close>

fun put :: "string \<Rightarrow> json \<Rightarrow> (string \<times> json) list \<Rightarrow> (string \<times> json) list" where
  "put k v [] = [(k, v)]"
| "put k v ((l, w) # kvs) = (if l = k then (k, v) # kvs else (l, w) # put k v kvs)"

definition put_default :: "string \<Rightarrow> json \<Rightarrow> (string \<times> json) list \<Rightarrow> (string \<times> json) list" where
  "put_default k v kvs = (if k \<in> fst ` set kvs then kvs else kvs @ [(k, v)])"

definition without :: "string \<Rightarrow> (string \<times> json) list \<Rightarrow> (string \<times> json) list" where
  "without k kvs = filter (\<lambda>kv. fst kv \<noteq> k) kvs"

lemma map_of_put [simp]: "map_of (put k v kvs) = (map_of kvs)(k \<mapsto> v)"
  by (induction k v kvs rule: put.induct) auto

section \<open>The machine\<close>

text \<open>
  \<open>tl_repr\<close> and \<open>tl_describe\<close> are the texts of \<open>repr\<close> and of an exception,
  \<open>tl_python\<close> is \<open>sys.executable\<close>. The parent directory of the status file exists.
\<close>

record tools =
  tl_run :: "string list \<Rightarrow> host \<Rightarrow> int \<times> host"
  tl_loads_sig :: "string \<Rightarrow> json result"
  tl_repr :: "json \<Rightarrow> string"
  tl_describe :: "exn \<Rightarrow> string"
  tl_python :: string

fun show_nat :: "nat \<Rightarrow> string" where
  "show_nat n = (if n < 10 then [char_of (48 + n)] else show_nat (n div 10) @ [char_of (48 + n mod 10)])"

declare show_nat.simps [simp del]

definition show_int :: "int \<Rightarrow> string" where
  "show_int i = (if i < 0 then ''-'' @ show_nat (nat (- i)) else show_nat (nat i))"

section \<open>The status document\<close>

definition PIPELINE :: string where "PIPELINE = ''WBQ_POST_ROUTE_TRANSITION''"

definition load_status :: "tools \<Rightarrow> host \<Rightarrow> string \<Rightarrow> (string \<times> json) list result" where
  "load_status t h path =
     (if \<not> is_file h path
      then Inr [(''schema_version'', JInt 1), (''pipeline'', JStr PIPELINE), (''stages'', JObj [])]
      else and_then (case and_then (read_bytes h path) (tl_loads_sig t) of
                       Inr v \<Rightarrow> Inr v
                     | Inl e \<Rightarrow> if caught e then Inr (JObj []) else Inl e) (\<lambda>document.
           Inr (put_default ''stages'' (JObj []) (put_default ''pipeline'' (JStr PIPELINE)
             (put_default ''schema_version'' (JInt 1) (case document of JObj kvs \<Rightarrow> kvs | _ \<Rightarrow> []))))))"

text \<open>The document is written beside the status file and moved over it.\<close>

definition write_status :: "env \<Rightarrow> string \<Rightarrow> (string \<times> json) list \<Rightarrow> host \<Rightarrow> (string \<times> json) list \<times> host" where
  "write_status env path document h =
     (let document' = put ''updated_at_utc'' (JStr (now env)) document
      in (document', h\<lparr>files := (files h)(path @ ''.tmp'' := None, path := Some (dumps env (JObj document')))\<rparr>))"

fun setdefault_entry :: "json \<Rightarrow> string \<Rightarrow> (string \<times> json) list result" where
  "setdefault_entry (JObj stages) stage =
     (case map_of stages stage of
        None \<Rightarrow> Inr []
      | Some (JObj entry) \<Rightarrow> Inr entry
      | Some _ \<Rightarrow> Inl (TypeError ''entry does not support item assignment''))"
| "setdefault_entry _ stage = Inl (AttributeError ''setdefault'')"

definition stage_entry ::
  "env \<Rightarrow> string \<Rightarrow> string \<Rightarrow> string list option \<Rightarrow> string option \<Rightarrow> (string \<times> json) list \<Rightarrow> (string \<times> json) list" where
  "stage_entry env status next_stage command detail entry =
     (let e1 = (if status = ''RUNNING''
                then without ''finished_at_utc'' (put ''started_at_utc'' (JStr (now env)) entry)
                else put ''finished_at_utc'' (JStr (now env)) entry);
          e2 = put ''next_stage'' (JStr next_stage) (put ''status'' (JStr status) e1);
          e3 = (case command of None \<Rightarrow> e2 | Some c \<Rightarrow> put ''command'' (JArr (map JStr c)) e2)
      in (case detail of None \<Rightarrow> e3 | Some d \<Rightarrow> put ''detail'' (JStr d) e3))"

fun object_items :: "json \<Rightarrow> (string \<times> json) list" where
  "object_items (JObj kvs) = kvs"
| "object_items _ = []"

definition set_stage ::
  "tools \<Rightarrow> env \<Rightarrow> string \<Rightarrow> string \<Rightarrow> string \<Rightarrow> string \<Rightarrow> string list option \<Rightarrow> string option \<Rightarrow> host \<Rightarrow>
     ((string \<times> json) list \<times> host) result" where
  "set_stage t env path stage status next_stage command detail h =
     and_then (load_status t h path) (\<lambda>document.
     let stages = the (map_of document ''stages'') in
     and_then (setdefault_entry stages stage) (\<lambda>entry.
       let stages' = put stage (JObj (stage_entry env status next_stage command detail entry)) (object_items stages);
           document' = put ''next_stage'' (JStr next_stage) (put ''current_stage'' (JStr stage)
             (put ''status'' (JStr status) (put ''stages'' (JObj stages') document)))
       in Inr (write_status env path document' h)))"

section \<open>The pipeline\<close>

definition run_command ::
  "tools \<Rightarrow> env \<Rightarrow> string \<Rightarrow> string \<Rightarrow> string list \<Rightarrow> string \<Rightarrow> host \<Rightarrow> (bool \<times> host) result" where
  "run_command t env path stage command next_stage h =
     and_then (set_stage t env path stage ''RUNNING'' next_stage (Some command) None h) (\<lambda>(_, h1).
       let (returncode, h2) = tl_run t command h1 in
       if returncode \<noteq> 0
       then and_then (set_stage t env path stage ''FAIL'' ''STOP'' (Some command)
              (Some (''exit_code='' @ show_int returncode)) h2) (\<lambda>(_, h3). Inr (False, h3))
       else and_then (set_stage t env path stage ''PASS'' next_stage (Some command) (Some ''exit_code=0'') h2)
              (\<lambda>(_, h3). Inr (True, h3)))"

definition mark_waiting_approval ::
  "tools \<Rightarrow> env \<Rightarrow> string \<Rightarrow> string \<Rightarrow> string \<Rightarrow> host \<Rightarrow> host result" where
  "mark_waiting_approval t env path stage reason h =
     and_then (set_stage t env path stage ''WAITING_APPROVAL'' (''RESUME_'' @ stage @ ''_AFTER_APPROVAL'')
       None (Some reason) h) (\<lambda>(_, h1). Inr h1)"

definition collector_command :: "tools \<Rightarrow> env \<Rightarrow> string list" where
  "collector_command t env = [tl_python t, under (root env) ''tools/collect_wbq_global_route_evidence.py'']"

definition decision_command :: "tools \<Rightarrow> env \<Rightarrow> string \<Rightarrow> string list" where
  "decision_command t env decision_path =
     [tl_python t, under (root env) ''tools/decide_wbq_post_route.py'', ''--output'', decision_path]"

definition COLLECT :: string where "COLLECT = ''collect_global_route_evidence''"
definition DECIDE :: string where "DECIDE = ''decide_post_route''"

definition next_phases :: "string list" where
  "next_phases = [''PHASE5_HIERARCHICAL_ARCHITECTURE'', ''PHASE6_CLOCK_AND_DETAILED_ROUTE'']"

fun selectable :: "json \<Rightarrow> bool result" where
  "selectable (JArr _) = Inl (TypeError ''unhashable type: list'')"
| "selectable (JObj _) = Inl (TypeError ''unhashable type: dict'')"
| "selectable v = Inr (\<exists>s \<in> set next_phases. py_eq v (JStr s))"

text \<open>The part after both subprocesses: read the decision and record what it selects.\<close>

definition read_decision :: "tools \<Rightarrow> env \<Rightarrow> string \<Rightarrow> string \<Rightarrow> host \<Rightarrow> (int \<times> host) result" where
  "read_decision t env path decision_path h =
     (let command = Some (decision_command t env decision_path);
          stop = (\<lambda>detail. and_then (set_stage t env path DECIDE ''FAIL'' ''STOP'' command (Some detail) h)
                    (\<lambda>(_, h1). Inr (1, h1)))
      in case and_then (read_bytes h decision_path) (tl_loads_sig t) of
           Inl e \<Rightarrow> if caught e then stop (''invalid decision output: '' @ tl_describe t e) else Inl e
         | Inr decision \<Rightarrow>
             and_then (get decision ''decision'' JNull) (\<lambda>selected.
             and_then (get decision ''evidence_valid'' JNull) (\<lambda>valid.
             and_then (and_also (Inr (valid = JBool True)) (selectable selected)) (\<lambda>ok.
               if \<not> ok
               then stop (''decision='' @ tl_repr t selected @ '' evidence_valid='' @ tl_repr t valid)
               else case selected of
                 JStr phase \<Rightarrow>
                   and_then (set_stage t env path DECIDE ''PASS'' phase command (Some (''decision='' @ phase)) h)
                     (\<lambda>(document, h1).
                     and_then (get decision ''verdict'' JNull) (\<lambda>verdict.
                       let (_, h2) = write_status env path
                         (put ''decision_path'' (JStr decision_path) (put ''verdict'' verdict
                           (put ''decision'' selected document))) h1
                       in Inr (0, h2)))
               | _ \<Rightarrow> Inl (TypeError ''unreachable: a selectable decision is a string'')))))"

definition run_pipeline :: "tools \<Rightarrow> env \<Rightarrow> string \<Rightarrow> string \<Rightarrow> host \<Rightarrow> (int \<times> host) result" where
  "run_pipeline t env path decision_path h =
     and_then (run_command t env path COLLECT (collector_command t env) DECIDE h) (\<lambda>(collected, h1).
       if \<not> collected then Inr (1, h1)
       else and_then (run_command t env path DECIDE (decision_command t env decision_path) ''READ_DECISION'' h1)
         (\<lambda>(decided, h2). if \<not> decided then Inr (1, h2) else read_decision t env path decision_path h2))"

definition transition_main ::
  "(string \<Rightarrow> string) \<Rightarrow> tools \<Rightarrow> env \<Rightarrow> string \<Rightarrow> string \<Rightarrow> string option \<Rightarrow> string \<Rightarrow> host \<Rightarrow> (int \<times> host) result" where
  "transition_main realpath t env status decision waiting reason h =
     (let path = absolute realpath env status in
      case waiting of
        Some stage \<Rightarrow>
          if stage \<noteq> [] then and_then (mark_waiting_approval t env path stage reason h) (\<lambda>h1. Inr (0, h1))
          else run_pipeline t env path (absolute realpath env decision) h
      | None \<Rightarrow> run_pipeline t env path (absolute realpath env decision) h)"

end
