(* ===== verification/Transition_Props.thy ===== *)
theory Transition_Props
  imports Transition
begin

text \<open>
  What the transition script leaves behind: the recorded status is the outcome, PASS needs both
  subprocesses and valid evidence, and a failed collector keeps the decision from running.
\<close>

section \<open>One status change\<close>

definition records :: "env \<Rightarrow> string \<Rightarrow> host \<Rightarrow> string \<Rightarrow> string \<Rightarrow> string \<Rightarrow> bool" where
  "records env path h stage status next_stage \<longleftrightarrow>
     (\<exists>document. files h path = Some (dumps env (JObj document)) \<and>
        map_of document ''current_stage'' = Some (JStr stage) \<and>
        map_of document ''status'' = Some (JStr status) \<and> map_of document ''next_stage'' = Some (JStr next_stage))"

lemma write_status_sel:
  "map_of (fst (write_status env path document h)) = (map_of document)(''updated_at_utc'' \<mapsto> JStr (now env))"
  "files (snd (write_status env path document h)) path =
     Some (dumps env (JObj (fst (write_status env path document h))))"
  "p \<noteq> path \<Longrightarrow> p \<noteq> path @ ''.tmp'' \<Longrightarrow> files (snd (write_status env path document h)) p = files h p"
  by (simp_all add: write_status_def Let_def)

lemma set_stage_Inr:
  assumes "set_stage t env path stage status next_stage command detail h = Inr (document, h')"
  shows "records env path h' stage status next_stage"
    and "files h' path = Some (dumps env (JObj document))"
    and "map_of document ''current_stage'' = Some (JStr stage)"
    and "map_of document ''status'' = Some (JStr status)"
    and "map_of document ''next_stage'' = Some (JStr next_stage)"
    and "p \<noteq> path \<Longrightarrow> p \<noteq> path @ ''.tmp'' \<Longrightarrow> files h' p = files h p"
proof -
  from assms obtain d where d: "write_status env path (put ''next_stage'' (JStr next_stage)
      (put ''current_stage'' (JStr stage) (put ''status'' (JStr status) d))) h = (document, h')"
    by (auto simp: set_stage_def and_then_eq_Inr Let_def)
  note w = write_status_sel [where env = env and path = path and h = h and document = "put ''next_stage'' (JStr next_stage)
      (put ''current_stage'' (JStr stage) (put ''status'' (JStr status) d))", unfolded d]
  from w show "files h' path = Some (dumps env (JObj document))"
    "map_of document ''current_stage'' = Some (JStr stage)" "map_of document ''status'' = Some (JStr status)"
    "map_of document ''next_stage'' = Some (JStr next_stage)"
    "p \<noteq> path \<Longrightarrow> p \<noteq> path @ ''.tmp'' \<Longrightarrow> files h' p = files h p" by auto
  then show "records env path h' stage status next_stage" by (auto simp: records_def)
qed

lemma show_int_0: "show_int 0 = ''0''"
  by code_simp

text \<open>
  One subprocess step of the pipeline that passed: RUNNING is recorded in \<open>h\<close>, the command runs
  on the resulting \<open>h1\<close>, exits 0 and leaves \<open>h2\<close>, and PASS is recorded there, which gives \<open>h3\<close>.
\<close>

definition step_ran ::
  "tools \<Rightarrow> env \<Rightarrow> string \<Rightarrow> string \<Rightarrow> string list \<Rightarrow> string \<Rightarrow> host \<Rightarrow> host \<Rightarrow> host \<Rightarrow> host \<Rightarrow> bool" where
  "step_ran t env path stage command next_stage h h1 h2 h3 \<longleftrightarrow>
     (\<exists>d d'. set_stage t env path stage ''RUNNING'' next_stage (Some command) None h = Inr (d, h1) \<and>
        tl_run t command h1 = (0, h2) \<and>
        set_stage t env path stage ''PASS'' next_stage (Some command) (Some ''exit_code=0'') h2 = Inr (d', h3))"

lemma step_ran_runs: "step_ran t env path stage command next_stage h h1 h2 h3 \<Longrightarrow> tl_run t command h1 = (0, h2)"
  by (auto simp: step_ran_def)

lemma run_command_Inr:
  assumes "run_command t env path stage command next_stage h = Inr (ok, h')"
  obtains h1 code h2 where "tl_run t command h1 = (code, h2)" "ok \<longleftrightarrow> code = 0"
    "records env path h1 stage ''RUNNING'' next_stage"
    "records env path h' stage (if ok then ''PASS'' else ''FAIL'') (if ok then next_stage else ''STOP'')"
    "\<And>p. p \<noteq> path \<Longrightarrow> p \<noteq> path @ ''.tmp'' \<Longrightarrow> files h1 p = files h p \<and> files h' p = files h2 p"
    "ok \<Longrightarrow> step_ran t env path stage command next_stage h h1 h2 h'"
proof -
  from assms obtain document h1 where 1: "set_stage t env path stage ''RUNNING'' next_stage (Some command) None h = Inr (document, h1)"
    by (auto simp: run_command_def and_then_eq_Inr)
  obtain code h2 where 2: "tl_run t command h1 = (code, h2)" by fastforce
  from assms 1 2 obtain document' where 3: "set_stage t env path stage (if ok then ''PASS'' else ''FAIL'')
      (if ok then next_stage else ''STOP'') (Some command) (Some (''exit_code='' @ show_int code)) h2 = Inr (document', h')"
      "ok \<longleftrightarrow> code = 0"
    by (cases "code = 0") (auto simp: run_command_def and_then_eq_Inr show_int_0)
  have "step_ran t env path stage command next_stage h h1 h2 h'" if ok
    using 1 2 3 that by (auto simp: step_ran_def show_int_0)
  then show ?thesis
    by (intro that [OF 2 3(2)]) (use set_stage_Inr [OF 1] set_stage_Inr [OF 3(1)] in auto)
qed

section \<open>Reading the decision\<close>

lemma selectable_Inr_True: "selectable v = Inr True \<longleftrightarrow> (\<exists>phase \<in> set next_phases. v = JStr phase)"
  by (cases v) auto

definition decided :: "tools \<Rightarrow> host \<Rightarrow> string \<Rightarrow> string \<Rightarrow> json \<Rightarrow> bool" where
  "decided t h decision_path phase decision \<longleftrightarrow>
     (\<exists>bytes. files h decision_path = Some bytes \<and> tl_loads_sig t bytes = Inr decision \<and>
        get decision ''decision'' JNull = Inr (JStr phase) \<and> get decision ''evidence_valid'' JNull = Inr (JBool True) \<and>
        phase \<in> set next_phases)"

lemma read_decision_Inr:
  assumes "read_decision t env path decision_path h = Inr (code, h')"
  shows "code = 1 \<and> records env path h' DECIDE ''FAIL'' ''STOP'' \<or>
    code = 0 \<and> (\<exists>phase decision. decided t h decision_path phase decision \<and> records env path h' DECIDE ''PASS'' phase)"
proof (cases "and_then (read_bytes h decision_path) (tl_loads_sig t)")
  case (Inl e)
  with assms show ?thesis
    by (auto simp: read_decision_def and_then_eq_Inr Let_def dest: set_stage_Inr(1) split: if_splits)
next
  case (Inr decision)
  with assms obtain selected valid ok where g: "get decision ''decision'' JNull = Inr selected"
      "get decision ''evidence_valid'' JNull = Inr valid"
      "and_also (Inr (valid = JBool True)) (selectable selected) = Inr ok"
    by (auto simp: read_decision_def and_then_eq_Inr Let_def)
  show ?thesis
  proof (cases ok)
    case False
    with assms Inr g show ?thesis
      by (auto simp: read_decision_def and_then_eq_Inr Let_def dest: set_stage_Inr(1))
  next
    case True
    with g(3) obtain phase where p: "selected = JStr phase" "phase \<in> set next_phases" "valid = JBool True"
      by (auto simp: and_also_def selectable_Inr_True split: if_splits)
    with assms Inr g True obtain document h1 verdict where s:
        "set_stage t env path DECIDE ''PASS'' phase (Some (decision_command t env decision_path))
           (Some (''decision='' @ phase)) h = Inr (document, h1)"
        "h' = snd (write_status env path (put ''decision_path'' (JStr decision_path) (put ''verdict'' verdict
           (put ''decision'' selected document))) h1)" "code = 0"
      by (auto simp: read_decision_def and_then_eq_Inr Let_def case_prod_beta)
    have "records env path h' DECIDE ''PASS'' phase"
      using set_stage_Inr(3-5) [OF s(1)] by (auto simp: records_def s(2) write_status_sel)
    moreover have "decided t h decision_path phase decision"
      using Inr g p by (auto simp: decided_def and_then_eq_Inr read_bytes_Inr)
    ultimately show ?thesis using s(3) by blast
  qed
qed

section \<open>The status document stays readable\<close>

fun all_objects :: "json \<Rightarrow> bool" where
  "all_objects (JObj kvs) = list_all (\<lambda>kv. case snd kv of JObj _ \<Rightarrow> True | _ \<Rightarrow> False) kvs"
| "all_objects _ = False"

definition stages_ok :: "(string \<times> json) list \<Rightarrow> bool" where
  "stages_ok kvs = (case map_of kvs ''stages'' of None \<Rightarrow> True | Some v \<Rightarrow> all_objects v)"

text \<open>The status file is absent, unreadable as JSON, or a document whose stages are objects.\<close>

definition status_ok :: "tools \<Rightarrow> string \<Rightarrow> host \<Rightarrow> bool" where
  "status_ok t path h =
     (case files h path of None \<Rightarrow> True | Some b \<Rightarrow>
        (case tl_loads_sig t b of Inl e \<Rightarrow> caught e | Inr (JObj kvs) \<Rightarrow> stages_ok kvs | Inr _ \<Rightarrow> True))"

definition reads_back :: "tools \<Rightarrow> env \<Rightarrow> bool" where
  "reads_back t env \<longleftrightarrow>
     (\<forall>kvs. stages_ok kvs \<longrightarrow> (\<exists>kvs'. tl_loads_sig t (dumps env (JObj kvs)) = Inr (JObj kvs') \<and> stages_ok kvs'))"

lemma map_of_put_default:
  "map_of (put_default k v kvs) = (case map_of kvs k of None \<Rightarrow> (map_of kvs)(k \<mapsto> v) | Some _ \<Rightarrow> map_of kvs)"
proof (cases "map_of kvs k")
  case None
  then have "k \<notin> fst ` set kvs" by (simp add: map_of_eq_None_iff)
  with None show ?thesis by (auto simp: put_default_def fun_eq_iff map_add_def split: option.split)
next
  case (Some w)
  then have "k \<in> fst ` set kvs" by (metis domI dom_map_of_conv_image_fst)
  with Some show ?thesis by (simp add: put_default_def)
qed

lemma load_status_total:
  assumes "status_ok t path h"
  shows "\<exists>document stages. load_status t h path = Inr document \<and>
    map_of document ''stages'' = Some (JObj stages) \<and> all_objects (JObj stages)"
proof (cases "files h path")
  case None
  then show ?thesis by (auto simp: load_status_def is_file_def)
next
  case (Some b)
  define kvs where "kvs = (case tl_loads_sig t b of Inr (JObj kvs) \<Rightarrow> kvs | _ \<Rightarrow> [])"
  have "load_status t h path = Inr (put_default ''stages'' (JObj []) (put_default ''pipeline'' (JStr PIPELINE)
             (put_default ''schema_version'' (JInt 1) kvs)))" and ok: "stages_ok kvs"
    using Some assms
    by (auto simp: load_status_def is_file_def read_bytes_def kvs_def status_ok_def stages_ok_def
        split: sum.splits json.splits)
  then show ?thesis
    by (auto simp: map_of_put_default stages_ok_def split: option.splits elim!: all_objects.elims)
qed

lemma all_objects_put:
  assumes "all_objects (JObj kvs)"
  shows "all_objects (JObj (put k (JObj e) kvs))"
  using assms by (induction k "JObj e" kvs rule: put.induct) auto

lemma all_objects_lookup:
  "all_objects (JObj kvs) \<Longrightarrow> map_of kvs k = Some v \<Longrightarrow> \<exists>e. v = JObj e"
  by (induction kvs) (auto split: if_splits json.splits)

lemma set_stage_total:
  assumes "status_ok t path h" "reads_back t env"
  shows "\<exists>document h'. set_stage t env path stage status next_stage command detail h = Inr (document, h') \<and>
    status_ok t path h'"
proof -
  from load_status_total [OF assms(1)] obtain document stages where
    d: "load_status t h path = Inr document" "map_of document ''stages'' = Some (JObj stages)" "all_objects (JObj stages)"
    by blast
  obtain entry where e: "setdefault_entry (JObj stages) stage = Inr entry"
    using all_objects_lookup [OF d(3), of stage] by (cases "map_of stages stage") auto
  define document' where "document' = put ''next_stage'' (JStr next_stage) (put ''current_stage'' (JStr stage)
    (put ''status'' (JStr status) (put ''stages''
      (JObj (put stage (JObj (stage_entry env status next_stage command detail entry)) stages)) document)))"
  have s: "set_stage t env path stage status next_stage command detail h = Inr (write_status env path document' h)"
    using d e by (simp add: set_stage_def document'_def)
  have "stages_ok (fst (write_status env path document' h))"
    using all_objects_put [OF d(3)] by (simp add: stages_ok_def write_status_sel document'_def del: all_objects.simps)
  with assms(2) obtain kvs where "stages_ok kvs"
      "tl_loads_sig t (dumps env (JObj (fst (write_status env path document' h)))) = Inr (JObj kvs)"
    unfolding reads_back_def by blast
  then have "status_ok t path (snd (write_status env path document' h))"
    by (simp add: status_ok_def write_status_sel)
  with s show ?thesis by (metis prod.collapse)
qed

definition keeps_status :: "tools \<Rightarrow> string \<Rightarrow> string list \<Rightarrow> bool" where
  "keeps_status t path command \<longleftrightarrow> (\<forall>h. status_ok t path h \<longrightarrow> status_ok t path (snd (tl_run t command h)))"

lemma run_command_total:
  assumes "status_ok t path h" "reads_back t env" "keeps_status t path command"
  shows "\<exists>passed h'. run_command t env path stage command next_stage h = Inr (passed, h') \<and> status_ok t path h'"
proof -
  from set_stage_total [OF assms(1,2)] obtain document h1 where
    1: "set_stage t env path stage ''RUNNING'' next_stage (Some command) None h = Inr (document, h1)" "status_ok t path h1"
    by blast
  obtain code h2 where 2: "tl_run t command h1 = (code, h2)" by fastforce
  with 1 assms(3) have 3: "status_ok t path h2" by (force simp: keeps_status_def)
  obtain d1 h3 d2 h4 where
    "set_stage t env path stage ''FAIL'' ''STOP'' (Some command) (Some (''exit_code='' @ show_int code)) h2 = Inr (d1, h3)"
    "set_stage t env path stage ''PASS'' next_stage (Some command) (Some ''exit_code=0'') h2 = Inr (d2, h4)"
    "status_ok t path h3" "status_ok t path h4"
    using set_stage_total [OF 3 assms(2)] by metis
  with 1 2 show ?thesis
    unfolding run_command_def by (cases "code = 0") auto
qed

section \<open>The pipeline\<close>

lemma run_pipeline_Inr:
  assumes "run_pipeline t env path decision_path h = Inr (code, h')"
  obtains (failed) stage where "code = 1" "stage \<in> {COLLECT, DECIDE}" "records env path h' stage ''FAIL'' ''STOP''"
  | (passed) h1 h2 ha h3 h4 h5 phase decision where "code = 0"
      "step_ran t env path COLLECT (collector_command t env) DECIDE h h1 h2 ha"
      "step_ran t env path DECIDE (decision_command t env decision_path) ''READ_DECISION'' ha h3 h4 h5"
      "\<And>p. p \<noteq> path \<Longrightarrow> p \<noteq> path @ ''.tmp'' \<Longrightarrow> files h1 p = files h p \<and> files h3 p = files h2 p \<and> files h5 p = files h4 p"
      "decided t h5 decision_path phase decision" "records env path h' DECIDE ''PASS'' phase"
proof -
  from assms obtain ok ha where a: "run_command t env path COLLECT (collector_command t env) DECIDE h = Inr (ok, ha)"
    by (auto simp: run_pipeline_def and_then_eq_Inr)
  show ?thesis
  proof (rule run_command_Inr [OF a])
    fix h1 c h2 assume c: "tl_run t (collector_command t env) h1 = (c, h2)" "ok \<longleftrightarrow> c = 0"
      "records env path ha COLLECT (if ok then ''PASS'' else ''FAIL'') (if ok then DECIDE else ''STOP'')"
      "\<And>p. p \<noteq> path \<Longrightarrow> p \<noteq> path @ ''.tmp'' \<Longrightarrow> files h1 p = files h p \<and> files ha p = files h2 p"
      "ok \<Longrightarrow> step_ran t env path COLLECT (collector_command t env) DECIDE h h1 h2 ha"
    show ?thesis
    proof (cases ok)
      case False
      with assms a have "code = 1" "h' = ha" by (simp_all add: run_pipeline_def)
      with c(3) False show ?thesis by (intro failed [of COLLECT]) simp_all
    next
      case True
      with assms a obtain ok' hb where
        b: "run_command t env path DECIDE (decision_command t env decision_path) ''READ_DECISION'' ha = Inr (ok', hb)"
        by (auto simp: run_pipeline_def and_then_eq_Inr)
      show ?thesis
      proof (rule run_command_Inr [OF b])
        fix h3 c' h4 assume c': "tl_run t (decision_command t env decision_path) h3 = (c', h4)" "ok' \<longleftrightarrow> c' = 0"
          "records env path hb DECIDE (if ok' then ''PASS'' else ''FAIL'') (if ok' then ''READ_DECISION'' else ''STOP'')"
          "\<And>p. p \<noteq> path \<Longrightarrow> p \<noteq> path @ ''.tmp'' \<Longrightarrow> files h3 p = files ha p \<and> files hb p = files h4 p"
          "ok' \<Longrightarrow> step_ran t env path DECIDE (decision_command t env decision_path) ''READ_DECISION'' ha h3 h4 hb"
        show ?thesis
        proof (cases ok')
          case False
          with assms a b True have "code = 1" "h' = hb" by (simp_all add: run_pipeline_def)
          with c'(3) False show ?thesis by (intro failed [of DECIDE]) simp_all
        next
          case t': True
          with assms a b True have "read_decision t env path decision_path hb = Inr (code, h')"
            by (auto simp: run_pipeline_def)
          from read_decision_Inr [OF this] show ?thesis
          proof (elim disjE conjE exE)
            assume "code = 1" "records env path h' DECIDE ''FAIL'' ''STOP''"
            then show ?thesis by (intro failed [of DECIDE]) simp_all
          next
            fix phase decision
            assume p: "code = 0" "decided t hb decision_path phase decision" "records env path h' DECIDE ''PASS'' phase"
            note runs = c(5) [OF True] c'(5) [OF t']
            have "files h1 p = files h p \<and> files h3 p = files h2 p \<and> files hb p = files h4 p"
              if "p \<noteq> path" "p \<noteq> path @ ''.tmp''" for p
              using c(4) [OF that] c'(4) [OF that] by simp
            from passed [OF p(1) runs this p(2,3)] show ?thesis .
          qed
        qed
      qed
    qed
  qed
qed

lemma set_stage_run [simp]: "set_stage (t\<lparr>tl_run := f\<rparr>) = set_stage t"
  by (simp add: set_stage_def load_status_def fun_eq_iff)

lemma commands_differ: "collector_command t env \<noteq> decision_command t env decision_path"
  by (simp add: collector_command_def decision_command_def)

lemma run_command_fails:
  assumes "fst (tl_run t command h1) \<noteq> 0" "set_stage t env path stage ''RUNNING'' next_stage (Some command) None h = Inr (d, h1)"
    and "run_command t env path stage command next_stage h = Inr (ok, h')"
  shows "\<not> ok"
  using assms by (auto simp: run_command_def and_then_eq_Inr split: prod.splits if_splits)

text \<open>The decision script as the subprocess: an exception that escapes it ends it with exit status 1.\<close>

definition decision_tool ::
  "(string \<Rightarrow> string) \<Rightarrow> tools \<Rightarrow> env \<Rightarrow> string \<Rightarrow> string \<Rightarrow> host \<Rightarrow> int \<times> host" where
  "decision_tool realpath t env manifest decision_path h =
     (case post_route_main realpath (tl_loads_sig t) env h manifest (Some decision_path) of
        Inr r \<Rightarrow> r | Inl _ \<Rightarrow> (1, h))"

lemma decision_tool_0:
  assumes "decision_tool realpath t env manifest decision_path h = (0, h')" "absolute realpath env decision_path = decision_path" "decision_path \<noteq> []"
  obtains document where "decide realpath (tl_loads_sig t) env h manifest = Inr document"
    "files h' decision_path = Some (dumps env document)"
proof (cases "decide realpath (tl_loads_sig t) env h manifest")
  case (Inl e)
  with assms(1) show ?thesis by (auto simp: decision_tool_def post_route_main_def split: if_splits)
next
  case (Inr document)
  with assms have "write_output realpath env (Some decision_path) document h = Inr h'"
    by (auto simp: decision_tool_def post_route_main_def and_then_def split: sum.splits if_splits)
  with assms(2,3) have "files h' decision_path = Some (dumps env document)"
    by (auto simp: write_output_def and_then_eq_Inr write_text_def write_file_def Let_def split: if_splits)
  with Inr show ?thesis by (rule that)
qed

definition readable_decision :: "tools \<Rightarrow> string \<Rightarrow> bool" where
  "readable_decision t decision_path \<longleftrightarrow>
     (\<forall>h. case and_then (read_bytes h decision_path) (tl_loads_sig t) of
        Inl e \<Rightarrow> caught e
      | Inr decision \<Rightarrow> \<exists>kvs. decision = JObj kvs \<and>
          (\<forall>v. map_of kvs ''decision'' = Some v \<longrightarrow> (\<exists>s. v = JStr s)))"

lemma read_decision_total:
  assumes "status_ok t path h" "reads_back t env" "readable_decision t decision_path"
  shows "\<exists>code h'. read_decision t env path decision_path h = Inr (code, h')"
proof -
  have total: "\<exists>d h'. set_stage t env path DECIDE status next_stage command detail h = Inr (d, h')" for status next_stage command detail
    using set_stage_total [OF assms(1,2)] by blast
  show ?thesis
  proof (cases "and_then (read_bytes h decision_path) (tl_loads_sig t)")
    case (Inl e)
    with assms(3) have "caught e" by (auto simp: readable_decision_def dest!: spec [of _ h])
    obtain d h' where "set_stage t env path DECIDE ''FAIL'' ''STOP'' (Some (decision_command t env decision_path))
        (Some (''invalid decision output: '' @ tl_describe t e)) h = Inr (d, h')"
      using total by blast
    with Inl \<open>caught e\<close> show ?thesis by (simp add: read_decision_def)
  next
    case (Inr decision)
    with assms(3) obtain kvs where d: "decision = JObj kvs" "\<And>v. map_of kvs ''decision'' = Some v \<Longrightarrow> \<exists>s. v = JStr s"
      by (auto simp: readable_decision_def dest!: spec [of _ h])
    define field where "field k = (case map_of kvs k of None \<Rightarrow> JNull | Some v \<Rightarrow> v)" for k
    have g: "get decision k JNull = Inr (field k)" for k
      by (simp add: d(1) field_def split: option.split)
    define ok where "ok \<longleftrightarrow> field ''evidence_valid'' = JBool True \<and> (\<exists>s \<in> set next_phases. field ''decision'' = JStr s)"
    have "field ''decision'' = JNull \<or> (\<exists>s. field ''decision'' = JStr s)"
      using d(2) by (auto simp: field_def split: option.split)
    then have ok: "and_also (Inr (field ''evidence_valid'' = JBool True)) (selectable (field ''decision'')) = Inr ok"
        "ok \<longrightarrow> (\<exists>s. field ''decision'' = JStr s)"
      by (auto simp: ok_def and_also_def)
    obtain d1 h1 where s1: "set_stage t env path DECIDE ''FAIL'' ''STOP'' (Some (decision_command t env decision_path))
        (Some (''decision='' @ tl_repr t (field ''decision'') @ '' evidence_valid='' @ tl_repr t (field ''evidence_valid''))) h =
        Inr (d1, h1)"
      using total by blast
    show ?thesis
    proof (cases ok)
      case False
      with Inr s1 ok(1) show ?thesis by (simp add: read_decision_def g)
    next
      case True
      with ok(2) obtain phase where p: "field ''decision'' = JStr phase" by blast
      obtain d2 h2 where s2: "set_stage t env path DECIDE ''PASS'' phase (Some (decision_command t env decision_path))
          (Some (''decision='' @ phase)) h = Inr (d2, h2)"
        using total by blast
      from Inr s2 ok(1) True p show ?thesis
        by (simp add: read_decision_def g case_prod_beta)
    qed
  qed
qed

section \<open>Properties\<close>

text \<open>
  The exit code and the status document agree. Exit 1 leaves the stage that failed with
  status FAIL and next stage STOP; exit 0 leaves the decision stage with status PASS and one of
  the two phases as the next stage, chosen by a decision file that states valid evidence, after
  both subprocesses exited 0.
\<close>

theorem transition_records_outcome:
  assumes "run_pipeline t env path decision_path h = Inr (code, h')"
  shows "code = 1 \<and> (\<exists>stage \<in> {COLLECT, DECIDE}. records env path h' stage ''FAIL'' ''STOP'') \<or>
    code = 0 \<and> (\<exists>phase decision h1 h2 h3 h4 h5.
      tl_run t (collector_command t env) h1 = (0, h2) \<and>
      tl_run t (decision_command t env decision_path) h3 = (0, h4) \<and>
      decided t h5 decision_path phase decision \<and> records env path h' DECIDE ''PASS'' phase)"
  by (rule run_pipeline_Inr [OF assms]) (blast dest: step_ran_runs)+

text \<open>
  A failed collector keeps the decision from running: then the outcome does not depend on
  what the decision command would have done.
\<close>

theorem collector_failure_stops:
  assumes "\<And>h1. fst (tl_run t (collector_command t env) h1) \<noteq> 0"
  shows "run_pipeline t env path decision_path h =
    run_pipeline (t\<lparr>tl_run := (tl_run t)(decision_command t env decision_path := f)\<rparr>) env path decision_path h"
proof -
  let ?t = "t\<lparr>tl_run := (tl_run t)(decision_command t env decision_path := f)\<rparr>"
  have c: "collector_command ?t env = collector_command t env"
    by (simp add: collector_command_def)
  have same: "run_command ?t env path COLLECT (collector_command t env) DECIDE h =
      run_command t env path COLLECT (collector_command t env) DECIDE h"
    unfolding run_command_def set_stage_run by (simp add: commands_differ)
  have "\<not> ok" if "run_command t env path COLLECT (collector_command t env) DECIDE h = Inr (ok, h')" for ok h'
    using run_command_Inr [OF that] assms by (metis fst_conv)
  then show ?thesis
    unfolding run_pipeline_def c same
    by (cases "run_command t env path COLLECT (collector_command t env) DECIDE h") auto
qed

text \<open>
  C2: the transition over the decision script. A pipeline that passes has run the collector and
  then the decision script, and the manifest the decision script found in the file system it
  was started on is complete and untampered: apart from the status file that is the file system
  the collector left. PHASE6 is recorded as the next stage exactly for the verdict PASS_PF4 of
  that manifest, with no congestion left, and PHASE5 for the two other verdicts.
\<close>

theorem transition_selects_phase:
  assumes "\<And>h1. tl_run t (decision_command t env decision_path) h1 = decision_tool realpath t env manifest decision_path h1"
    and "\<And>h1 document. decide realpath (tl_loads_sig t) env h1 manifest = Inr document \<Longrightarrow>
           \<exists>d. tl_loads_sig t (dumps env document) = Inr d \<and>
             (\<forall>k \<in> {''decision'', ''evidence_valid''}. get d k JNull = get document k JNull)"
    and "absolute realpath env decision_path = decision_path" "decision_path \<notin> {[], path, path @ ''.tmp''}"
    and "run_pipeline t env path decision_path h = Inr (0, h')"
  shows "\<exists>h1 h2 h3 h4 h5 h6 bytes m verdict phase.
    step_ran t env path COLLECT (collector_command t env) DECIDE h h1 h2 h3 \<and>
    step_ran t env path DECIDE (decision_command t env decision_path) ''READ_DECISION'' h3 h4 h5 h6 \<and>
    (\<forall>p. p \<notin> {path, path @ ''.tmp''} \<longrightarrow> files h4 p = files h2 p) \<and>
    files h4 (absolute realpath env manifest) = Some bytes \<and> tl_loads_sig t bytes = Inr m \<and>
    get m ''verdict'' JNull = Inr verdict \<and> route_evidence realpath env h4 m \<and>
    records env path h' DECIDE ''PASS'' phase \<and>
    (phase = ''PHASE6_CLOCK_AND_DETAILED_ROUTE'' \<and> verdict = JStr ''PASS_PF4'' \<and> route_closed m \<or>
     phase = ''PHASE5_HIERARCHICAL_ARCHITECTURE'' \<and> verdict \<in> {JStr ''IMPROVED_NOT_CLOSED'', JStr ''NO_IMPROVEMENT''})"
proof (rule run_pipeline_Inr [OF assms(5)])
  fix h1 h2 ha h3 h4 h5 phase decision
  assume s: "step_ran t env path COLLECT (collector_command t env) DECIDE h h1 h2 ha"
      "step_ran t env path DECIDE (decision_command t env decision_path) ''READ_DECISION'' ha h3 h4 h5"
    and f: "\<And>p. p \<noteq> path \<Longrightarrow> p \<noteq> path @ ''.tmp'' \<Longrightarrow> files h1 p = files h p \<and> files h3 p = files h2 p \<and> files h5 p = files h4 p"
    and d: "decided t h5 decision_path phase decision" "records env path h' DECIDE ''PASS'' phase"
  from step_ran_runs [OF s(2)] assms(1) have "decision_tool realpath t env manifest decision_path h3 = (0, h4)" by simp
  from decision_tool_0 [OF this assms(3)] assms(4) obtain document where
    doc: "decide realpath (tl_loads_sig t) env h3 manifest = Inr document" "files h4 decision_path = Some (dumps env document)"
    by auto
  have "get decision k JNull = get document k JNull" if "k \<in> {''decision'', ''evidence_valid''}" for k
    using that d(1) doc(2) f [of decision_path] assms(4) assms(2) [OF doc(1)] by (auto simp: decided_def)
  with d(1) have p: "get document ''decision'' JNull = Inr (JStr phase)"
      "get document ''evidence_valid'' JNull = Inr (JBool True)" "phase \<in> set next_phases"
    by (auto simp: decided_def)
  show ?thesis
  proof (rule decide_Inr [OF doc(1)])
    fix bytes m verdict
    assume m: "files h3 (absolute realpath env manifest) = Some bytes" "tl_loads_sig t bytes = Inr m"
      "get m ''verdict'' JNull = Inr verdict"
      and c: "get document ''decision'' JNull = Inr (JStr (classify (route_evidence realpath env h3 m) (route_closed m) verdict))"
    from p(1) c have phase: "phase = classify (route_evidence realpath env h3 m) (route_closed m) verdict" by simp
    with p(3) have "route_evidence realpath env h3 m \<and>
        (phase = ''PHASE6_CLOCK_AND_DETAILED_ROUTE'' \<and> verdict = JStr ''PASS_PF4'' \<and> route_closed m \<or>
         phase = ''PHASE5_HIERARCHICAL_ARCHITECTURE'' \<and> verdict \<in> {JStr ''IMPROVED_NOT_CLOSED'', JStr ''NO_IMPROVEMENT''})"
      unfolding next_phases_def classify_def by (auto split: if_splits)
    moreover have "\<forall>p. p \<notin> {path, path @ ''.tmp''} \<longrightarrow> files h3 p = files h2 p" using f by simp
    ultimately show ?thesis using s m d(2) by blast
  qed
qed simp

text \<open>
  The pipeline always ends with an exit code. A status file that is missing or holds no JSON
  is replaced and never blocks a run, whatever the subprocesses return and whatever the decision
  file holds, provided the documents the script writes can be read back.
\<close>

theorem transition_returns:
  assumes "status_ok t path h" "reads_back t env" "readable_decision t decision_path"
    and "keeps_status t path (collector_command t env)" "keeps_status t path (decision_command t env decision_path)"
  shows "\<exists>code h'. run_pipeline t env path decision_path h = Inr (code, h')"
proof -
  from run_command_total [OF assms(1,2,4)] obtain ok h1 where
    1: "run_command t env path COLLECT (collector_command t env) DECIDE h = Inr (ok, h1)" "status_ok t path h1" by blast
  from run_command_total [OF 1(2) assms(2,5)] obtain ok' h2 where
    2: "run_command t env path DECIDE (decision_command t env decision_path) ''READ_DECISION'' h1 = Inr (ok', h2)"
      "status_ok t path h2" by blast
  from read_decision_total [OF 2(2) assms(2,3)] obtain code h3 where
    "read_decision t env path decision_path h2 = Inr (code, h3)" by blast
  with 1 2 show ?thesis by (cases ok; cases ok') (simp_all add: run_pipeline_def)
qed

section \<open>Witnesses\<close>

text \<open>
  The decision script on the sound manifest as the decision subprocess. A written document is
  represented by its decision and the validity of its evidence, which is all the script reads.
\<close>

definition pt_dumps :: "json \<Rightarrow> string" where
  "pt_dumps v = (case get v ''decision'' JNull of Inr (JStr d) \<Rightarrow>
     (if get v ''evidence_valid'' JNull = Inr (JBool True) then CHR ''t'' else CHR ''f'') # d | _ \<Rightarrow> ''S'')"

definition pt_loads :: "string \<Rightarrow> json result" where
  "pt_loads b = (case b of
     [] \<Rightarrow> Inl (JSONDecodeError b)
   | c # d \<Rightarrow> if b = ''M'' then Inr pf4_manifest else if b = ''S'' then Inr (JObj [])
             else Inr (JObj [(''decision'', JStr d), (''evidence_valid'', JBool (c = CHR ''t''))]))"

definition pt_env :: env where
  "pt_env = pf4_env\<lparr>dumps := pt_dumps\<rparr>"

definition pt_base :: tools where
  "pt_base = \<lparr>tl_run = (\<lambda>_ h. (0, h)), tl_loads_sig = pt_loads, tl_repr = (\<lambda>_. ''?''),
     tl_describe = (\<lambda>_. ''?''), tl_python = ''python''\<rparr>"

definition pt_tools :: "int \<Rightarrow> tools" where
  "pt_tools code = pt_base\<lparr>tl_run := (\<lambda>command h.
     if command = decision_command pt_base pt_env ''/r/d'' then decision_tool (\<lambda>p. p) pt_base pt_env ''m.json'' ''/r/d'' h
     else (code, h))\<rparr>"

lemma pt_runs: "map_sum (\<lambda>e. e) fst (run_pipeline (pt_tools 0) pt_env ''/r/s'' ''/r/d'' pf4_host) = Inr 0"
  by code_simp

lemma pt_pipeline: obtains h' where "run_pipeline (pt_tools 0) pt_env ''/r/s'' ''/r/d'' pf4_host = Inr (0, h')"
  using pt_runs by (cases "run_pipeline (pt_tools 0) pt_env ''/r/s'' ''/r/d'' pf4_host") (auto simp: prod_eq_iff)

theorem transition_records_outcome_witness:
  "\<exists>h' phase. run_pipeline (pt_tools 0) pt_env ''/r/s'' ''/r/d'' pf4_host = Inr (0, h') \<and>
     records pt_env ''/r/s'' h' DECIDE ''PASS'' phase"
proof -
  obtain h' where h': "run_pipeline (pt_tools 0) pt_env ''/r/s'' ''/r/d'' pf4_host = Inr (0, h')" by (rule pt_pipeline)
  from transition_records_outcome [OF h'] h' show ?thesis by auto
qed

theorem collector_failure_stops_witness:
  "run_pipeline (pt_tools 3) pt_env ''/r/s'' ''/r/d'' pf4_host =
   run_pipeline (pt_tools 3\<lparr>tl_run := (tl_run (pt_tools 3))(decision_command (pt_tools 3) pt_env ''/r/d'' := (\<lambda>h. (0, h)))\<rparr>)
     pt_env ''/r/s'' ''/r/d'' pf4_host"
  by (rule collector_failure_stops)
    (simp add: pt_tools_def collector_command_def decision_command_def pt_base_def)

lemma pt_reads_back:
  assumes "decide (\<lambda>p. p) pt_loads pt_env h1 ''m.json'' = Inr document"
  shows "\<exists>d. pt_loads (pt_dumps document) = Inr d \<and>
    (\<forall>k \<in> {''decision'', ''evidence_valid''}. get d k JNull = get document k JNull)"
  by (rule decide_Inr [OF assms]) (auto simp: pt_dumps_def pt_loads_def classify_def)

lemma pt_tools_sel [simp]:
  "tl_loads_sig (pt_tools code) = pt_loads"
  "decision_command (pt_tools code) = decision_command pt_base"
  by (simp_all add: pt_tools_def pt_base_def decision_command_def fun_eq_iff)

lemma pt_tool: "tl_run (pt_tools code) (decision_command (pt_tools code) pt_env ''/r/d'') h1 =
    decision_tool (\<lambda>p. p) (pt_tools code) pt_env ''m.json'' ''/r/d'' h1"
  by (simp add: decision_tool_def) (simp add: pt_tools_def decision_tool_def pt_base_def)

lemma pt_dumps_env [simp]: "dumps pt_env = pt_dumps"
  by (simp add: pt_env_def)

lemma pt_absolute: "absolute (\<lambda>p. p) pt_env ''/r/d'' = ''/r/d''"
  by code_simp

theorem transition_selects_phase_witness:
  "\<exists>h'. run_pipeline (pt_tools 0) pt_env ''/r/s'' ''/r/d'' pf4_host = Inr (0, h') \<and>
    (\<exists>h1 h2 h3 h4 h5 h6 bytes m verdict phase.
      step_ran (pt_tools 0) pt_env ''/r/s'' COLLECT (collector_command (pt_tools 0) pt_env) DECIDE pf4_host h1 h2 h3 \<and>
      step_ran (pt_tools 0) pt_env ''/r/s'' DECIDE (decision_command (pt_tools 0) pt_env ''/r/d'') ''READ_DECISION'' h3 h4 h5 h6 \<and>
      (\<forall>p. p \<notin> {''/r/s'', ''/r/s'' @ ''.tmp''} \<longrightarrow> files h4 p = files h2 p) \<and>
      files h4 (absolute (\<lambda>p. p) pt_env ''m.json'') = Some bytes \<and> tl_loads_sig (pt_tools 0) bytes = Inr m \<and>
      get m ''verdict'' JNull = Inr verdict \<and> route_evidence (\<lambda>p. p) pt_env h4 m \<and>
      records pt_env ''/r/s'' h' DECIDE ''PASS'' phase \<and>
      (phase = ''PHASE6_CLOCK_AND_DETAILED_ROUTE'' \<and> verdict = JStr ''PASS_PF4'' \<and> route_closed m \<or>
       phase = ''PHASE5_HIERARCHICAL_ARCHITECTURE'' \<and> verdict \<in> {JStr ''IMPROVED_NOT_CLOSED'', JStr ''NO_IMPROVEMENT''}))"
proof -
  obtain h' where h': "run_pipeline (pt_tools 0) pt_env ''/r/s'' ''/r/d'' pf4_host = Inr (0, h')" by (rule pt_pipeline)
  have selected: "\<exists>h1 h2 h3 h4 h5 h6 bytes m verdict phase.
      step_ran (pt_tools 0) pt_env ''/r/s'' COLLECT (collector_command (pt_tools 0) pt_env) DECIDE pf4_host h1 h2 h3 \<and>
      step_ran (pt_tools 0) pt_env ''/r/s'' DECIDE (decision_command (pt_tools 0) pt_env ''/r/d'') ''READ_DECISION'' h3 h4 h5 h6 \<and>
      (\<forall>p. p \<notin> {''/r/s'', ''/r/s'' @ ''.tmp''} \<longrightarrow> files h4 p = files h2 p) \<and>
      files h4 (absolute (\<lambda>p. p) pt_env ''m.json'') = Some bytes \<and> tl_loads_sig (pt_tools 0) bytes = Inr m \<and>
      get m ''verdict'' JNull = Inr verdict \<and> route_evidence (\<lambda>p. p) pt_env h4 m \<and>
      records pt_env ''/r/s'' h' DECIDE ''PASS'' phase \<and>
      (phase = ''PHASE6_CLOCK_AND_DETAILED_ROUTE'' \<and> verdict = JStr ''PASS_PF4'' \<and> route_closed m \<or>
       phase = ''PHASE5_HIERARCHICAL_ARCHITECTURE'' \<and> verdict \<in> {JStr ''IMPROVED_NOT_CLOSED'', JStr ''NO_IMPROVEMENT''})"
  proof (rule transition_selects_phase [OF pt_tool _ pt_absolute _ h'])
    show "\<exists>d. tl_loads_sig (pt_tools 0) (dumps pt_env document) = Inr d \<and>
        (\<forall>k \<in> {''decision'', ''evidence_valid''}. get d k JNull = get document k JNull)"
      if "decide (\<lambda>p. p) (tl_loads_sig (pt_tools 0)) pt_env h1 ''m.json'' = Inr document" for h1 document
      using pt_reads_back that unfolding pt_tools_sel pt_dumps_env by blast
  qed simp
  show ?thesis by (rule exI [of _ h'], rule conjI [OF h' selected])
qed

lemma pt_loads_ok:
  "case pt_loads b of Inl e \<Rightarrow> caught e
   | Inr v \<Rightarrow> \<exists>kvs. v = JObj kvs \<and> map_of kvs ''stages'' = None \<and>
       (\<forall>d. map_of kvs ''decision'' = Some d \<longrightarrow> (\<exists>s. d = JStr s))"
  by (auto simp: pt_loads_def pf4_manifest_def split: list.splits)

lemma pt_status_ok: "status_ok (pt_tools code) path h"
  using pt_loads_ok [of "the (files h path)"]
  by (auto simp: status_ok_def stages_ok_def split: option.splits sum.splits)

lemma pt_reads: "reads_back (pt_tools code) pt_env"
proof -
  have "\<exists>kvs'. pt_loads (pt_dumps v) = Inr (JObj kvs') \<and> stages_ok kvs'" for v
    by (auto simp: pt_loads_def pt_dumps_def stages_ok_def split: sum.split json.split)
  then show ?thesis by (simp add: reads_back_def)
qed

lemma pt_readable: "readable_decision (pt_tools code) ''/r/d''"
  using pt_loads_ok
  by (fastforce simp: readable_decision_def read_bytes_def and_then_def split: option.splits sum.splits)

theorem transition_returns_witness:
  "\<exists>code h'. run_pipeline (pt_tools 3) pt_env ''/r/s'' ''/r/d'' pf4_host = Inr (code, h')"
  by (rule transition_returns [OF pt_status_ok pt_reads pt_readable]) (simp_all add: keeps_status_def pt_status_ok)

end
