(* ===== verification/Trace_Packets.thy ===== *)
theory Trace_Packets
  imports Float64
begin

text \<open>
  \<open>tools/convert_groot_trace_to_rtl.py\<close>: the captured BF16 words of every profile are cut
  into packets, one per row, bank and vector address, of \<open>lanes\<close> words each, the tail padded
  with zeros, and written as hexadecimal lines for the RTL test bench. The script copies each
  word a second time into \<open>reconstructed\<close> and compares. Reading the manifest and the
  hexadecimal files is outside: a sample is given by its fields, its words already parsed.
  \<open>sha\<close> is \<open>hashlib.sha256\<close> on a byte string.
\<close>

section \<open>Samples and packets\<close>

record sample =
  sm_profile :: string
  sm_shape :: "int list"
  sm_input :: "int list"
  sm_output :: "int list"
  sm_input_sha :: string
  sm_output_sha :: string

record packet =
  pk_tag :: int
  pk_row :: nat
  pk_bank :: nat
  pk_parity :: string
  pk_vector :: nat
  pk_valid :: nat
  pk_packed :: string

text \<open>\<open>value.to_bytes(2, "little")\<close> raises outside the 16-bit range.\<close>

definition to_bytes2 :: "int \<Rightarrow> nat list result" where
  "to_bytes2 value =
     (if 0 \<le> value \<and> value < 65536 then Inr [nat value mod 256, nat value div 256]
      else Inl (OverflowError ''int too big to convert''))"

definition raw_sha :: "(nat list \<Rightarrow> string) \<Rightarrow> int list \<Rightarrow> string result" where
  "raw_sha sha values = and_then (map_r to_bytes2 values) (\<lambda>data. Inr (sha (concat data)))"

text \<open>\<open>f"{value:04x}"\<close> of a non-negative integer.\<close>

definition hex_digit :: "nat \<Rightarrow> char" where
  "hex_digit d = char_of (if d < 10 then 48 + d else 87 + d)"

fun hex_nat :: "nat \<Rightarrow> string" where
  "hex_nat n = (if n < 16 then [hex_digit n] else hex_nat (n div 16) @ [hex_digit (n mod 16)])"

declare hex_nat.simps [simp del]

definition hex4 :: "int \<Rightarrow> string" where
  "hex4 value = (let digits = hex_nat (nat value) in replicate (4 - length digits) (CHR ''0'') @ digits)"

section \<open>Packing\<close>

text \<open>
  The state of the loops: \<open>reconstructed\<close>, the packets written so far and the number of
  padding elements. \<open>lane_step\<close> is the body of the loop over the lanes, which also builds
  \<open>lane_values\<close> and \<open>valid_lanes\<close>.
\<close>

record packer =
  pc_reconstructed :: "int list"
  pc_packets :: "packet list"
  pc_padding :: nat

definition lane_step ::
  "int list \<Rightarrow> nat \<Rightarrow> nat \<Rightarrow> nat \<Rightarrow> nat \<Rightarrow> packer \<times> int list \<times> nat \<Rightarrow> packer \<times> int list \<times> nat" where
  "lane_step source hidden row_base base lane state =
     (let (s, lane_values, valid_lanes) = state; column = base + lane in
      if column < hidden
      then let value = source ! (row_base + column)
           in (s\<lparr>pc_reconstructed := (pc_reconstructed s)[row_base + column := value]\<rparr>,
               lane_values @ [value], valid_lanes + 1)
      else (s\<lparr>pc_padding := pc_padding s + 1\<rparr>, lane_values @ [0], valid_lanes))"

definition pack_bank ::
  "int list \<Rightarrow> nat \<Rightarrow> nat \<Rightarrow> nat \<Rightarrow> int \<Rightarrow> nat \<Rightarrow> nat \<Rightarrow> nat \<Rightarrow> packer \<Rightarrow> packer" where
  "pack_bank source hidden banks lanes tag row vector bank s =
     (let (s', lane_values, valid_lanes) =
        fold (lane_step source hidden (row * hidden) (vector * banks * lanes + bank * lanes)) [0..<lanes] (s, [], 0)
      in s'\<lparr>pc_packets := pc_packets s' @
           [\<lparr>pk_tag = tag, pk_row = row, pk_bank = bank,
             pk_parity = (if odd bank then ''odd'' else ''even''), pk_vector = vector,
             pk_valid = valid_lanes, pk_packed = concat (map hex4 (rev lane_values))\<rparr>]\<rparr>)"

definition pack_row ::
  "int list \<Rightarrow> nat \<Rightarrow> nat \<Rightarrow> nat \<Rightarrow> nat \<Rightarrow> nat \<Rightarrow> nat \<Rightarrow> packer \<Rightarrow> packer result" where
  "pack_row source hidden banks lanes vectors_per_bank profile_index row s =
     (let tag = 4096 + int profile_index * 1024 + int row in
      if 65535 < tag then Inl (RuntimeError ''16-bit tag space exhausted'')
      else Inr (fold (\<lambda>vector. fold (pack_bank source hidden banks lanes tag row vector) [0..<banks])
                  [0..<vectors_per_bank] s))"

text \<open>\<open>math.ceil(hidden / (banks * lanes))\<close>: the quotient is a float.\<close>

definition vectors_per_bank :: "int \<Rightarrow> int \<Rightarrow> int \<Rightarrow> int result" where
  "vectors_per_bank hidden banks lanes = and_then (true_div hidden (banks * lanes)) (\<lambda>q. Inr \<lceil>q\<rceil>)"

record summary =
  su_profile :: string
  su_rows :: int
  su_hidden :: int
  su_vectors :: int
  su_packets :: "packet list"
  su_padding :: nat
  su_input_sha :: string
  su_roundtrip_sha :: string
  su_mismatches :: nat
  su_tag_base :: int

definition convert_sample ::
  "(nat list \<Rightarrow> string) \<Rightarrow> int \<Rightarrow> int \<Rightarrow> nat \<times> sample \<Rightarrow> summary result" where
  "convert_sample sha banks lanes indexed =
     (let (profile_index, sample) = indexed; source = sm_input sample in
      and_then (py_get (sm_shape sample) (- 1)) (\<lambda>hidden.
      let rows = prod_list (butlast (sm_shape sample)) in
      if int (length source) \<noteq> rows * hidden \<or> int (length (sm_output sample)) \<noteq> rows * hidden
      then Inl (RuntimeError ''shape/hex length mismatch'')
      else and_then (raw_sha sha source) (\<lambda>input_sha.
      if input_sha \<noteq> sm_input_sha sample then Inl (RuntimeError ''input checksum mismatch'')
      else and_then (raw_sha sha (sm_output sample)) (\<lambda>output_sha.
      if output_sha \<noteq> sm_output_sha sample then Inl (RuntimeError ''output checksum mismatch'')
      else and_then (vectors_per_bank hidden banks lanes) (\<lambda>vpb.
      and_then (fold_r (pack_row source (nat hidden) (nat banks) (nat lanes) (nat vpb) profile_index) [0..<nat rows]
          \<lparr>pc_reconstructed = replicate (length source) 0, pc_packets = [], pc_padding = 0\<rparr>) (\<lambda>s.
      and_then (raw_sha sha (pc_reconstructed s)) (\<lambda>roundtrip_sha.
        Inr \<lparr>su_profile = sm_profile sample, su_rows = rows, su_hidden = hidden, su_vectors = vpb,
             su_packets = pc_packets s, su_padding = pc_padding s, su_input_sha = sm_input_sha sample,
             su_roundtrip_sha = roundtrip_sha,
             su_mismatches = length (filter (\<lambda>(a, b). a \<noteq> b) (zip source (pc_reconstructed s))),
             su_tag_base = 4096 + int profile_index * 1024\<rparr>)))))))"

text \<open>\<open>main\<close>: the summaries with the exit code; without samples the CSV header has no source.\<close>

definition convert_main :: "(nat list \<Rightarrow> string) \<Rightarrow> int \<Rightarrow> int \<Rightarrow> sample list \<Rightarrow> (int \<times> summary list) result" where
  "convert_main sha banks lanes samples =
     and_then (map_r (convert_sample sha banks lanes) (enumerate 0 samples)) (\<lambda>summaries.
       if summaries = [] then Inl IndexError
       else Inr (if sum_list (map su_mismatches summaries) = 0 then 0 else 1, summaries))"

end
