(* ===== verification/Trace_Packets_Props.thy ===== *)
theory Trace_Packets_Props
  imports Trace_Packets
begin

text \<open>
  The conversion loses nothing: the packets alone, decoded from their hexadecimal text, give
  back the captured words in order, so the script's own comparison can only succeed.
\<close>

section \<open>The loops in closed form\<close>

text \<open>The words copied so far, when exactly the positions in \<open>D\<close> have been visited.\<close>

definition copied :: "int list \<Rightarrow> nat set \<Rightarrow> int list" where
  "copied source D = map (\<lambda>i. if i \<in> D then source ! i else 0) [0..<length source]"

lemma copied_update:
  "i < length source \<Longrightarrow> (copied source D)[i := source ! i] = copied source (insert i D)"
  by (rule nth_equalityI) (auto simp: copied_def nth_list_update)

lemma copied_empty: "copied source {} = replicate (length source) 0"
  by (simp add: copied_def map_replicate_const)

lemma copied_all: "{0..<length source} \<subseteq> D \<Longrightarrow> copied source D = source"
  by (rule nth_equalityI) (auto simp: copied_def)

text \<open>The word at a column, zero in the padding.\<close>

definition cell :: "int list \<Rightarrow> nat \<Rightarrow> nat \<Rightarrow> nat \<Rightarrow> int" where
  "cell source hidden row column = (if column < hidden then source ! (row * hidden + column) else 0)"

definition columns :: "nat \<Rightarrow> nat \<Rightarrow> nat \<Rightarrow> nat \<Rightarrow> nat set" where
  "columns hidden row base n = {row * hidden + c |c. base \<le> c \<and> c < base + n \<and> c < hidden}"

lemma columns_0 [simp]: "columns hidden row base 0 = {}"
  by (auto simp: columns_def)

lemma columns_add: "columns hidden row base (m + n) = columns hidden row base m \<union> columns hidden row (base + m) n"
proof -
  have "base \<le> c \<and> c < base + (m + n) \<and> c < hidden \<longleftrightarrow>
      base \<le> c \<and> c < base + m \<and> c < hidden \<or> base + m \<le> c \<and> c < base + m + n \<and> c < hidden" for c
    by linarith
  then show ?thesis unfolding columns_def by blast
qed

lemma columns_Suc:
  "columns hidden row base (Suc n) =
   (if base + n < hidden then insert (row * hidden + (base + n)) (columns hidden row base n)
    else columns hidden row base n)"
proof -
  have "columns hidden row (base + n) 1 = (if base + n < hidden then {row * hidden + (base + n)} else {})"
    by (auto simp: columns_def)
  then show ?thesis using columns_add [of hidden row base n 1] by auto
qed

definition pads :: "nat \<Rightarrow> nat \<Rightarrow> nat \<Rightarrow> nat" where
  "pads hidden base n = base + n - max base (min hidden (base + n))"

lemma pads_add: "pads hidden base (m + n) = pads hidden base m + pads hidden (base + m) n"
  by (auto simp: pads_def max_def min_def)

lemma pads_0 [simp]: "pads hidden base 0 = 0"
  by (simp add: pads_def)

lemma pads_Suc: "pads hidden base (Suc n) = pads hidden base n + (if base + n < hidden then 0 else 1)"
  by (auto simp: pads_def max_def min_def)

definition mk_packet :: "int list \<Rightarrow> nat \<Rightarrow> nat \<Rightarrow> nat \<Rightarrow> int \<Rightarrow> nat \<Rightarrow> nat \<Rightarrow> nat \<Rightarrow> packet" where
  "mk_packet source hidden banks lanes tag row vector bank =
     (let base = vector * banks * lanes + bank * lanes in
      \<lparr>pk_tag = tag, pk_row = row, pk_bank = bank, pk_parity = (if odd bank then ''odd'' else ''even''),
       pk_vector = vector, pk_valid = length (filter (\<lambda>l. base + l < hidden) [0..<lanes]),
       pk_packed = concat (map hex4 (rev (map (\<lambda>l. cell source hidden row (base + l)) [0..<lanes])))\<rparr>)"

lemma in_row:
  fixes row hidden :: nat
  assumes "row < rows" "c < hidden"
  shows "row * hidden + c < rows * hidden"
proof -
  have "row * hidden + c < Suc row * hidden" using assms(2) by simp
  also have "\<dots> \<le> rows * hidden" using assms(1) by (intro mult_right_mono) auto
  finally show ?thesis .
qed

lemma lanes_fold:
  assumes "length source = rows * hidden" "row < rows" "pc_reconstructed s = copied source D"
  shows "fold (lane_step source hidden (row * hidden) base) [0..<n] (s, [], 0) =
    (s\<lparr>pc_reconstructed := copied source (D \<union> columns hidden row base n),
       pc_padding := pc_padding s + pads hidden base n\<rparr>,
     map (\<lambda>l. cell source hidden row (base + l)) [0..<n], length (filter (\<lambda>l. base + l < hidden) [0..<n]))"
proof (induction n)
  case 0
  then show ?case using assms(3) by simp
next
  case (Suc n)
  have "row * hidden + (base + n) < length source" if "base + n < hidden"
    using in_row [OF assms(2) that] assms(1) by simp
  with Suc show ?case
    by (simp add: lane_step_def columns_Suc pads_Suc cell_def copied_update Let_def)
qed

lemma pack_bank_eq:
  assumes "length source = rows * hidden" "row < rows" "pc_reconstructed s = copied source D"
  shows "pack_bank source hidden banks lanes tag row vector bank s =
    \<lparr>pc_reconstructed = copied source (D \<union> columns hidden row (vector * banks * lanes + bank * lanes) lanes),
     pc_packets = pc_packets s @ [mk_packet source hidden banks lanes tag row vector bank],
     pc_padding = pc_padding s + pads hidden (vector * banks * lanes + bank * lanes) lanes\<rparr>"
  unfolding pack_bank_def lanes_fold [OF assms] by (cases s) (simp add: mk_packet_def Let_def)

lemma banks_fold:
  assumes "length source = rows * hidden" "row < rows" "pc_reconstructed s = copied source D"
  shows "fold (pack_bank source hidden banks lanes tag row vector) [0..<n] s =
    \<lparr>pc_reconstructed = copied source (D \<union> columns hidden row (vector * banks * lanes) (n * lanes)),
     pc_packets = pc_packets s @ map (mk_packet source hidden banks lanes tag row vector) [0..<n],
     pc_padding = pc_padding s + pads hidden (vector * banks * lanes) (n * lanes)\<rparr>"
proof (induction n)
  case 0
  then show ?case using assms(3) by (cases s) simp
next
  case (Suc n)
  have "columns hidden row (vector * banks * lanes) (Suc n * lanes) =
      columns hidden row (vector * banks * lanes) (n * lanes) \<union> columns hidden row (vector * banks * lanes + n * lanes) lanes"
    "pads hidden (vector * banks * lanes) (Suc n * lanes) =
      pads hidden (vector * banks * lanes) (n * lanes) + pads hidden (vector * banks * lanes + n * lanes) lanes"
    using columns_add [of hidden row "vector * banks * lanes" "n * lanes" lanes]
      pads_add [of hidden "vector * banks * lanes" "n * lanes" lanes] by (simp_all add: add.commute)
  with Suc show ?case
    by (simp add: pack_bank_eq [OF assms(1,2)] Un_assoc del: mult_Suc)
qed

lemma vectors_fold:
  assumes "length source = rows * hidden" "row < rows" "pc_reconstructed s = copied source D"
  shows "fold (\<lambda>vector. fold (pack_bank source hidden banks lanes tag row vector) [0..<banks]) [0..<n] s =
    \<lparr>pc_reconstructed = copied source (D \<union> columns hidden row 0 (n * banks * lanes)),
     pc_packets = pc_packets s @ concat (map (\<lambda>v. map (mk_packet source hidden banks lanes tag row v) [0..<banks]) [0..<n]),
     pc_padding = pc_padding s + pads hidden 0 (n * banks * lanes)\<rparr>"
proof (induction n)
  case 0
  then show ?case using assms(3) by (cases s) simp
next
  case (Suc n)
  have "columns hidden row 0 (Suc n * banks * lanes) =
      columns hidden row 0 (n * banks * lanes) \<union> columns hidden row (n * banks * lanes) (banks * lanes)"
    "pads hidden 0 (Suc n * banks * lanes) = pads hidden 0 (n * banks * lanes) + pads hidden (n * banks * lanes) (banks * lanes)"
    using columns_add [of hidden row 0 "n * banks * lanes" "banks * lanes"]
      pads_add [of hidden 0 "n * banks * lanes" "banks * lanes"] by (simp_all add: algebra_simps)
  with Suc show ?case
    by (simp add: banks_fold [OF assms(1,2)] Un_assoc del: mult_Suc)
qed

definition row_packets :: "int list \<Rightarrow> nat \<Rightarrow> nat \<Rightarrow> nat \<Rightarrow> nat \<Rightarrow> nat \<Rightarrow> nat \<Rightarrow> packet list" where
  "row_packets source hidden banks lanes vpb profile_index row =
     concat (map (\<lambda>v. map (mk_packet source hidden banks lanes (4096 + int profile_index * 1024 + int row) row v)
       [0..<banks]) [0..<vpb])"

lemma rows_fold:
  assumes "length source = rows * hidden" "n \<le> rows" "pc_reconstructed s = copied source {}"
    and "fold_r (pack_row source hidden banks lanes vpb profile_index) [0..<n] s = Inr s'"
  shows "s' = \<lparr>pc_reconstructed = copied source (\<Union>row < n. columns hidden row 0 (vpb * banks * lanes)),
     pc_packets = pc_packets s @ concat (map (row_packets source hidden banks lanes vpb profile_index) [0..<n]),
     pc_padding = pc_padding s + n * pads hidden 0 (vpb * banks * lanes)\<rparr> \<and>
    (n = 0 \<or> 4096 + int profile_index * 1024 + int (n - 1) \<le> 65535)"
  using assms(2,4)
proof (induction n arbitrary: s')
  case 0
  then show ?case using assms(3) by (cases s) simp
next
  case (Suc n)
  from Suc.prems(2) obtain t where t: "fold_r (pack_row source hidden banks lanes vpb profile_index) [0..<n] s = Inr t"
      "pack_row source hidden banks lanes vpb profile_index n t = Inr s'"
    by (auto simp: fold_r_append and_then_eq_Inr)
  from t(2) have tag: "4096 + int profile_index * 1024 + int n \<le> 65535"
    and s': "s' = fold (\<lambda>vector. fold (pack_bank source hidden banks lanes (4096 + int profile_index * 1024 + int n) n vector)
      [0..<banks]) [0..<vpb] t"
    by (auto simp: pack_row_def Let_def split: if_splits)
  from Suc.IH [OF _ t(1)] Suc.prems(1) have t': "t = \<lparr>pc_reconstructed = copied source (\<Union>row < n. columns hidden row 0 (vpb * banks * lanes)),
     pc_packets = pc_packets s @ concat (map (row_packets source hidden banks lanes vpb profile_index) [0..<n]),
     pc_padding = pc_padding s + n * pads hidden 0 (vpb * banks * lanes)\<rparr>" by simp
  have "n < rows" using Suc.prems(1) by simp
  from vectors_fold [OF assms(1) this, of t] t' tag show ?case
    unfolding s' by (simp add: row_packets_def [abs_def] lessThan_Suc Un_commute)
qed

section \<open>Hexadecimal text\<close>

definition hex_value :: "char \<Rightarrow> nat" where
  "hex_value c = (let k = of_char c in if k < 58 then k - 48 else k - 87)"

definition unhex4 :: "string \<Rightarrow> int" where
  "unhex4 s = int (foldl (\<lambda>n c. 16 * n + hex_value c) 0 s)"

text \<open>A packed line read back: groups of four digits, the first lane last.\<close>

fun groups4 :: "string \<Rightarrow> string list" where
  "groups4 (a # b # c # d # s) = [a, b, c, d] # groups4 s"
| "groups4 s = []"

definition unpack_line :: "string \<Rightarrow> int list" where
  "unpack_line s = rev (map unhex4 (groups4 s))"

lemma hex_value_digit: "d < 16 \<Longrightarrow> hex_value (hex_digit d) = d"
  by (auto simp: hex_value_def hex_digit_def)

lemma hex_nat_small: "n < 16 \<Longrightarrow> hex_nat n = [hex_digit n]"
  by (simp add: hex_nat.simps)

lemma hex4_digits:
  assumes "0 \<le> v" "v < 65536"
  shows "hex4 v = [hex_digit (nat v div 4096), hex_digit (nat v div 256 mod 16), hex_digit (nat v div 16 mod 16), hex_digit (nat v mod 16)]"
proof -
  define n where "n = nat v"
  have n: "n < 65536" using assms by (simp add: n_def)
  have step: "hex_nat m = hex_nat (m div 16) @ [hex_digit (m mod 16)]" if "\<not> m < 16" for m
    using that by (simp add: hex_nat.simps [of m])
  have d: "n div 16 div 16 = n div 256" "n div 256 div 16 = n div 4096" by (simp_all flip: div_mult2_eq)
  have rep: "replicate 3 c = [c, c, c]" "replicate 2 c = [c, c]" for c :: char by (simp_all add: numeral_eq_Suc)
  have z: "CHR ''0'' = hex_digit 0" by code_simp
  consider "n < 16" | "16 \<le> n" "n < 256" | "256 \<le> n" "n < 4096" | "4096 \<le> n" by linarith
  then have "hex4 v = [hex_digit (n div 4096), hex_digit (n div 256 mod 16), hex_digit (n div 16 mod 16), hex_digit (n mod 16)]"
  proof cases
    case 1
    then show ?thesis unfolding hex4_def n_def [symmetric] by (simp add: hex_nat_small z rep)
  next
    case 2
    then have "hex_nat n = [hex_digit (n div 16), hex_digit (n mod 16)]" by (simp add: step hex_nat_small)
    with 2 show ?thesis unfolding hex4_def n_def [symmetric] by (simp add: z rep)
  next
    case 3
    then have "hex_nat n = [hex_digit (n div 256), hex_digit (n div 16 mod 16), hex_digit (n mod 16)]"
      by (simp add: step hex_nat_small d)
    with 3 show ?thesis unfolding hex4_def n_def [symmetric] by (simp add: z rep)
  next
    case 4
    with n have "hex_nat n = [hex_digit (n div 4096), hex_digit (n div 256 mod 16), hex_digit (n div 16 mod 16), hex_digit (n mod 16)]"
      by (simp add: step hex_nat_small d)
    then show ?thesis unfolding hex4_def n_def [symmetric] by simp
  qed
  then show ?thesis by (simp add: n_def)
qed

lemma unhex4_hex4:
  assumes "0 \<le> v" "v < 65536"
  shows "unhex4 (hex4 v) = v"
proof -
  define n where "n = nat v"
  have "n < 65536" using assms by (simp add: n_def)
  then have "n div 4096 < 16" by simp
  then have "unhex4 (hex4 v) = int (16 * (16 * (16 * (n div 4096) + n div 256 mod 16) + n div 16 mod 16) + n mod 16)"
    unfolding hex4_digits [OF assms] n_def [symmetric] by (simp add: unhex4_def hex_value_digit)
  also have "16 * (16 * (16 * (n div 4096) + n div 256 mod 16) + n div 16 mod 16) + n mod 16 = n"
  proof -
    have "n div 16 div 16 = n div 256" "n div 256 div 16 = n div 4096" by (simp_all flip: div_mult2_eq)
    then show ?thesis
      using mult_div_mod_eq [of 16 n] mult_div_mod_eq [of 16 "n div 16"] mult_div_mod_eq [of 16 "n div 256"] by simp
  qed
  finally show ?thesis using assms by (simp add: n_def)
qed

lemma groups4_hex:
  "(\<And>v. v \<in> set vs \<Longrightarrow> 0 \<le> v \<and> v < 65536) \<Longrightarrow> groups4 (concat (map hex4 vs)) = map hex4 vs"
  by (induction vs) (simp_all add: hex4_digits)

lemma unpack_line_pack:
  assumes "\<And>v. v \<in> set vs \<Longrightarrow> 0 \<le> v \<and> v < 65536"
  shows "unpack_line (concat (map hex4 (rev vs))) = vs"
proof -
  have "map (unhex4 \<circ> hex4) vs = vs" using assms by (simp add: map_idI unhex4_hex4)
  then show ?thesis using assms groups4_hex [of "rev vs"] by (simp add: unpack_line_def rev_map)
qed

section \<open>A converted sample\<close>

lemma raw_sha_range:
  "raw_sha sha vs = Inr d \<Longrightarrow> v \<in> set vs \<Longrightarrow> 0 \<le> v \<and> v < 65536"
proof -
  have "map_r to_bytes2 vs = Inr bs \<Longrightarrow> v \<in> set vs \<Longrightarrow> 0 \<le> v \<and> v < 65536" for bs
    by (induction vs arbitrary: bs) (auto simp: and_then_eq_Inr to_bytes2_def split: if_splits)
  then show "raw_sha sha vs = Inr d \<Longrightarrow> v \<in> set vs \<Longrightarrow> 0 \<le> v \<and> v < 65536"
    by (auto simp: raw_sha_def and_then_eq_Inr)
qed

lemma vectors_cover:
  assumes "vectors_per_bank h b l = Inr v" "0 \<le> h" "h < 2 ^ 53" "0 < b" "0 < l"
  shows "h \<le> v * b * l \<and> v * b * l < h + b * l"
proof -
  define k where "k = b * l"
  have k: "0 < k" using assms by (simp add: k_def)
  have "v = \<lceil>fl (of_int h / of_int k)\<rceil>"
    using assms(1) k by (auto simp: vectors_per_bank_def true_div_def simp flip: k_def split: if_splits)
  also have "\<dots> = - (- h div k)"
    using ceiling_fl_div [OF assms(2,3) k] by (simp add: ceiling_divide_eq_div)
  finally have "v * k = - (k * (- h div k))" by simp
  with mult_div_mod_eq [of k "- h"] have "v * k = h + (- h) mod k" by linarith
  then show ?thesis
    using pos_mod_sign [OF k, of "- h"] pos_mod_bound [OF k, of "- h"] by (simp add: k_def mult.assoc)
qed

lemma copied_rows:
  assumes "length source = R * H" "H \<le> n"
  shows "copied source (\<Union>row < R. columns H row 0 n) = source"
proof (rule copied_all, rule subsetI)
  fix k assume "k \<in> {0..<length source}"
  then have k: "k < R * H" using assms(1) by simp
  then have "0 < H" by (cases H) auto
  then have "k div H < R" "k mod H < H" using k by (simp_all add: less_mult_imp_div_less)
  moreover have "k = k div H * H + k mod H" by simp
  ultimately show "k \<in> (\<Union>row < R. columns H row 0 n)"
    using assms(2) unfolding columns_def by (auto intro!: bexI [of _ "k div H"] exI [of _ "k mod H"])
qed

lemma convert_sample_Inr:
  assumes "convert_sample sha banks lanes (i, sm) = Inr su" "0 < banks" "0 < lanes" "0 \<le> su_hidden su" "su_hidden su < 2 ^ 53"
  defines "R \<equiv> nat (su_rows su)" and "H \<equiv> nat (su_hidden su)" and "V \<equiv> nat (su_vectors su)"
    and "B \<equiv> nat banks" and "L \<equiv> nat lanes"
  shows "length (sm_input sm) = R * H" "H \<le> V * B * L"
    and "su_packets su = concat (map (row_packets (sm_input sm) H B L V i) [0..<R])"
    and "su_mismatches su = 0" "su_padding su = R * (V * B * L - H)"
    and "\<And>v. v \<in> set (sm_input sm) \<Longrightarrow> 0 \<le> v \<and> v < 65536"
    and "R = 0 \<or> 4096 + int i * 1024 + int (R - 1) \<le> 65535"
    and "su_hidden su \<le> su_vectors su * banks * lanes" "su_vectors su * banks * lanes < su_hidden su + banks * lanes"
proof -
  let ?init = "\<lparr>pc_reconstructed = replicate (length (sm_input sm)) 0, pc_packets = [], pc_padding = 0\<rparr>"
  from assms(1) obtain d s where raw: "raw_sha sha (sm_input sm) = Inr d"
    and len: "int (length (sm_input sm)) = su_rows su * su_hidden su"
    and vpb: "vectors_per_bank (su_hidden su) banks lanes = Inr (su_vectors su)"
    and fold: "fold_r (pack_row (sm_input sm) H B L V i) [0..<R] ?init = Inr s"
    and su: "su_packets su = pc_packets s" "su_padding su = pc_padding s"
      "su_mismatches su = length (filter (\<lambda>(a, b). a \<noteq> b) (zip (sm_input sm) (pc_reconstructed s)))"
    unfolding R_def H_def V_def B_def L_def
    by (auto simp: convert_sample_def and_then_eq_Inr Let_def split: if_splits)
  show "v \<in> set (sm_input sm) \<Longrightarrow> 0 \<le> v \<and> v < 65536" for v
    using raw_sha_range [OF raw] .
  show length: "length (sm_input sm) = R * H"
  proof (cases "su_hidden su = 0")
    case False
    with len assms(4) have "0 \<le> su_rows su" by (smt (verit) mult_neg_pos of_nat_0_le_iff)
    with len assms(4) show ?thesis by (simp add: R_def H_def nat_eq_iff flip: nat_mult_distrib)
  qed (use len in \<open>simp add: H_def\<close>)
  show cover: "su_hidden su \<le> su_vectors su * banks * lanes"
    and "su_vectors su * banks * lanes < su_hidden su + banks * lanes"
    using vectors_cover [OF vpb assms(4,5,2,3)] by blast+
  have "0 \<le> su_vectors su"
  proof (rule ccontr)
    assume "\<not> 0 \<le> su_vectors su"
    then have "su_vectors su * (banks * lanes) < 0" using assms(2,3) by (simp add: mult_neg_pos)
    with cover assms(4) show False by (simp add: mult.assoc)
  qed
  then have "int (V * B * L) = su_vectors su * banks * lanes" using assms(2,3) by (simp add: V_def B_def L_def)
  with cover assms(4) show HV: "H \<le> V * B * L" unfolding H_def by linarith
  have init: "pc_reconstructed ?init = copied (sm_input sm) {}" by (simp add: copied_empty)
  from rows_fold [OF length order_refl init fold]
  have s: "pc_packets s = concat (map (row_packets (sm_input sm) H B L V i) [0..<R])"
      "pc_padding s = R * pads H 0 (V * B * L)"
      "pc_reconstructed s = copied (sm_input sm) (\<Union>row < R. columns H row 0 (V * B * L))"
    and "R = 0 \<or> 4096 + int i * 1024 + int (R - 1) \<le> 65535" by simp_all
  then show "R = 0 \<or> 4096 + int i * 1024 + int (R - 1) \<le> 65535"
    "su_packets su = concat (map (row_packets (sm_input sm) H B L V i) [0..<R])"
    "su_padding su = R * (V * B * L - H)"
    using su HV by (simp_all add: pads_def)
  have "pc_reconstructed s = sm_input sm" unfolding s(3) by (rule copied_rows [OF length HV])
  then show "su_mismatches su = 0" using su(3) by (auto simp: zip_same_conv_map filter_empty_conv)
qed

section \<open>Decoding\<close>

lemma chunks: "concat (map (\<lambda>v. map (\<lambda>l. f (v * n + l)) [0..<n]) [0..<m]) = map f [0..<m * n]"
proof (induction m)
  case (Suc m)
  have "map (\<lambda>l. f (m * n + l)) [0..<n] = map f [m * n..<m * n + n]"
    by (simp flip: map_add_upt add: add.commute)
  moreover have "[0..<Suc m * n] = [0..<m * n] @ [m * n..<m * n + n]"
    using upt_add_eq_append [of 0 "m * n" n] by (simp add: add.commute)
  ultimately show ?case using Suc by simp
qed simp

lemma concat_concat: "concat (concat xss) = concat (map concat xss)"
  by (induction xss) auto

lemma select_row: "row < R \<Longrightarrow> concat (map (\<lambda>r. if r = row then g r else []) [0..<R]) = g row"
proof (induction R)
  case (Suc R)
  have "concat (map (\<lambda>r. if r = R then g r else []) [0..<R]) = []" by (simp add: concat_eq_Nil_conv)
  with Suc show ?case by (cases "row = R") auto
qed simp

lemma row_packets_row: "p \<in> set (row_packets source H B L V i r) \<Longrightarrow> pk_row p = r"
  by (auto simp: row_packets_def mk_packet_def Let_def)

lemma filter_row:
  assumes "row < R"
  shows "filter (\<lambda>p. pk_row p = row) (concat (map (row_packets source H B L V i) [0..<R])) = row_packets source H B L V i row"
proof -
  have "filter (\<lambda>p. pk_row p = row) (row_packets source H B L V i r) = (if r = row then row_packets source H B L V i r else [])" for r
    using row_packets_row [of _ source H B L V i r] by (auto simp: filter_id_conv filter_empty_conv)
  then show ?thesis by (simp add: filter_concat comp_def select_row [OF assms])
qed

lemma decode_row:
  assumes "\<And>c. 0 \<le> cell source H row c \<and> cell source H row c < 65536"
  shows "concat (map (unpack_line \<circ> pk_packed) (row_packets source H B L V i row)) = map (cell source H row) [0..<V * B * L]"
proof -
  have "unpack_line (pk_packed (mk_packet source H B L tag row v b)) =
      map (\<lambda>l. cell source H row (v * B * L + b * L + l)) [0..<L]" for tag v b
    using assms unfolding mk_packet_def Let_def packet.simps by (intro unpack_line_pack) auto
  moreover have "concat (map (\<lambda>b. map (\<lambda>l. cell source H row (v * B * L + b * L + l)) [0..<L]) [0..<B]) =
      map (\<lambda>c. cell source H row (v * (B * L) + c)) [0..<B * L]" for v
    using chunks [of "\<lambda>c. cell source H row (v * (B * L) + c)" L B] by (simp add: algebra_simps)
  ultimately have "concat (map (unpack_line \<circ> pk_packed) (row_packets source H B L V i row)) =
      concat (map (\<lambda>v. map (\<lambda>c. cell source H row (v * (B * L) + c)) [0..<B * L]) [0..<V])"
    by (simp add: row_packets_def map_concat comp_def concat_concat)
  then show ?thesis by (simp add: chunks mult.assoc)
qed

section \<open>Properties\<close>

text \<open>
  C15: the conversion is lossless. Decoding the hexadecimal text of the packets of every row,
  in the order written and without the padding, gives back exactly the captured words; the
  number of mismatches the script counts is zero and the padding is what the last packets lack.
\<close>

theorem packets_round_trip:
  assumes "convert_sample sha banks lanes (i, sm) = Inr su" "0 < banks" "0 < lanes"
    and "0 \<le> su_hidden su" "su_hidden su < 2 ^ 53"
  shows "concat (map (\<lambda>row. take (nat (su_hidden su)) (concat (map (unpack_line \<circ> pk_packed)
      (filter (\<lambda>p. pk_row p = row) (su_packets su))))) [0..<nat (su_rows su)]) = sm_input sm \<and>
    su_mismatches su = 0 \<and>
    int (su_padding su) = int (nat (su_rows su)) * (int (nat (su_vectors su)) * banks * lanes - su_hidden su)"
proof -
  define R H V B L where d: "R = nat (su_rows su)" "H = nat (su_hidden su)" "V = nat (su_vectors su)"
    "B = nat banks" "L = nat lanes"
  note c = convert_sample_Inr [OF assms, folded d]
  have cells: "0 \<le> cell (sm_input sm) H row col \<and> cell (sm_input sm) H row col < 65536" if "row < R" for row col
    using that in_row [OF that, of col H] c(1,6) by (auto simp: cell_def)
  have "take H (concat (map (unpack_line \<circ> pk_packed) (filter (\<lambda>p. pk_row p = row) (su_packets su)))) =
      map (\<lambda>col. sm_input sm ! (row * H + col)) [0..<H]" if "row < R" for row
    using c(2) that by (simp add: c(3) filter_row decode_row [OF cells] take_map take_upt cell_def)
  then have "concat (map (\<lambda>row. take H (concat (map (unpack_line \<circ> pk_packed)
      (filter (\<lambda>p. pk_row p = row) (su_packets su))))) [0..<R]) =
      concat (map (\<lambda>row. map (\<lambda>col. sm_input sm ! (row * H + col)) [0..<H]) [0..<R])"
    by (intro arg_cong [of _ _ concat] map_cong) auto
  also have "\<dots> = map ((!) (sm_input sm)) [0..<R * H]" by (rule chunks)
  also have "\<dots> = sm_input sm" by (simp add: c(1) [symmetric] map_nth)
  finally have "concat (map (\<lambda>row. take H (concat (map (unpack_line \<circ> pk_packed)
      (filter (\<lambda>p. pk_row p = row) (su_packets su))))) [0..<R]) = sm_input sm" .
  moreover have "int (R * (V * B * L - H)) = int R * (int V * banks * lanes - su_hidden su)"
    using c(2) assms by (simp add: d(2,4,5) of_nat_diff)
  ultimately show ?thesis using c(4,5) by (simp add: d)
qed

lemma packet_keys:
  "map (\<lambda>p. (pk_row p, pk_vector p, pk_bank p)) (concat (map (row_packets source H B L V i) [0..<R])) =
     List.product [0..<R] (List.product [0..<V] [0..<B])"
proof -
  have "map (\<lambda>p. (pk_row p, pk_vector p, pk_bank p)) (row_packets source H B L V i r) =
      map (Pair r) (List.product [0..<V] [0..<B])" for r
    by (simp add: row_packets_def product_concat_map map_concat comp_def mk_packet_def Let_def)
  then show ?thesis by (simp add: map_concat comp_def product_concat_map [of "[0..<R]"])
qed

lemma hex4_length: "0 \<le> v \<Longrightarrow> v < 65536 \<Longrightarrow> length (hex4 v) = 4"
  by (simp add: hex4_digits)

definition hex_alphabet :: string where
  "hex_alphabet = ''0123456789abcdef''"

lemma packed_text:
  assumes "\<And>v. v \<in> set vs \<Longrightarrow> 0 \<le> v \<and> v < 65536"
  shows "length (concat (map hex4 vs)) = 4 * length vs" "set (concat (map hex4 vs)) \<subseteq> set hex_alphabet"
proof -
  have "hex_digit ` {..<16} \<subseteq> set hex_alphabet" by code_simp
  then have digit: "hex_digit n \<in> set hex_alphabet" if "n < 16" for n using that by blast
  have "set (hex4 v) \<subseteq> set hex_alphabet" if "0 \<le> v" "v < 65536" for v
  proof -
    have "nat v div 4096 < 16" using that by (simp add: less_mult_imp_div_less)
    with that digit show ?thesis unfolding hex4_digits [OF that] by simp
  qed
  with assms show "set (concat (map hex4 vs)) \<subseteq> set hex_alphabet" by fastforce
  show "length (concat (map hex4 vs)) = 4 * length vs"
    using assms by (induction vs) (simp_all add: hex4_length)
qed

lemma count_below: "length (filter (\<lambda>l. base + l < hidden) [0..<n]) = min n (hidden - base)"
  by (induction n) auto

text \<open>
  C37: the packets are well formed. Tags are 16-bit and determined by profile and row; every row,
  vector address and bank has exactly one packet, in that order; a packet carries the parity of
  its bank and a line of four hexadecimal digits per lane, and its valid lanes are those of its
  columns that the row has. The vector addresses per bank are the fewest that hold a row, and
  the padding counted is what they hold beyond the rows.
\<close>

theorem packets_well_formed:
  assumes "convert_sample sha banks lanes (i, sm) = Inr su" "0 < banks" "0 < lanes"
    and "0 \<le> su_hidden su" "su_hidden su < 2 ^ 53"
  shows "(\<forall>p \<in> set (su_packets su).
      pk_tag p = 4096 + int i * 1024 + int (pk_row p) \<and> pk_tag p \<le> 65535 \<and>
      length (pk_packed p) = 4 * nat lanes \<and> set (pk_packed p) \<subseteq> set hex_alphabet \<and>
      pk_valid p = min (nat lanes) (nat (su_hidden su) - (pk_vector p * nat banks * nat lanes + pk_bank p * nat lanes)) \<and>
      pk_parity p = (if odd (pk_bank p) then ''odd'' else ''even'')) \<and>
    map (\<lambda>p. (pk_row p, pk_vector p, pk_bank p)) (su_packets su) =
      List.product [0..<nat (su_rows su)] (List.product [0..<nat (su_vectors su)] [0..<nat banks]) \<and>
    su_hidden su \<le> su_vectors su * banks * lanes \<and> su_vectors su * banks * lanes < su_hidden su + banks * lanes \<and>
    su_padding su = nat (su_rows su) * (nat (su_vectors su) * nat banks * nat lanes - nat (su_hidden su))"
proof -
  define R H V B L where d: "R = nat (su_rows su)" "H = nat (su_hidden su)" "V = nat (su_vectors su)"
    "B = nat banks" "L = nat lanes"
  note c = convert_sample_Inr [OF assms, folded d]
  have "pk_tag p = 4096 + int i * 1024 + int (pk_row p) \<and> pk_tag p \<le> 65535 \<and> length (pk_packed p) = 4 * L \<and>
      set (pk_packed p) \<subseteq> set hex_alphabet \<and> pk_valid p = min L (H - (pk_vector p * B * L + pk_bank p * L)) \<and>
      pk_parity p = (if odd (pk_bank p) then ''odd'' else ''even'')" if "p \<in> set (su_packets su)" for p
  proof -
    from that obtain r v b where p: "p = mk_packet (sm_input sm) H B L (4096 + int i * 1024 + int r) r v b" and r: "r < R"
      unfolding c(3) by (auto simp: row_packets_def)
    define vs where "vs = rev (map (\<lambda>l. cell (sm_input sm) H r (v * B * L + b * L + l)) [0..<L])"
    have "0 \<le> cell (sm_input sm) H r col \<and> cell (sm_input sm) H r col < 65536" for col
      using in_row [OF r, of col H] c(1,6) by (auto simp: cell_def)
    then have "0 \<le> x \<and> x < 65536" if "x \<in> set vs" for x using that by (auto simp: vs_def)
    note line_text = packed_text [of vs, OF this]
    have "pk_packed p = concat (map hex4 vs)" "length vs = L" by (simp_all add: p mk_packet_def Let_def vs_def)
    with line_text have "length (pk_packed p) = 4 * L" "set (pk_packed p) \<subseteq> set hex_alphabet" by simp_all
    moreover have "pk_valid p = min L (H - (v * B * L + b * L))" by (simp add: p mk_packet_def Let_def count_below)
    ultimately show ?thesis using r c(7) by (auto simp: p mk_packet_def Let_def)
  qed
  moreover have "map (\<lambda>p. (pk_row p, pk_vector p, pk_bank p)) (su_packets su) =
      List.product [0..<R] (List.product [0..<V] [0..<B])"
    unfolding c(3) by (rule packet_keys)
  ultimately show ?thesis using c(5,8,9) unfolding d by blast
qed

lemma convert_main_nth:
  assumes "convert_main sha banks lanes samples = Inr (code, sus)" "i < length sus"
  shows "convert_sample sha banks lanes (i, samples ! i) = Inr (sus ! i)"
proof -
  have m: "map_r (convert_sample sha banks lanes) (enumerate 0 samples) = Inr sus"
    using assms(1) by (auto simp: convert_main_def and_then_eq_Inr split: if_splits)
  with assms(2) map_r_length [OF m] map_r_nth [OF m, of i] show ?thesis
    by (simp add: nth_enumerate_eq)
qed

lemma row_tags:
  assumes "0 < V" "0 < B"
  shows "pk_tag ` set (row_packets source H B L V i r) = {4096 + int i * 1024 + int r}"
proof -
  have "row_packets source H B L V i r \<noteq> []" using assms by (auto simp: row_packets_def)
  moreover have "pk_tag p = 4096 + int i * 1024 + int r" if "p \<in> set (row_packets source H B L V i r)" for p
    using that by (auto simp: row_packets_def mk_packet_def Let_def)
  ultimately show ?thesis by (cases "row_packets source H B L V i r") auto
qed

text \<open>
  When tags identify rows. Two profiles share a tag exactly when the first has more rows
  than the 1024 tags per profile reach up to the second; the 16-bit test does not detect it.
\<close>

theorem tags_shared_iff:
  assumes "convert_main sha banks lanes samples = Inr (code, sus)" "0 < banks" "0 < lanes"
    and "i < j" "j < length sus" "0 < su_hidden (sus ! i)" "0 < su_hidden (sus ! j)"
    and "su_hidden (sus ! i) < 2 ^ 53" "su_hidden (sus ! j) < 2 ^ 53" "0 < su_rows (sus ! j)"
  shows "(\<exists>p \<in> set (su_packets (sus ! i)). \<exists>q \<in> set (su_packets (sus ! j)). pk_tag p = pk_tag q) \<longleftrightarrow>
    (int j - int i) * 1024 < su_rows (sus ! i)"
proof -
  have tags: "pk_tag ` set (su_packets (sus ! k)) = {4096 + int k * 1024 + int r |r. r < nat (su_rows (sus ! k))}"
    if k: "k < length sus" "0 < su_hidden (sus ! k)" "su_hidden (sus ! k) < 2 ^ 53" for k
  proof -
    note c = convert_sample_Inr [OF convert_main_nth [OF assms(1) k(1)] assms(2,3) less_imp_le [OF k(2)] k(3)]
    have "0 < nat (su_vectors (sus ! k)) * nat banks * nat lanes" using c(2) k(2) by linarith
    then have "0 < nat (su_vectors (sus ! k))" "0 < nat banks" by auto
    then show ?thesis unfolding c(3) by (simp add: image_UN row_tags) auto
  qed
  have "i < length sus" using assms(4,5) by simp
  note ti = tags [OF this assms(6,8)] and tj = tags [OF assms(5,7,9)]
  have "(\<exists>p \<in> set (su_packets (sus ! i)). \<exists>q \<in> set (su_packets (sus ! j)). pk_tag p = pk_tag q) \<longleftrightarrow>
      pk_tag ` set (su_packets (sus ! i)) \<inter> pk_tag ` set (su_packets (sus ! j)) \<noteq> {}" by fastforce
  also have "\<dots> \<longleftrightarrow> (\<exists>r q. r < nat (su_rows (sus ! i)) \<and> q < nat (su_rows (sus ! j)) \<and>
      int r = (int j - int i) * 1024 + int q)"
  proof -
    have "(4096 + int i * 1024 + int r = 4096 + int j * 1024 + int q) = (int r = (int j - int i) * 1024 + int q)" for r q
      by (auto simp: algebra_simps)
    then show ?thesis unfolding ti tj by blast
  qed
  also have "\<dots> \<longleftrightarrow> (int j - int i) * 1024 < su_rows (sus ! i)"
  proof
    assume "(int j - int i) * 1024 < su_rows (sus ! i)"
    moreover have "int (nat ((int j - int i) * 1024)) = (int j - int i) * 1024" using assms(4) by simp
    ultimately show "\<exists>r q. r < nat (su_rows (sus ! i)) \<and> q < nat (su_rows (sus ! j)) \<and>
        int r = (int j - int i) * 1024 + int q"
      using assms(10) by (intro exI [of _ "nat ((int j - int i) * 1024)"] exI [of _ 0]) (simp add: zless_nat_eq_int_zless)
  next
    assume "\<exists>r q. r < nat (su_rows (sus ! i)) \<and> q < nat (su_rows (sus ! j)) \<and> int r = (int j - int i) * 1024 + int q"
    then obtain r q where "r < nat (su_rows (sus ! i))" "int r = (int j - int i) * 1024 + int q" by blast
    then show "(int j - int i) * 1024 < su_rows (sus ! i)" by linarith
  qed
  finally show ?thesis .
qed

definition sample_ok :: "(nat list \<Rightarrow> string) \<Rightarrow> nat \<Rightarrow> sample \<Rightarrow> bool" where
  "sample_ok sha i sm =
     (sm_shape sm \<noteq> [] \<and>
      (let hidden = last (sm_shape sm); rows = prod_list (butlast (sm_shape sm)) in
       0 \<le> hidden \<and> hidden < 2 ^ 53 \<and> 0 \<le> rows \<and>
       int (length (sm_input sm)) = rows * hidden \<and> int (length (sm_output sm)) = rows * hidden \<and>
       raw_sha sha (sm_input sm) = Inr (sm_input_sha sm) \<and> raw_sha sha (sm_output sm) = Inr (sm_output_sha sm) \<and>
       (rows = 0 \<or> 4096 + int i * 1024 + (rows - 1) \<le> 65535)))"

lemma py_get_last: "xs \<noteq> [] \<Longrightarrow> py_get xs (- 1) = Inr (last xs)"
  by (cases xs) (auto simp: py_get_def py_index_def Let_def last_conv_nth nat_diff_distrib)

lemma convert_sample_ok:
  assumes "sample_ok sha i sm" "0 < banks" "0 < lanes"
  shows "\<exists>su. convert_sample sha banks lanes (i, sm) = Inr su \<and> 0 \<le> su_hidden su \<and> su_hidden su < 2 ^ 53 \<and>
    su_hidden su = last (sm_shape sm) \<and> su_rows su = prod_list (butlast (sm_shape sm))"
proof -
  define hidden rows where d: "hidden = last (sm_shape sm)" "rows = prod_list (butlast (sm_shape sm))"
  have ok: "sm_shape sm \<noteq> []" "0 \<le> hidden" "hidden < 2 ^ 53" "0 \<le> rows" "int (length (sm_input sm)) = rows * hidden"
    "int (length (sm_output sm)) = rows * hidden" "raw_sha sha (sm_input sm) = Inr (sm_input_sha sm)"
    "raw_sha sha (sm_output sm) = Inr (sm_output_sha sm)" "rows = 0 \<or> 4096 + int i * 1024 + (rows - 1) \<le> 65535"
    using assms(1) by (simp_all add: sample_ok_def Let_def d)
  obtain vpb where vpb: "vectors_per_bank hidden banks lanes = Inr vpb"
    using assms(2,3) by (simp add: vectors_per_bank_def true_div_def)
  have cover: "hidden \<le> vpb * banks * lanes" using vectors_cover [OF vpb ok(2,3) assms(2,3)] by blast
  have len: "length (sm_input sm) = nat rows * nat hidden"
    using ok(2,4,5) by (simp add: nat_eq_iff flip: nat_mult_distrib)
  let ?init = "\<lparr>pc_reconstructed = replicate (length (sm_input sm)) 0, pc_packets = [], pc_padding = 0\<rparr>"
  have "\<not> 65535 < 4096 + int i * 1024 + int row" if "row < nat rows" for row
    using ok(9) that by linarith
  then obtain s where s: "fold_r (pack_row (sm_input sm) (nat hidden) (nat banks) (nat lanes) (nat vpb) i) [0..<nat rows] ?init = Inr s"
    using fold_r_Inr [of "[0..<nat rows]" "pack_row (sm_input sm) (nat hidden) (nat banks) (nat lanes) (nat vpb) i"]
    by (simp add: pack_row_def)
  have "0 \<le> vpb"
  proof (rule ccontr)
    assume "\<not> 0 \<le> vpb"
    then have "vpb * (banks * lanes) < 0" using assms(2,3) by (simp add: mult_neg_pos)
    with cover ok(2) show False by (simp add: mult.assoc)
  qed
  then have "int (nat vpb * nat banks * nat lanes) = vpb * banks * lanes" using assms(2,3) by simp
  with cover ok(2) have "nat hidden \<le> nat vpb * nat banks * nat lanes" by linarith
  then have "pc_reconstructed s = sm_input sm"
    using rows_fold [OF len order_refl _ s] copied_rows [OF len] by (simp add: copied_empty)
  then show ?thesis
    using ok vpb s by (simp add: convert_sample_def py_get_last Let_def d [symmetric])
qed

text \<open>
  The script passes. For samples whose shapes, checksums and tag ranges are right the
  conversion raises nothing, reports no mismatch and exits 0.
\<close>

theorem convert_main_passes:
  assumes "samples \<noteq> []" "\<And>i. i < length samples \<Longrightarrow> sample_ok sha i (samples ! i)" "0 < banks" "0 < lanes"
  shows "\<exists>sus. convert_main sha banks lanes samples = Inr (0, sus) \<and> length sus = length samples"
proof -
  have ok: "\<exists>su. convert_sample sha banks lanes p = Inr su \<and> su_mismatches su = 0" if p: "p \<in> set (enumerate 0 samples)" for p
  proof -
    obtain i sm where "p = (i, sm)" "i < length samples" "samples ! i = sm"
      using p by (auto simp: in_set_enumerate_eq prod_eq_iff)
    then show ?thesis
      using convert_sample_ok [OF _ assms(3,4), of sha i sm] assms(2) convert_sample_Inr(4) [OF _ assms(3,4)] by blast
  qed
  define g where "g p = (case convert_sample sha banks lanes p of Inr su \<Rightarrow> su | Inl _ \<Rightarrow> undefined)" for p
  have g: "convert_sample sha banks lanes p = Inr (g p) \<and> su_mismatches (g p) = 0" if "p \<in> set (enumerate 0 samples)" for p
    using ok [OF that] by (auto simp: g_def)
  then have m: "map_r (convert_sample sha banks lanes) (enumerate 0 samples) = Inr (map g (enumerate 0 samples))"
    by (intro map_r_Inr) blast
  have "sum_list (map su_mismatches (map g (enumerate 0 samples))) = 0"
    using g by (auto simp: comp_def)
  moreover have "map g (enumerate 0 samples) \<noteq> []" using assms(1) by (simp add: enumerate_eq_zip)
  ultimately show ?thesis using m by (simp add: convert_main_def del: sum_list_eq_0_iff)
qed

section \<open>Witnesses\<close>

definition two_samples :: "sample list" where
  "two_samples =
     [\<lparr>sm_profile = ''ln'', sm_shape = [2, 3], sm_input = [16256, 1, 65535, 2, 3, 4], sm_output = [0, 0, 0, 0, 0, 0],
       sm_input_sha = ''h'', sm_output_sha = ''h''\<rparr>,
      \<lparr>sm_profile = ''rms'', sm_shape = [1, 5], sm_input = [5, 4, 3, 2, 1], sm_output = [0, 0, 0, 0, 0],
       sm_input_sha = ''h'', sm_output_sha = ''h''\<rparr>]"

lemma two_samples_ok: "i < length two_samples \<Longrightarrow> sample_ok (\<lambda>_. ''h'') i (two_samples ! i)"
  by (cases i) (auto simp: two_samples_def sample_ok_def raw_sha_def to_bytes2_def)

theorem packets_round_trip_witness:
  "\<exists>su. convert_sample (\<lambda>_. ''h'') 2 2 (0, two_samples ! 0) = Inr su \<and>
     concat (map (\<lambda>row. take 3 (concat (map (unpack_line \<circ> pk_packed)
       (filter (\<lambda>p. pk_row p = row) (su_packets su))))) [0..<2]) = [16256, 1, 65535, 2, 3, 4]"
proof -
  obtain su where su: "convert_sample (\<lambda>_. ''h'') 2 2 (0, two_samples ! 0) = Inr su"
      "su_hidden su = 3" "su_rows su = 2"
    using convert_sample_ok [OF two_samples_ok [of 0], of 2 2] by (auto simp: two_samples_def)
  from packets_round_trip [OF su(1)] su show ?thesis by (simp add: two_samples_def)
qed

theorem packets_well_formed_witness:
  "\<exists>su. convert_sample (\<lambda>_. ''h'') 2 2 (1, two_samples ! 1) = Inr su \<and>
     (\<forall>p \<in> set (su_packets su). pk_tag p = 5120 + int (pk_row p) \<and> length (pk_packed p) = 8 \<and>
        set (pk_packed p) \<subseteq> set hex_alphabet) \<and> su_vectors su = 2 \<and> su_padding su = 3"
proof -
  obtain su where su: "convert_sample (\<lambda>_. ''h'') 2 2 (1, two_samples ! 1) = Inr su"
      "su_hidden su = 5" "su_rows su = 1"
    using convert_sample_ok [OF two_samples_ok [of 1], of 2 2] by (auto simp: two_samples_def)
  from packets_well_formed [OF su(1)] su have w: "\<forall>p \<in> set (su_packets su). pk_tag p = 5120 + int (pk_row p) \<and>
      length (pk_packed p) = 8 \<and> set (pk_packed p) \<subseteq> set hex_alphabet"
    "5 \<le> su_vectors su * 2 * 2" "su_vectors su * 2 * 2 < 5 + 2 * 2" "su_padding su = nat (su_vectors su) * 2 * 2 - 5"
    by (auto)
  from w(2,3) have "su_vectors su = 2" by presburger
  with su(1) w(1,4) show ?thesis by (auto)
qed

theorem convert_main_passes_witness:
  "\<exists>sus. convert_main (\<lambda>_. ''h'') 2 2 two_samples = Inr (0, sus) \<and> length sus = 2"
proof -
  have "length two_samples = 2" "two_samples \<noteq> []" by (simp_all add: two_samples_def)
  with convert_main_passes [of two_samples "\<lambda>_. ''h''" 2 2, OF _ two_samples_ok] show ?thesis by simp
qed

lemma two_samples_main:
  obtains sus where "convert_main (\<lambda>_. ''h'') 2 2 two_samples = Inr (0, sus)" "length sus = 2"
    "su_hidden (sus ! 0) = 3" "su_rows (sus ! 0) = 2" "su_hidden (sus ! 1) = 5" "su_rows (sus ! 1) = 1"
proof -
  obtain s0 where s0: "convert_sample (\<lambda>_. ''h'') 2 2 (0, two_samples ! 0) = Inr s0" "su_hidden s0 = 3" "su_rows s0 = 2"
    using convert_sample_ok [OF two_samples_ok [of 0], of 2 2] by (auto simp: two_samples_def)
  obtain s1 where s1: "convert_sample (\<lambda>_. ''h'') 2 2 (1, two_samples ! 1) = Inr s1" "su_hidden s1 = 5" "su_rows s1 = 1"
    using convert_sample_ok [OF two_samples_ok [of 1], of 2 2] by (auto simp: two_samples_def)
  have "su_mismatches s0 = 0" "su_mismatches s1 = 0"
    using convert_sample_Inr(4) [OF s0(1)] convert_sample_Inr(4) [OF s1(1)] s0 s1 by simp_all
  with s0 s1 have "convert_main (\<lambda>_. ''h'') 2 2 two_samples = Inr (0, [s0, s1])"
    by (simp add: convert_main_def two_samples_def)
  then show ?thesis using s0 s1 by (intro that [of "[s0, s1]"]) simp_all
qed

theorem tags_shared_iff_witness:
  "\<exists>sus. convert_main (\<lambda>_. ''h'') 2 2 two_samples = Inr (0, sus) \<and>
     \<not> (\<exists>p \<in> set (su_packets (sus ! 0)). \<exists>q \<in> set (su_packets (sus ! 1)). pk_tag p = pk_tag q)"
proof -
  obtain sus where m: "convert_main (\<lambda>_. ''h'') 2 2 two_samples = Inr (0, sus)" and l: "length sus = 2"
    and z: "su_hidden (sus ! 0) = 3" "su_rows (sus ! 0) = 2" "su_hidden (sus ! 1) = 5" "su_rows (sus ! 1) = 1"
    by (rule two_samples_main)
  from tags_shared_iff [OF m, of 0 1] l z m show ?thesis by simp
qed

end
