(* ===== verification/Shared_Pipeline.thy ===== *)
theory Shared_Pipeline
  imports Cycle_Loop
begin

text \<open>
  \<open>experiment/analyze_shared_pipeline_trace.py\<close>: 64 channels with 8 sources each share a few
  compute pipelines per channel and one output link with two lanes. Every cycle the events that
  have arrived join the queue of their source, the link drains at most two finished bursts,
  chosen round-robin over the channels and then over the sources, and each channel grants at
  most \<open>pipelines\<close> of its queues, round-robin; a third tap needs the free result slot of its
  source. CSV reading and writing are outside: an event is a record of the converted columns.
\<close>

section \<open>Events and arbitration\<close>

record event =
  ev_cycle :: int
  ev_channel :: int
  ev_source :: int
  ev_key :: int
  ev_tap :: int

definition CHANNELS :: nat where "CHANNELS = 64"
definition SOURCES_PER_CHANNEL :: nat where "SOURCES_PER_CHANNEL = 8"
definition LINK_LANES :: nat where "LINK_LANES = 2"

text \<open>\<open>load_events\<close> sorts by cycle, channel and source.\<close>

definition load_events :: "event list \<Rightarrow> event list" where
  "load_events rows = sort_key (\<lambda>e. (ev_cycle e, ev_channel e, ev_source e)) rows"

text \<open>\<open>choose_round_robin\<close>: the loop over the offsets from \<open>start\<close>, with its \<open>break\<close>.\<close>

fun choose_loop :: "bool list \<Rightarrow> nat \<Rightarrow> nat \<Rightarrow> nat list \<Rightarrow> nat list \<Rightarrow> nat list" where
  "choose_loop valid start limit [] chosen = chosen"
| "choose_loop valid start limit (offset # offsets) chosen =
     (let index = (start + offset) mod length valid in
      if valid ! index
      then if length (chosen @ [index]) = limit then chosen @ [index]
           else choose_loop valid start limit offsets (chosen @ [index])
      else choose_loop valid start limit offsets chosen)"

definition choose_round_robin :: "bool list \<Rightarrow> nat \<Rightarrow> nat \<Rightarrow> nat list" where
  "choose_round_robin valid start limit = choose_loop valid start limit [0..<length valid] []"

section \<open>The state of the replay\<close>

record shared =
  s_queues :: "event list list list"
  s_slots :: "int option list list"
  s_scheduler :: "nat list"
  s_local :: "nat list"
  s_global :: nat
  s_taps :: "int \<Rightarrow> int option"
  s_source_peak :: "nat list list"
  s_channel_peak :: "nat list"
  s_pending :: "event list"
  s_cycle :: int
  s_grants :: nat
  s_finals :: nat
  s_full :: nat
  s_partial :: nat
  s_idle :: nat
  s_queued :: nat
  s_stalls :: nat
  s_backpressure :: nat

definition put2 :: "'a list list \<Rightarrow> nat \<Rightarrow> nat \<Rightarrow> 'a \<Rightarrow> 'a list list" where
  "put2 table i j x = table[i := (table ! i)[j := x]]"

definition shared_init :: "event list \<Rightarrow> int \<Rightarrow> shared" where
  "shared_init events first_cycle =
     \<lparr>s_queues = replicate CHANNELS (replicate SOURCES_PER_CHANNEL []),
      s_slots = replicate CHANNELS (replicate SOURCES_PER_CHANNEL None),
      s_scheduler = replicate CHANNELS 0, s_local = replicate CHANNELS 0, s_global = 0,
      s_taps = (\<lambda>_. None), s_source_peak = replicate CHANNELS (replicate SOURCES_PER_CHANNEL 0),
      s_channel_peak = replicate CHANNELS 0, s_pending = events, s_cycle = first_cycle,
      s_grants = 0, s_finals = 0, s_full = 0, s_partial = 0, s_idle = 0, s_queued = 0,
      s_stalls = 0, s_backpressure = 0\<rparr>"

section \<open>The phases of one cycle\<close>

text \<open>Arrivals. A channel or source outside its range raises; negative ones count from the end.\<close>

definition enqueue :: "nat \<Rightarrow> nat \<Rightarrow> event \<Rightarrow> event list \<Rightarrow> shared \<Rightarrow> shared" where
  "enqueue channel source event rest s =
     (let queue = s_queues s ! channel ! source @ [event] in
      s\<lparr>s_queues := put2 (s_queues s) channel source queue,
        s_source_peak := put2 (s_source_peak s) channel source
          (max (s_source_peak s ! channel ! source) (length queue)),
        s_pending := rest\<rparr>)"

fun arrive :: "event list \<Rightarrow> shared \<Rightarrow> shared result" where
  "arrive [] s = Inr s"
| "arrive (event # rest) s =
     (if ev_cycle event \<le> s_cycle s
      then and_then (py_index CHANNELS (ev_channel event)) (\<lambda>channel.
           and_then (py_index SOURCES_PER_CHANNEL (ev_source event)) (\<lambda>source.
             arrive rest (enqueue channel source event rest s)))
      else Inr s)"

definition note_depth :: "nat \<Rightarrow> shared \<Rightarrow> shared" where
  "note_depth channel s =
     (let depth = sum_list (map length (s_queues s ! channel)) in
      s\<lparr>s_channel_peak := (s_channel_peak s)[channel := max (s_channel_peak s ! channel) depth],
        s_queued := s_queued s + depth\<rparr>)"

text \<open>
  The link. \<open>local_choice\<close> is \<open>local_selected[channel]\<close>: the slot the channel offers, if any;
  the selection is made for all channels before anything is drained.
\<close>

definition local_choice :: "shared \<Rightarrow> nat \<Rightarrow> nat option" where
  "local_choice s channel =
     (case choose_round_robin (map (\<lambda>slot. slot \<noteq> None) (s_slots s ! channel)) (s_local s ! channel) 1 of
        [] \<Rightarrow> None | source # _ \<Rightarrow> Some source)"

definition note_link :: "nat list \<Rightarrow> shared \<Rightarrow> shared" where
  "note_link drained s =
     (if length drained = LINK_LANES then s\<lparr>s_full := s_full s + 1\<rparr>
      else if drained \<noteq> [] then s\<lparr>s_partial := s_partial s + 1\<rparr>
      else s\<lparr>s_idle := s_idle s + 1\<rparr>)"

definition drain_one :: "nat option list \<Rightarrow> nat \<Rightarrow> shared \<Rightarrow> shared" where
  "drain_one local_selected channel s =
     (let source = the (local_selected ! channel) in
      s\<lparr>s_slots := put2 (s_slots s) channel source None,
        s_local := (s_local s)[channel := (source + 1) mod SOURCES_PER_CHANNEL],
        s_finals := s_finals s + 1\<rparr>)"

definition drain :: "shared \<Rightarrow> shared" where
  "drain s =
     (let local_selected = map (local_choice s) [0..<CHANNELS];
          channel_valid = map (\<lambda>choice. choice \<noteq> None) local_selected;
          drained = choose_round_robin channel_valid (s_global s) LINK_LANES;
          s' = fold (drain_one local_selected) drained (note_link drained s)
      in if drained = [] then s' else s'\<lparr>s_global := (last drained + 1) mod CHANNELS\<rparr>)"

text \<open>The scheduler of one channel.\<close>

definition blocked_final :: "shared \<Rightarrow> nat \<Rightarrow> nat \<Rightarrow> bool" where
  "blocked_final s channel source =
     (case s_queues s ! channel ! source of [] \<Rightarrow> False
      | event # _ \<Rightarrow> ev_tap event = 3 \<and> s_slots s ! channel ! source \<noteq> None)"

definition eligible :: "shared \<Rightarrow> nat \<Rightarrow> bool list" where
  "eligible s channel =
     map (\<lambda>source. s_queues s ! channel ! source \<noteq> [] \<and> \<not> blocked_final s channel source) [0..<SOURCES_PER_CHANNEL]"

definition grant_one :: "nat \<Rightarrow> nat \<Rightarrow> shared \<Rightarrow> shared result" where
  "grant_one channel source s =
     (case s_queues s ! channel ! source of
        [] \<Rightarrow> Inl IndexError
      | event # queue \<Rightarrow>
          let seen = (case s_taps s (ev_key event) of None \<Rightarrow> 1 | Some n \<Rightarrow> n + 1);
              s' = s\<lparr>s_queues := put2 (s_queues s) channel source queue,
                     s_taps := (s_taps s)(ev_key event \<mapsto> seen)\<rparr>
          in if seen \<noteq> ev_tap event then Inl (RuntimeError ''tap order mismatch'')
             else Inr (s'\<lparr>s_slots := (if ev_tap event = 3 then put2 (s_slots s') channel source (Some (ev_key event))
                                      else s_slots s'),
                          s_grants := s_grants s' + 1\<rparr>))"

definition schedule :: "nat \<Rightarrow> nat \<Rightarrow> shared \<Rightarrow> shared result" where
  "schedule pipelines channel s =
     (let ready = length (filter id (eligible s channel));
          selected = choose_round_robin (eligible s channel) (s_scheduler s ! channel) pipelines;
          s1 = s\<lparr>s_backpressure := s_backpressure s + length (filter (blocked_final s channel) [0..<SOURCES_PER_CHANNEL]),
                 s_stalls := s_stalls s + (ready - pipelines)\<rparr>
      in and_then (fold_r (grant_one channel) selected s1) (\<lambda>s2.
           Inr (if selected = [] then s2
                else s2\<lparr>s_scheduler := (s_scheduler s2)[channel := (last selected + 1) mod SOURCES_PER_CHANNEL]\<rparr>)))"

section \<open>The replay\<close>

definition SHARED_LIMIT :: int where "SHARED_LIMIT = 100000"

definition shared_done :: "nat \<Rightarrow> shared \<Rightarrow> bool" where
  "shared_done n_events s =
     (s_pending s = [] \<and> s_grants s = n_events \<and> s_finals s = n_events div 3 \<and>
      list_all (list_all (\<lambda>slot. slot = None)) (s_slots s))"

definition shared_cycle :: "nat \<Rightarrow> nat \<Rightarrow> int \<Rightarrow> shared \<Rightarrow> shared outcome" where
  "shared_cycle pipelines n_events first_cycle s =
     (case and_then (arrive (s_pending s) s) (\<lambda>s1.
             fold_r (schedule pipelines) [0..<CHANNELS] (drain (fold note_depth [0..<CHANNELS] s1))) of
        Inl e \<Rightarrow> Raise e
      | Inr s2 \<Rightarrow>
          if shared_done n_events s2 then Done s2
          else if SHARED_LIMIT < s_cycle s2 + 1 - first_cycle
          then Raise (RuntimeError ''shared pipeline replay did not converge'')
          else Next (s2\<lparr>s_cycle := s_cycle s2 + 1\<rparr>))"

record shared_row =
  sr_pipelines :: nat
  sr_grants :: nat
  sr_finals :: nat
  sr_cycles :: int
  sr_full :: nat
  sr_partial :: nat
  sr_idle :: nat
  sr_peak_source :: nat
  sr_peak_channel :: nat
  sr_queued :: nat
  sr_stalls :: nat
  sr_backpressure :: nat

definition shared_row_of :: "nat \<Rightarrow> int \<Rightarrow> shared \<Rightarrow> shared_row" where
  "shared_row_of pipelines first_cycle s =
     \<lparr>sr_pipelines = pipelines, sr_grants = s_grants s, sr_finals = s_finals s,
      sr_cycles = s_cycle s - first_cycle + 1, sr_full = s_full s, sr_partial = s_partial s, sr_idle = s_idle s,
      sr_peak_source = Max (set (concat (s_source_peak s))), sr_peak_channel = Max (set (s_channel_peak s)),
      sr_queued = s_queued s, sr_stalls = s_stalls s, sr_backpressure = s_backpressure s\<rparr>"

definition shared_replay :: "event list \<Rightarrow> nat \<Rightarrow> shared_row result option" where
  "shared_replay events pipelines =
     (case events of
        [] \<Rightarrow> Some (Inl IndexError)
      | event # _ \<Rightarrow>
          map_option (\<lambda>r. and_then r (\<lambda>s. Inr (shared_row_of pipelines (ev_cycle event) s)))
            (loop (shared_cycle pipelines (length events) (ev_cycle event)) (shared_init events (ev_cycle event))))"

fun shared_rows :: "event list \<Rightarrow> nat list \<Rightarrow> shared_row list result option" where
  "shared_rows events [] = Some (Inr [])"
| "shared_rows events (pipelines # counts) =
     (case shared_replay events pipelines of
        None \<Rightarrow> None
      | Some (Inl e) \<Rightarrow> Some (Inl e)
      | Some (Inr row) \<Rightarrow> map_option (\<lambda>r. and_then r (\<lambda>rows. Inr (row # rows))) (shared_rows events counts))"

definition shared_main :: "event list \<Rightarrow> shared_row list result option" where
  "shared_main rows = shared_rows (load_events rows) [1, 2, 4]"

end
