(* ===== verification/Shared_Facts.thy ===== *)
theory Shared_Facts
  imports Shared_Pipeline
begin

text \<open>
  The arbiter computes the first \<open>limit\<close> valid indices in rotation order, and the ledger of the
  replay: every event is pending, queued or granted, taps are granted in order per key, and
  every granted third tap is in a result slot or on the link.
\<close>

section \<open>The arbiter\<close>

definition rotation :: "nat \<Rightarrow> nat \<Rightarrow> nat list" where
  "rotation start n = map (\<lambda>k. (start + k) mod n) [0..<n]"

lemma choose_loop_take:
  "length chosen < limit \<Longrightarrow> choose_loop valid start limit offsets chosen =
     chosen @ take (limit - length chosen) (filter ((!) valid) (map (\<lambda>k. (start + k) mod length valid) offsets))"
proof (induction offsets arbitrary: chosen)
  case (Cons k ks)
  show ?case
  proof (cases "valid ! ((start + k) mod length valid) \<and> Suc (length chosen) \<noteq> limit")
    case True
    then have "length (chosen @ [(start + k) mod length valid]) < limit" using Cons.prems by simp
    moreover have "limit - length chosen = Suc (limit - Suc (length chosen))" using Cons.prems by simp
    ultimately show ?thesis using Cons.IH True by (simp add: Let_def)
  next
    case False
    with Cons.IH [OF Cons.prems] Cons.prems show ?thesis by (auto simp: Let_def)
  qed
qed simp

lemma choose_round_robin_take:
  "0 < limit \<Longrightarrow> choose_round_robin valid start limit = take limit (filter ((!) valid) (rotation start (length valid)))"
  by (simp add: choose_round_robin_def choose_loop_take rotation_def)

lemma rotation_rotate: "rotation start n = rotate start [0..<n]"
  by (rule nth_equalityI) (auto simp: rotation_def nth_rotate add.commute)

lemma rotation_set [simp]: "set (rotation start n) = {0..<n}" "distinct (rotation start n)" "length (rotation start n) = n"
  by (simp_all add: rotation_rotate)

lemma choose_set:
  assumes "0 < limit"
  shows "distinct (choose_round_robin valid start limit)" "length (choose_round_robin valid start limit) \<le> limit"
    and "i \<in> set (choose_round_robin valid start limit) \<Longrightarrow> i < length valid \<and> valid ! i"
proof -
  show "distinct (choose_round_robin valid start limit)" "length (choose_round_robin valid start limit) \<le> limit"
    by (simp_all add: choose_round_robin_take [OF assms])
  assume "i \<in> set (choose_round_robin valid start limit)"
  then have "i \<in> set (filter ((!) valid) (rotation start (length valid)))"
    unfolding choose_round_robin_take [OF assms] by (rule in_set_takeD)
  then show "i < length valid \<and> valid ! i" by simp
qed

lemma choose_nonempty:
  assumes "0 < limit" "i < length valid" "valid ! i"
  shows "choose_round_robin valid start limit \<noteq> []"
proof -
  have "i \<in> set (filter ((!) valid) (rotation start (length valid)))" using assms by simp
  then have "filter ((!) valid) (rotation start (length valid)) \<noteq> []" by (metis empty_iff list.set(1))
  then show ?thesis using assms(1) by (simp add: choose_round_robin_take)
qed

text \<open>How far the index \<open>i\<close> is from having the turn, when the turn is at \<open>start\<close>.\<close>

definition turn_distance :: "nat \<Rightarrow> nat \<Rightarrow> nat \<Rightarrow> nat" where
  "turn_distance n start i = (i + n - start) mod n"

lemma turn_distance_add:
  assumes "start < n" "d < n"
  shows "turn_distance n start ((start + d) mod n) = d"
proof (cases "start + d < n")
  case False
  then have "(start + d) mod n = start + d - n" using assms by (simp add: mod_if)
  with False assms show ?thesis by (simp add: turn_distance_def)
qed (use assms in \<open>simp add: turn_distance_def\<close>)

lemma take_filter_last:
  assumes "take k (filter P ys) \<noteq> []"
  shows "\<exists>q < length ys. ys ! q = last (take k (filter P ys)) \<and> length (take k (filter P ys)) \<le> Suc q"
  using assms
proof (induction ys arbitrary: k)
  case (Cons y ys)
  show ?case
  proof (cases "P y")
    case True
    with Cons.prems obtain k' where k: "k = Suc k'" by (cases k) auto
    show ?thesis
    proof (cases "take k' (filter P ys) = []")
      case True
      with k \<open>P y\<close> show ?thesis by (intro exI [of _ 0]) (auto simp: last_ConsL)
    next
      case False
      from Cons.IH [OF this] obtain q where "q < length ys" "ys ! q = last (take k' (filter P ys))"
        "length (take k' (filter P ys)) \<le> Suc q" by blast
      with k \<open>P y\<close> False show ?thesis by (intro exI [of _ "Suc q"]) (auto simp: last_ConsR)
    qed
  next
    case False
    with Cons.prems Cons.IH [of k] obtain q where "q < length ys" "ys ! q = last (take k (filter P ys))"
      "length (take k (filter P ys)) \<le> Suc q" by auto
    with False show ?thesis by (intro exI [of _ "Suc q"]) auto
  qed
qed simp

lemma choose_progress:
  assumes "0 < limit" "i < length valid" "valid ! i" "start < length valid"
    and "i \<notin> set (choose_round_robin valid start limit)"
  shows "length (choose_round_robin valid start limit) = limit"
    and "turn_distance (length valid) ((last (choose_round_robin valid start limit) + 1) mod length valid) i + limit
      \<le> turn_distance (length valid) start i"
proof -
  define n chosen where "n = length valid" and "chosen = choose_round_robin valid start limit"
  have n: "0 < n" "start < n" using assms(2,4) by (auto simp: n_def)
  have "i \<in> set (rotation start n)" using assms(2) by (simp add: n_def)
  then obtain p where p: "p < n" "rotation start n ! p = i" by (auto simp: in_set_conv_nth simp del: rotation_set(1))
  define ys where "ys = take p (rotation start n)"
  have split: "rotation start n = ys @ i # drop (Suc p) (rotation start n)"
    using p id_take_nth_drop [of p "rotation start n"] by (simp add: ys_def)
  have filt: "filter ((!) valid) (rotation start n) = filter ((!) valid) ys @ i # filter ((!) valid) (drop (Suc p) (rotation start n))"
    by (subst split) (simp add: assms(3))
  have many: "limit \<le> length (filter ((!) valid) ys)"
  proof (rule ccontr)
    assume "\<not> ?thesis"
    then have "i \<in> set (take limit (filter ((!) valid) (rotation start n)))"
      unfolding filt by (simp add: take_Cons' not_le)
    with assms(5) show False by (simp add: choose_round_robin_take [OF assms(1)] n_def)
  qed
  have chosen: "chosen = take limit (filter ((!) valid) ys)"
    using many by (simp add: chosen_def choose_round_robin_take [OF assms(1)] filt flip: n_def)
  then show len: "length (choose_round_robin valid start limit) = limit" using many by (simp add: chosen_def)
  then have "take limit (filter ((!) valid) ys) \<noteq> []" using assms(1) chosen by (auto simp: chosen_def)
  from take_filter_last [OF this] obtain q where
    q: "q < length ys" "ys ! q = last chosen" "length (take limit (filter ((!) valid) ys)) \<le> Suc q"
    unfolding chosen by blast
  from q(3) many have "limit \<le> Suc q" by (simp add: min.absorb2)
  have "q < p" using q(1) by (simp add: ys_def)
  have "last chosen = (start + q) mod n" using q \<open>q < p\<close> p by (simp add: ys_def rotation_def)
  then have after: "(last chosen + 1) mod n = (start + q + 1) mod n" by (simp add: mod_Suc_eq)
  have i: "i = (start + p) mod n" using p by (simp add: rotation_def)
  have "turn_distance n ((start + q + 1) mod n) i = p - q - 1"
  proof -
    have "((start + q + 1) mod n + (p - q - 1)) mod n = (start + q + 1 + (p - q - 1)) mod n"
      by (rule mod_add_left_eq)
    also have "start + q + 1 + (p - q - 1) = start + p" using \<open>q < p\<close> by simp
    finally have "((start + q + 1) mod n + (p - q - 1)) mod n = (start + p) mod n" .
    then show ?thesis using turn_distance_add [of "(start + q + 1) mod n" n "p - q - 1"] n(1) p(1) i by simp
  qed
  moreover have "turn_distance n start i = p" using turn_distance_add [OF n(2) p(1)] i by simp
  ultimately show "turn_distance (length valid) ((last (choose_round_robin valid start limit) + 1) mod length valid) i + limit
      \<le> turn_distance (length valid) start i"
    using after \<open>limit \<le> Suc q\<close> \<open>q < p\<close> by (simp flip: n_def chosen_def)
qed

section \<open>Tables of queues and slots\<close>

definition table :: "nat \<Rightarrow> nat \<Rightarrow> 'a list list \<Rightarrow> bool" where
  "table m n t \<longleftrightarrow> length t = m \<and> (\<forall>i < m. length (t ! i) = n)"

lemma table_put2 [simp]: "table m n t \<Longrightarrow> table m n (put2 t i j x)"
  by (cases "i < m") (auto simp: table_def put2_def nth_list_update)

lemma put2_nth: "table m n t \<Longrightarrow> i < m \<Longrightarrow> j < n \<Longrightarrow> put2 t i j x ! i' ! j' = (if i' = i \<and> j' = j then x else t ! i' ! j')"
  by (auto simp: table_def put2_def nth_list_update)

lemma table_replicate [simp]: "table m n (replicate m (replicate n x))"
  by (simp add: table_def)

lemma mset_put2:
  assumes "table m n t" "i < m" "j < n"
  shows "mset (concat (put2 t i j x)) + {#t ! i ! j#} = mset (concat t) + {#x#}"
proof -
  have "j < length (t ! i)" "i < length t" using assms by (auto simp: table_def)
  then have row: "mset ((t ! i)[j := x]) + {#t ! i ! j#} = mset (t ! i) + {#x#}"
    by (simp add: mset_update)
  have all: "mset (concat (t[i := (t ! i)[j := x]])) + mset (t ! i) = mset (concat t) + mset ((t ! i)[j := x])"
    using \<open>i < length t\<close> by (rule mset_concat_update)
  show ?thesis unfolding put2_def
  proof (rule multiset_eqI)
    fix z
    from arg_cong [OF row, of "\<lambda>M. count M z"] arg_cong [OF all, of "\<lambda>M. count M z"]
    show "count (mset (concat (t[i := (t ! i)[j := x]])) + {#t ! i ! j#}) z = count (mset (concat t) + {#x#}) z"
      unfolding count_union by linarith
  qed
qed

text \<open>The requests in a table of queues, and the occupied slots.\<close>

definition queued :: "event list list list \<Rightarrow> event multiset" where
  "queued queues = mset (concat (concat queues))"

definition occupied :: "int option list list \<Rightarrow> nat" where
  "occupied slots = size (filter_mset (\<lambda>x. x \<noteq> None) (mset (concat slots)))"

lemma queued_put2:
  assumes "table m n t" "i < m" "j < n"
  shows "queued (put2 t i j q) + mset (t ! i ! j) = queued t + mset q"
proof -
  have concat: "mset (concat xss) = sum_mset (image_mset mset (mset xss))" for xss :: "event list list"
    by (induction xss) auto
  show ?thesis
    using arg_cong [OF mset_put2 [OF assms, of q], of "\<lambda>M. sum_mset (image_mset mset M)"]
    by (simp add: queued_def concat [of "concat _"] add.commute)
qed

lemma occupied_put2:
  assumes "table m n t" "i < m" "j < n"
  shows "occupied (put2 t i j x) + (if t ! i ! j = None then 0 else 1) = occupied t + (if x = None then 0 else 1)"
  using arg_cong [OF mset_put2 [OF assms, of x], of "\<lambda>M. size (filter_mset (\<lambda>x. x \<noteq> None) M)"]
  by (auto simp: occupied_def split: if_splits)

lemma occupied_pos:
  assumes "0 < occupied t" "table m n t"
  shows "\<exists>i < m. \<exists>j < n. t ! i ! j \<noteq> None"
proof -
  from assms(1) have "filter_mset (\<lambda>x. x \<noteq> None) (mset (concat t)) \<noteq> {#}"
    unfolding occupied_def by (metis less_irrefl size_empty)
  then obtain x where "x \<in># filter_mset (\<lambda>x. x \<noteq> None) (mset (concat t))" by (rule multiset_nonemptyE)
  then obtain row where "row \<in> set t" "x \<in> set row" "x \<noteq> None" by auto
  then show ?thesis using assms(2) unfolding in_set_conv_nth table_def by auto
qed

end
