(* ===== verification/Shared_Ledger.thy ===== *)
theory Shared_Ledger
  imports Shared_Facts
begin

text \<open>
  The ledger of the shared pipeline replay, kept by every phase of a cycle, and what it gives
  when the loop ends.
\<close>

section \<open>The ledger\<close>

definition taps_seen :: "int option \<Rightarrow> int multiset" where
  "taps_seen n = (case n of None \<Rightarrow> {#} | Some n \<Rightarrow> mset [1..n])"

lemma taps_seen_next:
  assumes "\<And>n. seen = Some n \<Longrightarrow> 1 \<le> n"
  shows "taps_seen (Some (case seen of None \<Rightarrow> 1 | Some n \<Rightarrow> n + 1)) =
    add_mset (case seen of None \<Rightarrow> 1 | Some n \<Rightarrow> n + 1) (taps_seen seen)"
  using assms by (cases seen) (auto simp: taps_seen_def upto_rec2)

text \<open>The granted events \<open>G\<close>: with the pending and queued ones they are the trace.\<close>

definition granted :: "event multiset \<Rightarrow> shared \<Rightarrow> bool" where
  "granted G s \<longleftrightarrow> size G = s_grants s \<and>
     (\<forall>k. image_mset ev_tap (filter_mset (\<lambda>e. ev_key e = k) G) = taps_seen (s_taps s k)) \<and>
     (\<forall>k n. s_taps s k = Some n \<longrightarrow> 1 \<le> n) \<and>
     size (filter_mset (\<lambda>e. ev_tap e = 3) G) = s_finals s + occupied (s_slots s)"

definition ledger :: "event multiset \<Rightarrow> shared \<Rightarrow> bool" where
  "ledger trace s \<longleftrightarrow> table CHANNELS SOURCES_PER_CHANNEL (s_queues s) \<and> table CHANNELS SOURCES_PER_CHANNEL (s_slots s) \<and>
     (\<exists>G. granted G s \<and> trace = G + mset (s_pending s) + queued (s_queues s))"

text \<open>The link counters over the cycles passed.\<close>

definition link_counts :: "int \<Rightarrow> shared \<Rightarrow> bool" where
  "link_counts elapsed s \<longleftrightarrow> s_finals s = 2 * s_full s + s_partial s \<and>
     int (s_full s + s_partial s + s_idle s) = elapsed"

section \<open>Arrivals\<close>

lemma enqueue_ledger:
  assumes "ledger trace s" "s_pending s = event # rest" "channel < CHANNELS" "source < SOURCES_PER_CHANNEL"
  shows "ledger trace (enqueue channel source event rest s)"
proof -
  from assms(1) obtain G where t: "table CHANNELS SOURCES_PER_CHANNEL (s_queues s)" "table CHANNELS SOURCES_PER_CHANNEL (s_slots s)"
    and G: "granted G s" "trace = G + mset (s_pending s) + queued (s_queues s)" by (auto simp: ledger_def)
  have "queued (put2 (s_queues s) channel source (s_queues s ! channel ! source @ [event])) = add_mset event (queued (s_queues s))"
    using queued_put2 [OF t(1) assms(3,4), of "s_queues s ! channel ! source @ [event]"] by simp
  with t G assms(2) show ?thesis
    by (auto simp: ledger_def granted_def enqueue_def Let_def)
qed

lemma arrive_ledger:
  "arrive pending s = Inr s' \<Longrightarrow> s_pending s = pending \<Longrightarrow> ledger trace s \<Longrightarrow>
     ledger trace s' \<and> link_counts c s' = link_counts c s \<and> s_cycle s' = s_cycle s"
proof (induction pending s rule: arrive.induct)
  case (2 event rest s)
  show ?case
  proof (cases "ev_cycle event \<le> s_cycle s")
    case True
    with "2.prems" obtain channel source where i: "py_index CHANNELS (ev_channel event) = Inr channel"
        "py_index SOURCES_PER_CHANNEL (ev_source event) = Inr source"
        "arrive rest (enqueue channel source event rest s) = Inr s'"
      by (auto simp: and_then_eq_Inr)
    have "ledger trace (enqueue channel source event rest s)"
      using "2.prems" i(1,2)[THEN py_index_less] by (intro enqueue_ledger)
    with "2.IH" [OF True i(3)] show ?thesis
      by (simp add: enqueue_def Let_def link_counts_def)
  qed (use 2 in auto)
qed auto

lemma note_depth_ledger:
  "ledger trace (note_depth channel s) = ledger trace s" "link_counts c (note_depth channel s) = link_counts c s"
  "s_cycle (note_depth channel s) = s_cycle s"
  by (simp_all add: note_depth_def Let_def ledger_def granted_def link_counts_def)

lemma note_depths_ledger:
  "ledger trace (fold note_depth channels s) = ledger trace s \<and> link_counts c (fold note_depth channels s) = link_counts c s \<and>
   s_cycle (fold note_depth channels s) = s_cycle s"
  by (induction channels arbitrary: s) (simp_all add: note_depth_ledger)

section \<open>The link\<close>

lemma local_choice_occupied:
  assumes "local_choice s channel = Some source" "channel < CHANNELS" "table CHANNELS SOURCES_PER_CHANNEL (s_slots s)"
  shows "source < SOURCES_PER_CHANNEL \<and> s_slots s ! channel ! source \<noteq> None"
proof -
  have "source \<in> set (choose_round_robin (map (\<lambda>slot. slot \<noteq> None) (s_slots s ! channel)) (s_local s ! channel) 1)"
    using assms(1) by (auto simp: local_choice_def split: list.splits)
  from choose_set(3) [OF _ this] assms(2,3) show ?thesis by (auto simp: table_def)
qed

lemma drain_list:
  assumes "distinct ds" "table CHANNELS SOURCES_PER_CHANNEL (s_slots s)"
    and "\<And>d. d \<in> set ds \<Longrightarrow> d < CHANNELS \<and> the (choice ! d) < SOURCES_PER_CHANNEL \<and> s_slots s ! d ! the (choice ! d) \<noteq> None"
  shows "\<exists>slots turns. fold (drain_one choice) ds s =
      s\<lparr>s_slots := slots, s_local := turns, s_finals := s_finals s + length ds\<rparr> \<and>
    table CHANNELS SOURCES_PER_CHANNEL slots \<and> occupied slots + length ds = occupied (s_slots s)"
  using assms
proof (induction ds arbitrary: s)
  case Nil
  have "s = s\<lparr>s_slots := s_slots s, s_local := s_local s, s_finals := s_finals s + 0\<rparr>" by simp
  with Nil show ?case by (intro exI [of _ "s_slots s"] exI [of _ "s_local s"]) simp
next
  case (Cons d ds)
  have d: "d < CHANNELS" "the (choice ! d) < SOURCES_PER_CHANNEL" "s_slots s ! d ! the (choice ! d) \<noteq> None"
    using Cons.prems(3) by auto
  define t where "t = drain_one choice d s"
  have slots: "s_slots t = put2 (s_slots s) d (the (choice ! d)) None" by (simp add: t_def drain_one_def Let_def)
  have "table CHANNELS SOURCES_PER_CHANNEL (s_slots t)" using Cons.prems(2) by (simp add: slots)
  moreover have "e < CHANNELS \<and> the (choice ! e) < SOURCES_PER_CHANNEL \<and> s_slots t ! e ! the (choice ! e) \<noteq> None" if "e \<in> set ds" for e
    using that Cons.prems(1,3) put2_nth [OF Cons.prems(2) d(1,2)] by (auto simp: slots)
  ultimately obtain slots' turns where IH: "fold (drain_one choice) ds t =
      t\<lparr>s_slots := slots', s_local := turns, s_finals := s_finals t + length ds\<rparr>"
    "table CHANNELS SOURCES_PER_CHANNEL slots'" "occupied slots' + length ds = occupied (s_slots t)"
    using Cons.IH [of t] Cons.prems(1) by auto
  have "occupied (s_slots t) + 1 = occupied (s_slots s)"
    using occupied_put2 [OF Cons.prems(2) d(1,2), of None] d(3) by (simp add: slots)
  with IH show ?case
    by (intro exI [of _ slots'] exI [of _ turns]) (simp flip: t_def, simp add: t_def drain_one_def Let_def)
qed

lemma drain_effect:
  assumes "table CHANNELS SOURCES_PER_CHANNEL (s_slots s)"
  obtains ds slots turns where "length ds \<le> 2" "0 < occupied (s_slots s) \<Longrightarrow> ds \<noteq> []"
    "table CHANNELS SOURCES_PER_CHANNEL slots" "occupied slots + length ds = occupied (s_slots s)"
    "drain s = (let s' = (note_link ds s)\<lparr>s_slots := slots, s_local := turns, s_finals := s_finals (note_link ds s) + length ds\<rparr>
       in if ds = [] then s' else s'\<lparr>s_global := (last ds + 1) mod CHANNELS\<rparr>)"
proof -
  define choice where "choice = map (local_choice s) [0..<CHANNELS]"
  define ds where "ds = choose_round_robin (map (\<lambda>c. c \<noteq> None) choice) (s_global s) LINK_LANES"
  have ll: "0 < LINK_LANES" by (simp add: LINK_LANES_def)
  have len: "length ds \<le> 2" using choose_set(2) [OF ll] by (simp add: ds_def LINK_LANES_def)
  have slots: "s_slots (note_link ds s) = s_slots s" by (simp add: note_link_def)
  have "d < CHANNELS \<and> the (choice ! d) < SOURCES_PER_CHANNEL \<and> s_slots (note_link ds s) ! d ! the (choice ! d) \<noteq> None"
    if "d \<in> set ds" for d
  proof -
    from choose_set(3) [OF ll that [unfolded ds_def]] have "d < CHANNELS" "choice ! d \<noteq> None"
      by (auto simp: choice_def)
    moreover have "choice ! d = local_choice s d" using \<open>d < CHANNELS\<close> by (simp add: choice_def)
    ultimately obtain source where "local_choice s d = Some source" by auto
    from local_choice_occupied [OF this \<open>d < CHANNELS\<close> assms] this \<open>choice ! d = local_choice s d\<close> \<open>d < CHANNELS\<close>
    show ?thesis by (simp add: note_link_def)
  qed
  moreover have "distinct ds" using choose_set(1) [OF ll] by (simp add: ds_def)
  ultimately obtain slots' turns where d: "fold (drain_one choice) ds (note_link ds s) =
      (note_link ds s)\<lparr>s_slots := slots', s_local := turns, s_finals := s_finals (note_link ds s) + length ds\<rparr>"
    "table CHANNELS SOURCES_PER_CHANNEL slots'" "occupied slots' + length ds = occupied (s_slots s)"
    using drain_list [of ds "note_link ds s" choice] assms slots by auto
  have "ds \<noteq> []" if occ: "0 < occupied (s_slots s)"
  proof -
    obtain c r where c: "c < CHANNELS" "r < SOURCES_PER_CHANNEL" "s_slots s ! c ! r \<noteq> None"
      using occupied_pos [OF occ assms] by blast
    have "choose_round_robin (map (\<lambda>slot. slot \<noteq> None) (s_slots s ! c)) (s_local s ! c) 1 \<noteq> []"
      using c assms by (intro choose_nonempty [of _ r]) (simp_all add: table_def)
    then have "local_choice s c \<noteq> None" by (auto simp: local_choice_def split: list.split)
    then show ?thesis unfolding ds_def using ll c(1) by (intro choose_nonempty [of _ c]) (simp_all add: choice_def)
  qed
  from that [OF len this d(2,3)] show ?thesis
    unfolding drain_def Let_def choice_def [symmetric] ds_def [symmetric] d(1) by blast
qed

lemma note_link_sel:
  assumes "length ds \<le> 2"
  shows "s_queues (note_link ds s) = s_queues s" "s_pending (note_link ds s) = s_pending s" "s_taps (note_link ds s) = s_taps s"
    "s_grants (note_link ds s) = s_grants s" "s_finals (note_link ds s) = s_finals s" "s_cycle (note_link ds s) = s_cycle s"
    "s_full (note_link ds s) = s_full s + (if length ds = 2 then 1 else 0)"
    "s_partial (note_link ds s) = s_partial s + (if length ds = 1 then 1 else 0)"
    "s_idle (note_link ds s) = s_idle s + (if length ds = 0 then 1 else 0)"
  using assms by (auto simp: note_link_def LINK_LANES_def le_Suc_eq numeral_2_eq_2)

lemma drain_ledger:
  assumes "ledger trace s" "link_counts c s"
  shows "ledger trace (drain s) \<and> link_counts (c + 1) (drain s) \<and> s_cycle (drain s) = s_cycle s"
proof -
  from assms(1) obtain G where t: "table CHANNELS SOURCES_PER_CHANNEL (s_queues s)" "table CHANNELS SOURCES_PER_CHANNEL (s_slots s)"
    and G: "granted G s" "trace = G + mset (s_pending s) + queued (s_queues s)" by (auto simp: ledger_def)
  from drain_effect [OF t(2)] obtain ds slots turns where d: "length ds \<le> 2"
    "table CHANNELS SOURCES_PER_CHANNEL slots" "occupied slots + length ds = occupied (s_slots s)"
    "drain s = (let s' = (note_link ds s)\<lparr>s_slots := slots, s_local := turns, s_finals := s_finals (note_link ds s) + length ds\<rparr>
       in if ds = [] then s' else s'\<lparr>s_global := (last ds + 1) mod CHANNELS\<rparr>)" by metis
  note u = note_link_sel [OF d(1), of s]
  have "granted G (drain s)" "s_pending (drain s) = s_pending s" "s_queues (drain s) = s_queues s"
    "s_slots (drain s) = slots" "s_cycle (drain s) = s_cycle s"
    using G(1) d(3) u by (auto simp: d(4) granted_def Let_def)
  moreover have "link_counts (c + 1) (drain s)"
    using assms(2) d(1) u by (auto simp: d(4) link_counts_def Let_def le_Suc_eq numeral_2_eq_2)
  ultimately show ?thesis using t d(2) G(2) by (auto simp: ledger_def)
qed

section \<open>Grants\<close>

definition ready :: "shared \<Rightarrow> nat \<Rightarrow> nat \<Rightarrow> bool" where
  "ready s channel source \<longleftrightarrow> s_queues s ! channel ! source \<noteq> [] \<and> \<not> blocked_final s channel source"

text \<open>What a grant leaves alone: the link counters, the clock and the pending events.\<close>

definition same_link :: "shared \<Rightarrow> shared \<Rightarrow> bool" where
  "same_link s s' \<longleftrightarrow> (s_finals s', s_full s', s_partial s', s_idle s', s_cycle s', s_pending s') =
     (s_finals s, s_full s, s_partial s, s_idle s, s_cycle s, s_pending s)"

lemma granted_add:
  assumes "granted G s" "s_taps s' = (s_taps s)(ev_key event \<mapsto> ev_tap event)"
    and "ev_tap event = (case s_taps s (ev_key event) of None \<Rightarrow> 1 | Some n \<Rightarrow> n + 1)"
    and "s_grants s' = s_grants s + 1" "s_finals s' = s_finals s"
    and "occupied (s_slots s') = occupied (s_slots s) + (if ev_tap event = 3 then 1 else 0)"
  shows "granted (add_mset event G) s'"
proof -
  from assms(1) have taps: "\<And>k n. s_taps s k = Some n \<Longrightarrow> 1 \<le> n" by (simp add: granted_def)
  have "1 \<le> ev_tap event" using assms(3) taps [of "ev_key event"] by (auto split: option.splits)
  moreover have "taps_seen (Some (ev_tap event)) = add_mset (ev_tap event) (taps_seen (s_taps s (ev_key event)))"
    unfolding assms(3) by (rule taps_seen_next) (rule taps)
  ultimately show ?thesis
    using assms(1,2,4,5,6) by (auto simp: granted_def)
qed

lemma grant_ledger:
  assumes "ledger trace s" "channel < CHANNELS" "source < SOURCES_PER_CHANNEL" "ready s channel source"
    and "grant_one channel source s = Inr s'"
  shows "ledger trace s'" "same_link s s'" "other \<noteq> source \<Longrightarrow> ready s' channel other = ready s channel other"
proof -
  from assms(1) obtain G where t: "table CHANNELS SOURCES_PER_CHANNEL (s_queues s)" "table CHANNELS SOURCES_PER_CHANNEL (s_slots s)"
    and G: "granted G s" "trace = G + mset (s_pending s) + queued (s_queues s)" by (auto simp: ledger_def)
  from assms(4) obtain event queue where q: "s_queues s ! channel ! source = event # queue"
    and slot: "ev_tap event = 3 \<Longrightarrow> s_slots s ! channel ! source = None"
    by (cases "s_queues s ! channel ! source") (auto simp: ready_def blocked_final_def)
  define slots where "slots = (if ev_tap event = 3 then put2 (s_slots s) channel source (Some (ev_key event)) else s_slots s)"
  from assms(5) have tap: "ev_tap event = (case s_taps s (ev_key event) of None \<Rightarrow> 1 | Some n \<Rightarrow> n + 1)"
    and s': "s' = s\<lparr>s_queues := put2 (s_queues s) channel source queue, s_taps := (s_taps s)(ev_key event \<mapsto> ev_tap event),
      s_slots := slots, s_grants := s_grants s + 1\<rparr>"
    by (auto simp: grant_one_def q slots_def Let_def split: if_splits)
  have tables: "table CHANNELS SOURCES_PER_CHANNEL (s_queues s')" "table CHANNELS SOURCES_PER_CHANNEL (s_slots s')"
    using t by (simp_all add: s' slots_def)
  have "occupied slots = occupied (s_slots s) + (if ev_tap event = 3 then 1 else 0)"
    using occupied_put2 [OF t(2) assms(2,3), of "Some (ev_key event)"] slot by (auto simp: slots_def)
  then have "granted (add_mset event G) s'"
    by (intro granted_add [OF G(1) _ tap]) (simp_all add: s')
  moreover have "trace = add_mset event G + mset (s_pending s') + queued (s_queues s')"
    using G(2) queued_put2 [OF t(1) assms(2,3), of queue] by (simp add: s' q)
  ultimately show "ledger trace s'" using tables by (auto simp: ledger_def)
  show "same_link s s'" by (simp add: same_link_def s')
  show "ready s' channel other = ready s channel other" if "other \<noteq> source"
  proof -
    have "s_queues s' ! channel ! other = s_queues s ! channel ! other" "s_slots s' ! channel ! other = s_slots s ! channel ! other"
      using that put2_nth [OF t(1) assms(2,3)] put2_nth [OF t(2) assms(2,3)] by (simp_all add: s' slots_def)
    then show ?thesis by (simp add: ready_def blocked_final_def split: list.split)
  qed
qed

lemma grants_ledger:
  assumes "fold_r (grant_one channel) sources s = Inr s'" "ledger trace s" "channel < CHANNELS" "distinct sources"
    and "\<And>source. source \<in> set sources \<Longrightarrow> source < SOURCES_PER_CHANNEL \<and> ready s channel source"
  shows "ledger trace s' \<and> same_link s s'"
  using assms
proof (induction sources arbitrary: s)
  case (Cons source sources)
  then obtain t where t: "grant_one channel source s = Inr t" "fold_r (grant_one channel) sources t = Inr s'"
    by (auto simp: and_then_eq_Inr)
  have "source < SOURCES_PER_CHANNEL" "ready s channel source" using Cons.prems(5) by auto
  note g = grant_ledger [OF Cons.prems(2,3) this t(1)]
  have "other < SOURCES_PER_CHANNEL \<and> ready t channel other" if "other \<in> set sources" for other
    using that Cons.prems(4,5) g(3) [of other] by auto
  with Cons.IH [OF t(2) g(1) Cons.prems(3)] Cons.prems(4) g(2) show ?case
    by (auto simp: same_link_def)
qed (auto simp: same_link_def)

lemma schedule_ledger:
  assumes "schedule pipelines channel s = Inr s'" "ledger trace s" "channel < CHANNELS" "0 < pipelines"
  shows "ledger trace s' \<and> same_link s s'"
proof -
  define selected where "selected = choose_round_robin (eligible s channel) (s_scheduler s ! channel) pipelines"
  define s1 where "s1 = s\<lparr>s_backpressure := s_backpressure s + length (filter (blocked_final s channel) [0..<SOURCES_PER_CHANNEL]),
                 s_stalls := s_stalls s + (length (filter id (eligible s channel)) - pipelines)\<rparr>"
  from assms(1) obtain s2 where s2: "fold_r (grant_one channel) selected s1 = Inr s2"
    and s': "s' = (if selected = [] then s2
                   else s2\<lparr>s_scheduler := (s_scheduler s2)[channel := (last selected + 1) mod SOURCES_PER_CHANNEL]\<rparr>)"
    by (auto simp: schedule_def Let_def and_then_eq_Inr selected_def s1_def)
  have "ledger trace s1" "same_link s s1"
    using assms(2) by (simp_all add: s1_def ledger_def granted_def same_link_def)
  moreover have "source < SOURCES_PER_CHANNEL \<and> ready s1 channel source" if "source \<in> set selected" for source
  proof -
    from choose_set(3) [OF assms(4) that [unfolded selected_def]]
    have source: "source < SOURCES_PER_CHANNEL" "eligible s channel ! source" by (simp_all add: eligible_def)
    have "eligible s channel ! source = ready s channel source"
      using source(1) unfolding eligible_def ready_def by (subst nth_map) simp_all
    moreover have "ready s1 channel source = ready s channel source"
      by (simp add: ready_def blocked_final_def s1_def split: list.split)
    ultimately show ?thesis using source by simp
  qed
  moreover have "distinct selected" using choose_set(1) [OF assms(4)] by (simp add: selected_def)
  ultimately have "ledger trace s2 \<and> same_link s s2"
    using grants_ledger [OF s2 _ assms(3)] by (auto simp: same_link_def)
  then show ?thesis by (auto simp: s' ledger_def granted_def same_link_def)
qed

lemma schedules_ledger:
  assumes "fold_r (schedule pipelines) channels s = Inr s'" "ledger trace s" "set channels \<subseteq> {0..<CHANNELS}" "0 < pipelines"
  shows "ledger trace s' \<and> same_link s s'"
  using assms
proof (induction channels arbitrary: s)
  case (Cons channel channels)
  then obtain t where t: "schedule pipelines channel s = Inr t" "fold_r (schedule pipelines) channels t = Inr s'"
    by (auto simp: and_then_eq_Inr)
  from schedule_ledger [OF t(1) Cons.prems(2) _ assms(4)] Cons.prems(3) have "ledger trace t \<and> same_link s t" by auto
  with Cons.IH [OF t(2)] Cons.prems(3,4) show ?case by (auto simp: same_link_def)
qed (auto simp: same_link_def)

section \<open>A cycle\<close>

definition shared_inv :: "event list \<Rightarrow> int \<Rightarrow> shared \<Rightarrow> bool" where
  "shared_inv events first_cycle s \<longleftrightarrow> ledger (mset events) s \<and> link_counts (s_cycle s - first_cycle) s \<and>
     first_cycle \<le> s_cycle s \<and> s_cycle s - first_cycle \<le> SHARED_LIMIT"

lemma cycle_inv:
  assumes "and_then (arrive (s_pending s) s) (\<lambda>s1.
      fold_r (schedule pipelines) [0..<CHANNELS] (drain (fold note_depth [0..<CHANNELS] s1))) = Inr s2"
    and "shared_inv events first_cycle s" "0 < pipelines"
  shows "ledger (mset events) s2 \<and> link_counts (s_cycle s - first_cycle + 1) s2 \<and> s_cycle s2 = s_cycle s"
proof -
  from assms(1) obtain s1 where s1: "arrive (s_pending s) s = Inr s1"
    and s2: "fold_r (schedule pipelines) [0..<CHANNELS] (drain (fold note_depth [0..<CHANNELS] s1)) = Inr s2"
    by (auto simp: and_then_eq_Inr)
  let ?d = "fold note_depth [0..<CHANNELS] s1"
  have "ledger (mset events) ?d \<and> link_counts (s_cycle s - first_cycle) ?d \<and> s_cycle ?d = s_cycle s"
  proof -
    have "ledger (mset events) s" "link_counts (s_cycle s - first_cycle) s" using assms(2) by (simp_all add: shared_inv_def)
    with arrive_ledger [OF s1 refl, of "mset events" "s_cycle s - first_cycle"] note_depths_ledger show ?thesis by simp
  qed
  with drain_ledger [of "mset events" ?d "s_cycle s - first_cycle"]
  have "ledger (mset events) (drain ?d) \<and> link_counts (s_cycle s - first_cycle + 1) (drain ?d) \<and> s_cycle (drain ?d) = s_cycle s"
    by simp
  with schedules_ledger [OF s2 _ _ assms(3)] show ?thesis
    by (auto simp: same_link_def link_counts_def)
qed

lemma shared_init_inv: "shared_inv events first_cycle (shared_init events first_cycle)"
proof -
  have "queued (replicate CHANNELS (replicate SOURCES_PER_CHANNEL [])) = {#}"
    by (simp add: queued_def concat_replicate_trivial) 
  moreover have "occupied (replicate CHANNELS (replicate SOURCES_PER_CHANNEL None)) = 0"
    by (simp add: occupied_def)
  ultimately show ?thesis
    by (auto simp: shared_inv_def shared_init_def ledger_def granted_def link_counts_def SHARED_LIMIT_def taps_seen_def
        intro!: exI [of _ "{#}"])
qed

end
