(* ===== verification/Shared_Liveness.thy ===== *)
theory Shared_Liveness
  imports Shared_Ledger
begin

text \<open>
  Traces on which the replay converges: every event is in range, the taps of a key come in
  order from one source, and a third of the events are third taps. While work is left every
  cycle drains a slot or grants an event, so the remaining work bounds the remaining cycles.
\<close>

section \<open>Well-formed traces\<close>

definition home :: "nat \<Rightarrow> nat \<Rightarrow> event \<Rightarrow> bool" where
  "home channel source e \<longleftrightarrow> ev_channel e = int channel \<and> ev_source e = int source"

definition trace_ok :: "event list \<Rightarrow> bool" where
  "trace_ok events \<longleftrightarrow>
     (\<forall>e \<in> set events. 0 \<le> ev_channel e \<and> ev_channel e < 64 \<and> 0 \<le> ev_source e \<and> ev_source e < 8) \<and>
     (\<forall>e \<in> set events. \<forall>d \<in> set events. ev_key d = ev_key e \<longrightarrow> ev_channel d = ev_channel e \<and> ev_source d = ev_source e) \<and>
     (\<forall>k. \<exists>m. map ev_tap (filter (\<lambda>e. ev_key e = k) events) = [1..m]) \<and>
     length (filter (\<lambda>e. ev_tap e = 3) events) = length events div 3"

definition tap_count :: "int option \<Rightarrow> int" where
  "tap_count n = (case n of None \<Rightarrow> 0 | Some n \<Rightarrow> n)"

text \<open>The events granted from each source, in order, are the part of its trace before the queue.\<close>

definition history :: "event list \<Rightarrow> (nat \<Rightarrow> nat \<Rightarrow> event list) \<Rightarrow> shared \<Rightarrow> bool" where
  "history events D s \<longleftrightarrow> (\<forall>channel < CHANNELS. \<forall>source < SOURCES_PER_CHANNEL.
     filter (home channel source) events =
       D channel source @ s_queues s ! channel ! source @ filter (home channel source) (s_pending s) \<and>
     (\<forall>e \<in> set events. home channel source e \<longrightarrow>
        tap_count (s_taps s (ev_key e)) = int (length (filter (\<lambda>d. ev_key d = ev_key e) (D channel source)))))"

lemma home_unique: "home c s e \<Longrightarrow> home c' s' e \<longleftrightarrow> c' = c \<and> s' = s"
  by (auto simp: home_def)

lemma trace_ok_home:
  assumes "trace_ok events" "d \<in> set events" "e \<in> set events" "ev_key d = ev_key e"
  shows "home channel source d = home channel source e"
proof -
  have "ev_channel d = ev_channel e \<and> ev_source d = ev_source e"
    using assms unfolding trace_ok_def by blast
  then show ?thesis by (simp add: home_def)
qed

lemma history_head:
  assumes "trace_ok events" "history events D s" "channel < CHANNELS" "source < SOURCES_PER_CHANNEL"
    and "s_queues s ! channel ! source = event # queue"
  shows "event \<in> set events" "home channel source event" "ev_tap event = tap_count (s_taps s (ev_key event)) + 1"
proof -
  let ?k = "ev_key event"
  have split: "filter (home channel source) events = D channel source @ event # queue @ filter (home channel source) (s_pending s)"
    using assms(2-5) by (auto simp: history_def)
  then have "event \<in> set (filter (home channel source) events)" by simp
  then show e: "event \<in> set events" "home channel source event" by simp_all
  have same: "home channel source d" if "d \<in> set events" "ev_key d = ?k" for d
    using trace_ok_home [OF assms(1) that(1) e(1) that(2)] e(2) by simp
  have "filter (\<lambda>d. ev_key d = ?k) events = filter (\<lambda>d. ev_key d = ?k) (filter (home channel source) events)"
    unfolding filter_filter by (rule filter_cong) (use same in blast)+
  then have keys: "filter (\<lambda>d. ev_key d = ?k) events = filter (\<lambda>d. ev_key d = ?k) (D channel source) @ event #
      filter (\<lambda>d. ev_key d = ?k) (queue @ filter (home channel source) (s_pending s))"
    by (simp add: split)
  define j where "j = length (filter (\<lambda>d. ev_key d = ?k) (D channel source))"
  obtain m where m: "map ev_tap (filter (\<lambda>d. ev_key d = ?k) events) = [1..m]"
    using assms(1) unfolding trace_ok_def by blast
  then have "ev_tap event = [1..m] ! j" by (simp add: keys j_def nth_append flip: m)
  moreover have "j < length [1..m]" by (simp add: keys j_def flip: m)
  ultimately have "ev_tap event = int j + 1" by (simp add: nth_upto)
  then show "ev_tap event = tap_count (s_taps s ?k) + 1"
    using assms(2-4) e by (auto simp: history_def j_def)
qed

lemma grant_total:
  assumes "trace_ok events" "history events D s" "channel < CHANNELS" "source < SOURCES_PER_CHANNEL"
    and "table CHANNELS SOURCES_PER_CHANNEL (s_queues s)" "ready s channel source"
  shows "\<exists>s' D'. grant_one channel source s = Inr s' \<and> history events D' s'"
proof -
  from assms(6) obtain event queue where q: "s_queues s ! channel ! source = event # queue"
    by (cases "s_queues s ! channel ! source") (auto simp: ready_def)
  note h = history_head [OF assms(1-4) q]
  have "(case s_taps s (ev_key event) of None \<Rightarrow> 1 | Some n \<Rightarrow> n + 1) = ev_tap event"
    unfolding h(3) by (auto simp: tap_count_def split: option.split)
  then obtain s' where s': "grant_one channel source s = Inr s'"
    and f: "s_queues s' = put2 (s_queues s) channel source queue" "s_pending s' = s_pending s"
      "s_taps s' = (s_taps s)(ev_key event \<mapsto> ev_tap event)"
    by (auto simp: grant_one_def q Let_def)
  define D' where "D' = D(channel := (D channel)(source := D channel source @ [event]))"
  have "history events D' s'" unfolding history_def
  proof (intro allI impI conjI ballI)
    fix c r assume cr: "c < CHANNELS" "r < SOURCES_PER_CHANNEL"
    have old: "filter (home c r) events = D c r @ s_queues s ! c ! r @ filter (home c r) (s_pending s)"
      using assms(2) cr by (auto simp: history_def)
    show "filter (home c r) events = D' c r @ s_queues s' ! c ! r @ filter (home c r) (s_pending s')"
    proof (cases "c = channel \<and> r = source")
      case True
      then have "s_queues s' ! c ! r = queue" "D' c r = D c r @ [event]"
        using put2_nth [OF assms(5,3,4)] by (simp_all add: f D'_def)
      with old q True show ?thesis by (simp add: f)
    next
      case False
      then have "s_queues s' ! c ! r = s_queues s ! c ! r" "D' c r = D c r"
        using put2_nth [OF assms(5,3,4)] by (auto simp: f D'_def)
      with old show ?thesis by (simp add: f)
    qed
    fix e assume e: "e \<in> set events" "home c r e"
    have old: "tap_count (s_taps s (ev_key e)) = int (length (filter (\<lambda>d. ev_key d = ev_key e) (D c r)))"
      using assms(2) cr e by (auto simp: history_def)
    show "tap_count (s_taps s' (ev_key e)) = int (length (filter (\<lambda>d. ev_key d = ev_key e) (D' c r)))"
    proof (cases "ev_key e = ev_key event")
      case True
      then have "c = channel \<and> r = source"
        using trace_ok_home [OF assms(1) e(1) h(1)] e(2) home_unique [OF h(2)] by simp
      with True old h(3) show ?thesis by (simp add: f D'_def tap_count_def)
    next
      case False
      then show ?thesis using old by (auto simp: f D'_def)
    qed
  qed
  with s' show ?thesis by blast
qed

section \<open>Scheduling makes progress\<close>

text \<open>\<open>pot\<close> is the remaining work: two steps for an ungranted event, one for an occupied slot.\<close>

definition pot :: "nat \<Rightarrow> shared \<Rightarrow> int" where
  "pot n s = 2 * (int n - int (s_grants s)) + int (occupied (s_slots s))"

text \<open>The rows of the other channels stay as they are.\<close>

definition others_same :: "nat \<Rightarrow> shared \<Rightarrow> shared \<Rightarrow> bool" where
  "others_same channel s s' \<longleftrightarrow> (\<forall>c. c \<noteq> channel \<longrightarrow> s_queues s' ! c = s_queues s ! c \<and> s_slots s' ! c = s_slots s ! c)"

lemma grant_effect:
  assumes "grant_one channel source s = Inr s'" "ready s channel source" "channel < CHANNELS" "source < SOURCES_PER_CHANNEL"
    and "table CHANNELS SOURCES_PER_CHANNEL (s_slots s)"
  shows "s_grants s' = s_grants s + 1" "pot n s' < pot n s" "others_same channel s s'"
proof -
  from assms(1) obtain event queue where q: "s_queues s ! channel ! source = event # queue"
    and g: "s_grants s' = s_grants s + 1"
    and f: "s_queues s' = put2 (s_queues s) channel source queue"
      "s_slots s' = (if ev_tap event = 3 then put2 (s_slots s) channel source (Some (ev_key event)) else s_slots s)"
    by (auto simp: grant_one_def Let_def split: list.splits if_splits)
  show "s_grants s' = s_grants s + 1" by (rule g)
  show "others_same channel s s'" by (auto simp: others_same_def f put2_def)
  have "occupied (s_slots s') \<le> occupied (s_slots s) + 1"
    using occupied_put2 [OF assms(5,3,4), of "Some (ev_key event)"] by (auto simp: f split: if_splits)
  then show "pot n s' < pot n s" by (simp add: pot_def g)
qed

lemma ledger_tables:
  "ledger trace s \<Longrightarrow> table CHANNELS SOURCES_PER_CHANNEL (s_queues s) \<and> table CHANNELS SOURCES_PER_CHANNEL (s_slots s)"
  by (simp add: ledger_def)

lemma grants_total:
  assumes "trace_ok events" "history events D s" "ledger (mset events) s" "channel < CHANNELS" "distinct sources"
    and "\<And>source. source \<in> set sources \<Longrightarrow> source < SOURCES_PER_CHANNEL \<and> ready s channel source"
  shows "\<exists>s' D'. fold_r (grant_one channel) sources s = Inr s' \<and> history events D' s' \<and> others_same channel s s' \<and>
    pot n s' \<le> pot n s \<and> (sources \<noteq> [] \<longrightarrow> pot n s' < pot n s)"
  using assms(2,3,5,6)
proof (induction sources arbitrary: s D)
  case (Cons source sources)
  have src: "source < SOURCES_PER_CHANNEL" "ready s channel source" using Cons.prems(4) by auto
  note tables = ledger_tables [OF Cons.prems(2)]
  from grant_total [OF assms(1) Cons.prems(1) assms(4) src(1) _ src(2)] tables obtain t D1 where
    t: "grant_one channel source s = Inr t" "history events D1 t" by blast
  note g = grant_ledger [OF Cons.prems(2) assms(4) src t(1)]
  have "other < SOURCES_PER_CHANNEL \<and> ready t channel other" if "other \<in> set sources" for other
    using that Cons.prems(3,4) g(3) [of other] by auto
  with Cons.IH [OF t(2) g(1)] Cons.prems(3) obtain s' D' where
    IH: "fold_r (grant_one channel) sources t = Inr s'" "history events D' s'" "others_same channel t s'" "pot n s' \<le> pot n t"
    by auto
  have "pot n t < pot n s" "others_same channel s t"
    using grant_effect [OF t(1) src(2) assms(4) src(1)] tables by blast+
  with IH t(1) show ?case
    by (intro exI [of _ s'] exI [of _ D']) (auto simp: others_same_def)
qed (auto simp: others_same_def)

lemma eligible_ready: "source < SOURCES_PER_CHANNEL \<Longrightarrow> eligible s channel ! source = ready s channel source"
  unfolding eligible_def ready_def by (subst nth_map) simp_all

lemma schedule_total:
  assumes "trace_ok events" "history events D s" "ledger (mset events) s" "channel < CHANNELS" "0 < pipelines"
  shows "\<exists>s' D'. schedule pipelines channel s = Inr s' \<and> history events D' s' \<and> others_same channel s s' \<and>
    pot n s' \<le> pot n s \<and> ((\<exists>source < SOURCES_PER_CHANNEL. ready s channel source) \<longrightarrow> pot n s' < pot n s)"
proof -
  define selected where "selected = choose_round_robin (eligible s channel) (s_scheduler s ! channel) pipelines"
  define s1 where "s1 = s\<lparr>s_backpressure := s_backpressure s + length (filter (blocked_final s channel) [0..<SOURCES_PER_CHANNEL]),
                 s_stalls := s_stalls s + (length (filter id (eligible s channel)) - pipelines)\<rparr>"
  have s1: "history events D s1" "ledger (mset events) s1" "ready s1 channel source = ready s channel source" for source
    using assms(2,3) by (simp_all add: s1_def history_def ledger_def granted_def ready_def blocked_final_def split: list.split)
  have "source < SOURCES_PER_CHANNEL \<and> ready s1 channel source" if "source \<in> set selected" for source
    using choose_set(3) [OF assms(5) that [unfolded selected_def]] s1(3) eligible_ready [of source s channel]
    by (simp add: eligible_def [of s channel])
  moreover have "distinct selected" using choose_set(1) [OF assms(5)] by (simp add: selected_def)
  ultimately obtain s2 D' where s2: "fold_r (grant_one channel) selected s1 = Inr s2" "history events D' s2"
      "others_same channel s1 s2" "pot n s2 \<le> pot n s1" "selected \<noteq> [] \<longrightarrow> pot n s2 < pot n s1"
    using grants_total [OF assms(1) s1(1,2) assms(4), of selected n] by blast
  have sel: "selected \<noteq> []" if "source < SOURCES_PER_CHANNEL" "ready s channel source" for source
    unfolding selected_def using that assms(5) eligible_ready [OF that(1), of s channel]
    by (intro choose_nonempty [of _ source]) (simp_all add: eligible_def [of s channel])
  define s' where "s' = (if selected = [] then s2
                 else s2\<lparr>s_scheduler := (s_scheduler s2)[channel := (last selected + 1) mod SOURCES_PER_CHANNEL]\<rparr>)"
  have "schedule pipelines channel s = Inr s'"
    unfolding schedule_def Let_def selected_def [symmetric] s1_def [symmetric] s2(1) s'_def by simp
  moreover have "history events D' s'" "others_same channel s s'" "pot n s' = pot n s2" "pot n s1 = pot n s"
    using s2(2,3) by (auto simp: s'_def s1_def history_def others_same_def pot_def)
  ultimately show ?thesis using s2(4,5) sel by auto
qed

lemma others_ready: "others_same channel s t \<Longrightarrow> c \<noteq> channel \<Longrightarrow> ready t c source = ready s c source"
  by (simp add: others_same_def ready_def blocked_final_def split: list.split)

lemma schedules_total:
  assumes "trace_ok events" "history events D s" "ledger (mset events) s" "set channels \<subseteq> {0..<CHANNELS}" "0 < pipelines"
    and "distinct channels"
  shows "\<exists>s' D'. fold_r (schedule pipelines) channels s = Inr s' \<and> history events D' s' \<and> pot n s' \<le> pot n s \<and>
    ((\<exists>c \<in> set channels. \<exists>source < SOURCES_PER_CHANNEL. ready s c source) \<longrightarrow> pot n s' < pot n s)"
  using assms(2,3,4,6)
proof (induction channels arbitrary: s D)
  case (Cons channel channels)
  have c: "channel < CHANNELS" using Cons.prems(3) by simp
  from schedule_total [OF assms(1) Cons.prems(1,2) c assms(5), of n] obtain t D1 where
    t: "schedule pipelines channel s = Inr t" "history events D1 t" "others_same channel s t" "pot n t \<le> pot n s"
      "(\<exists>source < SOURCES_PER_CHANNEL. ready s channel source) \<longrightarrow> pot n t < pot n s" by blast
  have "ledger (mset events) t" using schedule_ledger [OF t(1) Cons.prems(2) c assms(5)] by simp
  with Cons.IH [OF t(2)] Cons.prems(3,4) obtain s' D' where
    IH: "fold_r (schedule pipelines) channels t = Inr s'" "history events D' s'" "pot n s' \<le> pot n t"
      "(\<exists>c \<in> set channels. \<exists>source < SOURCES_PER_CHANNEL. ready t c source) \<longrightarrow> pot n s' < pot n t"
    by auto
  have "pot n s' < pot n s" if r: "d \<in> set (channel # channels)" "source < SOURCES_PER_CHANNEL" "ready s d source" for d source
  proof (cases "d = channel")
    case True
    with r t(5) IH(3) show ?thesis by fastforce
  next
    case False
    with r others_ready [OF t(3) False] have "d \<in> set channels" "ready t d source" by auto
    with IH(4) r(2) t(4) show ?thesis by fastforce
  qed
  with IH t(1,4) show ?case by (intro exI [of _ s'] exI [of _ D']) auto
qed auto

section \<open>Arrivals and the link\<close>

lemma arrive_total:
  assumes "trace_ok events" "history events D s" "ledger (mset events) s" "s_pending s = pending"
  shows "\<exists>s'. arrive pending s = Inr s' \<and> history events D s' \<and> pot n s' = pot n s \<and> set (s_pending s') \<subseteq> set pending \<and>
    ((\<forall>e \<in> set pending. ev_cycle e \<le> s_cycle s) \<longrightarrow> s_pending s' = [])"
  using assms(2-4)
proof (induction pending arbitrary: s)
  case (Cons event rest)
  show ?case
  proof (cases "ev_cycle event \<le> s_cycle s")
    case True
    define channel source where "channel = nat (ev_channel event)" and "source = nat (ev_source event)"
    have "event \<in> set events"
      using Cons.prems(2,3) by (auto simp: ledger_def dest!: arg_cong [of "mset events" _ set_mset])
    then have range: "0 \<le> ev_channel event \<and> ev_channel event < 64 \<and> 0 \<le> ev_source event \<and> ev_source event < 8"
      using assms(1) unfolding trace_ok_def by blast
    then have i: "py_index CHANNELS (ev_channel event) = Inr channel" "py_index SOURCES_PER_CHANNEL (ev_source event) = Inr source"
      "channel < CHANNELS" "source < SOURCES_PER_CHANNEL" "home channel source event"
      by (auto simp: py_index_nonneg CHANNELS_def SOURCES_PER_CHANNEL_def channel_def source_def home_def nat_less_iff)
    let ?t = "enqueue channel source event rest s"
    have tables: "table CHANNELS SOURCES_PER_CHANNEL (s_queues s)" using ledger_tables [OF Cons.prems(2)] by blast
    have t: "s_queues ?t = put2 (s_queues s) channel source (s_queues s ! channel ! source @ [event])" "s_pending ?t = rest"
      "s_taps ?t = s_taps s" "s_cycle ?t = s_cycle s" "pot n ?t = pot n s"
      by (simp_all add: enqueue_def Let_def pot_def)
    have "history events D ?t" unfolding history_def
    proof (intro allI impI conjI ballI)
      fix c r assume cr: "c < CHANNELS" "r < SOURCES_PER_CHANNEL"
      have old: "filter (home c r) events = D c r @ s_queues s ! c ! r @ filter (home c r) (event # rest)"
        using Cons.prems(1,3) cr by (auto simp: history_def)
      show "filter (home c r) events = D c r @ s_queues ?t ! c ! r @ filter (home c r) (s_pending ?t)"
        using old home_unique [OF i(5), of c r] put2_nth [OF tables i(3,4)] by (auto simp: t split: if_splits)
      fix e assume "e \<in> set events" "home c r e"
      then show "tap_count (s_taps ?t (ev_key e)) = int (length (filter (\<lambda>d. ev_key d = ev_key e) (D c r)))"
        using Cons.prems(1) cr by (auto simp: history_def t)
    qed
    moreover have "ledger (mset events) ?t" using Cons.prems(2,3) i(3,4) by (intro enqueue_ledger)
    ultimately obtain s' where "arrive rest ?t = Inr s'" "history events D s'" "pot n s' = pot n ?t"
      "set (s_pending s') \<subseteq> set rest" "(\<forall>e \<in> set rest. ev_cycle e \<le> s_cycle ?t) \<longrightarrow> s_pending s' = []"
      using Cons.IH t(2) by blast
    with True i(1,2) t show ?thesis by auto
  qed (use Cons.prems in auto)
qed auto

lemma drain_pot:
  assumes "ledger trace s"
  shows "history events D (drain s) = history events D s" "s_pending (drain s) = s_pending s" "s_queues (drain s) = s_queues s"
    "pot n (drain s) \<le> pot n s" "0 < occupied (s_slots s) \<Longrightarrow> pot n (drain s) < pot n s"
    "occupied (s_slots (drain s)) \<le> occupied (s_slots s)" "s_grants (drain s) = s_grants s"
proof -
  from drain_effect [of s] ledger_tables [OF assms] obtain ds slots turns where d: "length ds \<le> 2"
    "0 < occupied (s_slots s) \<Longrightarrow> ds \<noteq> []" "occupied slots + length ds = occupied (s_slots s)"
    "drain s = (let s' = (note_link ds s)\<lparr>s_slots := slots, s_local := turns, s_finals := s_finals (note_link ds s) + length ds\<rparr>
       in if ds = [] then s' else s'\<lparr>s_global := (last ds + 1) mod CHANNELS\<rparr>)" by metis
  note u = note_link_sel [OF d(1), of s]
  have f: "s_queues (drain s) = s_queues s" "s_pending (drain s) = s_pending s" "s_taps (drain s) = s_taps s"
    "s_grants (drain s) = s_grants s" "s_slots (drain s) = slots"
    using u by (auto simp: d(4) Let_def)
  then show "history events D (drain s) = history events D s" "s_pending (drain s) = s_pending s"
    "s_queues (drain s) = s_queues s" "s_grants (drain s) = s_grants s" by (simp_all add: history_def)
  show "pot n (drain s) \<le> pot n s" "occupied (s_slots (drain s)) \<le> occupied (s_slots s)"
    using d(3) f by (simp_all add: pot_def)
  show "pot n (drain s) < pot n s" if "0 < occupied (s_slots s)"
    using d(2) [OF that] d(3) f by (cases ds) (simp_all add: pot_def)
qed

section \<open>The cycles that remain\<close>

definition live :: "event list \<Rightarrow> int \<Rightarrow> int \<Rightarrow> int \<Rightarrow> shared \<Rightarrow> bool" where
  "live events final first bound s \<longleftrightarrow> bound \<le> SHARED_LIMIT \<and> shared_inv events first s \<and> (\<exists>D. history events D s) \<and>
     (\<forall>e \<in> set (s_pending s). ev_cycle e \<le> final) \<and>
     s_cycle s - first + pot (length events) s + max 0 (final + 1 - s_cycle s) \<le> bound"

lemma note_depth_pot:
  "history events D (note_depth channel s) = history events D s" "pot n (note_depth channel s) = pot n s"
  "s_pending (note_depth channel s) = s_pending s"
  by (simp_all add: note_depth_def Let_def history_def pot_def)

lemma note_depths_pot:
  "history events D (fold note_depth channels s) = history events D s \<and> pot n (fold note_depth channels s) = pot n s \<and>
   s_pending (fold note_depth channels s) = s_pending s"
  by (induction channels arbitrary: s) (simp_all add: note_depth_pot)

lemma ledger_pot:
  assumes "ledger (mset events) s"
  shows "0 \<le> pot (length events) s"
    and "pot (length events) s = 0 \<Longrightarrow> trace_ok events \<Longrightarrow> s_pending s = [] \<Longrightarrow> shared_done (length events) s"
proof -
  from assms obtain G where G: "granted G s" "mset events = G + mset (s_pending s) + queued (s_queues s)"
    by (auto simp: ledger_def)
  from arg_cong [OF G(2), of size] G(1) have n: "length events = s_grants s + length (s_pending s) + size (queued (s_queues s))"
    by (simp add: granted_def)
  then show "0 \<le> pot (length events) s" by (simp add: pot_def)
  assume z: "pot (length events) s = 0" and ok: "trace_ok events" and p: "s_pending s = []"
  have eq: "2 * (int (length events) - int (s_grants s)) + int (occupied (s_slots s)) = 0" using z by (simp add: pot_def)
  moreover have "int (s_grants s) \<le> int (length events)" using n by simp
  ultimately have g: "s_grants s = length events" by (smt (verit) of_nat_0_le_iff of_nat_eq_iff)
  with eq have o: "occupied (s_slots s) = 0" by simp
  from g n have "queued (s_queues s) = {#}" by simp
  with G p have "G = mset events" by simp
  moreover have "length (filter (\<lambda>e. ev_tap e = 3) events) = length events div 3" using ok unfolding trace_ok_def by blast
  ultimately have "s_finals s = length events div 3"
    using G(1) o unfolding granted_def by (metis add_0_right mset_filter size_mset)
  moreover have "\<forall>row \<in> set (s_slots s). \<forall>slot \<in> set row. slot = None"
    using o by (auto simp: occupied_def filter_empty_conv simp flip: mset_filter)
  ultimately show "shared_done (length events) s"
    using g p by (simp add: shared_done_def list_all_iff)
qed

lemma idle_pot:
  assumes "ledger (mset events) s" "s_pending s = []" "occupied (s_slots s) = 0"
    and "\<not> (\<exists>c \<in> set [0..<CHANNELS]. \<exists>source < SOURCES_PER_CHANNEL. ready s c source)"
  shows "pot (length events) s = 0"
proof -
  from assms(1) obtain G where G: "granted G s" "mset events = G + mset (s_pending s) + queued (s_queues s)"
    and t: "table CHANNELS SOURCES_PER_CHANNEL (s_queues s)" "table CHANNELS SOURCES_PER_CHANNEL (s_slots s)"
    by (auto simp: ledger_def)
  have "s_queues s ! c ! r = []" if cr: "c < CHANNELS" "r < SOURCES_PER_CHANNEL" for c r
  proof (rule ccontr)
    assume ne: "s_queues s ! c ! r \<noteq> []"
    from assms(4) cr have "\<not> ready s c r" by auto
    with ne have "s_slots s ! c ! r \<noteq> None"
      unfolding ready_def blocked_final_def by (cases "s_queues s ! c ! r") auto
    with occupied_put2 [OF t(2) cr, of None] assms(3) show False by simp
  qed
  then have "\<forall>row \<in> set (s_queues s). \<forall>q \<in> set row. q = []"
    using t(1) by (auto simp: table_def in_set_conv_nth)
  then have "concat (concat (s_queues s)) = []" by auto
  then have "G = mset events" using G(2) assms(2) by (simp add: queued_def)
  with G(1) assms(3) show ?thesis by (auto simp: granted_def pot_def)
qed

lemma live_step:
  assumes "trace_ok events" "live events final first bound s" "0 < pipelines"
  shows "(\<exists>s'. shared_cycle pipelines (length events) first s = Done s') \<or>
    (\<exists>s'. shared_cycle pipelines (length events) first s = Next s' \<and> live events final first bound s')"
proof -
  let ?n = "length events"
  from assms(2) obtain D where l: "shared_inv events first s" "history events D s"
    "\<And>e. e \<in> set (s_pending s) \<Longrightarrow> ev_cycle e \<le> final"
    and bound: "bound \<le> SHARED_LIMIT"
    and B: "s_cycle s - first + pot ?n s + max 0 (final + 1 - s_cycle s) \<le> bound" by (auto simp: live_def)
  have ledger: "ledger (mset events) s" using l(1) by (simp add: shared_inv_def)
  from arrive_total [OF assms(1) l(2) ledger refl, of ?n] obtain s1 where
    s1: "arrive (s_pending s) s = Inr s1" "history events D s1" "pot ?n s1 = pot ?n s" "set (s_pending s1) \<subseteq> set (s_pending s)"
      "(\<forall>e \<in> set (s_pending s). ev_cycle e \<le> s_cycle s) \<longrightarrow> s_pending s1 = []" by blast
  define s2 where "s2 = fold note_depth [0..<CHANNELS] s1"
  have s2: "ledger (mset events) s2" "history events D s2" "pot ?n s2 = pot ?n s" "s_pending s2 = s_pending s1"
    using arrive_ledger [OF s1(1) refl ledger] note_depths_ledger note_depths_pot s1(2,3) by (simp_all add: s2_def)
  note d = drain_pot [OF s2(1)]
  have d_ledger: "ledger (mset events) (drain s2)"
  proof -
    have "link_counts (s_cycle s - first) s2"
      using arrive_ledger [OF s1(1) refl ledger, of "s_cycle s - first"] note_depths_ledger l(1)
      by (simp add: s2_def shared_inv_def)
    then show ?thesis using drain_ledger [OF s2(1)] by blast
  qed
  have "history events D (drain s2)" using d(1) s2(2) by simp
  from schedules_total [OF assms(1) this d_ledger _ assms(3), of "[0..<CHANNELS]" ?n] obtain s3 D' where
    s3: "fold_r (schedule pipelines) [0..<CHANNELS] (drain s2) = Inr s3" "history events D' s3" "pot ?n s3 \<le> pot ?n (drain s2)"
      "(\<exists>c \<in> set [0..<CHANNELS]. \<exists>source < SOURCES_PER_CHANNEL. ready (drain s2) c source) \<longrightarrow> pot ?n s3 < pot ?n (drain s2)"
    by auto
  have body: "and_then (arrive (s_pending s) s) (\<lambda>s1.
      fold_r (schedule pipelines) [0..<CHANNELS] (drain (fold note_depth [0..<CHANNELS] s1))) = Inr s3"
    using s1(1) s3(1) by (simp add: s2_def)
  note c = cycle_inv [OF body l(1) assms(3)]
  have pending: "s_pending s3 = s_pending s1"
    using schedules_ledger [OF s3(1) d_ledger _ assms(3)] d(2) s2(4) by (simp add: same_link_def)
  have decrease: "pot ?n s3 < pot ?n s" if nd: "\<not> shared_done ?n s3" and late: "final \<le> s_cycle s"
  proof (rule ccontr)
    assume stuck: "\<not> pot ?n s3 < pot ?n s"
    have "s_pending s1 = []" using s1(5) l(3) late by fastforce
    moreover have "occupied (s_slots s2) = 0" using stuck d(4) d(5) [of ?n] s2(3) s3(3) by (metis gr0I order.strict_trans1)
    then have "occupied (s_slots (drain s2)) = 0" using d(6) by simp
    moreover have "\<not> (\<exists>c \<in> set [0..<CHANNELS]. \<exists>source < SOURCES_PER_CHANNEL. ready (drain s2) c source)"
      using stuck s3(4) d(4) [of ?n] s2(3) by (metis order.strict_trans1 order_refl order.strict_trans2)
    ultimately have "pot ?n (drain s2) = 0" using idle_pot [OF d_ledger] d(2) s2(4) by simp
    with s3(3) ledger_pot(1) c have "pot ?n s3 = 0" by fastforce
    with nd ledger_pot(2) [of events s3] c assms(1) pending \<open>s_pending s1 = []\<close> show False by simp
  qed
  show ?thesis
  proof (cases "shared_done ?n s3")
    case True
    with body show ?thesis by (simp add: shared_cycle_def)
  next
    case False
    let ?s' = "s3\<lparr>s_cycle := s_cycle s3 + 1\<rparr>"
    have less: "pot ?n s3 \<le> pot ?n s" using s3(3) d(4) [of ?n] s2(3) by simp
    have "s_cycle s + 1 - first + pot ?n s3 + max 0 (final + 1 - (s_cycle s + 1)) \<le> bound"
      using B decrease [OF False] less by (cases "final \<le> s_cycle s") (auto simp: max_def split: if_splits)
    moreover have "0 \<le> pot ?n s3" using ledger_pot(1) c by blast
    ultimately have fits: "s_cycle s3 + 1 - first \<le> SHARED_LIMIT"
      and B': "s_cycle ?s' - first + pot ?n ?s' + max 0 (final + 1 - s_cycle ?s') \<le> bound"
      using c bound by (auto simp: pot_def max_def split: if_splits)
    then have step: "shared_cycle pipelines ?n first s = Next ?s'"
      using body False by (simp add: shared_cycle_def)
    moreover have "live events final first bound ?s'"
    proof -
      have "shared_inv events first ?s'"
        using c fits l(1) by (auto simp: shared_inv_def ledger_def granted_def link_counts_def)
      moreover have "history events D' ?s'" using s3(2) by (simp add: history_def)
      moreover have "\<forall>e \<in> set (s_pending ?s'). ev_cycle e \<le> final" using l(3) s1(4) pending by auto
      ultimately show ?thesis using B' bound unfolding live_def by blast
    qed
    ultimately show ?thesis by blast
  qed
qed

end
