(* ===== verification/Shared_Props.thy ===== *)
theory Shared_Props
  imports Shared_Liveness
begin

text \<open>
  Properties of the shared pipeline replay: a fair arbiter, a replay that always ends, and
  reports that account for the whole trace.
\<close>

section \<open>Fairness of an arbiter\<close>

text \<open>
  What a client relies on: only valid indices are chosen, and an index that is valid and not
  chosen has come nearer to its turn by the number of choices made. \<open>turns\<close> is where the turn
  stands after \<open>k\<close> rounds, updated as the replay updates its round-robin pointers.
\<close>

fun turns :: "(bool list \<Rightarrow> nat \<Rightarrow> nat \<Rightarrow> nat list) \<Rightarrow> (nat \<Rightarrow> bool list) \<Rightarrow> nat \<Rightarrow> nat \<Rightarrow> nat \<Rightarrow> nat" where
  "turns pick valid limit start 0 = start"
| "turns pick valid limit start (Suc k) =
     (let chosen = pick (valid k) (turns pick valid limit start k) limit
      in if chosen = [] then turns pick valid limit start k else (last chosen + 1) mod length (valid k))"

locale arbiter =
  fixes pick :: "bool list \<Rightarrow> nat \<Rightarrow> nat \<Rightarrow> nat list"
  assumes only_valid: "0 < limit \<Longrightarrow> i \<in> set (pick valid start limit) \<Longrightarrow> i < length valid \<and> valid ! i"
    and progress: "0 < limit \<Longrightarrow> i < length valid \<Longrightarrow> valid ! i \<Longrightarrow> start < length valid \<Longrightarrow>
      i \<notin> set (pick valid start limit) \<Longrightarrow>
      pick valid start limit \<noteq> [] \<and>
      turn_distance (length valid) ((last (pick valid start limit) + 1) mod length valid) i + limit
        \<le> turn_distance (length valid) start i"
begin

lemma waiting_distance:
  assumes "0 < limit" "i < n" "start < n"
    and "\<And>k. k < m \<Longrightarrow> length (valid k) = n \<and> valid k ! i"
    and "\<And>k. k < m \<Longrightarrow> i \<notin> set (pick (valid k) (turns pick valid limit start k) limit)"
  shows "turns pick valid limit start m < n \<and>
    turn_distance n (turns pick valid limit start m) i + m * limit \<le> turn_distance n start i"
  using assms(4,5)
proof (induction m)
  case 0
  then show ?case using assms(3) by simp
next
  case (Suc m)
  define turn where "turn = turns pick valid limit start m"
  have IH: "turn < n" "turn_distance n turn i + m * limit \<le> turn_distance n start i"
    using Suc.IH Suc.prems by (auto simp: turn_def)
  have v: "length (valid m) = n" "valid m ! i" using Suc.prems(1) by auto
  have "i \<notin> set (pick (valid m) turn limit)" using Suc.prems(2) [of m] by (simp add: turn_def)
  from progress [OF assms(1) _ v(2) _ this] v assms(2) IH(1)
  have "pick (valid m) turn limit \<noteq> []"
    "turn_distance n ((last (pick (valid m) turn limit) + 1) mod n) i + limit \<le> turn_distance n turn i" by simp_all
  with IH v assms(2) show ?case by (simp add: Let_def flip: turn_def)
qed

lemma no_starvation:
  assumes "0 < limit" "i < n" "start < n" "n \<le> m * limit"
    and "\<And>k. k < m \<Longrightarrow> length (valid k) = n \<and> valid k ! i"
  shows "\<exists>k < m. i \<in> set (pick (valid k) (turns pick valid limit start k) limit)"
proof (rule ccontr)
  assume "\<not> ?thesis"
  then have "turn_distance n (turns pick valid limit start m) i + m * limit \<le> turn_distance n start i"
    using waiting_distance [OF assms(1-3), of m valid] assms(5) by blast
  moreover have "turn_distance n start i < n" using assms(2) by (simp add: turn_distance_def)
  ultimately show False using assms(4) by linarith
qed

end

interpretation rr: arbiter choose_round_robin
proof unfold_locales
  fix limit i start :: nat and valid :: "bool list"
  assume l: "0 < limit"
  show "i \<in> set (choose_round_robin valid start limit) \<Longrightarrow> i < length valid \<and> valid ! i"
    by (rule choose_set(3) [OF l])
  assume "i < length valid" "valid ! i" "start < length valid" "i \<notin> set (choose_round_robin valid start limit)"
  note p = choose_progress [OF l this]
  from p(1) l have "choose_round_robin valid start limit \<noteq> []" by auto
  with p(2) show "choose_round_robin valid start limit \<noteq> [] \<and>
      turn_distance (length valid) ((last (choose_round_robin valid start limit) + 1) mod length valid) i + limit
        \<le> turn_distance (length valid) start i" by blast
qed

section \<open>The loop\<close>

lemma shared_cycle_step:
  assumes "0 < pipelines" "shared_inv events first s"
  shows "shared_cycle pipelines n first s = Next s' \<Longrightarrow> shared_inv events first s' \<and> s_cycle s' = s_cycle s + 1"
    and "shared_cycle pipelines n first s = Done s' \<Longrightarrow> ledger (mset events) s' \<and>
      link_counts (s_cycle s' - first + 1) s' \<and> shared_done n s' \<and> s_cycle s' - first \<le> SHARED_LIMIT"
proof -
  let ?body = "and_then (arrive (s_pending s) s) (\<lambda>s1.
      fold_r (schedule pipelines) [0..<CHANNELS] (drain (fold note_depth [0..<CHANNELS] s1)))"
  have inv: "ledger (mset events) s2 \<and> link_counts (s_cycle s - first + 1) s2 \<and> s_cycle s2 = s_cycle s"
    if "?body = Inr s2" for s2 using cycle_inv [OF that assms(2,1)] .
  show "shared_inv events first s' \<and> s_cycle s' = s_cycle s + 1" if n: "shared_cycle pipelines n first s = Next s'"
  proof -
    from n obtain s2 where "?body = Inr s2" "s' = s2\<lparr>s_cycle := s_cycle s2 + 1\<rparr>" "s_cycle s2 + 1 - first \<le> SHARED_LIMIT"
      by (auto simp: shared_cycle_def split: sum.splits if_splits)
    with inv [of s2] assms(2) show ?thesis
      by (auto simp: shared_inv_def ledger_def granted_def link_counts_def)
  qed
  show "ledger (mset events) s' \<and> link_counts (s_cycle s' - first + 1) s' \<and> shared_done n s' \<and> s_cycle s' - first \<le> SHARED_LIMIT"
    if d: "shared_cycle pipelines n first s = Done s'"
  proof -
    from d have "?body = Inr s'" "shared_done n s'"
      by (auto simp: shared_cycle_def split: sum.splits if_splits)
    with inv [of s'] assms(2) show ?thesis by (auto simp: shared_inv_def)
  qed
qed

interpretation sl: cycles "shared_cycle pipelines n first" "\<lambda>s. 0 < pipelines \<and> shared_inv events first s"
    "\<lambda>s. nat (first + SHARED_LIMIT + 1 - s_cycle s)"
  for pipelines n first events
proof unfold_locales
  fix s s'
  assume "0 < pipelines \<and> shared_inv events first s" and n: "shared_cycle pipelines n first s = Next s'"
  then have p: "0 < pipelines" "shared_inv events first s" by simp_all
  note step = shared_cycle_step(1) [OF p n]
  then show "0 < pipelines \<and> shared_inv events first s'" using p(1) by simp
  show "nat (first + SHARED_LIMIT + 1 - s_cycle s') < nat (first + SHARED_LIMIT + 1 - s_cycle s)"
    using step p(2) by (simp add: shared_inv_def)
qed

lemma shared_replay_returned:
  assumes "shared_replay events pipelines = Some (Inr row)" "0 < pipelines"
  obtains s where "events \<noteq> []" "ledger (mset events) s" "link_counts (s_cycle s - ev_cycle (hd events) + 1) s"
    "shared_done (length events) s" "s_cycle s - ev_cycle (hd events) \<le> SHARED_LIMIT"
    "row = shared_row_of pipelines (ev_cycle (hd events)) s"
proof -
  from assms(1) obtain event rest s where e: "events = event # rest"
    and l: "loop (shared_cycle pipelines (length events) (ev_cycle event)) (shared_init events (ev_cycle event)) = Some (Inr s)"
    and row: "row = shared_row_of pipelines (ev_cycle event) s"
    by (auto simp: shared_replay_def and_then_eq_Inr split: list.splits)
  from sl.loop_returned [OF _ l] assms(2) shared_init_inv obtain t where
    t: "shared_inv events (ev_cycle event) t" "shared_cycle pipelines (length events) (ev_cycle event) t = Done s" by blast
  from shared_cycle_step(2) [OF assms(2) t] e row show ?thesis by (intro that [of s]) simp_all
qed

lemma shared_replay_total: "0 < pipelines \<Longrightarrow> shared_replay events pipelines \<noteq> None"
  using sl.loop_total [of pipelines events] shared_init_inv [of events]
  by (auto simp: shared_replay_def split: list.split)

section \<open>Convergence\<close>

interpretation lv: cycles "shared_cycle pipelines (length events) first"
    "\<lambda>s. 0 < pipelines \<and> trace_ok events \<and> live events final first bound s"
    "\<lambda>s. nat (first + SHARED_LIMIT + 1 - s_cycle s)"
  for pipelines events final first bound
proof unfold_locales
  fix s s'
  assume l: "0 < pipelines \<and> trace_ok events \<and> live events final first bound s"
    and n: "shared_cycle pipelines (length events) first s = Next s'"
  then have p: "0 < pipelines" "shared_inv events first s" by (simp_all add: live_def)
  note step = shared_cycle_step(1) [OF p n]
  show "0 < pipelines \<and> trace_ok events \<and> live events final first bound s'"
    using live_step [of events final first bound s pipelines] l n by auto
  show "nat (first + SHARED_LIMIT + 1 - s_cycle s') < nat (first + SHARED_LIMIT + 1 - s_cycle s)"
    using step p(2) by (simp add: shared_inv_def)
qed

lemma shared_init_live:
  assumes "first \<le> final" "\<And>e. e \<in> set events \<Longrightarrow> ev_cycle e \<le> final"
    and "final + 1 - first + 2 * int (length events) \<le> SHARED_LIMIT"
  shows "live events final first (final + 1 - first + 2 * int (length events)) (shared_init events first)"
proof -
  have "history events (\<lambda>_ _. []) (shared_init events first)"
    by (simp add: history_def shared_init_def tap_count_def)
  moreover have "pot (length events) (shared_init events first) = 2 * int (length events)"
    by (simp add: pot_def shared_init_def occupied_def)
  moreover have "s_pending (shared_init events first) = events" "s_cycle (shared_init events first) = first"
    by (simp_all add: shared_init_def)
  ultimately show ?thesis using assms shared_init_inv unfolding live_def by auto
qed

lemma replay_converges:
  assumes "trace_ok events" "events \<noteq> []" "0 < pipelines" "\<forall>e \<in> set events. ev_cycle e \<le> final"
    and "final + 1 - ev_cycle (hd events) + 2 * int (length events) \<le> 100000"
  shows "\<exists>row. shared_replay events pipelines = Some (Inr row) \<and>
    sr_cycles row \<le> final + 2 - ev_cycle (hd events) + 2 * int (length events)"
proof -
  obtain event rest where e: "events = event # rest" using assms(2) by (cases events) auto
  let ?first = "ev_cycle event" and ?bound = "final + 1 - ev_cycle event + 2 * int (length events)"
  let ?body = "shared_cycle pipelines (length events) ?first"
  have init: "0 < pipelines \<and> trace_ok events \<and> live events final ?first ?bound (shared_init events ?first)"
    using shared_init_live [of ?first final events] assms by (simp add: e SHARED_LIMIT_def)
  have run: "\<exists>t s. live events final ?first ?bound t \<and> ?body t = Done s \<and> loop ?body (shared_init events ?first) = Some (Inr s)"
    using lv.loop_ends [OF init] live_step [OF assms(1) _ assms(3)] by fastforce
  then obtain t s where t: "live events final ?first ?bound t" "?body t = Done s"
    and l: "loop ?body (shared_init events ?first) = Some (Inr s)" by blast
  have inv: "shared_inv events ?first t" using t(1) by (simp add: live_def)
  have "s_cycle s = s_cycle t"
  proof -
    from t(2) have "and_then (arrive (s_pending t) t) (\<lambda>s1.
      fold_r (schedule pipelines) [0..<CHANNELS] (drain (fold note_depth [0..<CHANNELS] s1))) = Inr s"
      by (auto simp: shared_cycle_def split: sum.splits if_splits)
    from cycle_inv [OF this inv assms(3)] show ?thesis by simp
  qed
  moreover have "s_cycle t - ?first \<le> ?bound"
    using t(1) ledger_pot(1) [of events t] inv by (auto simp: live_def shared_inv_def)
  ultimately show ?thesis
    using l by (simp add: shared_replay_def e shared_row_of_def)
qed

section \<open>A trace\<close>

text \<open>Two keys of three taps each, from two channels.\<close>

definition demo_trace :: "event list" where
  "demo_trace = map (\<lambda>(c, ch, src, k, tap). \<lparr>ev_cycle = c, ev_channel = ch, ev_source = src, ev_key = k, ev_tap = tap\<rparr>)
     [(0, 0, 0, 9, 1), (0, 3, 1, 7, 1), (1, 0, 0, 9, 2), (1, 3, 1, 7, 2), (5, 0, 0, 9, 3), (5, 3, 1, 7, 3)]"

lemma demo_trace_ok: "trace_ok demo_trace"
proof -
  have "\<exists>m. map ev_tap (filter (\<lambda>e. ev_key e = k) demo_trace) = [1..m]" for k
  proof (cases "k = 7 \<or> k = 9")
    case True
    then have "map ev_tap (filter (\<lambda>e. ev_key e = k) demo_trace) = [1..3]"
      by (auto simp: demo_trace_def upto_rec1)
    then show ?thesis by blast
  next
    case False
    then have "map ev_tap (filter (\<lambda>e. ev_key e = k) demo_trace) = [1..0]"
      by (auto simp: demo_trace_def)
    then show ?thesis by blast
  qed
  moreover have "\<forall>e \<in> set demo_trace. 0 \<le> ev_channel e \<and> ev_channel e < 64 \<and> 0 \<le> ev_source e \<and> ev_source e < 8"
    by (simp add: demo_trace_def)
  moreover have "\<forall>e \<in> set demo_trace. \<forall>d \<in> set demo_trace. ev_key d = ev_key e \<longrightarrow>
      ev_channel d = ev_channel e \<and> ev_source d = ev_source e"
    by (simp add: demo_trace_def)
  moreover have "length (filter (\<lambda>e. ev_tap e = 3) demo_trace) = length demo_trace div 3"
    by (simp add: demo_trace_def)
  ultimately show ?thesis unfolding trace_ok_def by blast
qed

lemma demo_trace_sel: "demo_trace \<noteq> []" "\<forall>e \<in> set demo_trace. ev_cycle e \<le> 5" "ev_cycle (hd demo_trace) = 0"
  "length demo_trace = 6"
  by (simp_all add: demo_trace_def)

section \<open>Properties\<close>

text \<open>
  C36: the arbiter starves no one. A requester that stays valid is chosen within any run of
  rounds whose total grant capacity is at least the number of requesters, whatever the others
  request and wherever the turn stands.
\<close>

theorem round_robin_fair:
  assumes "0 < limit" "i < n" "start < n" "n \<le> m * limit"
    and "\<And>k. k < m \<Longrightarrow> length (valid k) = n \<and> valid k ! i"
  shows "\<exists>k < m. i \<in> set (choose_round_robin (valid k) (turns choose_round_robin valid limit start k) limit)"
  using assms by (rule rr.no_starvation)

lemma round_robin_fair_witness:
  "\<exists>k < 3. 2 \<in> set (choose_round_robin [True, True, True]
     (turns choose_round_robin (\<lambda>_. [True, True, True]) 1 0 k) 1)"
  by (rule round_robin_fair [of 1 2 3 0 3 "\<lambda>_. [True, True, True]"]) (simp_all add: numeral_eq_Suc)

text \<open>The script ends on every trace, with the three rows or with an exception.\<close>

theorem shared_main_returns: "\<exists>r. shared_main rows = Some r"
proof -
  have "shared_rows events counts \<noteq> None" if "\<forall>p \<in> set counts. 0 < p" for events counts
    using that
  proof (induction counts)
    case (Cons p counts)
    then show ?case
      using shared_replay_total [of p events] by (cases "shared_replay events p") (auto split: sum.split)
  qed simp
  then show ?thesis unfolding shared_main_def by (metis (full_types) not_None_eq set_ConsD list.set(1) empty_iff zero_less_numeral zero_less_one)
qed

text \<open>
  C32: a reported row accounts for the whole trace. Every event was granted, the taps of every
  key are exactly 1 to some n, a third of the events are third taps and
  each of these crossed the link; the link counters add up to the cycles and to the bursts.
\<close>

theorem shared_row_accounts:
  assumes "shared_replay events pipelines = Some (Inr row)" "0 < pipelines"
  shows "sr_grants row = length events \<and>
    (\<forall>k. \<exists>n. image_mset ev_tap (filter_mset (\<lambda>e. ev_key e = k) (mset events)) = mset [1..n]) \<and>
    length (filter (\<lambda>e. ev_tap e = 3) events) = length events div 3 \<and> sr_finals row = length events div 3 \<and>
    sr_finals row = 2 * sr_full row + sr_partial row \<and>
    int (sr_full row + sr_partial row + sr_idle row) = sr_cycles row \<and> sr_cycles row \<le> 100001"
proof (rule shared_replay_returned [OF assms])
  fix s
  assume l: "ledger (mset events) s" and c: "link_counts (s_cycle s - ev_cycle (hd events) + 1) s"
    and d: "shared_done (length events) s" and b: "s_cycle s - ev_cycle (hd events) \<le> SHARED_LIMIT"
    and row: "row = shared_row_of pipelines (ev_cycle (hd events)) s"
  from l obtain G where G: "granted G s" "mset events = G + mset (s_pending s) + queued (s_queues s)"
    by (auto simp: ledger_def)
  from arg_cong [OF G(2), of size] G(1) d have "queued (s_queues s) = {#}"
    by (simp add: granted_def shared_done_def)
  with G d have all: "G = mset events" by (simp add: shared_done_def)
  have "occupied (s_slots s) = 0"
    using d by (auto simp: shared_done_def occupied_def list_all_iff filter_mset_eq_conv) 
  moreover have "\<exists>n. taps_seen (s_taps s k) = mset [1..n]" for k
    by (cases "s_taps s k") (auto simp: taps_seen_def intro: exI [of _ 0])
  moreover have "size (filter_mset P (mset events)) = length (filter P events)" for P
    by (simp flip: mset_filter)
  ultimately show ?thesis
    using G(1) c d b unfolding all row
    by (auto simp: granted_def shared_row_of_def link_counts_def shared_done_def SHARED_LIMIT_def)
qed

lemma shared_row_accounts_witness:
  "\<exists>row. shared_replay demo_trace 2 = Some (Inr row) \<and> sr_grants row = 6 \<and> sr_finals row = 2"
proof -
  obtain row where r: "shared_replay demo_trace 2 = Some (Inr row)"
    using replay_converges [OF demo_trace_ok, of 2 5] demo_trace_sel by auto
  from shared_row_accounts [OF r] r demo_trace_sel show ?thesis by auto
qed

text \<open>
  C17: on a non-empty trace whose events are in range, with the taps of a key in order from
  one source and a third of its events third taps, and at least one pipeline: if the cycles from
  the first to the last arrival plus two cycles per event fit in the limit of 100000, the replay
  converges. It returns a row, within two cycles per event after the last arrival, whatever the
  number of pipelines. (A trace that spans more than the limit ends in an exception.)
\<close>

theorem shared_replay_converges:
  assumes "trace_ok events" "events \<noteq> []" "0 < pipelines" "\<forall>e \<in> set events. ev_cycle e \<le> final"
    and "final + 1 - ev_cycle (hd events) + 2 * int (length events) \<le> 100000"
  shows "\<exists>row. shared_replay events pipelines = Some (Inr row) \<and>
    sr_cycles row \<le> final + 2 - ev_cycle (hd events) + 2 * int (length events)"
  using assms by (rule replay_converges)

lemma shared_replay_converges_witness:
  "\<exists>row. shared_replay demo_trace 1 = Some (Inr row) \<and> sr_cycles row \<le> 19"
  using shared_replay_converges [OF demo_trace_ok, of 1 5] demo_trace_sel by auto

end
