(* ===== verification/Rounding.thy ===== *)
theory Rounding
  imports Float64
begin

text \<open>
  Rounding to \<open>p\<close> significant bits on a grid with smallest unit \<open>2\<^sup>E\<close>, ties to even: the
  rounded value is a nearest representable one, rounding is monotone and keeps representable
  values, and rounding a sum first to enough more bits does not change the result. The
  double-precision \<open>fl\<close> of Python is the case \<open>p = 53\<close> with the grid left open below.
\<close>

section \<open>Rounding to an integer\<close>

lemma rne_nearest: "\<bar>of_int (rne x) - x\<bar> \<le> \<bar>of_int j - x\<bar>"
proof -
  have f: "of_int \<lfloor>x\<rfloor> \<le> x" "x < of_int \<lfloor>x\<rfloor> + 1" by linarith+
  show ?thesis
  proof (cases "j \<le> \<lfloor>x\<rfloor>")
    case True
    then have "(of_int j :: rat) \<le> of_int \<lfloor>x\<rfloor>" by simp
    with f show ?thesis by (auto simp: rne_def Let_def)
  next
    case False
    then have "(of_int (\<lfloor>x\<rfloor> + 1) :: rat) \<le> of_int j" by (simp only: of_int_le_iff)
    with f show ?thesis by (auto simp: rne_def Let_def)
  qed
qed

lemma rne_tie: "\<bar>of_int (rne x) - x\<bar> = \<bar>of_int j - x\<bar> \<Longrightarrow> j \<noteq> rne x \<Longrightarrow> even (rne x)"
proof -
  assume eq: "\<bar>of_int (rne x) - x\<bar> = \<bar>of_int j - x\<bar>" and ne: "j \<noteq> rne x"
  have f: "of_int \<lfloor>x\<rfloor> \<le> x" "x < of_int \<lfloor>x\<rfloor> + 1" by linarith+
  have "(of_int (rne x) :: rat) \<noteq> of_int j" using ne by simp
  with eq have "of_int (rne x) + of_int j = 2 * x" by linarith
  then have sum: "x - of_int \<lfloor>x\<rfloor> = (of_int (rne x + j - 2 * \<lfloor>x\<rfloor>)) / 2" by simp
  define k where "k = rne x + j - 2 * \<lfloor>x\<rfloor>"
  have k: "x - of_int \<lfloor>x\<rfloor> = of_int k / 2" using sum by (simp add: k_def)
  then have "0 \<le> k" "k < 2" using f by linarith+
  then consider "k = 0" | "k = 1" by linarith
  then show "even (rne x)"
  proof cases
    case 1
    with k have "x = of_int \<lfloor>x\<rfloor>" by simp
    then have "rne x = \<lfloor>x\<rfloor>" by (metis rne_of_int)
    with 1 ne show ?thesis by (simp add: k_def)
  next
    case 2
    then have "x - of_int \<lfloor>x\<rfloor> = 1/2" using k by simp
    then show ?thesis by (simp add: rne_def Let_def)
  qed
qed

section \<open>Representable values\<close>

text \<open>At most \<open>p\<close> bits on the grid \<open>2\<^sup>E\<close>; \<open>m = 2\<^sup>p\<close> is \<open>2\<^sup>p\<^sup>-\<^sup>1\<close> one place higher.\<close>

definition repr :: "nat \<Rightarrow> int \<Rightarrow> rat \<Rightarrow> bool" where
  "repr p E v \<longleftrightarrow> (\<exists>m k. v = of_int m * 2 powi k \<and> 0 \<le> m \<and> m \<le> 2 ^ p \<and> E \<le> k)"

definition unit_expo :: "nat \<Rightarrow> int \<Rightarrow> rat \<Rightarrow> int" where
  "unit_expo p E x = max (expo x - (int p - 1)) E"

definition rnd :: "nat \<Rightarrow> int \<Rightarrow> rat \<Rightarrow> rat" where
  "rnd p E x =
     (if x = 0 then 0 else let u = 2 powi unit_expo p E x in of_int (rne (x / u)) * u)"

lemma reprI: "0 \<le> m \<Longrightarrow> m \<le> 2 ^ p \<Longrightarrow> E \<le> k \<Longrightarrow> repr p E (of_int m * 2 powi k)"
  unfolding repr_def by blast

lemma repr_nonneg: "repr p E v \<Longrightarrow> 0 \<le> v"
  by (auto simp: repr_def)

lemma repr_0 [simp]: "repr p E 0"
  using reprI [of 0 p E E] by simp

lemma repr_mono: "repr p E v \<Longrightarrow> p \<le> q \<Longrightarrow> F \<le> E \<Longrightarrow> repr q F v"
proof -
  assume "repr p E v" "p \<le> q" "F \<le> E"
  then obtain m k where v: "v = of_int m * 2 powi k" "0 \<le> m" "m \<le> 2 ^ p" "E \<le> k" by (auto simp: repr_def)
  have "(2::int) ^ p \<le> 2 ^ q" using \<open>p \<le> q\<close> by simp
  with v(3) have "m \<le> 2 ^ q" by linarith
  with v(2,4) \<open>F \<le> E\<close> show ?thesis unfolding v(1) by (intro reprI) auto
qed

lemma powi_split: "(2::rat) powi (a + b) = 2 powi a * 2 powi b"
  by (simp add: power_int_add)

lemma powi_le_iff [simp]: "(2::rat) powi a \<le> 2 powi b \<longleftrightarrow> a \<le> b"
  using power_int_increasing [of a b "2::rat"] power_int_strict_increasing [of b a "2::rat"] by linarith

lemma powi_less_iff [simp]: "(2::rat) powi a < 2 powi b \<longleftrightarrow> a < b"
  by (simp flip: linorder_not_le)

lemma powi_nat: "0 \<le> k \<Longrightarrow> (2::rat) powi k = of_int (2 ^ nat k)"
  by (simp add: power_int_def)

lemma powi_sub: "(2::rat) powi (a - b) * 2 powi b = 2 powi a"
  by (simp flip: power_int_add)

lemma expo_eqI: "2 powi e \<le> x \<Longrightarrow> x < 2 powi (e + 1) \<Longrightarrow> expo x = e"
proof -
  assume a: "2 powi e \<le> x" "x < 2 powi (e + 1)"
  have "(0::rat) < 2 powi e" by simp
  then have x: "0 < x" using a(1) by linarith
  from expo_bounds [OF x] a have "2 powi expo x < (2::rat) powi (e + 1)" "2 powi e < (2::rat) powi (expo x + 1)" by linarith+
  then show ?thesis by simp
qed

lemma expo_mono: "0 < x \<Longrightarrow> x \<le> y \<Longrightarrow> expo x \<le> expo y"
proof -
  assume a: "0 < x" "x \<le> y"
  then have "2 powi expo x < (2::rat) powi (expo y + 1)"
    using expo_bounds(1) [of x] expo_bounds(2) [of y] by linarith
  then show ?thesis by simp
qed

lemma repr_powi: "E \<le> k \<Longrightarrow> repr p E (2 powi k)"
  using reprI [of 1 p E k] by simp

text \<open>A representable value in or above the binade of \<open>x\<close> is a multiple of the unit of \<open>x\<close>.\<close>

lemma repr_multiple:
  assumes "repr p E v" "0 < p" "2 powi expo x \<le> v \<or> unit_expo p E x = E"
  shows "\<exists>j. v = of_int j * 2 powi unit_expo p E x"
proof -
  define u where "u = unit_expo p E x"
  obtain m k where v: "v = of_int m * 2 powi k" "0 \<le> m" "m \<le> 2 ^ p" "E \<le> k" using assms(1) by (auto simp: repr_def)
  show ?thesis unfolding u_def [symmetric]
  proof (cases "u \<le> k")
    case True
    have "(2::rat) powi k = 2 powi (k - u) * 2 powi u" by (rule powi_sub [symmetric])
    then have "v = of_int (m * 2 ^ nat (k - u)) * 2 powi u" using True by (simp add: v(1) powi_nat)
    then show "\<exists>j. v = of_int j * 2 powi u" by blast
  next
    case False
    then have u: "u \<noteq> E" "u = expo x - (int p - 1)" using v(4) by (auto simp: u_def unit_expo_def)
    with assms(3) have lo: "2 powi expo x \<le> v" by (simp add: u_def)
    have "v \<le> of_int (2 ^ p) * 2 powi k" unfolding v(1) using v(3) by (intro mult_right_mono) (simp_all only: of_int_le_iff zero_le_power_int)
    also have "\<dots> = 2 powi (int p + k)" by (simp add: powi_split power_int_of_nat)
    also have "\<dots> \<le> 2 powi expo x" using False u by simp
    finally have "v = 2 powi expo x" using lo by simp
    also have "\<dots> = 2 powi (int p - 1) * 2 powi u" by (simp add: u(2) flip: powi_split)
    also have "\<dots> = of_int (2 ^ nat (int p - 1)) * 2 powi u" using assms(2) by (subst powi_nat) simp_all
    finally show "\<exists>j. v = of_int j * 2 powi u" by blast
  qed
qed

section \<open>Nearest and monotone\<close>

lemma rnd_repr:
  assumes "0 \<le> x" "0 < p"
  shows "repr p E (rnd p E x)"
proof (cases "x = 0")
  case True
  then show ?thesis by (simp add: rnd_def)
next
  case False
  with assms have x: "0 < x" by simp
  define u where "u = unit_expo p E x"
  have "x < 2 powi (expo x + 1)" by (rule expo_bounds(2)) fact
  also have "\<dots> \<le> 2 powi (int p + u)" by (simp add: u_def unit_expo_def)
  finally have "x < 2 ^ p * 2 powi u" by (simp add: powi_split power_int_of_nat)
  then have "x / 2 powi u \<le> of_int (2 ^ p)" by (simp add: divide_simps)
  then have "rne (x / 2 powi u) \<le> 2 ^ p" by (rule rne_le)
  moreover have "0 \<le> rne (x / 2 powi u)" using x by (intro rne_ge) simp
  moreover have "E \<le> u" by (simp add: u_def unit_expo_def)
  ultimately show ?thesis using x by (simp add: rnd_def Let_def flip: u_def) (rule reprI)
qed

lemma rnd_nonneg: "0 \<le> x \<Longrightarrow> 0 < p \<Longrightarrow> 0 \<le> rnd p E x"
  using rnd_repr repr_nonneg by blast

text \<open>
  Against a multiple of the unit rounding is as near, and on a tie even; any other
  representable value is strictly farther away.
\<close>

lemma rnd_cases:
  assumes "0 < x" "0 < p" "repr p E v"
  shows "(\<exists>j. v = of_int j * 2 powi unit_expo p E x) \<and> \<bar>rnd p E x - x\<bar> \<le> \<bar>v - x\<bar> \<or>
    \<bar>rnd p E x - x\<bar> < \<bar>v - x\<bar>"
proof -
  define u where "u = (2::rat) powi unit_expo p E x"
  have u: "0 < u" by (simp add: u_def)
  have r: "rnd p E x = of_int (rne (x / u)) * u" using assms(1) by (simp add: rnd_def Let_def u_def)
  have near: "\<bar>rnd p E x - x\<bar> \<le> \<bar>of_int j * u - x\<bar>" for j
  proof -
    have "\<bar>of_int j * u - x\<bar> = \<bar>of_int j - x / u\<bar> * u" for j
      using u by (simp add: abs_mult_pos' [symmetric] field_simps)
    then show ?thesis unfolding r using rne_nearest [of "x / u" j] u by (simp add: mult_right_mono)
  qed
  show ?thesis
  proof (cases "2 powi expo x \<le> v \<or> unit_expo p E x = E")
    case True
    from repr_multiple [OF assms(3,2) this] near show ?thesis by (auto simp: u_def)
  next
    case False
    have "repr p E (2 powi expo x)"
      using False assms(2) by (intro repr_powi) (auto simp: unit_expo_def)
    then obtain j where "2 powi expo x = of_int j * u" using repr_multiple [OF _ assms(2), of E "2 powi expo x" x] by (auto simp: u_def)
    with near have "\<bar>rnd p E x - x\<bar> \<le> \<bar>2 powi expo x - x\<bar>" by metis
    moreover have "2 powi expo x \<le> x" by (rule expo_bounds(1)) fact
    ultimately show ?thesis using False by linarith
  qed
qed

lemma rnd_nearest: "0 \<le> x \<Longrightarrow> 0 < p \<Longrightarrow> repr p E v \<Longrightarrow> \<bar>rnd p E x - x\<bar> \<le> \<bar>v - x\<bar>"
  using rnd_cases [of x p E v] by (cases "x = 0") (auto simp: rnd_def)

lemma rnd_fixed: "repr p E v \<Longrightarrow> 0 < p \<Longrightarrow> rnd p E v = v"
  using rnd_nearest [of v p E v] repr_nonneg by fastforce

text \<open>A function to nearest values of a set is monotone.\<close>

lemma nearest_mono:
  fixes f :: "rat \<Rightarrow> rat"
  assumes "\<bar>f x - x\<bar> \<le> \<bar>f y - x\<bar>" "\<bar>f y - y\<bar> \<le> \<bar>f x - y\<bar>" "x \<le> y"
  shows "f x \<le> f y"
proof (cases "x = y")
  case False
  with assms show ?thesis by linarith
qed simp

lemma rnd_mono: "0 \<le> x \<Longrightarrow> x \<le> y \<Longrightarrow> 0 < p \<Longrightarrow> rnd p E x \<le> rnd p E y"
  by (rule nearest_mono) (auto intro!: rnd_nearest rnd_repr)

section \<open>Doubles\<close>

lemma fl_rnd: "0 < x \<Longrightarrow> E \<le> expo x - 52 \<Longrightarrow> fl x = rnd 53 E x"
  by (simp add: fl_def rnd_def unit_expo_def Let_def)

lemma fl_mono: "0 \<le> x \<Longrightarrow> x \<le> y \<Longrightarrow> fl x \<le> fl y"
proof (cases "x = 0")
  case True
  assume "0 \<le> x" "x \<le> y"
  then show ?thesis using True fl_rnd [of y "expo y - 52"] rnd_nonneg [of y 53] by (cases "y = 0") (auto simp: fl_def)
next
  case False
  assume "0 \<le> x" "x \<le> y"
  with False have "0 < x" "0 < y" by auto
  then have "fl x = rnd 53 (min (expo x - 52) (expo y - 52)) x" "fl y = rnd 53 (min (expo x - 52) (expo y - 52)) y"
    by (auto intro: fl_rnd)
  with \<open>0 < x\<close> \<open>x \<le> y\<close> show ?thesis by (simp add: rnd_mono)
qed

lemma fl_fixed: "repr 53 E v \<Longrightarrow> fl v = v"
proof (cases "v = 0")
  case False
  assume "repr 53 E v"
  then have "0 < v" "repr 53 (min E (expo v - 52)) v" using False repr_nonneg [of 53 E v] by (auto elim!: repr_mono)
  then show ?thesis using fl_rnd [of v "min E (expo v - 52)"] by (simp add: rnd_fixed)
qed (simp add: fl_def)

lemma fl_nonneg: "0 \<le> x \<Longrightarrow> 0 \<le> fl x"
  using fl_mono [of 0 x] by (simp add: fl_def)

section \<open>Rounding twice\<close>

text \<open>Around a representable \<open>a\<close> no other representable value is nearer than half its unit.\<close>

lemma repr_gap:
  assumes "repr p E v" "repr p E a" "0 < p" "0 < a" "v \<noteq> a"
  shows "2 powi (unit_expo p E a - 1) \<le> \<bar>v - a\<bar>"
proof -
  define k where "k = unit_expo p E a"
  define u where "u = (2::rat) powi (k - 1)"
  have u: "0 < u" "2 powi k = 2 * u" using powi_split [of "k - 1" 1] by (simp_all add: u_def)
  have mult: "\<bar>of_int i * u - of_int j * u\<bar> \<ge> u" if "of_int i * u \<noteq> of_int j * u" for i j
  proof -
    have "i \<noteq> j" using that by blast
    then have "(of_int 1 :: rat) \<le> of_int \<bar>i - j\<bar>" unfolding of_int_le_iff by simp
    then have "(1::rat) \<le> \<bar>of_int (i - j)\<bar>" unfolding of_int_abs of_int_1 .
    then have "1 * u \<le> \<bar>of_int (i - j)\<bar> * u" using u(1) by (intro mult_right_mono) simp_all
    also have "\<dots> = \<bar>of_int (i - j) * u\<bar>" using u(1) by (simp add: abs_mult)
    also have "of_int (i - j) * u = of_int i * u - of_int j * u" by (simp add: left_diff_distrib)
    finally show ?thesis by simp
  qed
  have twice: "of_int j * 2 powi k = of_int (2 * j) * u" for j by (simp add: u(2))
  obtain j where j: "a = of_int j * 2 powi k"
    using repr_multiple [OF assms(2,3), of a] expo_bounds(1) [OF assms(4)] by (auto simp: k_def)
  have a: "a = of_int (2 * j) * u" by (simp add: j u(2))
  show ?thesis
  proof (cases "2 powi expo a \<le> v \<or> k = E")
    case True
    then obtain i where "v = of_int i * 2 powi k"
      using repr_multiple [OF assms(1,3), of a] by (auto simp: k_def)
    then have v: "v = of_int (2 * i) * u" by (simp add: u(2))
    have "of_int (2 * i) * u \<noteq> of_int (2 * j) * u" using assms(5) unfolding v a .
    then have "u \<le> \<bar>v - a\<bar>" unfolding v a by (rule mult)
    then show ?thesis by (simp only: u_def k_def)
  next
    case False
    then have small: "v < 2 powi expo a" and k: "k = expo a - (int p - 1)" "E < k"
      by (auto simp: k_def unit_expo_def max_def split: if_splits)
    have top_bits: "2 powi expo a = of_int (2 ^ p) * u"
      using powi_split [of "int p" "k - 1"] by (simp add: u_def k(1) power_int_of_nat)
    have "v \<le> 2 powi expo a - u"
    proof (rule ccontr)
      assume near: "\<not> v \<le> 2 powi expo a - u"
      have "u \<le> 2 powi (expo a - 1)" using assms(3) by (simp add: u_def k(1))
      moreover have "2 powi expo a = 2 * (2::rat) powi (expo a - 1)" using powi_split [of "expo a - 1" 1] by simp
      ultimately have "2 powi (expo a - 1) \<le> v" using near by linarith
      then have ev: "expo v = expo a - 1" using small by (intro expo_eqI) simp_all
      then have "unit_expo p E v = k - 1" using k by (simp add: unit_expo_def)
      moreover have "2 powi expo v \<le> v" using \<open>2 powi (expo a - 1) \<le> v\<close> ev by simp
      ultimately obtain i where v: "v = of_int i * u" using repr_multiple [OF assms(1,3), of v] by (auto simp: u_def)
      have "v \<noteq> 2 powi expo a" using small by simp
      then have "u \<le> \<bar>v - 2 powi expo a\<bar>" unfolding v top_bits by (rule mult)
      with small near show False by linarith
    qed
    moreover have "2 powi expo a \<le> a" by (rule expo_bounds(1)) fact
    ultimately have "u \<le> \<bar>v - a\<bar>" by linarith
    then show ?thesis by (simp only: u_def k_def)
  qed
qed

lemma rnd_near:
  assumes "repr p E a" "0 < p" "0 < a" "\<bar>y - a\<bar> < 2 powi (unit_expo p E a - 2)" "0 \<le> y"
  shows "rnd p E y = a"
proof (rule ccontr)
  assume "rnd p E y \<noteq> a"
  from repr_gap [OF rnd_repr [OF assms(5,2)] assms(1,2,3) this]
  have "2 powi (unit_expo p E a - 1) \<le> \<bar>rnd p E y - a\<bar>" .
  moreover have "(2::rat) powi (unit_expo p E a - 1) = 2 * 2 powi (unit_expo p E a - 2)"
    using powi_split [of "unit_expo p E a - 2" 1] by simp
  ultimately show False using assms(4) rnd_nearest [OF assms(5,2,1)] by linarith
qed

text \<open>
  A sum or difference of \<open>p\<close>-bit values may be rounded first to \<open>2 p + 4\<close> bits: either it is
  representable there, or the smaller operand is so small that both roundings stay at the
  larger one. \<open>R\<close> is the first rounding.
\<close>

lemma sum_repr_or_near:
  assumes "repr p E a" "repr p E b" "b \<le> a" "s = a + b \<or> s = a - b" "2 * p + 4 \<le> P" "0 < p"
  shows "repr P E s \<or> 0 < a \<and> \<bar>s - a\<bar> \<le> 2 powi (unit_expo p E a - 3)"
proof -
  obtain m k where a: "a = of_int m * 2 powi k" "0 \<le> m" "m \<le> 2 ^ p" "E \<le> k" using assms(1) by (auto simp: repr_def)
  obtain n l where b: "b = of_int n * 2 powi l" "0 \<le> n" "n \<le> 2 ^ p" "E \<le> l" using assms(2) by (auto simp: repr_def)
  define h where "h = min k l"
  have h: "E \<le> h" "h \<le> k" "h \<le> l" using a(4) b(4) by (auto simp: h_def)
  have a': "a = of_int (m * 2 ^ nat (k - h)) * 2 powi h" using powi_sub [of k h] h by (simp add: a(1) powi_nat)
  have b': "b = of_int (n * 2 ^ nat (l - h)) * 2 powi h" using powi_sub [of l h] h by (simp add: b(1) powi_nat)
  obtain j where s: "s = of_int j * 2 powi h"
  proof
    show "s = of_int (if s = a + b then m * 2 ^ nat (k - h) + n * 2 ^ nat (l - h)
        else m * 2 ^ nat (k - h) - n * 2 ^ nat (l - h)) * 2 powi h"
      using assms(4) a' b' by (auto simp: algebra_simps)
  qed
  have s0: "0 \<le> s" "s \<le> 2 * a" using assms(3,4) repr_nonneg [OF assms(2)] by auto
  have pos: "(0::rat) < 2 powi h" by simp
  have j0: "0 \<le> j" using s0(1) pos unfolding s by (simp add: zero_le_mult_iff)
  show ?thesis
  proof (cases "j \<le> 2 ^ P")
    case True
    then show ?thesis unfolding s using j0 h(1) by (intro disjI1 reprI)
  next
    case False
    have "2 powi (int P + h) = of_int (2 ^ P) * (2::rat) powi h" by (simp add: powi_split power_int_of_nat)
    also have "\<dots> < s" unfolding s using False by (intro mult_strict_right_mono) (simp_all only: of_int_less_iff not_le zero_less_power_int zero_less_numeral)
    finally have big: "2 powi (int P + h) < 2 * a" using s0(2) by linarith
    have up: "x \<le> 2 powi (int p + i)" if "x = of_int m' * 2 powi i" "m' \<le> 2 ^ p" for x :: rat and m' i
    proof -
      have "(of_int m' :: rat) \<le> of_int (2 ^ p)" using that(2) by (simp only: of_int_le_iff)
      then show ?thesis using that(1) by (simp add: powi_split power_int_of_nat mult_right_mono)
    qed
    have "2 powi (int P + h) < (2::rat) * 2 powi (int p + k)" using big up [OF a(1,3)] by linarith
    also have "\<dots> = 2 powi (int p + k + 1)" by (simp add: powi_split)
    finally have "h < k" using assms(5) by simp
    then have hl: "h = l" by (auto simp: h_def)
    have "(0::rat) < 2 powi (int P + h)" by simp
    then have apos: "0 < a" using big by linarith
    have "2 powi (int P + h) < (2::rat) * 2 powi (expo a + 1)" using big expo_bounds(2) [OF apos] by linarith
    also have "\<dots> = 2 powi (expo a + 2)" using powi_split [of "expo a + 1" 1] by (simp add: add.commute mult.commute)
    finally have "int P + h < expo a + 2" by simp
    then have "int p + l \<le> unit_expo p E a - 3" using assms(5) hl by (auto simp: unit_expo_def)
    then have "b \<le> 2 powi (unit_expo p E a - 3)"
      using up [OF b(1,3)] powi_le_iff [of "int p + l" "unit_expo p E a - 3"] by linarith
    then show ?thesis using assms(4) apos repr_nonneg [OF assms(2)] by auto
  qed
qed

lemma round_twice_sum:
  assumes "repr p E a" "repr p E b" "b \<le> a" "s = a + b \<or> s = a - b" "2 * p + 4 \<le> P" "0 < p" "F \<le> E - 3"
    and mono: "\<And>x y. 0 \<le> x \<Longrightarrow> x \<le> y \<Longrightarrow> R x \<le> R y" and fixed: "\<And>v. repr P F v \<Longrightarrow> R v = v"
  shows "rnd p E (R s) = rnd p E s"
  using sum_repr_or_near [OF assms(1-6)]
proof
  assume "repr P E s"
  then have "R s = s" using assms(7) by (intro fixed) (auto elim: repr_mono)
  then show ?thesis by simp
next
  assume near: "0 < a \<and> \<bar>s - a\<bar> \<le> 2 powi (unit_expo p E a - 3)"
  define u where "u = (2::rat) powi (unit_expo p E a - 3)"
  have u: "0 < u" by (simp add: u_def)
  have u8: "2 powi unit_expo p E a = 8 * u" "2 powi (unit_expo p E a - 2) = 2 * u"
    using powi_split [of "unit_expo p E a - 3" 3] powi_split [of "unit_expo p E a - 3" 1]
    by (simp_all add: u_def power_int_of_nat [of 2 3, simplified])
  have F: "F \<le> unit_expo p E a - 3" using assms(7) by (simp add: unit_expo_def)
  obtain j where j: "a = of_int j * 2 powi unit_expo p E a"
    using repr_multiple [OF assms(1,6), of a] expo_bounds(1) [of a] near by auto
  then have a: "a = of_int (8 * j) * u" by (simp add: u8)
  have "a / 2 powi unit_expo p E a \<le> of_int (2 ^ p)"
  proof -
    have "a < 2 powi (expo a + 1)" using near by (intro expo_bounds(2)) simp
    also have "\<dots> \<le> 2 powi (int p + unit_expo p E a)" by (simp add: unit_expo_def)
    finally show ?thesis by (simp add: powi_split power_int_of_nat divide_simps)
  qed
  moreover have "a / 2 powi unit_expo p E a = of_int j" by (subst j) simp
  ultimately have jp: "j \<le> 2 ^ p" by (simp only: of_int_le_iff)
  have j1: "1 \<le> j"
  proof -
    have "0 < of_int j * (2::rat) powi unit_expo p E a" using near j by simp
    then have "(0::rat) < of_int j" by (rule zero_less_mult_pos2) simp
    then have "0 < j" by simp
    then show ?thesis by simp
  qed
  have "8 * j + 1 \<le> 2 ^ P"
  proof -
    have "(2::int) ^ (p + 4) \<le> 2 ^ P" using assms(5) by (intro power_increasing) simp_all
    then have "16 * 2 ^ p \<le> (2::int) ^ P" by (simp add: power_add)
    with jp j1 show ?thesis by linarith
  qed
  then have "repr P F (of_int (8 * j + 1) * u)" "repr P F (of_int (8 * j - 1) * u)"
    using j1 F unfolding u_def by (intro reprI; simp)+
  then have edges: "R (a + u) = a + u" "R (a - u) = a - u" by (auto simp: a algebra_simps dest!: fixed)
  have au: "0 \<le> a - u"
  proof -
    have "(1::rat) \<le> of_int (8 * j)" using j1 by linarith
    then have "1 * u \<le> of_int (8 * j) * u" using u by (intro mult_right_mono) simp_all
    then show ?thesis by (simp add: a)
  qed
  have s: "a - u \<le> s" "s \<le> a + u" using near by (auto simp: u_def)
  then have "a - u \<le> R s" "R s \<le> a + u" using mono [of "a - u" s] mono [of s "a + u"] edges au by auto
  then have "\<bar>R s - a\<bar> < 2 * u" "\<bar>s - a\<bar> < 2 * u" "0 \<le> R s" "0 \<le> s" using s u au by auto
  then show ?thesis using rnd_near [OF assms(1,6)] near by (simp add: u8)
qed

section \<open>Encodings\<close>

text \<open>
  Formats with eight exponent bits and \<open>p\<close> bits of precision: binary32 is \<open>p = 24\<close>, BF16 is
  \<open>p = 8\<close>. \<open>magnitude p n\<close> is the value of the sign-free bits \<open>n\<close>; from \<open>top_bits p\<close> on the bits
  mean infinity or NaN, and \<open>top_bits p\<close> itself stands for \<open>2\<^sup>1\<^sup>2\<^sup>8\<close>, the first value out of range.
\<close>

definition magnitude :: "nat \<Rightarrow> nat \<Rightarrow> rat" where
  "magnitude p n =
     (let e = n div 2 ^ (p - 1); f = n mod 2 ^ (p - 1)
      in if e = 0 then of_nat f * 2 powi (- 125 - int p)
         else of_nat (2 ^ (p - 1) + f) * 2 powi (int e - 126 - int p))"

definition top_bits :: "nat \<Rightarrow> nat" where
  "top_bits p = 255 * 2 ^ (p - 1)"

definition encode :: "nat \<Rightarrow> rat \<Rightarrow> nat" where
  "encode p x =
     (if x = 0 then 0
      else let e = max (expo x) (- 126)
           in nat ((e + 126) * 2 ^ (p - 1) + rne (x / 2 powi (e - (int p - 1)))))"

text \<open>The specification: a nearest value, ties to even bits.\<close>

definition nearest_even :: "nat \<Rightarrow> rat \<Rightarrow> nat \<Rightarrow> bool" where
  "nearest_even p x n \<longleftrightarrow> n \<le> top_bits p \<and>
     (\<forall>m \<le> top_bits p. \<bar>magnitude p n - x\<bar> \<le> \<bar>magnitude p m - x\<bar>) \<and>
     (\<forall>m \<le> top_bits p. m \<noteq> n \<and> \<bar>magnitude p m - x\<bar> = \<bar>magnitude p n - x\<bar> \<longrightarrow> even n)"

lemma magnitude_form:
  assumes "M \<le> 2 ^ p" "2 ^ (p - 1) \<le> M \<or> k = 0" "0 < p"
  shows "magnitude p (k * 2 ^ (p - 1) + M) = of_nat M * 2 powi (int k - 125 - int p)"
proof -
  have two: "(2::nat) ^ p = 2 * 2 ^ (p - 1)" using assms(3) by (cases p) simp_all
  consider (sub) "M < 2 ^ (p - 1)" | (normal) "2 ^ (p - 1) \<le> M" "M < 2 ^ p" | (carry) "M = 2 ^ p"
    using assms(1) by linarith
  then show ?thesis
  proof cases
    case sub
    with assms(2) have "k = 0" by simp
    with sub show ?thesis by (simp add: magnitude_def)
  next
    case normal
    then obtain f where f: "M = 2 ^ (p - 1) + f" "f < 2 ^ (p - 1)" using two by (metis le_add_diff_inverse nat_add_left_cancel_less mult_2)
    then have "k * 2 ^ (p - 1) + M = (k + 1) * 2 ^ (p - 1) + f" by (simp add: algebra_simps)
    then have "(k * 2 ^ (p - 1) + M) div 2 ^ (p - 1) = k + 1" "(k * 2 ^ (p - 1) + M) mod 2 ^ (p - 1) = f"
      using f(2) by (simp_all only: div_mult_self3 mod_mult_self3 div_less mod_less)
    then show ?thesis by (simp add: magnitude_def f(1) algebra_simps)
  next
    case carry
    then have "k * 2 ^ (p - 1) + M = (k + 2) * 2 ^ (p - 1)" using two by (simp add: algebra_simps)
    then have "(k * 2 ^ (p - 1) + M) div 2 ^ (p - 1) = k + 2" "(k * 2 ^ (p - 1) + M) mod 2 ^ (p - 1) = 0"
      by simp_all
    moreover have "of_nat (2 ^ (p - 1)) * (2::rat) powi (int (k + 2) - 126 - int p) = of_nat (2 ^ p) * 2 powi (int k - 125 - int p)"
      using powi_split [of "int k - 125 - int p" 1] two by (simp add: algebra_simps)
    ultimately show ?thesis by (simp add: magnitude_def carry)
  qed
qed

lemma magnitude_decomp:
  assumes "0 < p"
  obtains k M where "n = k * 2 ^ (p - 1) + M" "M < 2 ^ p" "2 ^ (p - 1) \<le> M \<or> k = 0"
    "magnitude p n = of_nat M * 2 powi (int k - 125 - int p)"
proof -
  define e where "e = n div 2 ^ (p - 1)"
  have two: "(2::nat) ^ p = 2 * 2 ^ (p - 1)" using assms by (cases p) simp_all
  have n: "n = e * 2 ^ (p - 1) + n mod 2 ^ (p - 1)" unfolding e_def by (rule div_mult_mod_eq [symmetric])
  have "n mod 2 ^ (p - 1) < 2 ^ (p - 1)" by simp
  show ?thesis
  proof (cases "e = 0")
    case True
    with n \<open>n mod _ < _\<close> two have "n = 0 * 2 ^ (p - 1) + n" "n < 2 ^ p" by simp_all
    with magnitude_form [of n p 0] assms show ?thesis by (intro that [of 0 n]) simp_all
  next
    case False
    then have "e * 2 ^ (p - 1) = (e - 1) * 2 ^ (p - 1) + 2 ^ (p - 1)" by (cases e) simp_all
    then have "n = (e - 1) * 2 ^ (p - 1) + (2 ^ (p - 1) + n mod 2 ^ (p - 1))" using n by linarith
    with magnitude_form [of "2 ^ (p - 1) + n mod 2 ^ (p - 1)" p "e - 1"] \<open>n mod _ < _\<close> two assms
    show ?thesis by (intro that [of "e - 1" "2 ^ (p - 1) + n mod 2 ^ (p - 1)"]) simp_all
  qed
qed

lemma magnitude_repr:
  assumes "0 < p"
  shows "repr p (- 125 - int p) (magnitude p n)"
proof -
  obtain k M where "M < 2 ^ p" "magnitude p n = of_nat M * 2 powi (int k - 125 - int p)"
    using magnitude_decomp [OF assms, of n] by blast
  moreover from this(1) have "int M \<le> 2 ^ p" by (metis of_nat_le_iff of_nat_numeral of_nat_power less_imp_le)
  ultimately show ?thesis using reprI [of "int M" p "- 125 - int p" "int k - 125 - int p"] by simp
qed

lemma magnitude_less:
  assumes "0 < p" "m < n"
  shows "magnitude p m < magnitude p n"
  using assms(2)
proof (induction rule: less_Suc_induct)
  case (1 n)
  obtain k M where n: "n = k * 2 ^ (p - 1) + M" "M < 2 ^ p" "2 ^ (p - 1) \<le> M \<or> k = 0"
    "magnitude p n = of_nat M * 2 powi (int k - 125 - int p)" using magnitude_decomp [OF assms(1), of n] by blast
  then have "magnitude p (Suc n) = of_nat (Suc M) * 2 powi (int k - 125 - int p)"
    using magnitude_form [of "Suc M" p k] assms(1) by auto
  then show ?case by (simp add: n(4))
next
  case (2 i j k)
  then show ?case by simp
qed

lemma magnitude_le_iff [simp]: "0 < p \<Longrightarrow> magnitude p m \<le> magnitude p n \<longleftrightarrow> m \<le> n"
  using magnitude_less [of p m n] magnitude_less [of p n m] by (cases m n rule: linorder_cases) auto

lemma magnitude_eq_iff [simp]: "0 < p \<Longrightarrow> magnitude p m = magnitude p n \<longleftrightarrow> m = n"
  using magnitude_less [of p m n] magnitude_less [of p n m] by (cases m n rule: linorder_cases) auto

lemma magnitude_nonneg: "0 \<le> magnitude p n"
  by (simp add: magnitude_def Let_def)

lemma magnitude_0 [simp]: "magnitude p 0 = 0"
  by (simp add: magnitude_def)

lemma magnitude_top: "0 < p \<Longrightarrow> magnitude p (top_bits p) = 2 ^ 128"
proof -
  assume p: "0 < p"
  have "top_bits p = 254 * 2 ^ (p - 1) + 2 ^ (p - 1)" by (simp add: top_bits_def)
  then have "magnitude p (top_bits p) = of_nat (2 ^ (p - 1)) * 2 powi (int 254 - 125 - int p)"
    using magnitude_form [of "2 ^ (p - 1)" p 254] p by simp
  also have "\<dots> = 2 powi (int (p - 1)) * 2 powi (129 - int p)" by (simp add: power_int_of_nat)
  also have "\<dots> = 2 powi 128" using p by (simp add: of_nat_diff flip: powi_split)
  finally show ?thesis by (simp add: power_int_def)
qed

text \<open>Encoding is rounding.\<close>

lemma encode_form:
  assumes "0 < x" "0 < p"
  defines "M \<equiv> rne (x / 2 powi unit_expo p (- 125 - int p) x)"
  shows "int (encode p x) = (max (expo x) (- 126) + 126) * 2 ^ (p - 1) + M" "0 \<le> M" "M \<le> 2 ^ p"
    "2 ^ (p - 1) \<le> M \<or> max (expo x) (- 126) = - 126"
proof -
  define e where "e = max (expo x) (- 126)"
  have u: "unit_expo p (- 125 - int p) x = e - (int p - 1)" by (auto simp: unit_expo_def e_def)
  have M: "M = rne (x / 2 powi (e - (int p - 1)))" by (simp add: M_def u)
  show nn: "0 \<le> M" unfolding M using assms(1) by (intro rne_ge) simp
  have "x < 2 powi (expo x + 1)" by (rule expo_bounds(2)) fact
  also have "\<dots> \<le> 2 powi (int p + (e - (int p - 1)))" by (simp add: e_def)
  finally have "x < of_int (2 ^ p) * 2 powi (e - (int p - 1))" by (simp only: powi_split power_int_of_nat of_int_power of_int_numeral)
  then have "x / 2 powi (e - (int p - 1)) \<le> of_int (2 ^ p)" by (simp add: pos_divide_le_eq)
  then show "M \<le> 2 ^ p" unfolding M by (rule rne_le)
  show "int (encode p x) = (max (expo x) (- 126) + 126) * 2 ^ (p - 1) + M"
    using assms(1) nn unfolding encode_def Let_def M e_def [symmetric] by (simp add: e_def)
  show "2 ^ (p - 1) \<le> M \<or> max (expo x) (- 126) = - 126"
  proof (cases "expo x \<le> - 126")
    case False
    then have e: "e = expo x" by (simp add: e_def)
    have "2 powi (int p - 1) * 2 powi (e - (int p - 1)) = (2::rat) powi e" by (simp flip: powi_split)
    also have "\<dots> \<le> x" unfolding e by (rule expo_bounds(1)) fact
    finally have "2 powi (int p - 1) \<le> x / 2 powi (e - (int p - 1))" by (simp add: pos_le_divide_eq)
    then have "of_int (2 ^ (p - 1)) \<le> x / 2 powi (e - (int p - 1))"
      using assms(2) powi_nat [of "int p - 1"] by (simp add: nat_diff_distrib)
    then show ?thesis unfolding M by (intro disjI1 rne_ge)
  qed simp
qed

lemma magnitude_encode:
  assumes "0 \<le> x" "0 < p"
  shows "magnitude p (encode p x) = rnd p (- 125 - int p) x"
proof (cases "x = 0")
  case True
  then show ?thesis by (simp add: encode_def rnd_def)
next
  case False
  with assms(1) have x: "0 < x" by simp
  define M where "M = rne (x / 2 powi unit_expo p (- 125 - int p) x)"
  define k where "k = nat (max (expo x) (- 126) + 126)"
  note f = encode_form [OF x assms(2), folded M_def]
  have "- 126 \<le> max (expo x) (- 126)" by simp
  then have k: "int k = max (expo x) (- 126) + 126" unfolding k_def by (intro nat_0_le) linarith
  have "int (encode p x) = int (k * 2 ^ (p - 1) + nat M)" using f(1,2) by (simp add: k)
  then have enc: "encode p x = k * 2 ^ (p - 1) + nat M" by (simp only: of_nat_eq_iff)
  have "nat M \<le> 2 ^ p" using f(3) by simp
  moreover have "2 ^ (p - 1) \<le> nat M \<or> k = 0"
    using f(4)
  proof
    assume "2 ^ (p - 1) \<le> M"
    then have "nat (2 ^ (p - 1)) \<le> nat M" by (rule nat_mono)
    then show ?thesis by (simp add: nat_power_eq)
  next
    assume "max (expo x) (- 126) = - 126"
    then show ?thesis by (simp only: k_def) simp
  qed
  ultimately have "magnitude p (encode p x) = of_nat (nat M) * 2 powi (int k - 125 - int p)"
    unfolding enc using assms(2) by (rule magnitude_form)
  also have "int k - 125 - int p = unit_expo p (- 125 - int p) x" unfolding k unit_expo_def by auto
  also have "of_nat (nat M) = (of_int M :: rat)" using f(2) by simp
  finally show ?thesis using x by (simp add: rnd_def Let_def M_def)
qed

lemma encode_nearest:
  assumes "0 \<le> x" "2 \<le> p"
  shows "nearest_even p x (min (encode p x) (top_bits p))"
proof (cases "encode p x \<le> top_bits p")
  case True
  have p: "0 < p" using assms(2) by simp
  let ?n = "encode p x"
  note near = rnd_nearest [OF assms(1) p magnitude_repr [OF p]]
  have "even ?n" if m: "m \<noteq> ?n" "\<bar>magnitude p m - x\<bar> = \<bar>magnitude p ?n - x\<bar>" for m
  proof (cases "x = 0")
    case True
    then show ?thesis by (simp add: encode_def)
  next
    case False
    with assms(1) have x: "0 < x" by simp
    define u where "u = (2::rat) powi unit_expo p (- 125 - int p) x"
    have u: "0 < u" by (simp add: u_def)
    from rnd_cases [OF x p magnitude_repr [OF p, of m]] m(2) obtain j where j: "magnitude p m = of_int j * u"
      by (auto simp: u_def magnitude_encode [OF assms(1) p])
    have n: "magnitude p ?n = of_int (rne (x / u)) * u"
      using x by (simp add: magnitude_encode [OF assms(1) p] rnd_def u_def Let_def)
    have "\<bar>of_int i * u - x\<bar> = \<bar>of_int i - x / u\<bar> * u" for i
    proof -
      have "of_int i * u - x = (of_int i - x / u) * u" using u by (simp add: left_diff_distrib)
      then show ?thesis using u by (simp add: abs_mult)
    qed
    with m(2) j n u have "\<bar>of_int (rne (x / u)) - x / u\<bar> = \<bar>of_int j - x / u\<bar>" by simp
    moreover have "j \<noteq> rne (x / u)" using m(1) j n magnitude_eq_iff [OF p, of m ?n] by metis
    ultimately have "even (rne (x / u))" by (rule rne_tie)
    moreover have "even ((max (expo x) (- 126) + 126) * 2 ^ (p - 1) :: int)" using assms(2) by simp
    ultimately have "even (int ?n)" using encode_form(1) [OF x p] by (simp add: u_def)
    then show ?thesis by simp
  qed
  with True near show ?thesis by (auto simp: nearest_even_def magnitude_encode [OF assms(1) p] min_def)
next
  case False
  have p: "0 < p" using assms(2) by simp
  have "magnitude p (top_bits p) < x"
  proof (rule ccontr)
    assume "\<not> ?thesis"
    then have "rnd p (- 125 - int p) x \<le> rnd p (- 125 - int p) (magnitude p (top_bits p))"
      using assms(1) p by (intro rnd_mono) simp_all
    also have "\<dots> = magnitude p (top_bits p)" by (rule rnd_fixed [OF magnitude_repr [OF p] p])
    finally show False using False p by (simp flip: magnitude_encode [OF assms(1) p])
  qed
  moreover have "magnitude p m \<le> magnitude p (top_bits p)" if "m \<le> top_bits p" for m using that p by simp
  ultimately have "\<bar>magnitude p (top_bits p) - x\<bar> \<le> \<bar>magnitude p m - x\<bar>" if "m \<le> top_bits p" for m
    using that by force
  moreover have "even (top_bits p)" using assms(2) by (simp add: top_bits_def)
  ultimately show ?thesis using False by (simp add: nearest_even_def min_def)
qed

lemma encode_cong: "0 \<le> x \<Longrightarrow> 0 \<le> y \<Longrightarrow> 0 < p \<Longrightarrow> rnd p (- 125 - int p) x = rnd p (- 125 - int p) y \<Longrightarrow> encode p x = encode p y"
  by (simp flip: magnitude_encode)

lemma encode_magnitude: "0 < p \<Longrightarrow> encode p (magnitude p n) = n"
  by (simp add: magnitude_encode magnitude_nonneg rnd_fixed [OF magnitude_repr] flip: magnitude_eq_iff)

lemma encode_mono: "0 \<le> x \<Longrightarrow> x \<le> y \<Longrightarrow> 0 < p \<Longrightarrow> encode p x \<le> encode p y"
  using rnd_mono [of x y p "- 125 - int p"] magnitude_encode [of x p] magnitude_encode [of y p]
  by (metis magnitude_le_iff order_trans)

end
