(* ===== verification/Float_Words.thy ===== *)
theory Float_Words
  imports Rounding "HOL-Library.Word"
begin

unbundle bit_operations_syntax

text \<open>
  The floating-point helpers of the vector generators: conversion between Python floats and
  binary32 or BF16 words, rounding on the words, and the reference operations the RTL is
  compared with (\<open>tools/generate_fp32_mixed_precision_vectors.py\<close>,
  \<open>tools/generate_bf16_arithmetic_vectors.py\<close>, \<open>tools/generate_bf16_rsqrt_rtl_assets.py\<close>,
  \<open>tools/generate_normalization_scalar_vectors.py\<close>, \<open>tools/prepare_groot_rtl_accuracy_vectors.py\<close>,
  \<open>tools/evaluate_rsqrt_candidates.py\<close>, \<open>tools/analyze_groot_rtl_accuracy.py\<close>). Words are
  machine words, so the masks and carries of the scripts are those of the model.
\<close>

section \<open>Python floats\<close>

text \<open>
  A float is NaN, a signed infinity, or a sign with a magnitude. Addition and multiplication
  round the exact result once to 53 bits; sums and products of binary32 values stay inside
  the range of a double, so no double overflows or loses bits below its range.
\<close>

datatype pyfloat = NaN | Inf bool | Fin bool rat

definition signed :: "bool \<Rightarrow> rat \<Rightarrow> rat" where
  "signed s x = (if s then - x else x)"

fun negative :: "pyfloat \<Rightarrow> bool" where
  "negative (Fin s x) \<longleftrightarrow> s \<and> x \<noteq> 0"
| "negative (Inf s) \<longleftrightarrow> s"
| "negative NaN \<longleftrightarrow> False"

fun exact_add :: "pyfloat \<Rightarrow> pyfloat \<Rightarrow> pyfloat" where
  "exact_add (Fin s x) (Fin t y) =
     (let v = signed s x + signed t y in if v = 0 then Fin (s \<and> t) 0 else Fin (v < 0) \<bar>v\<bar>)"
| "exact_add (Inf s) (Inf t) = (if s = t then Inf s else NaN)"
| "exact_add (Inf s) (Fin t y) = Inf s"
| "exact_add (Fin s x) (Inf t) = Inf t"
| "exact_add a b = NaN"

fun exact_mul :: "pyfloat \<Rightarrow> pyfloat \<Rightarrow> pyfloat" where
  "exact_mul (Fin s x) (Fin t y) = Fin (s \<noteq> t) (x * y)"
| "exact_mul (Inf s) (Inf t) = Inf (s \<noteq> t)"
| "exact_mul (Inf s) (Fin t y) = (if y = 0 then NaN else Inf (s \<noteq> t))"
| "exact_mul (Fin s x) (Inf t) = (if x = 0 then NaN else Inf (s \<noteq> t))"
| "exact_mul a b = NaN"

fun double :: "pyfloat \<Rightarrow> pyfloat" where
  "double (Fin s x) = Fin s (fl x)"
| "double a = a"

definition py_add :: "pyfloat \<Rightarrow> pyfloat \<Rightarrow> pyfloat" where "py_add a b = double (exact_add a b)"
definition py_mul :: "pyfloat \<Rightarrow> pyfloat \<Rightarrow> pyfloat" where "py_mul a b = double (exact_mul a b)"

section \<open>\<open>struct\<close> with the formats \<open>f\<close> and \<open>I\<close>\<close>

text \<open>
  Packing rounds to nearest even and raises \<open>OverflowError\<close> when a finite float leaves the
  range. The word of NaN is the quiet one. All callers but one replace or canonicalise NaN, so that
  its sign and payload, which a Python float keeps, do not matter to them; the copy of the RTL
  rows takes the word of its NaN as a parameter.
\<close>

definition word32 :: "bool \<Rightarrow> nat \<Rightarrow> 32 word" where
  "word32 s n = word_of_nat (n + (if s then 2 ^ 31 else 0))"

definition unpack_f :: "32 word \<Rightarrow> pyfloat" where
  "unpack_f w =
     (let s = bit w 31; n = unat (take_bit 31 w)
      in if n < top_bits 24 then Fin s (magnitude 24 n) else if n = top_bits 24 then Inf s else NaN)"

fun pack_f :: "pyfloat \<Rightarrow> 32 word result" where
  "pack_f NaN = Inr 0x7FC00000"
| "pack_f (Inf s) = Inr (word32 s (top_bits 24))"
| "pack_f (Fin s x) =
     (if encode 24 x < top_bits 24 then Inr (word32 s (encode 24 x))
      else Inl (OverflowError ''float too large to pack with f format''))"

section \<open>Binary32 vectors\<close>

definition bits :: "pyfloat \<Rightarrow> 32 word" where
  "bits x = (case pack_f x of Inr w \<Rightarrow> w | Inl _ \<Rightarrow> if negative x then 0xFF800000 else 0x7F800000)"

definition canonical :: "32 word \<Rightarrow> 32 word" where
  "canonical word =
     (let exponent = drop_bit 23 word AND 0xFF; fraction = word AND 0x7FFFFF
      in if exponent = 0xFF \<and> fraction \<noteq> 0 then 0x7FC00000 else word)"

definition bf16 :: "32 word \<Rightarrow> 16 word" where
  "bf16 word =
     (if word AND 0x7F800000 = 0x7F800000
      then if word AND 0x007FFFFF \<noteq> 0 then 0x7FC0 else ucast (drop_bit 16 word)
      else let rounded = word + 0x7FFF + (drop_bit 16 word AND 1) in ucast (drop_bit 16 rounded))"

definition operation :: "32 word \<Rightarrow> 32 word \<Rightarrow> string \<Rightarrow> 32 word" where
  "operation lhs rhs op =
     (let a = unpack_f lhs; b = unpack_f rhs;
          result = (if op = ''add'' then py_add a b else py_mul a b)
      in canonical (bits result))"

section \<open>BF16 vectors\<close>

definition bf16_to_float :: "16 word \<Rightarrow> pyfloat" where
  "bf16_to_float b = unpack_f (push_bit 16 (ucast b))"

definition float_to_bf16 :: "pyfloat \<Rightarrow> 16 word" where
  "float_to_bf16 x =
     (if x = NaN then 0x7FC0
      else case pack_f x of
        Inl _ \<Rightarrow> if negative x then 0xFF80 else 0x7F80
      | Inr word \<Rightarrow>
          if word AND 0x7F800000 = 0x7F800000
          then if word AND 0x80000000 \<noteq> 0 then 0xFF80 else 0x7F80
          else let word = word + (0x7FFF + (drop_bit 16 word AND 1)) in ucast (drop_bit 16 word))"

text \<open>The \<open>except OverflowError\<close> of \<open>expected\<close> is dead: float \<open>+\<close> and \<open>*\<close> do not raise.\<close>

definition expected :: "16 word \<Rightarrow> 16 word \<Rightarrow> bool \<Rightarrow> 16 word" where
  "expected a b multiply =
     (let lhs = bf16_to_float a; rhs = bf16_to_float b
      in float_to_bf16 (if multiply then py_mul lhs rhs else py_add lhs rhs))"

section \<open>The other copies of the conversion\<close>

text \<open>\<open>bf16_bits\<close> of the RSQRT assets, \<open>bits\<close> of the scalar vectors, \<open>bf16_bits\<close> of the RTL rows.\<close>

definition bf16_bits :: "pyfloat \<Rightarrow> 16 word result" where
  "bf16_bits x =
     (if x = NaN then Inr 0x7FC0
      else and_then (pack_f x) (\<lambda>word.
        Inr (if word AND 0x7F800000 = 0x7F800000 then ucast (drop_bit 16 word)
             else let word = word + (0x7FFF + (drop_bit 16 word AND 1)) in ucast (drop_bit 16 word))))"

definition scalar_bits :: "pyfloat \<Rightarrow> 16 word result" where
  "scalar_bits x =
     (if x = NaN then Inr 0x7FC0
      else and_then (pack_f x) (\<lambda>word.
        let word = (if word AND 0x7F800000 \<noteq> 0x7F800000
                    then word + (0x7FFF + (drop_bit 16 word AND 1)) else word)
        in Inr (ucast (drop_bit 16 word))))"

text \<open>This copy does not single out NaN: \<open>nan_word\<close> is the word its sign and payload give.\<close>

definition row_bits :: "32 word \<Rightarrow> pyfloat \<Rightarrow> 16 word result" where
  "row_bits nan_word x =
     and_then (if x = NaN then Inr nan_word else pack_f x) (\<lambda>word.
       let word = (if word AND 0x7F800000 \<noteq> 0x7F800000
                   then word + (0x7FFF + (drop_bit 16 word AND 1)) else word)
       in Inr (ucast (drop_bit 16 word)))"

definition qneg :: "pyfloat \<Rightarrow> pyfloat result" where
  "qneg x = and_then (scalar_bits x) (\<lambda>w.
     let encoded = w XOR 0x8000 in Inr (unpack_f (push_bit 16 (ucast encoded))))"

text \<open>The quantizers of the RSQRT study work on floats.\<close>

definition fp32 :: "pyfloat \<Rightarrow> pyfloat result" where
  "fp32 x = and_then (pack_f x) (\<lambda>w. Inr (unpack_f w))"

definition bf16_value :: "pyfloat \<Rightarrow> pyfloat result" where
  "bf16_value x =
     and_then (fp32 x) (\<lambda>y.
     and_then (pack_f y) (\<lambda>bits.
       let exponent = bits AND 0x7F800000
       in Inr (if exponent = 0x7F800000 then unpack_f (bits AND 0xFFFF0000)
               else let rounded = bits + (0x7FFF + (drop_bit 16 bits AND 1))
                    in unpack_f (rounded AND 0xFFFF0000))))"

text \<open>\<open>ordered\<close> of the accuracy report, and the distance in units of the last place.\<close>

definition ordered :: "16 word \<Rightarrow> int" where
  "ordered word =
     (if word AND 0x8000 \<noteq> 0 then 0x8000 - uint (word AND 0x7FFF) else 0x8000 + uint word)"

definition ulps :: "16 word \<Rightarrow> 16 word \<Rightarrow> int" where
  "ulps a e = \<bar>ordered a - ordered e\<bar>"

end
