(* ===== verification/Float_Words_Props.thy ===== *)
theory Float_Words_Props
  imports Float_Words
begin

text \<open>
  The vector generators compute correctly rounded arithmetic: the word-level rounding to BF16
  is rounding to nearest even, and rounding first to a double or to binary32 never changes a
  sum or product. Also here: the copies of the conversion agree, and \<open>ulps\<close> counts the BF16
  values between two words.
\<close>

section \<open>Words as a sign and magnitude bits\<close>

definition word16 :: "bool \<Rightarrow> nat \<Rightarrow> 16 word" where
  "word16 s n = word_of_nat (n + (if s then 2 ^ 15 else 0))"

lemma top_bits_sel [simp]: "top_bits 24 = 0x7F800000" "top_bits 8 = 0x7F80"
  by (simp_all add: top_bits_def)

lemma unat_of_nat_less: "m < 2 ^ LENGTH('a) \<Longrightarrow> unat (word_of_nat m :: 'a::len word) = m"
  by (simp add: unsigned_of_nat take_bit_nat_eq_self)

lemma unat_word32: "n < 2 ^ 31 \<Longrightarrow> unat (word32 s n) = n + (if s then 2 ^ 31 else 0)"
  unfolding word32_def by (rule unat_of_nat_less) simp

lemma unat_word16: "n < 2 ^ 15 \<Longrightarrow> unat (word16 s n) = n + (if s then 2 ^ 15 else 0)"
  unfolding word16_def by (rule unat_of_nat_less) simp

lemma sign_split:
  assumes "m < 2 * 2 ^ k"
  shows "m mod 2 ^ k + (if m div 2 ^ k = 1 then 2 ^ k else 0) = (m :: nat)"
proof -
  have "m div 2 ^ k < 2" using assms by (intro less_mult_imp_div_less) simp
  then consider "m div 2 ^ k = 0" | "m div 2 ^ k = 1" by linarith
  then show ?thesis using div_mult_mod_eq [of m "2 ^ k"] by cases simp_all
qed

lemma word32_cases:
  obtains s n where "w = word32 s n" "n < 2 ^ 31"
proof
  have "unat w < 2 * 2 ^ 31" using unsigned_less [of w, where 'a = nat] by simp
  from sign_split [OF this] show "w = word32 (unat w div 2 ^ 31 = 1) (unat w mod 2 ^ 31)"
    unfolding word32_def by simp
qed simp

lemma word16_cases:
  obtains s n where "b = word16 s n" "n < 2 ^ 15"
proof
  have "unat b < 2 * 2 ^ 15" using unsigned_less [of b, where 'a = nat] by simp
  from sign_split [OF this] show "b = word16 (unat b div 2 ^ 15 = 1) (unat b mod 2 ^ 15)"
    unfolding word16_def by simp
qed simp

lemma unat_drop: "unat (drop_bit k w) = unat w div 2 ^ k"
  by (simp only: unat_drop_bit_eq drop_bit_eq_div [where 'a = nat])

lemma unat_take: "unat (take_bit k w) = unat w mod 2 ^ k"
  by (simp only: unsigned_take_bit_eq take_bit_eq_mod [where 'a = nat])

lemma unpack_word32:
  assumes "n < 2 ^ 31"
  shows "unpack_f (word32 s n) =
    (if n < top_bits 24 then Fin s (magnitude 24 n) else if n = top_bits 24 then Inf s else NaN)"
proof -
  have "unat (take_bit 31 (word32 s n)) = n" using assms by (simp add: unat_take unat_word32)
  moreover have "bit (word32 s n) 31 \<longleftrightarrow> s"
  proof -
    have "bit (word32 s n) 31 \<longleftrightarrow> bit (unat (word32 s n)) 31" by (simp add: bit_unsigned_iff)
    also have "\<dots> \<longleftrightarrow> odd (unat (word32 s n) div 2 ^ 31)" by (simp only: bit_iff_odd [where 'a = nat])
    finally show ?thesis using assms by (simp add: unat_word32)
  qed
  ultimately show ?thesis by (simp add: unpack_f_def Let_def)
qed

text \<open>The masks of the scripts read the fields.\<close>

lemma mask_field: "w AND push_bit k (mask m) = push_bit k (take_bit m (drop_bit k w))" for w :: "32 word"
  by (rule bit_word_eqI) (auto simp: bit_simps)

lemma unat_field: "unat (w AND push_bit k (mask m)) = (unat w div 2 ^ k mod 2 ^ m) * 2 ^ k mod 2 ^ 32" for w :: "32 word"
  unfolding mask_field unsigned_push_bit_eq
  by (simp only: unat_take unat_drop take_bit_eq_mod [where 'a = nat] push_bit_eq_mult [where 'a = nat]) simp

lemma masks:
  "(0x7F800000 :: 32 word) = push_bit 23 (mask 8)" "(0x7FFFFF :: 32 word) = push_bit 0 (mask 23)"
  "(0xFF :: 32 word) = push_bit 0 (mask 8)" "(0x80000000 :: 32 word) = push_bit 31 (mask 1)"
  "(0xFFFF0000 :: 32 word) = push_bit 16 (mask 16)"
  by (simp_all add: mask_eq_exp_minus_1)

lemma exponent_mask:
  assumes "n < 2 ^ 31"
  shows "word32 s n AND 0x7F800000 = 0x7F800000 \<longleftrightarrow> top_bits 24 \<le> n"
    and "drop_bit 23 (word32 s n) AND 0xFF = 0xFF \<longleftrightarrow> top_bits 24 \<le> n"
    and "word32 s n AND 0x7FFFFF = 0 \<longleftrightarrow> n mod 2 ^ 23 = 0"
    and "word32 s n AND 0x80000000 = 0 \<longleftrightarrow> \<not> s"
proof -
  let ?w = "word32 s n"
  have w: "unat ?w = n + (if s then 2 ^ 31 else 0)" using assms by (rule unat_word32)
  have field: "unat ?w div 2 ^ 23 mod 2 ^ 8 = n div 2 ^ 23"
  proof -
    have "n div 2 ^ 23 < 256" using assms by (intro less_mult_imp_div_less) simp
    moreover have "(n + 2 ^ 31) div 2 ^ 23 = n div 2 ^ 23 + 256" by simp
    ultimately show ?thesis by (simp add: w)
  qed
  have e: "n div 2 ^ 23 = 255 \<longleftrightarrow> top_bits 24 \<le> n"
  proof -
    have "n div 2 ^ 23 < 256" using assms by (intro less_mult_imp_div_less) simp
    moreover have "255 \<le> n div 2 ^ 23 \<longleftrightarrow> top_bits 24 \<le> n" by (simp add: less_eq_div_iff_mult_less_eq)
    ultimately show ?thesis by linarith
  qed
  have lt: "n div 2 ^ 23 * 2 ^ 23 < 2 ^ 32" using assms div_times_less_eq_dividend [of n "2 ^ 23"] by simp
  have "?w AND 0x7F800000 = 0x7F800000 \<longleftrightarrow> n div 2 ^ 23 * 2 ^ 23 = 255 * 2 ^ 23"
    using lt by (simp only: word_unat_eq_iff masks(1) unat_field field mod_less) (simp add: mask_eq_exp_minus_1)
  with e show "?w AND 0x7F800000 = 0x7F800000 \<longleftrightarrow> top_bits 24 \<le> n" by simp
  have "unat (drop_bit 23 ?w AND 0xFF) = n div 2 ^ 23"
    using assms by (simp only: masks(3) unat_field unat_drop) (simp add: field [simplified])
  with e show "drop_bit 23 ?w AND 0xFF = 0xFF \<longleftrightarrow> top_bits 24 \<le> n" by (simp add: word_unat_eq_iff)
  have "(n + 2 ^ 31) mod 2 ^ 23 = n mod 2 ^ 23" using mod_mult_self1 [of n 256 "2 ^ 23"] by simp
  then have "unat (?w AND 0x7FFFFF) = n mod 2 ^ 23"
    by (simp only: masks(2) unat_field) (simp add: w)
  then show "?w AND 0x7FFFFF = 0 \<longleftrightarrow> n mod 2 ^ 23 = 0" by (simp add: word_unat_eq_iff)
  have "unat (?w AND 0x80000000) = (if s then 2 ^ 31 else 0)"
    using assms by (simp only: masks(4) unat_field) (simp add: w)
  then show "?w AND 0x80000000 = 0 \<longleftrightarrow> \<not> s" by (simp add: word_unat_eq_iff)
qed

section \<open>Rounding on the words\<close>

lemma rne_split:
  assumes "0 \<le> d" "d < 1"
  shows "rne (of_int q + d) = (if d < 1/2 then q else if 1/2 < d then q + 1 else if even q then q else q + 1)"
proof -
  have "\<lfloor>of_int q + d\<rfloor> = q" using assms by (intro floor_unique) simp_all
  then show ?thesis by (simp add: rne_def Let_def)
qed

lemma rne_div_pow:
  fixes M :: nat
  shows "rne (of_nat M / 2 ^ 16) = int ((M + 0x7FFF + M div 2 ^ 16 mod 2) div 2 ^ 16)"
proof -
  define q r where "q = M div 2 ^ 16" and "r = M mod 2 ^ 16"
  have M: "M = q * 2 ^ 16 + r" and r: "r < 2 ^ 16" by (simp_all add: q_def r_def div_mult_mod_eq)
  have frac: "0 \<le> (of_nat r / 2 ^ 16 :: rat)" "(of_nat r / 2 ^ 16 :: rat) < 1" using r by (simp_all add: divide_simps)
  have x: "(of_nat M / 2 ^ 16 :: rat) = of_int (int q) + of_nat r / 2 ^ 16" by (simp add: M field_simps)
  note split = rne_split [OF frac, of "int q", folded x]
  have div: "(M + 0x7FFF + q mod 2) div 2 ^ 16 = q + (r + 0x7FFF + q mod 2) div 2 ^ 16"
    by (simp add: M algebra_simps)
  have red: "(M + 0x7FFF + M div 2 ^ 16 mod 2) div 2 ^ 16 = q + (r + 0x7FFF + q mod 2) div 2 ^ 16"
    using div by (simp only: q_def)
  consider (low) "r < 2 ^ 15" | (tie) "r = 2 ^ 15" | (high) "2 ^ 15 < r" by linarith
  then show ?thesis
  proof cases
    case low
    then have "(of_nat r / 2 ^ 16 :: rat) < 1 / 2" by (simp add: divide_simps)
    then have "rne (of_nat M / 2 ^ 16) = int q" unfolding split by simp
    moreover have "(r + 0x7FFF + q mod 2) div 2 ^ 16 = 0" using low by simp
    ultimately show ?thesis unfolding red by simp
  next
    case tie
    then have "(of_nat r / 2 ^ 16 :: rat) = 1 / 2" by simp
    then have "rne (of_nat M / 2 ^ 16) = (if even q then int q else int q + 1)" unfolding split by simp
    moreover have "(r + 0x7FFF + q mod 2) div 2 ^ 16 = q mod 2" using tie by (simp add: mod_2_eq_odd)
    ultimately show ?thesis unfolding red by (simp add: mod_2_eq_odd)
  next
    case high
    then have "1 / 2 < (of_nat r / 2 ^ 16 :: rat)" by (simp add: divide_simps)
    then have "rne (of_nat M / 2 ^ 16) = int q + 1" unfolding split by simp
    moreover have "(r + 0x7FFF + q mod 2) div 2 ^ 16 = 1"
      using high r by (intro div_nat_eqI) (simp_all add: mod_2_eq_odd)
    ultimately show ?thesis unfolding red by simp
  qed
qed

text \<open>Adding \<open>0x7FFF\<close> and the last kept bit to the magnitude bits encodes the BF16 value.\<close>

lemma encode_bf16: "encode 8 (magnitude 24 n) = (n + 0x7FFF + n div 2 ^ 16 mod 2) div 2 ^ 16"
proof -
  obtain k M where n: "n = k * 2 ^ 23 + M" "M < 2 ^ 24" "2 ^ 23 \<le> M \<or> k = 0"
    and v: "magnitude 24 n = of_nat M * 2 powi (int k - 149)"
    using magnitude_decomp [of 24 n] by auto
  have rhs: "(n + 0x7FFF + n div 2 ^ 16 mod 2) div 2 ^ 16 = k * 2 ^ 7 + (M + 0x7FFF + M div 2 ^ 16 mod 2) div 2 ^ 16"
  proof -
    have "n div 2 ^ 16 = k * 2 ^ 7 + M div 2 ^ 16" by (simp add: n(1))
    then have "n div 2 ^ 16 mod 2 = M div 2 ^ 16 mod 2" by (simp add: mod_2_eq_odd)
    then have "n + 0x7FFF + n div 2 ^ 16 mod 2 = k * 2 ^ 7 * 2 ^ 16 + (M + 0x7FFF + M div 2 ^ 16 mod 2)" by (simp add: n(1))
    then have "(n + 0x7FFF + n div 2 ^ 16 mod 2) div 2 ^ 16 = (k * 2 ^ 7 * 2 ^ 16 + (M + 0x7FFF + M div 2 ^ 16 mod 2)) div 2 ^ 16" by (rule arg_cong)
    also have "\<dots> = k * 2 ^ 7 + (M + 0x7FFF + M div 2 ^ 16 mod 2) div 2 ^ 16" by (rule div_mult_self3) simp
    finally show ?thesis .
  qed
  show ?thesis
  proof (cases "M = 0")
    case True
    with n show ?thesis by (simp add: encode_def magnitude_def)
  next
    case False
    then have x: "0 < magnitude 24 n" by (simp add: v)
    have e: "max (expo (magnitude 24 n)) (- 126) = int k - 126"
    proof -
      have up: "magnitude 24 n < 2 powi (int k - 126 + 1)"
      proof -
        have "(of_nat M :: rat) < of_nat (2 ^ 24)" using n(2) by (simp only: of_nat_less_iff)
        then have "magnitude 24 n < of_nat (2 ^ 24) * 2 powi (int k - 149)" unfolding v by (intro mult_strict_right_mono) simp_all
        also have "\<dots> = 2 powi (24 + (int k - 149))" by (simp only: powi_split) (simp add: power_int_def)
        finally show ?thesis by simp
      qed
      show ?thesis
      proof (cases "k = 0")
        case True
        have "2 powi expo (magnitude 24 n) < (2::rat) powi (int k - 126 + 1)"
          using expo_bounds(1) [OF x] up by linarith
        then have "expo (magnitude 24 n) < int k - 126 + 1" by (simp only: powi_less_iff)
        then show ?thesis using True by simp
      next
        case False
        with n(3) have "2 ^ 23 \<le> M" by simp
        then have "(of_nat (2 ^ 23) :: rat) \<le> of_nat M" by (simp only: of_nat_le_iff)
        then have "of_nat (2 ^ 23) * 2 powi (int k - 149) \<le> magnitude 24 n" unfolding v by (intro mult_right_mono) simp_all
        moreover have "of_nat (2 ^ 23) * 2 powi (int k - 149) = (2::rat) powi (23 + (int k - 149))"
          by (simp only: powi_split) (simp add: power_int_def)
        ultimately have "expo (magnitude 24 n) = int k - 126" using up by (intro expo_eqI) simp_all
        then show ?thesis by simp
      qed
    qed
    have h: "magnitude 24 n / 2 powi (int k - 126 - (int 8 - 1)) = of_nat M / 2 ^ 16"
    proof -
      have "int k - 133 = int k - 149 + 16" by simp
      then have "(2::rat) powi (int k - 133) = 2 powi (int k - 149) * 2 powi 16" by (simp only: powi_split)
      then show ?thesis by (simp add: v power_int_def)
    qed
    have "magnitude 24 n \<noteq> 0" using x by simp
    then have "encode 8 (magnitude 24 n) = nat ((int k - 126 + 126) * 2 ^ (8 - 1) + rne (of_nat M / 2 ^ 16))"
      unfolding encode_def Let_def e h by (simp only: if_False)
    also have "\<dots> = k * 2 ^ 7 + (M + 0x7FFF + M div 2 ^ 16 mod 2) div 2 ^ 16"
      unfolding rne_div_pow by (simp add: nat_add_distrib)
    finally show ?thesis by (simp only: rhs)
  qed
qed

lemma word_round:
  fixes s :: bool and n :: nat
  assumes "n < top_bits 24"
  defines "w \<equiv> word32 s n"
  shows "ucast (drop_bit 16 (w + (0x7FFF + (drop_bit 16 w AND 1)))) = word16 s (encode 8 (magnitude 24 n))"
    and "encode 8 (magnitude 24 n) \<le> top_bits 8"
proof -
  have n: "n < 2 ^ 31" using assms(1) by simp
  have w: "unat w = n + (if s then 2 ^ 31 else 0)" unfolding w_def using n by (rule unat_word32)
  have "(n + 2 ^ 31) div 2 ^ 16 = n div 2 ^ 16 + 2 * 2 ^ 14" by simp
  then have "(n + 2 ^ 31) div 2 ^ 16 mod 2 = n div 2 ^ 16 mod 2" by (simp only: mod_mult_self2)
  then have "unat w div 2 ^ 16 mod 2 = n div 2 ^ 16 mod 2" unfolding w by (cases s) (simp_all only: if_True if_False add_0_right)
  moreover have "unat (drop_bit 16 w AND 1) = unat w div 2 ^ 16 mod 2"
    using unat_take [of 1 "drop_bit 16 w"] by (simp add: unat_drop and_one_eq take_bit_Suc)
  ultimately have bit: "unat (drop_bit 16 w AND 1) = n div 2 ^ 16 mod 2" by simp
  define c where "c = n div 2 ^ 16 mod 2"
  have c: "c \<le> 1" by (simp add: c_def)
  have add1: "unat (0x7FFF + (drop_bit 16 w AND 1) :: 32 word) = 0x7FFF + c"
    using c bit by (subst unat_plus_if') (simp add: c_def)
  have add2: "unat (w + (0x7FFF + (drop_bit 16 w AND 1))) = n + 0x7FFF + c + (if s then 2 ^ 31 else 0)"
    using assms(1) c by (subst unat_plus_if') (simp add: w add1)
  have "n + 0x7FFF + c < 0x7F80 * 2 ^ 16 + 2 ^ 16" using assms(1) c by simp
  then have "(n + 0x7FFF + c) div 2 ^ 16 < 0x7F81" by (intro less_mult_imp_div_less) simp
  then show le: "encode 8 (magnitude 24 n) \<le> top_bits 8" by (simp add: encode_bf16 c_def)
  have "unat (drop_bit 16 (w + (0x7FFF + (drop_bit 16 w AND 1)))) = (n + 0x7FFF + c + (if s then 2 ^ 31 else 0)) div 2 ^ 16"
    by (simp only: unat_drop add2)
  also have "\<dots> = encode 8 (magnitude 24 n) + (if s then 2 ^ 15 else 0)"
  proof -
    have "(n + 0x7FFF + c + 2 ^ 31) div 2 ^ 16 = (n + 0x7FFF + c) div 2 ^ 16 + 2 ^ 15" by simp
    then show ?thesis unfolding encode_bf16 c_def by simp
  qed
  finally have "unat (drop_bit 16 (w + (0x7FFF + (drop_bit 16 w AND 1)))) = encode 8 (magnitude 24 n) + (if s then 2 ^ 15 else 0)" .
  moreover have "encode 8 (magnitude 24 n) < 2 ^ 15" using le by simp
  ultimately show "ucast (drop_bit 16 (w + (0x7FFF + (drop_bit 16 w AND 1)))) = word16 s (encode 8 (magnitude 24 n))"
    by (simp add: word_unat_eq_iff unsigned_ucast_eq unat_word16 take_bit_nat_eq_self)
qed

lemma word_keep: "top_bits 24 = n \<Longrightarrow> ucast (drop_bit 16 (word32 s n)) = word16 s (top_bits 8)"
  by (auto simp: word32_def word16_def)

section \<open>Formats and values\<close>

lemma unpack_value:
  obtains (Fin) s n where "w = word32 s n" "n < top_bits 24" "unpack_f w = Fin s (magnitude 24 n)"
  | (Inf) s where "w = word32 s (top_bits 24)" "unpack_f w = Inf s"
  | (NaN) s n where "w = word32 s n" "top_bits 24 < n" "n < 2 ^ 31" "unpack_f w = NaN"
proof (cases w rule: word32_cases)
  case (1 s n)
  then show ?thesis
    using unpack_word32 [of n s] that by (cases n "top_bits 24" rule: linorder_cases) auto
qed

lemma fraction_zero:
  assumes "top_bits 24 \<le> n" "n < 2 ^ 31"
  shows "n mod 2 ^ 23 = 0 \<longleftrightarrow> n = top_bits 24"
proof -
  from assms(1) obtain d where d: "n = 255 * 2 ^ 23 + d" by (auto simp: le_iff_add)
  then have "d < 2 ^ 23" using assms(2) by simp
  moreover have "n mod 2 ^ 23 = d mod 2 ^ 23" unfolding d by (rule mod_mult_self3)
  ultimately show ?thesis by (simp add: d)
qed

lemma magnitude_16: "magnitude 24 (n * 2 ^ 16) = magnitude 8 n"
proof -
  obtain k M where n: "n = k * 2 ^ 7 + M" "M < 2 ^ 8" "2 ^ 7 \<le> M \<or> k = 0"
    and v: "magnitude 8 n = of_nat M * 2 powi (int k - 133)"
    using magnitude_decomp [of 8 n] by auto
  have "n * 2 ^ 16 = k * 2 ^ (24 - 1) + M * 2 ^ 16" by (simp add: n(1))
  moreover have "magnitude 24 (k * 2 ^ (24 - 1) + M * 2 ^ 16) = of_nat (M * 2 ^ 16) * 2 powi (int k - 125 - int 24)"
    using n(2,3) by (intro magnitude_form) auto
  moreover have "int k - 133 = int k - 149 + 16" by simp
  then have "(2::rat) powi (int k - 133) = 2 powi (int k - 149) * 2 powi 16" by (simp only: powi_split)
  ultimately show ?thesis by (simp add: v power_int_def)
qed

lemma bf16_to_float_word:
  assumes "n < 2 ^ 15"
  shows "bf16_to_float (word16 s n) =
    (if n < top_bits 8 then Fin s (magnitude 8 n) else if n = top_bits 8 then Inf s else NaN)"
proof -
  have "push_bit 16 (ucast (word16 s n)) = word32 s (n * 2 ^ 16)"
    using assms unfolding word_unat_eq_iff unsigned_push_bit_eq
    by (simp only: push_bit_eq_mult [where 'a = nat] unsigned_ucast_eq take_bit_eq_mod [where 'a = nat] unat_word16)
      (simp add: unat_word32)
  then show ?thesis using assms unpack_word32 [of "n * 2 ^ 16" s, unfolded magnitude_16] by (simp add: bf16_to_float_def)
qed

lemma bf16_value_repr: "bf16_to_float b = Fin s x \<Longrightarrow> repr 8 (- 133) x \<and> 0 \<le> x"
  by (cases b rule: word16_cases)
    (auto simp: bf16_to_float_word magnitude_nonneg magnitude_repr [of 8, simplified] split: if_splits)

lemma value_repr: "unpack_f w = Fin s x \<Longrightarrow> repr 24 (- 149) x \<and> 0 \<le> x"
  by (cases w rule: unpack_value) (auto simp: magnitude_nonneg magnitude_repr [of 24, simplified])

section \<open>Rounding floats to words\<close>

lemma encode_top: "encode 8 (magnitude 24 (top_bits 24)) = top_bits 8"
  by (metis encode_magnitude magnitude_top zero_less_numeral)

lemma float_to_bf16_Fin:
  assumes "0 \<le> x"
  shows "float_to_bf16 (Fin s x) = word16 s (min (encode 8 (rnd 24 (- 149) x)) (top_bits 8))"
proof -
  let ?n = "encode 24 x"
  have v: "rnd 24 (- 149) x = magnitude 24 ?n" using magnitude_encode [OF assms, of 24] by simp
  show ?thesis
  proof (cases "?n < top_bits 24")
    case True
    then have "?n < 2 ^ 31" by simp
    note mask = exponent_mask(1) [OF this]
    show ?thesis using True word_round(1) [OF True, of s] word_round(2) [OF True] by (simp add: float_to_bf16_def mask v min_def Let_def)
  next
    case False
    then have "encode 8 (magnitude 24 (top_bits 24)) \<le> encode 8 (magnitude 24 ?n)"
      by (intro encode_mono) (simp_all add: magnitude_nonneg)
    then have "top_bits 8 \<le> encode 8 (magnitude 24 ?n)" unfolding encode_top .
    moreover have "x \<noteq> 0" using False by (auto simp: encode_def)
    ultimately show ?thesis using False by (simp add: float_to_bf16_def v word16_def)
  qed
qed

lemma float_to_bf16_Inf: "float_to_bf16 (Inf s) = word16 s (top_bits 8)"
  using exponent_mask [of "top_bits 24" s] by (auto simp: float_to_bf16_def word16_def)

lemma bits_Fin: "0 \<le> x \<Longrightarrow> bits (Fin s x) = word32 s (min (encode 24 x) (top_bits 24))"
proof -
  assume "0 \<le> x"
  have "x \<noteq> 0" if "\<not> encode 24 x < top_bits 24" using that by (auto simp: encode_def)
  then show ?thesis by (auto simp: bits_def word32_def min_def)
qed

lemma canonical_word: "n \<le> top_bits 24 \<Longrightarrow> canonical (word32 s n) = word32 s n"
  using exponent_mask [of n s] fraction_zero [of n] by (auto simp: canonical_def Let_def)

section \<open>Correct rounding\<close>

text \<open>\<open>rounds p word nan v r\<close>: the word \<open>r\<close> is the value \<open>v\<close> rounded to the format.\<close>

definition rounds :: "nat \<Rightarrow> (bool \<Rightarrow> nat \<Rightarrow> 'w) \<Rightarrow> 'w \<Rightarrow> pyfloat \<Rightarrow> 'w \<Rightarrow> bool" where
  "rounds p word nan v r \<longleftrightarrow>
     (case v of NaN \<Rightarrow> r = nan | Inf s \<Rightarrow> r = word s (top_bits p)
      | Fin s x \<Rightarrow> \<exists>n. r = word s n \<and> nearest_even p x n)"

lemma rounds_Fin: "0 \<le> x \<Longrightarrow> 2 \<le> p \<Longrightarrow> rounds p word nan (Fin s x) (word s (min (encode p x) (top_bits p)))"
  using encode_nearest by (auto simp: rounds_def)

text \<open>The exact sum of finite floats and its magnitude.\<close>

lemma exact_add_Fin:
  assumes "0 \<le> x" "0 \<le> y"
  obtains u v where "exact_add (Fin s x) (Fin t y) = Fin u v" "0 \<le> v"
    "v = max x y + min x y \<or> v = max x y - min x y"
proof -
  have "\<bar>signed s x + signed t y\<bar> = max x y + min x y \<or> \<bar>signed s x + signed t y\<bar> = max x y - min x y"
    using assms by (auto simp: signed_def)
  then show ?thesis by (cases "signed s x + signed t y = 0") (auto intro: that simp: Let_def)
qed

lemma add_not_twice:
  assumes "repr p E x" "repr p E y" "v = max x y + min x y \<or> v = max x y - min x y" "2 * p + 4 \<le> P" "0 < p" "F \<le> E - 3"
    and "\<And>x y. 0 \<le> x \<Longrightarrow> x \<le> y \<Longrightarrow> R x \<le> R y" and "\<And>v. repr P F v \<Longrightarrow> R v = v"
  shows "rnd p E (R v) = rnd p E v"
  using round_twice_sum [of p E "max x y" "min x y" v P F R] assms by (auto simp: max_def min_def split: if_splits)

lemma repr_mult:
  assumes "repr p E x" "repr q F y"
  shows "repr (p + q) (E + F) (x * y)"
proof -
  obtain m k where x: "x = of_int m * 2 powi k" "0 \<le> m" "m \<le> 2 ^ p" "E \<le> k" using assms(1) by (auto simp: repr_def)
  obtain n l where y: "y = of_int n * 2 powi l" "0 \<le> n" "n \<le> 2 ^ q" "F \<le> l" using assms(2) by (auto simp: repr_def)
  have "m * n \<le> 2 ^ (p + q)" unfolding power_add using x y by (intro mult_mono) simp_all
  with x y have "repr (p + q) (E + F) (of_int (m * n) * 2 powi (k + l))" by (intro reprI) simp_all
  then show ?thesis by (simp add: x(1) y(1) powi_split mult_ac)
qed

text \<open>A product of two BF16 values survives the rounding to binary32, or is below half the least BF16 value.\<close>

lemma mul_not_twice:
  assumes "repr 8 (- 133) x" "repr 8 (- 133) y"
  shows "rnd 8 (- 133) (rnd 24 (- 149) (x * y)) = rnd 8 (- 133) (x * y)"
proof -
  obtain m k where xy: "x * y = of_int m * 2 powi k" "0 \<le> m" "m \<le> 2 ^ 16" "- 266 \<le> k"
    using repr_mult [OF assms] by (auto simp: repr_def)
  show ?thesis
  proof (cases "- 149 \<le> k")
    case True
    have "m \<le> 2 ^ 24" using xy(3) by simp
    then have "repr 24 (- 149) (x * y)" unfolding xy(1) using xy(2) True by (intro reprI)
    then show ?thesis by (simp add: rnd_fixed)
  next
    case False
    define h where "h = (2::rat) powi (- 134)"
    have h: "0 < h" "expo h = - 134" by (auto simp: h_def intro: expo_eqI)
    have "x * y \<le> of_int (2 ^ 16) * 2 powi k" unfolding xy(1) using xy(3) by (intro mult_right_mono) (simp_all only: of_int_le_iff zero_le_power_int zero_le_numeral)
    also have "\<dots> = 2 powi (16 + k)" by (simp only: powi_split) (simp add: power_int_def)
    also have "\<dots> \<le> h" unfolding h_def powi_le_iff using False by simp
    finally have le: "x * y \<le> h" .
    have nn: "0 \<le> x * y" using xy by simp
    have small: "rnd 8 (- 133) z = 0" if "0 \<le> z" "z \<le> h" for z
    proof -
      have "h / 2 powi (- 133) = 1 / 2" using powi_split [of "- 134" 1] by (simp add: h_def)
      moreover have "unit_expo 8 (- 133) h = - 133" by (simp add: unit_expo_def h)
      moreover have "rne (1 / 2) = 0" using rne_split [of "1 / 2" 0] by simp
      ultimately have "rnd 8 (- 133) h = 0" unfolding rnd_def Let_def by (simp only: of_int_0 mult_zero_left if_cancel)
      then show ?thesis using rnd_mono [of z h 8 "- 133"] rnd_nonneg [of z 8 "- 133"] that by simp
    qed
    have "rnd 24 (- 149) h = h" unfolding h_def by (intro rnd_fixed repr_powi) simp_all
    then have "rnd 24 (- 149) (x * y) \<le> h" using rnd_mono [OF nn le, of 24 "- 149"] by simp
    then show ?thesis using small nn le rnd_nonneg [OF nn, of 24 "- 149"] by simp
  qed
qed

lemma float_to_bf16_rounds:
  assumes "0 \<le> x" "rnd 8 (- 133) (rnd 24 (- 149) (fl x)) = rnd 8 (- 133) x"
  shows "rounds 8 word16 0x7FC0 (Fin s x) (float_to_bf16 (double (Fin s x)))"
proof -
  have "encode 8 (rnd 24 (- 149) (fl x)) = encode 8 x"
    using assms by (intro encode_cong) (simp_all add: fl_nonneg rnd_nonneg)
  then have "float_to_bf16 (double (Fin s x)) = word16 s (min (encode 8 x) (top_bits 8))"
    using assms(1) by (simp add: float_to_bf16_Fin fl_nonneg del: top_bits_sel)
  then show ?thesis using rounds_Fin [OF assms(1), of 8] by simp
qed

lemma operation_rounds:
  assumes "0 \<le> x" "rnd 24 (- 149) (fl x) = rnd 24 (- 149) x"
  shows "rounds 24 word32 0x7FC00000 (Fin s x) (canonical (bits (double (Fin s x))))"
proof -
  have "encode 24 (fl x) = encode 24 x" using assms by (intro encode_cong) (simp_all add: fl_nonneg)
  then have "canonical (bits (double (Fin s x))) = word32 s (min (encode 24 x) (top_bits 24))"
    using assms(1) by (simp add: bits_Fin fl_nonneg canonical_word del: top_bits_sel)
  then show ?thesis using rounds_Fin [OF assms(1), of 24] by simp
qed

lemma rounds_special:
  "rounds 8 word16 0x7FC0 NaN (float_to_bf16 (double NaN))"
  "rounds 8 word16 0x7FC0 (Inf s) (float_to_bf16 (double (Inf s)))"
  "rounds 24 word32 0x7FC00000 NaN (canonical (bits (double NaN)))"
  "rounds 24 word32 0x7FC00000 (Inf s) (canonical (bits (double (Inf s))))"
proof -
  show "rounds 8 word16 0x7FC0 NaN (float_to_bf16 (double NaN))" by (simp add: rounds_def float_to_bf16_def)
  show "rounds 8 word16 0x7FC0 (Inf s) (float_to_bf16 (double (Inf s)))" by (simp add: rounds_def float_to_bf16_Inf)
  show "rounds 24 word32 0x7FC00000 NaN (canonical (bits (double NaN)))" by (simp add: rounds_def bits_def canonical_def)
  show "rounds 24 word32 0x7FC00000 (Inf s) (canonical (bits (double (Inf s))))"
    by (simp add: rounds_def bits_def canonical_word del: top_bits_sel)
qed

text \<open>Operands are NaN, infinite or a representable magnitude.\<close>

definition operand :: "nat \<Rightarrow> int \<Rightarrow> pyfloat \<Rightarrow> bool" where
  "operand p E a \<longleftrightarrow> (case a of Fin s x \<Rightarrow> repr p E x | _ \<Rightarrow> True)"

lemma operand_words: "operand 8 (- 133) (bf16_to_float b)" "operand 24 (- 149) (unpack_f w)"
  using bf16_value_repr value_repr by (auto simp: operand_def split: pyfloat.split)

lemma exact_cases:
  assumes "operand p E a" "operand p E b" "2 * p + 4 \<le> P" "0 < p"
  shows "(\<exists>s v. exact_add a b = Fin s v \<and> 0 \<le> v \<and>
      (\<forall>R F. (\<forall>x y. 0 \<le> x \<longrightarrow> x \<le> y \<longrightarrow> R x \<le> R y) \<longrightarrow> (\<forall>u. repr P F u \<longrightarrow> R u = u) \<longrightarrow> F \<le> E - 3 \<longrightarrow>
         rnd p E (R v) = rnd p E v)) \<or>
    exact_add a b = NaN \<or> (\<exists>s. exact_add a b = Inf s)"
    and "(\<exists>s x y. exact_mul a b = Fin s (x * y) \<and> repr p E x \<and> repr p E y) \<or> exact_mul a b = NaN \<or> (\<exists>s. exact_mul a b = Inf s)"
proof -
  show "(\<exists>s x y. exact_mul a b = Fin s (x * y) \<and> repr p E x \<and> repr p E y) \<or> exact_mul a b = NaN \<or> (\<exists>s. exact_mul a b = Inf s)"
    using assms(1,2) by (cases a; cases b) (auto simp: operand_def)
  show "(\<exists>s v. exact_add a b = Fin s v \<and> 0 \<le> v \<and>
      (\<forall>R F. (\<forall>x y. 0 \<le> x \<longrightarrow> x \<le> y \<longrightarrow> R x \<le> R y) \<longrightarrow> (\<forall>u. repr P F u \<longrightarrow> R u = u) \<longrightarrow> F \<le> E - 3 \<longrightarrow>
         rnd p E (R v) = rnd p E v)) \<or>
    exact_add a b = NaN \<or> (\<exists>s. exact_add a b = Inf s)"
  proof (cases "\<exists>s x t y. a = Fin s x \<and> b = Fin t y")
    case True
    then obtain s x t y where ab: "a = Fin s x" "b = Fin t y" by blast
    with assms(1,2) have r: "repr p E x" "repr p E y" by (simp_all add: operand_def)
    from exact_add_Fin [OF repr_nonneg [OF r(1)] repr_nonneg [OF r(2)], of s t] obtain u v where
      "exact_add a b = Fin u v" "0 \<le> v" "v = max x y + min x y \<or> v = max x y - min x y" unfolding ab by blast
    with add_not_twice [OF r _ assms(3,4)] show ?thesis by blast
  next
    case False
    then show ?thesis by (cases a; cases b) auto
  qed
qed

section \<open>Properties\<close>

text \<open>
  The rounding to BF16 on the words is correct: the result is a nearest BF16 value of the
  binary32 value, ties to even, infinity when that is nearer, and NaN becomes the quiet NaN.
\<close>

theorem fp32_to_bf16_correct: "rounds 8 word16 0x7FC0 (unpack_f w) (bf16 w)"
proof (cases w rule: unpack_value)
  case (Fin s n)
  then have "n < 2 ^ 31" by simp
  note mask = exponent_mask(1) [OF this, of s]
  have "bf16 w = word16 s (min (encode 8 (magnitude 24 n)) (top_bits 8))"
    using word_round(1) [OF Fin(2), of s] word_round(2) [OF Fin(2)] Fin(2)
    by (simp add: bf16_def Fin(1) mask min_def Let_def add.assoc)
  with rounds_Fin [OF magnitude_nonneg, of 8] Fin(3) show ?thesis by simp
next
  case (Inf s)
  have "bf16 w = word16 s (top_bits 8)"
    using exponent_mask [of "top_bits 24" s] word_keep [OF refl, of s] by (simp add: bf16_def Inf(1))
  with Inf(2) show ?thesis by (simp add: rounds_def)
next
  case (NaN s n)
  then have "bf16 w = 0x7FC0" using exponent_mask [OF NaN(3), of s] fraction_zero [of n] by (simp add: bf16_def)
  with NaN(4) show ?thesis by (simp add: rounds_def)
qed

text \<open>
  C20: the binary32 reference operations are IEEE addition and multiplication: the vector holds
  the exact sum or product of the operands, correctly rounded, although Python computes in
  doubles and the sum of two operands need not be a double.
\<close>

theorem fp32_operation_correct:
  "rounds 24 word32 0x7FC00000 (exact_add (unpack_f lhs) (unpack_f rhs)) (operation lhs rhs ''add'') \<and>
   rounds 24 word32 0x7FC00000 (exact_mul (unpack_f lhs) (unpack_f rhs)) (operation lhs rhs ''mul'')"
proof -
  note cases = exact_cases [OF operand_words(2) operand_words(2), where P = 53, simplified]
  have "rounds 24 word32 0x7FC00000 (exact_add (unpack_f lhs) (unpack_f rhs)) (canonical (bits (py_add (unpack_f lhs) (unpack_f rhs))))"
    using cases(1) [of lhs rhs] rounds_special(3,4) operation_rounds fl_mono fl_fixed [of "- 152"] unfolding py_add_def by fastforce
  moreover have "fl (x * y) = x * y" if "repr 24 (- 149) x" "repr 24 (- 149) y" for x y
    using repr_mono [OF repr_mult [OF that], of 53 "- 298"] by (intro fl_fixed) simp
  then have "rounds 24 word32 0x7FC00000 (exact_mul (unpack_f lhs) (unpack_f rhs)) (canonical (bits (py_mul (unpack_f lhs) (unpack_f rhs))))"
    using cases(2) [of lhs rhs] rounds_special(3,4) operation_rounds repr_nonneg unfolding py_mul_def by (metis mult_nonneg_nonneg)
  ultimately show ?thesis by (simp add: operation_def Let_def)
qed

text \<open>
  C16: the BF16 reference operations are correctly rounded BF16 addition and multiplication of
  the exact values, although the script rounds up to three times, to a double, to binary32
  and to BF16, and also when the result is subnormal.
\<close>

theorem bf16_expected_correct:
  "rounds 8 word16 0x7FC0 (exact_add (bf16_to_float a) (bf16_to_float b)) (expected a b False) \<and>
   rounds 8 word16 0x7FC0 (exact_mul (bf16_to_float a) (bf16_to_float b)) (expected a b True)"
proof -
  note cases = exact_cases [OF operand_words(1) operand_words(1), where P = 24, simplified]
  let ?R = "\<lambda>x. rnd 24 (- 149) (fl x)"
  have mono: "0 \<le> x \<Longrightarrow> x \<le> y \<Longrightarrow> ?R x \<le> ?R y" for x y by (intro rnd_mono fl_mono fl_nonneg) simp_all
  have fixed: "?R u = u" if "repr 24 (- 149) u" for u
    using that by (simp add: rnd_fixed fl_fixed [OF repr_mono [OF that, of 53 "- 149"]])
  have "rounds 8 word16 0x7FC0 (exact_add (bf16_to_float a) (bf16_to_float b)) (float_to_bf16 (py_add (bf16_to_float a) (bf16_to_float b)))"
    using cases(1) [of a b] rounds_special(1,2)
  proof (elim disjE exE conjE)
    fix s v
    assume e: "exact_add (bf16_to_float a) (bf16_to_float b) = Fin s v" "0 \<le> v"
      and R: "\<forall>R. (\<forall>x. 0 \<le> x \<longrightarrow> (\<forall>y. x \<le> y \<longrightarrow> R x \<le> R y)) \<longrightarrow> (\<forall>F. (\<forall>u. repr 24 F u \<longrightarrow> R u = u) \<longrightarrow> F \<le> - 136 \<longrightarrow> rnd 8 (- 133) (R v) = rnd 8 (- 133) v)"
    have "rnd 8 (- 133) (?R v) = rnd 8 (- 133) v" using R [rule_format, of ?R "- 149"] mono fixed by simp
    with e show ?thesis unfolding py_add_def e(1) by (intro float_to_bf16_rounds)
  qed (simp_all add: py_add_def)
  moreover have "fl (x * y) = x * y" if "repr 8 (- 133) x" "repr 8 (- 133) y" for x y
    using repr_mono [OF repr_mult [OF that], of 53 "- 266"] by (intro fl_fixed) simp
  then have "rounds 8 word16 0x7FC0 (exact_mul (bf16_to_float a) (bf16_to_float b)) (float_to_bf16 (py_mul (bf16_to_float a) (bf16_to_float b)))"
    using cases(2) [of a b] rounds_special(1,2) float_to_bf16_rounds mul_not_twice repr_nonneg unfolding py_mul_def by (metis mult_nonneg_nonneg)
  ultimately show ?thesis by (simp add: expected_def)
qed

section \<open>Distances\<close>

definition bf16_values :: "rat set" where
  "bf16_values = {v. \<exists>b s x. bf16_to_float b = Fin s x \<and> v = signed s x}"

definition bf16_step :: "int \<Rightarrow> rat" where
  "bf16_step k = signed (k < 0) (magnitude 8 (nat \<bar>k\<bar>))"

lemma bf16_step_less: "k < l \<Longrightarrow> bf16_step k < bf16_step l"
proof -
  assume "k < l"
  then consider "0 \<le> k" | "k < 0" "l < 0" | "k < 0" "0 \<le> l" by linarith
  then show ?thesis
  proof cases
    case 1
    with \<open>k < l\<close> show ?thesis using magnitude_less [of 8 "nat \<bar>k\<bar>" "nat \<bar>l\<bar>"] by (simp add: bf16_step_def signed_def)
  next
    case 2
    with \<open>k < l\<close> show ?thesis using magnitude_less [of 8 "nat \<bar>l\<bar>" "nat \<bar>k\<bar>"] by (simp add: bf16_step_def signed_def)
  next
    case 3
    then show ?thesis using magnitude_less [of 8 0 "nat \<bar>k\<bar>"] magnitude_nonneg [of 8 "nat \<bar>l\<bar>"]
      by (simp add: bf16_step_def signed_def)
  qed
qed

lemma bf16_step_iff: "bf16_step k < bf16_step l \<longleftrightarrow> k < l" "bf16_step k = bf16_step l \<longleftrightarrow> k = l" "bf16_step k \<le> bf16_step l \<longleftrightarrow> k \<le> l"
  using bf16_step_less [of k l] bf16_step_less [of l k] by (cases k l rule: linorder_cases; simp)+

lemma ordered_word:
  assumes "n < 2 ^ 15"
  shows "ordered (word16 s n) = 0x8000 + (if s then - int n else int n)"
proof -
  have split: "w AND push_bit k (mask m) = push_bit k (take_bit m (drop_bit k w))" for w :: "16 word" and k m
    by (rule bit_word_eqI) (auto simp: bit_simps)
  have masks: "(0x8000 :: 16 word) = push_bit 15 (mask 1)" "(0x7FFF :: 16 word) = push_bit 0 (mask 15)"
    by (simp_all add: mask_eq_exp_minus_1)
  have field: "unat (w AND push_bit k (mask m)) = (unat w div 2 ^ k mod 2 ^ m) * 2 ^ k mod 2 ^ 16" for w :: "16 word" and k m
    unfolding split unsigned_push_bit_eq
    by (simp only: unat_take unat_drop take_bit_eq_mod [where 'a = nat] push_bit_eq_mult [where 'a = nat]) simp
  have w: "unat (word16 s n) = n + (if s then 2 ^ 15 else 0)" using assms by (rule unat_word16)
  have "unat (word16 s n AND 0x8000) = (if s then 2 ^ 15 else 0)"
    using assms by (simp only: masks(1) field) (simp add: w)
  then have sign: "word16 s n AND 0x8000 \<noteq> 0 \<longleftrightarrow> s" by (simp add: word_unat_eq_iff)
  have "unat (word16 s n AND 0x7FFF) = n"
    using assms by (simp only: masks(2) field) (simp add: w)
  then have "uint (word16 s n AND 0x7FFF) = int n" by (simp only: uint_nat)
  moreover have "uint (word16 s n) = int (n + (if s then 2 ^ 15 else 0))" by (simp only: uint_nat w)
  ultimately show ?thesis using sign by (cases s) (simp_all add: ordered_def)
qed

lemma ordered_step:
  assumes "bf16_to_float b = Fin s x"
  shows "signed s x = bf16_step (ordered b - 0x8000) \<and> \<bar>ordered b - 0x8000\<bar> < 0x7F80"
proof (cases b rule: word16_cases)
  case (1 t n)
  with assms have "s = t" "x = magnitude 8 n" "n < 0x7F80" by (auto simp: bf16_to_float_word split: if_splits)
  then show ?thesis using 1 by (cases "n = 0") (auto simp: ordered_word bf16_step_def signed_def)
qed

lemma bf16_values_eq: "bf16_values = bf16_step ` {k. \<bar>k\<bar> < 0x7F80}"
proof
  show "bf16_values \<subseteq> bf16_step ` {k. \<bar>k\<bar> < 0x7F80}"
    unfolding bf16_values_def using ordered_step by blast
  show "bf16_step ` {k. \<bar>k\<bar> < 0x7F80} \<subseteq> bf16_values"
  proof clarify
    fix k :: int assume k: "\<bar>k\<bar> < 0x7F80"
    then have "bf16_to_float (word16 (k < 0) (nat \<bar>k\<bar>)) = Fin (k < 0) (magnitude 8 (nat \<bar>k\<bar>))"
      by (simp add: bf16_to_float_word)
    then show "bf16_step k \<in> bf16_values" unfolding bf16_values_def bf16_step_def by blast
  qed
qed

text \<open>
  The distance in units of the last place that the accuracy reports use counts values: it
  is the number of BF16 values above the smaller operand, up to and including the larger one.
\<close>

theorem ulps_counts_values:
  assumes "bf16_to_float a = Fin s x" "bf16_to_float e = Fin t y"
  shows "ulps a e = int (card {v \<in> bf16_values. min (signed s x) (signed t y) < v \<and> v \<le> max (signed s x) (signed t y)})"
proof -
  let ?k = "ordered a - 0x8000" and ?l = "ordered e - 0x8000"
  have a: "signed s x = bf16_step ?k" "\<bar>?k\<bar> < 0x7F80" and e: "signed t y = bf16_step ?l" "\<bar>?l\<bar> < 0x7F80"
    using assms ordered_step by blast+
  have mm: "min (signed s x) (signed t y) = bf16_step (min ?k ?l)" "max (signed s x) (signed t y) = bf16_step (max ?k ?l)"
    unfolding a(1) e(1) by (auto simp: min_def max_def bf16_step_iff)
  have "{v \<in> bf16_values. bf16_step (min ?k ?l) < v \<and> v \<le> bf16_step (max ?k ?l)} = bf16_step ` {min ?k ?l <.. max ?k ?l}"
    using a(2) e(2) by (auto simp: bf16_values_eq bf16_step_iff)
  moreover have "inj bf16_step" by (auto intro: injI simp: bf16_step_iff)
  ultimately have "card {v \<in> bf16_values. bf16_step (min ?k ?l) < v \<and> v \<le> bf16_step (max ?k ?l)} = card {min ?k ?l <.. max ?k ?l}"
    by (simp add: card_image inj_on_subset)
  then show ?thesis unfolding mm by (simp add: ulps_def max_def min_def)
qed

lemma ulps_counts_values_witness:
  "int (card {v \<in> bf16_values. min (signed True (magnitude 8 1)) (signed False (magnitude 8 2)) < v \<and>
     v \<le> max (signed True (magnitude 8 1)) (signed False (magnitude 8 2))}) = 3"
proof -
  have "ulps (word16 True 1) (word16 False 2) = 3" by (simp add: ulps_def ordered_word)
  then show ?thesis
    using ulps_counts_values [of "word16 True 1" True "magnitude 8 1" "word16 False 2" False "magnitude 8 2"]
    by (simp add: bf16_to_float_word)
qed

section \<open>The copies of the conversion\<close>

lemma pack_unpack: "unpack_f w \<noteq> NaN \<Longrightarrow> pack_f (unpack_f w) = Inr w"
  by (cases w rule: unpack_value) (auto simp: encode_magnitude)

text \<open>
  The copies of the conversion agree. On a value that fits binary32 all four give the BF16
  word of \<open>float_to_bf16\<close> (the copy of the RTL rows except for NaN), and the quantizer of the RSQRT study its value; on any other
  value \<open>float_to_bf16\<close> saturates and the others raise \<open>OverflowError\<close>.
\<close>

theorem bf16_conversions_agree:
  assumes "\<And>s x. q = Fin s x \<Longrightarrow> 0 \<le> x"
  shows "case pack_f q of
      Inr w \<Rightarrow> bf16_bits q = Inr (float_to_bf16 q) \<and> scalar_bits q = Inr (float_to_bf16 q) \<and>
        (q \<noteq> NaN \<longrightarrow> row_bits nan_word q = Inr (float_to_bf16 q)) \<and> bf16_value q = Inr (bf16_to_float (float_to_bf16 q))
    | Inl e \<Rightarrow> bf16_bits q = Inl e \<and> scalar_bits q = Inl e \<and> row_bits nan_word q = Inl e \<and> bf16_value q = Inl e \<and>
        (float_to_bf16 q = 0x7F80 \<or> float_to_bf16 q = 0xFF80)"
proof -
  have low: "unpack_f (w AND 0xFFFF0000) = bf16_to_float (ucast (drop_bit 16 w))" for w :: "32 word"
  proof -
    have "w AND 0xFFFF0000 = push_bit 16 (ucast (ucast (drop_bit 16 w) :: 16 word))"
      unfolding masks(5) by (rule bit_word_eqI) (auto simp: bit_simps)
    then show ?thesis by (simp add: bf16_to_float_def)
  qed
  consider (nan) "q = NaN" | (inf) s where "q = Inf s" | (big) s x where "q = Fin s x" "\<not> encode 24 x < top_bits 24"
    | (fit) s x where "q = Fin s x" "encode 24 x < top_bits 24" by (cases q) auto
  then show ?thesis
  proof cases
    case nan
    then show ?thesis
      using bf16_to_float_word [of "0x7FC0" False] unpack_word32 [of "0x7FC00000" False]
      by (simp add: float_to_bf16_def bf16_bits_def scalar_bits_def row_bits_def bf16_value_def fp32_def word16_def word32_def low)
  next
    case (inf s)
    note mask = exponent_mask [of "top_bits 24" s] word_keep [OF refl, of s]
    show ?thesis
      using mask unpack_word32 [of "top_bits 24" s] bf16_to_float_word [of "top_bits 8" s]
      by (simp add: inf float_to_bf16_Inf bf16_bits_def scalar_bits_def row_bits_def bf16_value_def fp32_def low)
  next
    case (big s x)
    then show ?thesis by (simp add: float_to_bf16_def bf16_bits_def scalar_bits_def row_bits_def bf16_value_def fp32_def)
  next
    case (fit s x)
    then have "encode 24 x < 2 ^ 31" by simp
    note mask = exponent_mask [OF this, of s]
    have v: "pack_f (unpack_f (word32 s (encode 24 x))) = Inr (word32 s (encode 24 x))"
      using fit(2) unpack_word32 [of "encode 24 x" s] by (intro pack_unpack) simp
    show ?thesis
      using fit mask v
      by (simp add: float_to_bf16_def bf16_bits_def scalar_bits_def row_bits_def bf16_value_def fp32_def low Let_def)
  qed
qed

lemma bf16_conversions_agree_witness:
  "scalar_bits (Fin True 1) = Inr (float_to_bf16 (Fin True 1)) \<and> bf16_bits (Fin False (2 ^ 129)) = Inl (OverflowError ''float too large to pack with f format'')"
proof -
  have "encode 24 1 = encode 24 (magnitude 24 (127 * 2 ^ 23))" by (simp add: magnitude_def)
  then have one: "encode 24 1 = 127 * 2 ^ 23" by (simp only: encode_magnitude)
  have "encode 24 (2 ^ 129) \<ge> encode 24 (magnitude 24 (top_bits 24))"
    by (intro encode_mono magnitude_nonneg) (simp_all add: magnitude_top del: top_bits_sel)
  then have big: "\<not> encode 24 (2 ^ 129) < top_bits 24" by (simp add: encode_magnitude del: top_bits_sel)
  show ?thesis
    using bf16_conversions_agree [of "Fin True 1"] bf16_conversions_agree [of "Fin False (2 ^ 129)"] one big
    by simp
qed

end
