(* ===== verification/Rtl_Gds.thy ===== *)
theory Rtl_Gds
  imports Stage_Authorization Float64
begin

text \<open>
  \<open>tools/check_b*_phase7_rtl_gds.py\<close> for B3, B5, B6 and B7: the streamed-out layout of the
  detailed route is opened again and released for the overlay when it has the expected
  structure. The KLayout reader is a parameter from the bytes of the file to what the script
  asks of the layout. B6 and B7 take three more files and record them.
\<close>

section \<open>The layout\<close>

text \<open>
  A layer index with its layer and data type numbers and the shapes below the top cell, the
  bounding box of the top cell as left, bottom, right and top.
\<close>

record 's layout =
  ly_tops :: "string list"
  ly_layers :: "(int \<times> int \<times> 's list) list"
  ly_dbu :: rat
  ly_bbox :: "int \<times> int \<times> int \<times> int"
  ly_cells :: int

definition EXPECTED_TOP :: string where
  "EXPECTED_TOP = ''logic_die_normalization_hbm_quad_local_b2_top''"

definition METALS :: "int list" where "METALS = [68, 69, 70, 71, 72]"

definition VIAS :: "int list" where "VIAS = [66, 67, 68, 69, 70, 71]"

text \<open>The iterator walks over the shapes of one layer; the counter starts at 0.\<close>

fun count_shapes :: "'s list \<Rightarrow> int \<Rightarrow> int" where
  "count_shapes [] n = n"
| "count_shapes (_ # shapes) n = count_shapes shapes (n + 1)"

definition count_recursive :: "'s list \<Rightarrow> int" where
  "count_recursive shapes = count_shapes shapes 0"

record geometry =
  ge_total :: int
  ge_metals :: "int list"
  ge_vias :: int

definition note_layer :: "int \<times> int \<times> 's list \<Rightarrow> geometry \<Rightarrow> geometry" where
  "note_layer entry g =
     (let (layer, datatype, shapes) = entry; n = count_recursive shapes;
          g1 = g\<lparr>ge_total := ge_total g + n\<rparr>;
          g2 = (if n \<noteq> 0 \<and> layer \<in> set METALS \<and> datatype \<in> {20, 44}
                then g1\<lparr>ge_metals := List.insert layer (ge_metals g1)\<rparr> else g1)
      in if n \<noteq> 0 \<and> layer \<in> set VIAS \<and> datatype \<in> {44, 60} then g2\<lparr>ge_vias := ge_vias g2 + n\<rparr> else g2)"

definition measure_geometry :: "'s layout \<Rightarrow> geometry" where
  "measure_geometry l =
     (let none = \<lparr>ge_total = 0, ge_metals = [], ge_vias = 0\<rparr>
      in if length (ly_tops l) = 1 then fold note_layer (ly_layers l) none else none)"

definition bbox_empty :: "int \<times> int \<times> int \<times> int \<Rightarrow> bool" where
  "bbox_empty box = (case box of (left, bottom, right, top') \<Rightarrow> left > right \<or> bottom > top')"

section \<open>The log\<close>

text \<open>
  \<open>re.findall(r"^PREFIX(\S+)$", log, re.MULTILINE)\<close>: the lines that are the prefix followed
  by visible characters only.
\<close>

fun split_newline :: "string \<Rightarrow> string \<Rightarrow> string list" where
  "split_newline [] acc = [rev acc]"
| "split_newline (c # s) acc =
     (if c = CHR 0x0A then rev acc # split_newline s [] else split_newline s (c # acc))"

definition logged_values :: "string \<Rightarrow> string \<Rightarrow> string list" where
  "logged_values prefix journal =
     map (drop (length prefix))
       (filter (\<lambda>line. is_prefix prefix line \<and> drop (length prefix) line \<noteq> [] \<and>
                  list_all (\<lambda>c. c \<notin> set white_space) (drop (length prefix) line))
         (split_newline journal []))"

section \<open>The check\<close>

text \<open>
  The command line: the texts of the paths, with technology, cell library and converter for
  B6 and B7.
\<close>

record rtl_args =
  ra_gds :: string
  ra_source :: string
  ra_log :: string
  ra_extra :: "(string \<times> string \<times> string) option"
  ra_output :: string

definition extra_paths :: "rtl_args \<Rightarrow> string list" where
  "extra_paths a = (case ra_extra a of None \<Rightarrow> [] | Some (technology, cell_gds, converter) \<Rightarrow> [technology, cell_gds, converter])"

definition rtl_checks :: "string \<Rightarrow> json \<Rightarrow> string \<Rightarrow> string \<Rightarrow> 's layout \<Rightarrow> (string \<times> bool result) list" where
  "rtl_checks name source journal actual l =
     (let logged = logged_values (''WBQ_'' @ name @ ''_RTL_GDS_OUTPUT_SHA256='') journal; g = measure_geometry l in
      [(''phase7_detailed_route_pass'',
          all_of [get_eq source ''status'' (JStr ''PASS''), authorizes_stage source (name @ ''_PHASE7_RTL_GDS_STREAMOUT'')]),
       (''streamout_exit_zero'', Inr (substring (''WBQ_'' @ name @ ''_RTL_GDS_EXIT_CODE=0'') journal)),
       (''streamout_hash_match'', Inr (logged \<noteq> [] \<and> List.last logged = actual)),
       (''exactly_one_expected_top'', Inr (ly_tops l = [EXPECTED_TOP])),
       (''dbu_positive'', Inr (ly_dbu l > 0)),
       (''bbox_nonempty'', Inr (length (ly_tops l) = 1 \<and> \<not> bbox_empty (ly_bbox l))),
       (''hierarchy_nonempty'', Inr (ly_cells l > 1)),
       (''geometry_nonempty'', Inr (ge_total g > 0)),
       (''met1_through_met5_present'', Inr (set (ge_metals g) = set METALS)),
       (''via_geometry_present'', Inr (ge_vias g > 0))])"

definition hashed :: "env \<Rightarrow> host \<Rightarrow> string \<Rightarrow> string \<Rightarrow> string \<times> json result" where
  "hashed env h name p = (name, evidence env h p)"

definition rtl_inputs :: "env \<Rightarrow> host \<Rightarrow> rtl_args \<Rightarrow> (string \<times> json) list result" where
  "rtl_inputs env h a =
     (case ra_extra a of None \<Rightarrow> Inr []
      | Some (technology, cell_gds, converter) \<Rightarrow>
          and_then (evidence_object
            [hashed env h ''phase7_manifest'' (ra_source a), hashed env h ''streamout_log'' (ra_log a),
             hashed env h ''technology'' technology, hashed env h ''cell_gds'' cell_gds,
             hashed env h ''converter'' converter]) (\<lambda>inputs. Inr [(''inputs'', inputs)]))"

definition geometry_json :: "'s layout \<Rightarrow> json" where
  "geometry_json l =
     (let g = measure_geometry l; (left, bottom, right, top') = ly_bbox l;
          um = (\<lambda>i. JFloat (Finite (fl (of_int i * ly_dbu l))))
      in JObj [(''top_cells'', JArr (map JStr (ly_tops l))), (''dbu_um'', JFloat (Finite (ly_dbu l))),
           (''bbox_um'', if length (ly_tops l) = 1 then JArr [um left, um bottom, um right, um top'] else JNull),
           (''cell_count'', JInt (ly_cells l)), (''recursive_shape_count'', JInt (ge_total g)),
           (''populated_metal_gds_layers'', JArr (map JInt (sort (ge_metals g)))),
           (''via_shape_count'', JInt (ge_vias g))])"

definition rtl_payload ::
  "string \<Rightarrow> env \<Rightarrow> (string \<times> bool) list \<Rightarrow> json \<Rightarrow> json \<Rightarrow> (string \<times> json) list \<Rightarrow> json \<Rightarrow> 's layout \<Rightarrow> bool \<Rightarrow> json" where
  "rtl_payload name env checks source journal inputs gds l passed =
     JObj ([(''schema_version'', JInt 1), (''phase'', JInt 7), (''variant'', JStr (name @ ''_PHASE7_RTL_GDS'')),
        (''generated_at_utc'', JStr (now env)), (''status'', JStr (if passed then ''PASS'' else ''FAIL'')),
        (''signoff'', JBool False), (''checks'', JObj (map (\<lambda>(check, ok). (check, JBool ok)) checks)),
        (''source_manifest'', source), (''streamout_log'', journal)] @ inputs @
       [(''gds'', gds), (''geometry'', geometry_json l)] @ released (name @ ''_PHASE8_OVERLAY'') passed @
       [(''claim_boundary'', JStr ''Structurally valid routed RTL GDS research artifact; not manufacturing signoff.'')])"

text \<open>
  \<open>replace\<close> is reading as text with undecodable bytes replaced (and line ends translated),
  \<open>read_layout\<close> the KLayout reader.
\<close>

definition rtl_decide ::
  "string \<Rightarrow> (string \<Rightarrow> string) \<Rightarrow> (string \<Rightarrow> 's layout result) \<Rightarrow> env \<Rightarrow> host \<Rightarrow> rtl_args \<Rightarrow> (bool \<times> json) result" where
  "rtl_decide name replace read_layout env h a =
     and_then (map_r (require_nonempty h) ([ra_gds a, ra_source a, ra_log a] @ extra_paths a)) (\<lambda>_.
     and_then (and_then (read_bytes h (ra_source a)) (loads env)) (\<lambda>source.
     and_then (read_bytes h (ra_log a)) (\<lambda>log_bytes.
     let journal = replace log_bytes in
     and_then (read_bytes h (ra_gds a)) (\<lambda>gds.
     let actual = sha env gds in
     and_then (read_layout gds) (\<lambda>l.
     and_then (evaluate (rtl_checks name source journal actual l)) (\<lambda>checks.
     let passed = list_all snd checks in
     and_then (evidence env h (ra_source a)) (\<lambda>source_item.
     and_then (evidence env h (ra_log a)) (\<lambda>log_item.
     and_then (rtl_inputs env h a) (\<lambda>inputs.
     and_then (file_item env h (ra_gds a)) (\<lambda>gds_item.
       Inr (passed, rtl_payload name env checks source_item log_item inputs gds_item l passed)))))))))))"

definition rtl_gds_main ::
  "string \<Rightarrow> (string \<Rightarrow> string) \<Rightarrow> (string \<Rightarrow> 's layout result) \<Rightarrow> rtl_args \<Rightarrow> env \<Rightarrow> host \<Rightarrow> (int \<times> host) result" where
  "rtl_gds_main name replace read_layout a env h =
     (if exists h (ra_output a) then Inl (FileExistsError ''refusing to overwrite'')
      else and_then (rtl_decide name replace read_layout env h a) (\<lambda>decision.
        and_then (make_dirs (parent_of (ra_output a)) h) (\<lambda>h'.
          write_decision env (ra_output a) h' decision)))"

section \<open>The scripts\<close>

definition check_b3_rtl_gds ::
  "(string \<Rightarrow> string) \<Rightarrow> (string \<Rightarrow> 's layout result) \<Rightarrow> rtl_args \<Rightarrow> env \<Rightarrow> host \<Rightarrow> (int \<times> host) result" where
  "check_b3_rtl_gds replace read_layout a = rtl_gds_main ''B3'' replace read_layout (a\<lparr>ra_extra := None\<rparr>)"

definition check_b5_rtl_gds ::
  "(string \<Rightarrow> string) \<Rightarrow> (string \<Rightarrow> 's layout result) \<Rightarrow> rtl_args \<Rightarrow> env \<Rightarrow> host \<Rightarrow> (int \<times> host) result" where
  "check_b5_rtl_gds replace read_layout a = rtl_gds_main ''B5'' replace read_layout (a\<lparr>ra_extra := None\<rparr>)"

definition check_b6_rtl_gds ::
  "(string \<Rightarrow> string) \<Rightarrow> (string \<Rightarrow> 's layout result) \<Rightarrow> rtl_args \<Rightarrow> string \<times> string \<times> string \<Rightarrow> env \<Rightarrow> host \<Rightarrow> (int \<times> host) result" where
  "check_b6_rtl_gds replace read_layout a extra = rtl_gds_main ''B6'' replace read_layout (a\<lparr>ra_extra := Some extra\<rparr>)"

definition check_b7_rtl_gds ::
  "(string \<Rightarrow> string) \<Rightarrow> (string \<Rightarrow> 's layout result) \<Rightarrow> rtl_args \<Rightarrow> string \<times> string \<times> string \<Rightarrow> env \<Rightarrow> host \<Rightarrow> (int \<times> host) result" where
  "check_b7_rtl_gds replace read_layout a extra = rtl_gds_main ''B7'' replace read_layout (a\<lparr>ra_extra := Some extra\<rparr>)"

section \<open>The released layout\<close>

lemma count_shapes_length: "count_shapes shapes n = n + int (length shapes)"
  by (induction shapes n rule: count_shapes.induct) auto

lemma count_recursive_length: "count_recursive shapes = int (length shapes)"
  by (simp add: count_recursive_def count_shapes_length)

text \<open>
  The counters of the loop over the layers, as sums and sets over the layers.
\<close>

definition populated :: "int list \<Rightarrow> int set \<Rightarrow> int \<times> int \<times> 's list \<Rightarrow> bool" where
  "populated layers datatypes entry \<longleftrightarrow>
     fst entry \<in> set layers \<and> fst (snd entry) \<in> datatypes \<and> snd (snd entry) \<noteq> []"

lemma fold_note_layer:
  "ge_total (fold note_layer es g) = ge_total g + (\<Sum>e\<leftarrow>es. int (length (snd (snd e)))) \<and>
   set (ge_metals (fold note_layer es g)) = set (ge_metals g) \<union> fst ` set (filter (populated METALS {20, 44}) es) \<and>
   ge_vias (fold note_layer es g) =
     ge_vias g + (\<Sum>e\<leftarrow>filter (populated VIAS {44, 60}) es. int (length (snd (snd e))))"
proof (induction es arbitrary: g)
  case (Cons e es)
  have "ge_total (note_layer e g) = ge_total g + int (length (snd (snd e)))"
    "set (ge_metals (note_layer e g)) = set (ge_metals g) \<union> (if populated METALS {20, 44} e then {fst e} else {})"
    "ge_vias (note_layer e g) = ge_vias g + (if populated VIAS {44, 60} e then int (length (snd (snd e))) else 0)"
    by (auto simp: note_layer_def Let_def count_recursive_length populated_def split: prod.split)
  with Cons.IH [of "note_layer e g"] show ?case by auto
qed simp

lemma sum_lengths_pos: "(0 :: int) < (\<Sum>e\<leftarrow>es. int (length (f e))) \<longleftrightarrow> (\<exists>e \<in> set es. f e \<noteq> [])"
proof (induction es)
  case (Cons e es)
  have "0 \<le> (\<Sum>e\<leftarrow>es. int (length (f e)))" by (rule sum_list_nonneg) auto
  with Cons show ?case by (auto simp: add_nonneg_pos add_pos_nonneg)
qed simp

lemma measured:
  assumes "length (ly_tops l) = 1"
  shows "ge_total (measure_geometry l) > 0 \<longleftrightarrow> (\<exists>e \<in> set (ly_layers l). snd (snd e) \<noteq> [])"
    and "set (ge_metals (measure_geometry l)) = fst ` set (filter (populated METALS {20, 44}) (ly_layers l))"
    and "ge_vias (measure_geometry l) > 0 \<longleftrightarrow> (\<exists>e \<in> set (ly_layers l). populated VIAS {44, 60} e)"
proof -
  have m: "measure_geometry l = fold note_layer (ly_layers l) \<lparr>ge_total = 0, ge_metals = [], ge_vias = 0\<rparr>"
    using assms by (simp add: measure_geometry_def)
  show "ge_total (measure_geometry l) > 0 \<longleftrightarrow> (\<exists>e \<in> set (ly_layers l). snd (snd e) \<noteq> [])"
    "set (ge_metals (measure_geometry l)) = fst ` set (filter (populated METALS {20, 44}) (ly_layers l))"
    by (simp_all add: m fold_note_layer sum_lengths_pos)
  have "snd (snd e) \<noteq> []" if "populated VIAS {44, 60} e" for e :: "int \<times> int \<times> 'a list"
    using that by (simp add: populated_def)
  then show "ge_vias (measure_geometry l) > 0 \<longleftrightarrow> (\<exists>e \<in> set (ly_layers l). populated VIAS {44, 60} e)"
    by (auto simp: m fold_note_layer sum_lengths_pos)
qed

end
