(* ===== verification/Rtl_Gds_Props.thy ===== *)
theory Rtl_Gds_Props
  imports Rtl_Gds Stage_Authorization_Props
begin

text \<open>
  What the RTL layout check decides: the overlay is released exactly for the streamed-out
  file of a passed detailed route, with the expected hierarchy, metals and vias.
\<close>

section \<open>A sound layout\<close>

text \<open>
  One top cell with the expected name and a proper bounding box, a positive grid, further
  cells, shapes on each of the five metals and on some via layer.
\<close>

definition shapes_on :: "'s layout \<Rightarrow> int \<Rightarrow> int set \<Rightarrow> bool" where
  "shapes_on l layer datatypes \<longleftrightarrow>
     (\<exists>datatype \<in> datatypes. \<exists>shapes. (layer, datatype, shapes) \<in> set (ly_layers l) \<and> shapes \<noteq> [])"

definition sound_layout :: "'s layout \<Rightarrow> bool" where
  "sound_layout l \<longleftrightarrow>
     ly_tops l = [EXPECTED_TOP] \<and> ly_dbu l > 0 \<and> \<not> bbox_empty (ly_bbox l) \<and> ly_cells l > 1 \<and>
     (\<forall>metal \<in> set METALS. shapes_on l metal {20, 44}) \<and> (\<exists>via \<in> set VIAS. shapes_on l via {44, 60})"

text \<open>The log: the streamout ended with exit code 0, and the last digest it recorded is this one.\<close>

definition streamed_out :: "string \<Rightarrow> string \<Rightarrow> string \<Rightarrow> bool" where
  "streamed_out name journal digest \<longleftrightarrow>
     (\<exists>a b. journal = a @ (''WBQ_'' @ name @ ''_RTL_GDS_EXIT_CODE=0'') @ b) \<and>
     (\<exists>earlier. logged_values (''WBQ_'' @ name @ ''_RTL_GDS_OUTPUT_SHA256='') journal = earlier @ [digest])"

lemma populated_shapes:
  "layer \<in> set layers \<Longrightarrow> layer \<in> fst ` set (filter (populated layers datatypes) (ly_layers l)) \<longleftrightarrow> shapes_on l layer datatypes"
  by (force simp: populated_def shapes_on_def)

lemma populated_subset: "fst ` set (filter (populated layers datatypes) es) \<subseteq> set layers"
  by (auto simp: populated_def)

lemma some_populated:
  "(\<exists>e \<in> set (ly_layers l). populated layers datatypes e) \<longleftrightarrow> (\<exists>layer \<in> set layers. shapes_on l layer datatypes)"
  unfolding populated_def shapes_on_def by (metis fst_conv snd_conv surj_pair)

lemma metals_measured:
  assumes "length (ly_tops l) = 1"
  shows "set (ge_metals (measure_geometry l)) = set METALS \<longleftrightarrow> (\<forall>metal \<in> set METALS. shapes_on l metal {20, 44})"
proof -
  have "fst ` set (filter (populated METALS {20, 44}) (ly_layers l)) = set METALS \<longleftrightarrow>
      (\<forall>metal \<in> set METALS. metal \<in> fst ` set (filter (populated METALS {20, 44}) (ly_layers l)))"
    using populated_subset [of METALS "{20, 44}" "ly_layers l"] by blast
  also have "\<dots> \<longleftrightarrow> (\<forall>metal \<in> set METALS. shapes_on l metal {20, 44})"
    by (rule ball_cong [OF refl]) (rule populated_shapes)
  finally show ?thesis unfolding measured(2) [OF assms] .
qed

lemma vias_measured:
  assumes "length (ly_tops l) = 1"
  shows "ge_vias (measure_geometry l) > 0 \<longleftrightarrow> (\<exists>via \<in> set VIAS. shapes_on l via {44, 60})"
  unfolding measured(3) [OF assms] by (rule some_populated)

lemma metal_shapes: "shapes_on l layer datatypes \<Longrightarrow> \<exists>e \<in> set (ly_layers l). snd (snd e) \<noteq> []"
  by (force simp: shapes_on_def)

lemma rtl_checks_hold:
  "all_hold (rtl_checks name source journal digest l) \<longleftrightarrow>
     field_is source ''status'' (JStr ''PASS'') \<and> releases source (name @ ''_PHASE7_RTL_GDS_STREAMOUT'') \<and>
     streamed_out name journal digest \<and> sound_layout l"
proof -
  have last: "xs \<noteq> [] \<and> List.last xs = d \<longleftrightarrow> (\<exists>ys. xs = ys @ [d])" for xs :: "string list" and d
    by (metis append_butlast_last_id last_snoc snoc_eq_iff_butlast)
  have layout: "ly_tops l = [EXPECTED_TOP] \<and> ly_dbu l > 0 \<and> (length (ly_tops l) = 1 \<and> \<not> bbox_empty (ly_bbox l)) \<and> ly_cells l > 1 \<and>
      ge_total (measure_geometry l) > 0 \<and> set (ge_metals (measure_geometry l)) = set METALS \<and> ge_vias (measure_geometry l) > 0
      \<longleftrightarrow> sound_layout l"
  proof (cases "ly_tops l = [EXPECTED_TOP]")
    case True
    then have one: "length (ly_tops l) = 1" by simp
    have "\<forall>metal \<in> set METALS. shapes_on l metal {20, 44} \<Longrightarrow> \<exists>e \<in> set (ly_layers l). snd (snd e) \<noteq> []"
      by (rule metal_shapes [of l 68 "{20, 44}"]) (simp add: METALS_def)
    with True one show ?thesis
      unfolding measured(1) [OF one] metals_measured [OF one] vias_measured [OF one] sound_layout_def by blast
  qed (simp add: sound_layout_def)
  have pass: "all_of [get_eq source ''status'' (JStr ''PASS''), authorizes_stage source (name @ ''_PHASE7_RTL_GDS_STREAMOUT'')] = Inr True
      \<longleftrightarrow> field_is source ''status'' (JStr ''PASS'') \<and> releases source (name @ ''_PHASE7_RTL_GDS_STREAMOUT'')"
    by (simp add: and_also_True get_eq_True authorizes_stage_True field_is_def)
  show ?thesis
    unfolding layout [symmetric] streamed_out_def last [symmetric] substring_iff [symmetric]
    by (simp only: all_hold_def rtl_checks_def Let_def list.pred_inject prod.sel pass sum.inject simp_thms) blast
qed

text \<open>
  C10: the overlay is released exactly for a sound streamed-out layout. When the check ends
  with an exit code, that code is 0 iff the detailed route's report has status PASS and
  releases the streamout, the log shows exit code 0 and as its last digest the digest of the
  layout file that was opened, and the layout has the one expected top cell, a positive grid,
  a proper bounding box, further cells, shapes on all five metals and on a via layer. The
  record releases the overlay in that case and nothing otherwise, and an existing record is
  never overwritten.
\<close>

theorem rtl_gds_decides:
  assumes "rtl_gds_main name replace read_layout a env h = Inr (code, h')"
  shows "\<exists>gds l b source journal payload ready.
    files h (ra_gds a) = Some gds \<and> read_layout gds = Inr l \<and> files h (ra_source a) = Some b \<and> loads env b = Inr source \<and>
    files h (ra_log a) = Some journal \<and>
    (ready \<longleftrightarrow> field_is source ''status'' (JStr ''PASS'') \<and> releases source (name @ ''_PHASE7_RTL_GDS_STREAMOUT'') \<and>
       streamed_out name (replace journal) (sha env gds) \<and> sound_layout l) \<and>
    code = (if ready then 0 else 1) \<and> \<not> exists h (ra_output a) \<and>
    files h' = (files h)(ra_output a \<mapsto> dumps env payload) \<and>
    get payload ''authorizes'' JNull = Inr (JArr (if ready then [JStr (name @ ''_PHASE8_OVERLAY'')] else []))"
proof -
  from assms obtain d h1 where d: "rtl_decide name replace read_layout env h a = Inr d" "\<not> exists h (ra_output a)"
    "make_dirs (parent_of (ra_output a)) h = Inr h1" "code = (if fst d then 0 else 1)"
    "h' = write_file (ra_output a) (dumps env (snd d)) h1"
    by (auto simp: rtl_gds_main_def write_decision_def and_then_eq_Inr split: if_splits)
  from d(1) obtain b source journal gds l checks source_item log_item inputs gds_item where
    f: "files h (ra_source a) = Some b" "loads env b = Inr source" "files h (ra_log a) = Some journal"
      "files h (ra_gds a) = Some gds" "read_layout gds = Inr l"
    and c: "evaluate (rtl_checks name source (replace journal) (sha env gds) l) = Inr checks"
    and i: "rtl_inputs env h a = Inr inputs"
    and e: "d = (list_all snd checks, rtl_payload name env checks source_item log_item inputs gds_item l (list_all snd checks))"
    by (auto simp: rtl_decide_def Let_def and_then_eq_Inr read_bytes_Inr)
  from i have "map_of inputs ''authorizes'' = None"
    by (auto simp: rtl_inputs_def and_then_eq_Inr split: option.splits)
  then have "get (snd d) ''authorizes'' JNull = Inr (JArr (if fst d then [JStr (name @ ''_PHASE8_OVERLAY'')] else []))"
    by (simp add: e rtl_payload_def released_def map_add_def)
  moreover have "fst d \<longleftrightarrow> all_hold (rtl_checks name source (replace journal) (sha env gds) l)"
    using evaluated [OF c] e by simp
  moreover have "files h' = (files h)(ra_output a \<mapsto> dumps env (snd d))" using d(5) make_dirs_Inr(1) [OF d(3)] by simp
  ultimately show ?thesis using f d(2,4) unfolding rtl_checks_hold by blast
qed

text \<open>A layout of B3 with one shape per metal and a via, which the check releases.\<close>

definition rtl_sample_layout :: "unit layout" where
  "rtl_sample_layout =
     \<lparr>ly_tops = [EXPECTED_TOP],
      ly_layers = [(68, 20, [()]), (69, 20, [()]), (70, 20, [()]), (71, 20, [()]), (72, 44, [()]), (66, 44, [()]), (1, 0, [])],
      ly_dbu = 1, ly_bbox = (0, 0, 2, 3), ly_cells = 2\<rparr>"

definition rtl_sample_source :: json where
  "rtl_sample_source = JObj [(''status'', JStr ''PASS''), (''authorizes'', JArr [JStr ''B3_PHASE7_RTL_GDS_STREAMOUT''])]"

definition rtl_sample_log :: string where
  "rtl_sample_log = ''WBQ_B3_RTL_GDS_OUTPUT_SHA256=old'' @ CHR 0x0A # ''WBQ_B3_RTL_GDS_OUTPUT_SHA256=GDS'' @ CHR 0x0A #
     ''WBQ_B3_RTL_GDS_EXIT_CODE=0''"

definition rtl_sample_env :: env where
  "rtl_sample_env = \<lparr>sha = (\<lambda>b. b), decode = (\<lambda>b. Inr b),
     loads = (\<lambda>b. if b = ''M'' then Inr rtl_sample_source else Inl (JSONDecodeError b)),
     dumps = (\<lambda>_. ''record''), now = ''2026'', root = ''/r''\<rparr>"

definition rtl_sample_host :: host where
  "rtl_sample_host = \<lparr>files = map_of [(''/o/g'', ''GDS''), (''/o/m'', ''M''), (''/o/l'', rtl_sample_log)], dirs = (\<lambda>_. False)\<rparr>"

definition rtl_sample_args :: rtl_args where
  "rtl_sample_args = \<lparr>ra_gds = ''/o/g'', ra_source = ''/o/m'', ra_log = ''/o/l'', ra_extra = None, ra_output = ''/o/out''\<rparr>"

lemma rtl_sample_run:
  "\<exists>h'. rtl_gds_main ''B3'' (\<lambda>b. b) (\<lambda>_. Inr rtl_sample_layout) rtl_sample_args rtl_sample_env rtl_sample_host = Inr (0, h')"
proof -
  have "exit_code (rtl_gds_main ''B3'' (\<lambda>b. b) (\<lambda>_. Inr rtl_sample_layout) rtl_sample_args rtl_sample_env rtl_sample_host) = Some 0"
    by code_simp
  then show ?thesis by (rule exit_code_Some)
qed

theorem rtl_gds_decides_witness:
  "\<exists>source. releases source ''B3_PHASE7_RTL_GDS_STREAMOUT'' \<and> streamed_out ''B3'' rtl_sample_log ''GDS'' \<and> sound_layout rtl_sample_layout"
proof -
  obtain h' where run: "rtl_gds_main ''B3'' (\<lambda>b. b) (\<lambda>_. Inr rtl_sample_layout) rtl_sample_args rtl_sample_env rtl_sample_host = Inr (0, h')"
    using rtl_sample_run by blast
  have sample: "files rtl_sample_host (ra_gds rtl_sample_args) = Some ''GDS''"
    "files rtl_sample_host (ra_log rtl_sample_args) = Some rtl_sample_log" "sha rtl_sample_env = (\<lambda>b. b)"
    by (simp_all add: rtl_sample_host_def rtl_sample_args_def rtl_sample_env_def)
  from rtl_gds_decides [OF run] sample show ?thesis by (fastforce split: if_splits)
qed

end
