(* ===== verification/Completion_Audit.thy ===== *)
theory Completion_Audit
  imports Rtl_Gds Transition
begin

text \<open>
  \<open>tools/audit_b*_phase10_completion.py\<close> for B3, B5, B6 and B7: the last stage reads every
  report of the chain again, recomputes the digests they record, regenerates the final layout
  and declares the variant complete or blocks it. The scripts of B6 and B7 check more reports
  and also render the layout, record tool versions and write an evidence matrix and a page.
\<close>

section \<open>Variants\<close>

text \<open>
  \<open>cv_full\<close> marks B6 and B7. \<open>cv_chain\<close> names the reports with their paths, \<open>cv_sources\<close>
  the reports whose artifacts are verified with the key they are under, and \<open>cv_extra\<close> is
  what B7 checks of its own history.
\<close>

type_synonym docs = "(string \<times> json) list"

record audit_variant =
  cv_name :: string
  cv_lower :: string
  cv_full :: bool
  cv_chain :: "(string \<times> string) list"
  cv_sources :: "(string \<times> string) list"
  cv_extra :: "docs \<Rightarrow> (string \<times> bool result) list"
  cv_phase9_root :: "string \<Rightarrow> string"

definition own :: "string \<Rightarrow> string \<Rightarrow> string \<Rightarrow> string" where
  "own lower directory name = reports lower @ ''/'' @ directory @ ''/'' @ lower @ name"

definition own_top :: "string \<Rightarrow> string \<Rightarrow> string" where
  "own_top lower name = reports lower @ ''/'' @ lower @ name"

definition root_cause_report :: string where
  "root_cause_report = own_top ''b3'' ''_cheap_root_cause_analysis.json''"

definition late_chain :: "string \<Rightarrow> (string \<times> string) list" where
  "late_chain lower =
     [(''phase7_rtl_gds'', own lower ''phase7'' ''_phase7_rtl_gds_execution_report.json''),
      (''phase8_overlay'', own lower ''phase8'' ''_phase8_overlay_execution_report.json''),
      (''phase9_final_gds'', own lower ''phase9'' ''_phase9_final_gds_execution_report.json'')]"

definition short_chain :: "string \<Rightarrow> (string \<times> string) list" where
  "short_chain lower =
     [(''root_cause'', root_cause_report), (''eco_decision'', own_top lower ''_eco_decision.json''),
      (''cheap_gate'', reports lower @ ''/cheap_gate_manifest.json''),
      (''physical_authorization'', own_top lower ''_physical_authorization.json''),
      (''placement'', own lower ''physical'' ''_placement_execution_report.json''),
      (''global_route'', own lower ''physical'' ''_global_route_execution_report.json''),
      (''congestion_analysis'', own_top lower ''_residual_congestion_analysis.json''),
      (''phase6_gate'', reports lower @ ''/phase6_decision_gate.json''),
      (''phase6_cts'', own lower ''phase6'' ''_phase6_cts_execution_report.json''),
      (''phase6_post_cts'', own lower ''phase6'' ''_phase6_post_cts_global_route_execution_report.json''),
      (''phase7_detailed_route'', own lower ''phase7'' ''_phase7_detailed_route_execution_report.json'')] @
     late_chain lower"

definition full_chain ::
  "string \<Rightarrow> (string \<times> string) list \<Rightarrow> (string \<times> string) list \<Rightarrow> (string \<times> string) list" where
  "full_chain lower before_eco before_authorization =
     [(''root_cause'', root_cause_report)] @ before_eco @
     [(''eco_decision'', own_top lower ''_eco_decision.json''),
      (''sealed_b5_cheap_gate'', reports ''b5'' @ ''/cheap_gate_manifest.json'')] @ before_authorization @
     [(''physical_authorization'', own_top lower ''_physical_authorization.json''),
      (''placement'', own lower ''physical'' ''_placement_execution_report.json''),
      (''placement_numeric_analysis'', own lower ''physical'' ''_placement_numeric_analysis.json''),
      (''targeted_placement_audit'', own lower ''physical'' ''_targeted_placement_reopen_audit.json''),
      (''global_route_authorization'', own_top lower ''_global_route_authorization.json''),
      (''global_route'', own lower ''physical'' ''_global_route_execution_report.json''),
      (''congestion_analysis'', own_top lower ''_residual_congestion_analysis.json''),
      (''phase6_gate'', reports lower @ ''/phase6_decision_gate.json''),
      (''phase6_cts_authorization'', own lower ''phase6'' ''_phase6_cts_authorization.json''),
      (''phase6_cts'', own lower ''phase6'' ''_phase6_cts_execution_report.json''),
      (''phase6_post_cts_authorization'', own lower ''phase6'' ''_phase6_post_cts_route_authorization.json''),
      (''phase6_post_cts'', own lower ''phase6'' ''_phase6_post_cts_global_route_execution_report.json''),
      (''phase7_authorization'', own lower ''phase7'' ''_phase7_detailed_route_authorization.json''),
      (''phase7_detailed_route'', own lower ''phase7'' ''_phase7_detailed_route_execution_report.json'')] @
     late_chain lower"

definition late_sources :: "(string \<times> string) list" where
  "late_sources =
     [(''global_route'', ''outputs''), (''phase6_cts'', ''artifacts''), (''phase6_post_cts'', ''artifacts''),
      (''phase7_detailed_route'', ''artifacts''), (''phase8_overlay'', ''artifacts''), (''phase9_final_gds'', ''artifacts'')]"

definition PRESERVED :: "(string \<times> string \<times> string) list" where
  "PRESERVED =
     [(''frozen_A'', ''reports/groot_normalization/physical_feasibility/logic_die_normalization_hbm_top_wbq_v4_control_global_route.odb'',
       ''964adc9cf68aceac1fd6686d7c586ffbd295ed9a35f6b54628ddf81981cbc5ad''),
      (''B'', ''reports/groot_normalization/quad_local_ab/b_quad_local_global_route.odb'',
       ''ab6cddf83dee124e9ae388b5cbe8c6fbda6665782870e1c4a57f83a83a174235''),
      (''B2'', ''reports/groot_normalization/quad_local_b2/b2_quad_local_global_route.odb'',
       ''2c928b19ab5b1dcbcd89ec36d8d0b18963a8b03c9776ecc7325509332e98235d'')]"

section \<open>The world\<close>

text \<open>
  What the script gets from outside: the exit status of the first process listing and the
  outcome of the last, the layout merger and the KLayout rendering (on a file system, with the
  paths they are given), the names of the two temporary directories, \<open>OPENROAD_EXE\<close>,
  \<open>shutil.which\<close>, the outcome of a version command as exit code and output, the Python
  version, \<open>Path.resolve\<close>, the setting of the Phase 9 directory, and the texts of the two
  readable reports, which depend on the completion record.
\<close>

record audit_world =
  aw_running :: bool
  aw_listing :: "string result"
  aw_merge :: "string \<Rightarrow> host \<Rightarrow> (json \<times> host) result"
  aw_clean_dir :: string
  aw_render_dir :: string
  aw_klayout :: "string \<Rightarrow> string \<Rightarrow> string \<Rightarrow> host \<Rightarrow> ((int \<times> string \<times> string) \<times> host) result"
  aw_exe :: "string option"
  aw_which :: "string option"
  aw_command :: "string list \<Rightarrow> (int \<times> string \<times> string) result"
  aw_python :: string
  aw_realpath :: "string \<Rightarrow> string"
  aw_phase9 :: "string option"
  aw_markdown :: "json \<Rightarrow> string"
  aw_html :: "json \<Rightarrow> string"

section \<open>Reading the chain\<close>

definition audit_dir :: "audit_variant \<Rightarrow> string" where
  "audit_dir v = reports (cv_lower v) @ ''/phase10''"

definition audit_file :: "audit_variant \<Rightarrow> string \<Rightarrow> string" where
  "audit_file v name = own (cv_lower v) ''phase10'' name"

definition HTML :: string where
  "HTML = ''reports/final_integrated_gds_execution/09_final_completion_report.html''"

definition audit_outputs :: "audit_variant \<Rightarrow> string list" where
  "audit_outputs v =
     map (audit_file v) [''_phase10_preflight.json'', ''_phase6_phase10_artifact_hash_manifest.json'',
       ''_phase10_completion_report.json'', ''_phase10_completion_report.md''] @
     (if cv_full v then [audit_file v ''_phase10_evidence_matrix.json'', HTML] else [])"

definition doc :: "docs \<Rightarrow> string \<Rightarrow> json" where
  "doc docs name = (case map_of docs name of None \<Rightarrow> JNull | Some d \<Rightarrow> d)"

definition read_docs :: "audit_variant \<Rightarrow> env \<Rightarrow> host \<Rightarrow> docs result" where
  "read_docs v env h =
     map_r (\<lambda>(name, p). and_then (load env h (under (root env) p)) (\<lambda>d. Inr (name, d))) (cv_chain v)"

definition preflight_json :: "audit_variant \<Rightarrow> env \<Rightarrow> json \<Rightarrow> json" where
  "preflight_json v env input =
     JObj [(''schema_version'', JInt 1), (''phase'', JInt 10), (''variant'', JStr (cv_name v @ ''_PHASE10'')),
       (''status'', JStr ''PASS''), (''generated_at_utc'', JStr (now env)), (''phase9_input'', input),
       (''openroad_processes_before'', JArr []),
       (''authorizes'', JArr [JStr (cv_name v @ ''_PHASE10_COMPLETION_AUDIT_COMPUTE'')]),
       (''next_stage'', JStr (cv_name v @ ''_PHASE10_COMPLETION_AUDIT_COMPUTE''))]"

definition phase9_authorizes :: "audit_variant \<Rightarrow> json \<Rightarrow> bool result" where
  "phase9_authorizes v phase9 =
     all_of [get_eq phase9 ''status'' (JStr ''PASS''),
             authorizes_stage phase9 (cv_name v @ ''_PHASE10_COMPLETION_AUDIT'')]"

text \<open>Up to the preflight record: the reports and the file system with that record.\<close>

definition audit_begin :: "audit_variant \<Rightarrow> audit_world \<Rightarrow> env \<Rightarrow> host \<Rightarrow> (docs \<times> host) result" where
  "audit_begin v w env h =
     and_then (make_dirs (under (root env) (audit_dir v)) h) (\<lambda>h1.
     if list_ex (\<lambda>p. exists h1 (under (root env) p)) (audit_outputs v)
     then Inl (FileExistsError ''refusing to overwrite Phase 10 evidence'')
     else if aw_running w then Inl (RuntimeError ''OpenROAD exists before Phase 10 audit'')
     else and_then (map_r (\<lambda>(_, p). require_nonempty h1 (under (root env) p)) (cv_chain v)) (\<lambda>_.
       and_then (read_docs v env h1) (\<lambda>docs.
       and_then (phase9_authorizes v (doc docs ''phase9_final_gds'')) (\<lambda>authorized.
       if \<not> authorized then Inl (RuntimeError ''Phase 9 does not authorize Phase 10'')
       else and_then (file_item env h1 (under (root env) (the (map_of (cv_chain v) ''phase9_final_gds'')))) (\<lambda>input.
         Inr (docs, write_file (under (root env) (audit_file v ''_phase10_preflight.json''))
                      (dumps env (preflight_json v env input)) h1))))))"

section \<open>The phases\<close>

definition status_pass :: "docs \<Rightarrow> string \<Rightarrow> bool result" where
  "status_pass docs name = get_eq (doc docs name) ''status'' (JStr ''PASS'')"

definition decision_pass :: "docs \<Rightarrow> string \<Rightarrow> bool result" where
  "decision_pass docs name = get_eq (doc docs name) ''decision'' (JStr ''PASS'')"

definition nine_gates :: "json \<Rightarrow> bool result" where
  "nine_gates d =
     all_of [get_eq d ''overall_result'' (JStr ''PASS''),
             and_then (get d ''gates'' (JArr [])) (\<lambda>gates. and_then (py_len gates) (\<lambda>n. Inr (n = 9)))]"

definition zero_congestion :: "json \<Rightarrow> string \<Rightarrow> bool result" where
  "zero_congestion d table = all_of [get2_eq d table ''rrr_residual'' (JInt 0), get2_eq d table ''overflow_edges'' (JInt 0)]"

definition gate_checks :: "audit_variant \<Rightarrow> docs \<Rightarrow> (string \<times> bool result) list" where
  "gate_checks v docs =
     [(''single_global_route'',
         all_of [status_pass docs ''global_route'', get_eq (doc docs ''global_route'') ''invocation_count'' (JInt 1)]),
      (''strict_phase6_gate'',
         all_of [decision_pass docs ''phase6_gate'',
                 get_eq (doc docs ''phase6_gate'') ''authorizes'' (JArr [JStr (cv_name v @ ''_PHASE6_CTS'')])])]"

definition late_checks :: "audit_variant \<Rightarrow> docs \<Rightarrow> (string \<times> bool result) list" where
  "late_checks v docs =
     [(''phase7_detailed_route'', status_pass docs ''phase7_detailed_route''),
      (''phase7_rtl_gds'', status_pass docs ''phase7_rtl_gds''), (''phase8_overlay'', status_pass docs ''phase8_overlay''),
      (''phase9_final_gds'', status_pass docs ''phase9_final_gds''),
      (cv_lower v @ ''_zero_congestion'', zero_congestion (doc docs ''congestion_analysis'') ''totals''),
      (''post_cts_zero_congestion'', zero_congestion (doc docs ''phase6_post_cts'') ''metrics'')]"

text \<open>\<open>isinstance(value, (int, float))\<close>, which a truth value satisfies too.\<close>

definition quantified :: "json \<Rightarrow> string \<Rightarrow> bool result" where
  "quantified metrics name = and_then (get metrics name JNull) (\<lambda>x. Inr (numeric x \<noteq> None))"

definition timing_check :: "docs \<Rightarrow> bool result" where
  "timing_check docs =
     and_then (get (doc docs ''phase7_detailed_route'') ''metrics'' (JObj [])) (\<lambda>metrics.
       all_of (map (quantified metrics) [''worst_slack_ns'', ''max_slew_violation_rows'',
         ''max_capacitance_violation_rows'', ''max_fanout_violation_rows'']))"

definition phase_checks :: "audit_variant \<Rightarrow> docs \<Rightarrow> (string \<times> bool result) list" where
  "phase_checks v docs =
     (if cv_full v
      then [(''sealed_b5_cheap_gate_9_of_9'', nine_gates (doc docs ''sealed_b5_cheap_gate''))] @ cv_extra v docs @
        [(''physical_authorization'', decision_pass docs ''physical_authorization''),
         (''placement'', status_pass docs ''placement''),
         (''placement_numeric_analysis'', status_pass docs ''placement_numeric_analysis''),
         (''targeted_placement_audit'',
            all_of [status_pass docs ''targeted_placement_audit'',
                    get2_eq (doc docs ''targeted_placement_audit'') ''metrics'' ''anchors_verified'' (JInt 2),
                    get2_eq (doc docs ''targeted_placement_audit'') ''metrics'' ''placement_violations'' (JInt 0)]),
         (''global_route_authorization'', decision_pass docs ''global_route_authorization'')] @
        gate_checks v docs @
        [(''phase6_cts_authorization'', decision_pass docs ''phase6_cts_authorization''),
         (''phase6_cts'', status_pass docs ''phase6_cts''),
         (''phase6_post_cts_authorization'', decision_pass docs ''phase6_post_cts_authorization''),
         (''phase6_post_cts'', status_pass docs ''phase6_post_cts''),
         (''phase7_authorization'', decision_pass docs ''phase7_authorization'')] @
        late_checks v docs @ [(''phase7_timing_and_constraints_quantified'', timing_check docs)]
      else [(''cheap_gate_9_of_9'', nine_gates (doc docs ''cheap_gate'')),
         (''physical_authorization'', decision_pass docs ''physical_authorization''),
         (''placement'', status_pass docs ''placement'')] @
        gate_checks v docs @
        [(''phase6_cts'', status_pass docs ''phase6_cts''), (''phase6_post_cts'', status_pass docs ''phase6_post_cts'')] @
        late_checks v docs)"

section \<open>The artifacts\<close>

text \<open>One recorded artifact: the check, whether it matches, and the path. Other items are skipped.\<close>

definition digest_or_null :: "env \<Rightarrow> host \<Rightarrow> string \<Rightarrow> json" where
  "digest_or_null env h p = (case files h p of None \<Rightarrow> JNull | Some b \<Rightarrow> JStr (sha env b))"

definition verify_item :: "env \<Rightarrow> host \<Rightarrow> string \<times> json \<Rightarrow> (json \<times> bool \<times> string) list result" where
  "verify_item env h entry =
     (case snd entry of
        JObj kvs \<Rightarrow>
          (case (map_of kvs ''path'', map_of kvs ''sha256'') of
             (Some value, Some expected) \<Rightarrow>
               and_then (to_path value) (\<lambda>p.
               let actual = digest_or_null env h p; ok = (actual \<noteq> JNull \<and> py_eq actual expected)
               in Inr [(JObj [(''name'', JStr (fst entry)), (''path'', JStr p), (''expected'', expected),
                              (''actual'', actual), (''match'', JBool ok)], ok, p)])
           | _ \<Rightarrow> Inr [])
      | _ \<Rightarrow> Inr [])"

type_synonym artifact_check = "bool \<times> (json \<times> bool \<times> string) list"

definition verify_recorded_artifacts :: "env \<Rightarrow> host \<Rightarrow> json \<Rightarrow> string \<Rightarrow> artifact_check result" where
  "verify_recorded_artifacts env h d key =
     and_then (get d key (JObj [])) (\<lambda>table.
     and_then (items table) (\<lambda>entries.
     and_then (map_r (verify_item env h) entries) (\<lambda>found.
     let checks = concat found in
       Inr (checks \<noteq> [] \<and> list_all (\<lambda>(_, ok, _). ok) checks, checks))))"

definition source_checks :: "audit_variant \<Rightarrow> env \<Rightarrow> host \<Rightarrow> docs \<Rightarrow> (string \<times> artifact_check) list result" where
  "source_checks v env h docs =
     map_r (\<lambda>(name, key). and_then (verify_recorded_artifacts env h (doc docs name) key) (\<lambda>c. Inr (name, c))) (cv_sources v)"

definition input_check :: "env \<Rightarrow> host \<Rightarrow> string \<times> json \<Rightarrow> (string \<times> artifact_check) list result" where
  "input_check env h entry =
     and_then (get (snd entry) ''inputs'' JNull) (\<lambda>inputs.
       case inputs of
         JObj _ \<Rightarrow> and_then (verify_recorded_artifacts env h (snd entry) ''inputs'') (\<lambda>c.
            Inr (if snd c = [] then [] else [(fst entry @ ''_inputs'', c)]))
       | _ \<Rightarrow> Inr [])"

definition input_checks :: "audit_variant \<Rightarrow> env \<Rightarrow> host \<Rightarrow> docs \<Rightarrow> (string \<times> artifact_check) list result" where
  "input_checks v env h docs =
     (if cv_full v then and_then (map_r (input_check env h) docs) (\<lambda>cs. Inr (concat cs)) else Inr [])"

definition gds_path :: "docs \<Rightarrow> string result" where
  "gds_path docs =
     and_then (subscript (doc docs ''phase7_rtl_gds'') ''gds'') (\<lambda>gds. and_then (subscript gds ''path'') to_path)"

definition gds_check :: "env \<Rightarrow> host \<Rightarrow> docs \<Rightarrow> string \<Rightarrow> bool result" where
  "gds_check env h docs p =
     all_of [Inr (is_file h p),
             and_then (sha256 env h p) (\<lambda>d. and_then (subscript (doc docs ''phase7_rtl_gds'') ''gds'') (\<lambda>gds.
               and_then (subscript gds ''sha256'') (\<lambda>e. Inr (py_eq d e))))]"

definition preservation_item :: "env \<Rightarrow> host \<Rightarrow> string \<times> string \<times> string \<Rightarrow> (string \<times> json \<times> bool) result" where
  "preservation_item env h entry =
     (let (name, p, expected) = entry; path = under (root env) p in
      and_then (read_bytes h path) (\<lambda>b.
        let ok = (sha env b = expected) in
        Inr (name, JObj [(''path'', JStr path), (''expected_sha256'', JStr expected),
                         (''actual_sha256'', JStr (sha env b)), (''match'', JBool ok)], ok)))"

section \<open>Regeneration\<close>

definition phase9_artifact :: "docs \<Rightarrow> string \<Rightarrow> string result" where
  "phase9_artifact docs name =
     and_then (subscript (doc docs ''phase9_final_gds'') ''artifacts'') (\<lambda>a.
     and_then (subscript a name) (\<lambda>item. and_then (subscript item ''path'') to_path))"

definition remove_tree :: "string \<Rightarrow> host \<Rightarrow> host" where
  "remove_tree d h =
     h\<lparr>files := (\<lambda>p. if is_prefix (d @ ''/'') p then None else files h p),
       dirs := (\<lambda>p. dirs h p \<and> p \<noteq> d \<and> \<not> is_prefix (d @ ''/'') p)\<rparr>"

definition enter_dir :: "string \<Rightarrow> host \<Rightarrow> host" where
  "enter_dir d h = h\<lparr>dirs := (dirs h)(d := True)\<rparr>"

text \<open>\<open>{**recipe["output"], "gds": ..., "lyp": ..., "report": ...}\<close>\<close>

fun redirect :: "string \<Rightarrow> json \<Rightarrow> json result" where
  "redirect temp (JObj kvs) =
     Inr (JObj (put ''report'' (JStr (temp @ ''/merged_final_physical_report.json''))
       (put ''lyp'' (JStr (temp @ ''/merged_final_physical.lyp''))
         (put ''gds'' (JStr (temp @ ''/merged_final_physical.gds'')) kvs))))"
| "redirect temp _ = Inl (TypeError ''object is not a mapping'')"

fun with_output :: "string \<Rightarrow> json \<Rightarrow> json result" where
  "with_output temp (JObj kvs) =
     and_then (subscript (JObj kvs) ''output'') (\<lambda>out. and_then (redirect temp out) (\<lambda>out'. Inr (JObj (put ''output'' out' kvs))))"
| "with_output temp _ = Inl (TypeError ''not subscriptable'')"

text \<open>The report of the merger, the digest of its layout, and the file system afterwards.\<close>

definition regenerate :: "audit_variant \<Rightarrow> audit_world \<Rightarrow> env \<Rightarrow> string \<Rightarrow> host \<Rightarrow> (json \<times> string \<times> host) result" where
  "regenerate v w env recipe h =
     and_then (make_dirs (''/dev/shm/wbq_'' @ cv_lower v @ ''_phase6_10'') h) (\<lambda>h1.
     let temp = aw_clean_dir w; h2 = enter_dir temp h1 in
     and_then (load env h2 recipe) (\<lambda>data.
     and_then (with_output temp data) (\<lambda>data'.
     and_then (aw_merge w (temp @ ''/recipe.json'') (write_file (temp @ ''/recipe.json'') (dumps env data') h2)) (\<lambda>(report, h3).
     and_then (read_bytes h3 (temp @ ''/merged_final_physical.gds'')) (\<lambda>gds.
     and_then (get report ''status'' JNull) (\<lambda>status.
       Inr (status, sha env gds, remove_tree temp h3)))))))"

definition regeneration_json :: "json \<Rightarrow> string \<Rightarrow> string \<Rightarrow> json" where
  "regeneration_json status original regenerated =
     JObj [(''status'', status), (''original_sha256'', JStr original), (''regenerated_sha256'', JStr regenerated),
       (''byte_identical'', JBool (regenerated = original))]"

definition tail_text :: "string \<Rightarrow> string" where
  "tail_text s = drop (length s - 4000) s"

definition readback :: "audit_world \<Rightarrow> docs \<Rightarrow> string \<Rightarrow> host \<Rightarrow> (json \<times> bool \<times> host) result" where
  "readback w docs final_gds h =
     and_then (phase9_artifact docs ''final_lyp'') (\<lambda>lyp.
     let temp = aw_render_dir w; png = temp @ ''/independent_readback.png'' in
     and_then (aw_klayout w final_gds lyp png (enter_dir temp h)) (\<lambda>((code, out, err), h1).
     let token = substring ''KLAYOUT_WBQ_FINAL_RENDER PASS '' out;
         image = (case files h1 png of None \<Rightarrow> False | Some b \<Rightarrow> b \<noteq> [])
     in Inr (JObj [(''exit_code'', JInt code), (''pass_token'', JBool token), (''image_nonempty'', JBool image),
                   (''stdout'', JStr (tail_text out)), (''stderr'', JStr (tail_text err))],
             code = 0 \<and> token \<and> image, remove_tree temp h1)))"

section \<open>Tool versions\<close>

definition strip :: "string \<Rightarrow> string" where
  "strip s = (let skip = dropWhile (\<lambda>c. c \<in> set white_space) in rev (skip (rev (skip s))))"

definition openroad_candidates :: "audit_world \<Rightarrow> env \<Rightarrow> string option list" where
  "openroad_candidates w env =
     [case aw_exe w of None \<Rightarrow> None | Some s \<Rightarrow> if s = [] then None else Some (path_str s),
      Some (under (parent_of (root env)) ''OpenROAD-flow-scripts/tools/install/OpenROAD/bin/openroad''),
      case aw_which w of None \<Rightarrow> None | Some s \<Rightarrow> if s = [] then None else Some (path_str s)]"

fun first_file :: "host \<Rightarrow> string option list \<Rightarrow> string option" where
  "first_file h [] = None"
| "first_file h (None # ps) = first_file h ps"
| "first_file h (Some p # ps) = (if is_file h p then Some p else first_file h ps)"

definition tool_versions :: "audit_world \<Rightarrow> env \<Rightarrow> host \<Rightarrow> (json \<times> bool) result" where
  "tool_versions w env h =
     (let exe = first_file h (openroad_candidates w env) in
      and_then (case exe of None \<Rightarrow> Inr None
                | Some p \<Rightarrow> and_then (aw_command w [p, ''-version'']) (\<lambda>r. Inr (Some r))) (\<lambda>openroad.
      and_then (aw_command w [''klayout'', ''-b'', ''-v'']) (\<lambda>(kcode, kout, kerr).
      and_then (aw_command w [''git'', ''rev-parse'', ''HEAD'']) (\<lambda>(gcode, gout, gerr).
        Inr (JObj
          [(''python'', JStr (aw_python w)),
           (''openroad'', case openroad of None \<Rightarrow> JNull | Some (code, out, err) \<Rightarrow> JStr (strip (out @ err))),
           (''openroad_path'', case exe of None \<Rightarrow> JNull | Some p \<Rightarrow> JStr p),
           (''openroad_version_exit_code'', case openroad of None \<Rightarrow> JNull | Some (code, out, err) \<Rightarrow> JInt code),
           (''klayout'', JStr (strip (kout @ kerr))), (''klayout_version_exit_code'', JInt kcode),
           (''git_revision'', JStr (strip gout)), (''git_revision_exit_code'', JInt gcode)],
          (case openroad of None \<Rightarrow> False | Some (code, out, err) \<Rightarrow> code = 0) \<and> kcode = 0 \<and> gcode = 0)))))"

section \<open>The verdict\<close>

record verdict =
  ve_phases :: "(string \<times> bool) list"
  ve_artifacts :: "(string \<times> artifact_check) list"
  ve_preserved :: "(string \<times> json \<times> bool) list"
  ve_status :: json
  ve_original :: string
  ve_regenerated :: string
  ve_readback :: "(json \<times> bool) option"
  ve_versions :: "(json \<times> bool) option"
  ve_processes :: "string list"
  ve_rtl_gds :: string
  ve_final_gds :: string

definition all_pass :: "verdict \<Rightarrow> bool" where
  "all_pass r \<longleftrightarrow>
     list_all snd (ve_phases r) \<and> list_all (\<lambda>(_, ok, _). ok) (ve_artifacts r) \<and>
     list_all (\<lambda>(_, _, ok). ok) (ve_preserved r) \<and> py_eq (ve_status r) (JStr ''PASS'') \<and>
     ve_regenerated r = ve_original r \<and>
     (case ve_readback r of None \<Rightarrow> True | Some (_, ok) \<Rightarrow> ok) \<and>
     (case ve_versions r of None \<Rightarrow> True | Some (_, ok) \<Rightarrow> ok) \<and> ve_processes r = []"

text \<open>
  The evidence in the order of the script; the file system changes only while the layout is
  regenerated and rendered.
\<close>

definition audit_judge :: "audit_variant \<Rightarrow> audit_world \<Rightarrow> env \<Rightarrow> docs \<Rightarrow> host \<Rightarrow> (verdict \<times> host) result" where
  "audit_judge v w env docs h =
     and_then (evaluate (phase_checks v docs)) (\<lambda>phases.
     and_then (source_checks v env h docs) (\<lambda>sources.
     and_then (input_checks v env h docs) (\<lambda>inputs.
     and_then (gds_path docs) (\<lambda>rtl_gds.
     and_then (gds_check env h docs rtl_gds) (\<lambda>gds_ok.
     and_then (map_r (preservation_item env h) PRESERVED) (\<lambda>preserved.
     and_then (phase9_artifact docs ''recipe'') (\<lambda>recipe.
     and_then (phase9_artifact docs ''final_gds'') (\<lambda>final_gds.
     and_then (read_bytes h final_gds) (\<lambda>original.
     and_then (regenerate v w env recipe h) (\<lambda>(status, regenerated, h1).
     and_then (if cv_full v then and_then (readback w docs final_gds h1) (\<lambda>(j, ok, h2). Inr (Some (j, ok), h2))
               else Inr (None, h1)) (\<lambda>(rendered, h2).
     and_then (if cv_full v then and_then (tool_versions w env h2) (\<lambda>t. Inr (Some t)) else Inr None) (\<lambda>versions.
     and_then (aw_listing w) (\<lambda>listing.
       Inr (\<lparr>ve_phases = phases, ve_artifacts = sources @ inputs @ [(''phase7_rtl_gds'', gds_ok, [])],
             ve_preserved = preserved, ve_status = status, ve_original = sha env original, ve_regenerated = regenerated,
             ve_readback = rendered, ve_versions = versions, ve_processes = nonblank_lines listing,
             ve_rtl_gds = rtl_gds, ve_final_gds = final_gds\<rparr>, h2))))))))))))))"


section \<open>The records\<close>

text \<open>The dash of the claim boundary is written with the bytes of its UTF-8 encoding.\<close>

definition BOUNDARY :: string where
  "BOUNDARY = ''RESEARCH ARTIFACT '' @ map char_of [0xE2, 0x80, 0x94 :: nat] @ '' NOT FOR FABRICATION''"

definition no_signoff :: "(string \<times> json) list" where
  "no_signoff =
     [(''manufacturing_signoff'', JBool False), (''timing_signoff'', JBool False), (''foundry_drc_lvs'', JBool False),
      (''ir_em_signoff'', JBool False), (''overlay_geometry'', JStr ''illustrative/estimated'')]"

definition evidence_entry :: "string \<Rightarrow> string \<times> bool \<Rightarrow> json" where
  "evidence_entry kind entry =
     JObj [(''name'', JStr (fst entry)), (''evidence_class'', JStr kind), (''pass'', JBool (snd entry))]"

definition evidence_matrix :: "audit_variant \<Rightarrow> env \<Rightarrow> verdict \<Rightarrow> json" where
  "evidence_matrix v env r =
     JObj [(''schema_version'', JInt 1), (''generated_at_utc'', JStr (now env)), (''variant'', JStr (cv_name v)),
       (''phase_gate_evidence'', JArr (map (evidence_entry ''measured_or_hash_pinned_gate'') (ve_phases r))),
       (''artifact_evidence'',
          JArr (map (\<lambda>(name, ok, _). evidence_entry ''recorded_sha256_recomputed'' (name, ok)) (ve_artifacts r))),
       (''claim_boundary'', JStr BOUNDARY), (''known_limitations'', JObj no_signoff)]"

text \<open>The files whose digests go into the manifest, without repetitions.\<close>

definition artifact_paths :: "json \<Rightarrow> string list result" where
  "artifact_paths d =
     and_then (get d ''artifacts'' (JObj [])) (\<lambda>table.
     and_then (py_values table) (\<lambda>entries.
     and_then (map_r (\<lambda>item. case item of
         JObj kvs \<Rightarrow> (case map_of kvs ''path'' of
             None \<Rightarrow> Inr []
           | Some value \<Rightarrow> if truthy value then and_then (to_path value) (\<lambda>p. Inr [p]) else Inr [])
       | _ \<Rightarrow> Inr []) entries) (\<lambda>found. Inr (concat found))))"

definition inventory_paths :: "audit_variant \<Rightarrow> env \<Rightarrow> docs \<Rightarrow> verdict \<Rightarrow> string list result" where
  "inventory_paths v env docs r =
     and_then (map_r (\<lambda>name. artifact_paths (doc docs name))
       [''phase6_cts'', ''phase6_post_cts'', ''phase7_detailed_route'', ''phase8_overlay'', ''phase9_final_gds'']) (\<lambda>recorded.
       Inr (map (\<lambda>(_, p). under (root env) p) (cv_chain v) @
         [under (root env) (audit_file v ''_phase10_preflight.json'')] @
         (if cv_full v
          then [under (root env) (audit_file v ''_phase10_evidence_matrix.json'')] @
            concat (map (\<lambda>(_, _, checks). map (\<lambda>(_, _, p). p) checks) (ve_artifacts r))
          else []) @
         concat recorded @ [ve_rtl_gds r]))"

fun unique_files :: "(string \<Rightarrow> string) \<Rightarrow> host \<Rightarrow> string list \<Rightarrow> string list \<Rightarrow> string list" where
  "unique_files realpath h [] seen = []"
| "unique_files realpath h (p # ps) seen =
     (if realpath p \<notin> set seen \<and> is_file h p then p # unique_files realpath h ps (realpath p # seen)
      else unique_files realpath h ps seen)"

definition hash_manifest :: "audit_variant \<Rightarrow> env \<Rightarrow> json list \<Rightarrow> verdict \<Rightarrow> json" where
  "hash_manifest v env artifacts r =
     JObj [(''schema_version'', JInt 1), (''generated_at_utc'', JStr (now env)),
       (''variant'', JStr (cv_name v @ ''_PHASE6_PHASE10'')), (''artifacts'', JArr artifacts),
       (''preserved_routed_odb'', JObj (map (\<lambda>(name, j, _). (name, j)) (ve_preserved r)))]"

text \<open>The metrics of the completion record: name, report, table and key.\<close>

definition metric_sources :: "audit_variant \<Rightarrow> (string \<times> string \<times> string \<times> string) list" where
  "metric_sources v =
     (let placement = (\<lambda>k. (''placement_'' @ k, ''placement_numeric_analysis'', ''metrics'', k));
          routed = (\<lambda>k. (k, ''phase7_detailed_route'', ''metrics'', k))
      in [(cv_lower v @ ''_rrr_residual'', ''congestion_analysis'', ''totals'', ''rrr_residual''),
          (cv_lower v @ ''_overflow_edges'', ''congestion_analysis'', ''totals'', ''overflow_edges'')] @
         (if cv_full v
          then map placement [''routability_iterations'', ''weighted_congestion_initial'', ''weighted_congestion_final'',
                 ''total_overflow_initial'', ''total_overflow_final'']
          else []) @
         [(''post_cts_rrr_residual'', ''phase6_post_cts'', ''metrics'', ''rrr_residual''),
          (''post_cts_overflow_edges'', ''phase6_post_cts'', ''metrics'', ''overflow_edges''),
          routed ''final_drc_violations'', routed ''antenna_violating_nets''] @
         (if cv_full v
          then map routed [''worst_slack_ns'', ''total_negative_slack_ns'', ''worst_negative_slack_ns'', ''max_slew_violation_rows'',
                 ''max_capacitance_violation_rows'', ''max_fanout_violation_rows'']
          else []))"

definition completion_metrics :: "audit_variant \<Rightarrow> docs \<Rightarrow> json result" where
  "completion_metrics v docs =
     and_then (map_r (\<lambda>(name, d, table, key). and_then (get2 (doc docs d) table key JNull) (\<lambda>x. Inr (name, x)))
       (metric_sources v)) (\<lambda>entries. Inr (JObj entries))"

definition phase9_root :: "audit_variant \<Rightarrow> audit_world \<Rightarrow> env \<Rightarrow> string" where
  "phase9_root v w env = path_str (case aw_phase9 w of None \<Rightarrow> cv_phase9_root v (root env) | Some s \<Rightarrow> s)"

definition limitations :: "audit_variant \<Rightarrow> audit_world \<Rightarrow> env \<Rightarrow> json" where
  "limitations v w env =
     JObj (no_signoff @
       (if cv_full v
        then [(''intermediate_large_artifact_storage'', JStr (''/dev/shm/wbq_'' @ cv_lower v @ ''_phase6_10'')),
              (''final_artifact_storage'', JStr (phase9_root v w env))]
        else [(''volatile_large_artifact_storage'', JStr (phase9_root v w env))]))"

definition artifact_check_json :: "string \<times> artifact_check \<Rightarrow> string \<times> json" where
  "artifact_check_json entry =
     (fst entry, JObj [(''pass'', JBool (fst (snd entry))), (''checks'', JArr (map fst (snd (snd entry))))])"

definition completion_json ::
  "audit_variant \<Rightarrow> audit_world \<Rightarrow> env \<Rightarrow> verdict \<Rightarrow> json \<Rightarrow> (string \<times> json) list \<Rightarrow> json \<Rightarrow> json \<Rightarrow> (string \<times> json) list" where
  "completion_json v w env r manifest matrix final metrics =
     [(''schema_version'', JInt 1), (''generated_at_utc'', JStr (now env)), (''phase'', JInt 10),
      (''variant'', JStr (cv_name v)), (''status'', JStr (if all_pass r then ''PASS'' else ''FAIL'')),
      (''decision'', JStr (if all_pass r then ''PHASE10_COMPLETE'' else ''BLOCKED_PHASE10_AUDIT'')),
      (''phase_checks'', JObj (map (\<lambda>(name, ok). (name, JBool ok)) (ve_phases r))),
      (''artifact_checks'', JObj (map artifact_check_json (ve_artifacts r))),
      (''clean_regeneration'', regeneration_json (ve_status r) (ve_original r) (ve_regenerated r)),
      (''protected_hashes'', JObj (map (\<lambda>(name, j, _). (name, j)) (ve_preserved r)))] @
     (case ve_readback r of None \<Rightarrow> [] | Some (j, _) \<Rightarrow> [(''independent_klayout_process'', j)]) @
     (case ve_versions r of None \<Rightarrow> [] | Some (j, _) \<Rightarrow> [(''tool_versions'', j)]) @
     [(''artifact_hash_manifest'', manifest)] @ matrix @ [(''final_artifact'', final), (''metrics'', metrics),
      (''openroad_processes_final'', JArr (map JStr (ve_processes r))), (''authorizes'', JArr []), (''next_stage'', JNull),
      (''known_limitations'', limitations v w env), (''claim_boundary'', JStr BOUNDARY)]"

text \<open>
  The records in the order in which they are written; the completion record of B6 and B7 is
  written a second time, with the digest of the page.
\<close>

definition audit_report ::
  "audit_variant \<Rightarrow> audit_world \<Rightarrow> env \<Rightarrow> docs \<Rightarrow> verdict \<Rightarrow> host \<Rightarrow> host result" where
  "audit_report v w env docs r h =
     (let out = (\<lambda>name. under (root env) (audit_file v name)); completion_path = out ''_phase10_completion_report.json'';
          h1 = (if cv_full v
                then write_file (out ''_phase10_evidence_matrix.json'') (dumps env (evidence_matrix v env r)) h else h)
      in
      and_then (inventory_paths v env docs r) (\<lambda>paths.
      and_then (map_r (file_item env h1) (unique_files (aw_realpath w) h1 paths [])) (\<lambda>artifacts.
      let h2 = write_file (out ''_phase6_phase10_artifact_hash_manifest.json'') (dumps env (hash_manifest v env artifacts r)) h1 in
      and_then (file_item env h2 (out ''_phase6_phase10_artifact_hash_manifest.json'')) (\<lambda>manifest.
      and_then (if cv_full v
                then and_then (file_item env h2 (out ''_phase10_evidence_matrix.json'')) (\<lambda>j. Inr [(''evidence_matrix'', j)])
                else Inr []) (\<lambda>matrix.
      and_then (file_item env h2 (ve_final_gds r)) (\<lambda>final.
      and_then (completion_metrics v docs) (\<lambda>metrics.
      let completion = completion_json v w env r manifest matrix final metrics;
          h3 = write_file (out ''_phase10_completion_report.md'') (aw_markdown w (JObj completion))
                 (write_file completion_path (dumps env (JObj completion)) h2)
      in if \<not> cv_full v then Inr h3
         else and_then (make_dirs (parent_of (under (root env) HTML)) h3) (\<lambda>h4.
           let h5 = write_file (under (root env) HTML) (aw_html w (JObj completion)) h4 in
           and_then (file_item env h5 (under (root env) HTML)) (\<lambda>page.
             Inr (write_file completion_path (dumps env (JObj (completion @ [(''final_html_report'', page)]))) h5))))))))))"

definition completion_audit_main :: "audit_variant \<Rightarrow> audit_world \<Rightarrow> env \<Rightarrow> host \<Rightarrow> (int \<times> host) result" where
  "completion_audit_main v w env h =
     and_then (audit_begin v w env h) (\<lambda>(docs, h1).
     and_then (audit_judge v w env docs h1) (\<lambda>(r, h2).
     and_then (audit_report v w env docs r h2) (\<lambda>h3.
       Inr (if all_pass r then 0 else 1, h3))))"

section \<open>The scripts\<close>

definition short_audit :: "string \<Rightarrow> string \<Rightarrow> audit_variant" where
  "short_audit name lower =
     \<lparr>cv_name = name, cv_lower = lower, cv_full = False, cv_chain = short_chain lower,
      cv_sources = [(''placement'', ''outputs'')] @ late_sources, cv_extra = (\<lambda>_. []),
      cv_phase9_root = (\<lambda>_. ''/dev/shm/wbq_'' @ lower @ ''_phase6_10/phase9'')\<rparr>"

definition b3_audit :: audit_variant where "b3_audit = short_audit ''B3'' ''b3''"

definition b5_audit :: audit_variant where "b5_audit = short_audit ''B5'' ''b5''"

definition b6_audit :: audit_variant where
  "b6_audit =
     \<lparr>cv_name = ''B6'', cv_lower = ''b6'', cv_full = True, cv_chain = full_chain ''b6'' [] [],
      cv_sources = [(''placement'', ''outputs''), (''targeted_placement_audit'', ''outputs'')] @ late_sources,
      cv_extra = (\<lambda>_. []), cv_phase9_root = (\<lambda>base. under base ''output/final_integrated_gds/b6'')\<rparr>"

definition b7_checks :: "docs \<Rightarrow> (string \<times> bool result) list" where
  "b7_checks docs =
     [(''sealed_b6_gpl0307_pre_route_failure'',
         all_of [get_eq (doc docs ''sealed_b6_failure'') ''status'' (JStr ''FAIL''),
                 get_eq (doc docs ''sealed_b6_failure'') ''exit_code'' (JInt 1),
                 get_eq (doc docs ''sealed_b6_failure'') ''global_route_invocations'' (JInt 0),
                 get_is_true (doc docs ''sealed_b6_failure'') ''protected_artifacts_preserved'',
                 get_eq (doc docs ''sealed_b6_failure'') ''authorizes'' (JArr [])]),
      (''b7_one_variable_phi_decision'',
         all_of [get_eq (doc docs ''eco_decision'') ''decision'' (JStr ''SELECT_B7_LOWER_MAX_PHI_ECO''),
                 get2_eq (doc docs ''eco_decision'') ''selected_eco'' ''before'' (JFloat (Finite (fl (105 / 100)))),
                 get2_eq (doc docs ''eco_decision'') ''selected_eco'' ''after'' (JFloat (Finite (fl (101 / 100)))),
                 get2_eq (doc docs ''eco_decision'') ''failure_classification'' ''subtype''
                   (JStr ''GPL-0307 optimizer_numerical_divergence'')]),
      (''b7_fresh_smoke'',
         all_of [status_pass docs ''b7_smoke'', get_is_true (doc docs ''b7_smoke'') ''protected_artifacts_preserved''])]"

definition b7_audit :: audit_variant where
  "b7_audit =
     \<lparr>cv_name = ''B7'', cv_lower = ''b7'', cv_full = True,
      cv_chain = full_chain ''b7'' [(''sealed_b6_failure'', own ''b6'' ''physical'' ''_placement_execution_report.json'')]
        [(''b7_smoke'', own ''b7'' ''physical'' ''_smoke_execution_report.json'')],
      cv_sources = [(''b7_smoke'', ''outputs''), (''placement'', ''outputs''), (''targeted_placement_audit'', ''outputs'')] @ late_sources,
      cv_extra = b7_checks, cv_phase9_root = (\<lambda>base. under base ''output/final_integrated_gds/b7'')\<rparr>"

definition audit_b3 :: "audit_world \<Rightarrow> env \<Rightarrow> host \<Rightarrow> (int \<times> host) result" where
  "audit_b3 = completion_audit_main b3_audit"

definition audit_b5 :: "audit_world \<Rightarrow> env \<Rightarrow> host \<Rightarrow> (int \<times> host) result" where
  "audit_b5 = completion_audit_main b5_audit"

definition audit_b6 :: "audit_world \<Rightarrow> env \<Rightarrow> host \<Rightarrow> (int \<times> host) result" where
  "audit_b6 = completion_audit_main b6_audit"

definition audit_b7 :: "audit_world \<Rightarrow> env \<Rightarrow> host \<Rightarrow> (int \<times> host) result" where
  "audit_b7 = completion_audit_main b7_audit"

end
