(* ===== verification/Completion_Props.thy ===== *)
theory Completion_Props
  imports Completion_Audit Release_History
begin

text \<open>
  What completion means: every phase passed, every recorded artifact is still the recorded
  one, the protected databases are untouched and the final layout was reproduced; and for B6
  and B7 every authorization of the chain was issued, in order, before.
\<close>

section \<open>Reading the chain\<close>

lemma read_docs_lookup:
  assumes "read_docs v env h = Inr docs" "map_of (cv_chain v) name = Some p"
  shows "load env h (under (root env) p) = Inr (doc docs name)"
proof -
  have "\<exists>d. map_of ds name = Some d \<and> load env h (under (root env) p) = Inr d"
    if "map_r (\<lambda>(name, p). and_then (load env h (under (root env) p)) (\<lambda>d. Inr (name, d))) chain = Inr ds"
      "map_of chain name = Some p" for chain ds
    using that
  proof (induction chain arbitrary: ds)
    case (Cons entry chain)
    then show ?case by (cases entry) (auto simp: and_then_eq_Inr split: if_splits)
  qed simp
  with assms show ?thesis unfolding read_docs_def doc_def by fastforce
qed

lemma map_r_weaken:
  assumes "\<And>x y. x \<in> set xs \<Longrightarrow> f x = Inr y \<Longrightarrow> g x = Inr y" "map_r f xs = Inr ys"
  shows "map_r g xs = Inr ys"
  using assms by (induction xs arbitrary: ys) (auto simp: and_then_eq_Inr)

lemma read_docs_files: "files h' = files h \<Longrightarrow> read_docs v env h' = Inr docs \<Longrightarrow> read_docs v env h = Inr docs"
  unfolding read_docs_def by (erule map_r_weaken [rotated]) (auto simp: and_then_eq_Inr load_Inr)

lemma audit_begin_Inr:
  assumes "audit_begin v w env h = Inr (docs, h1)"
  shows "read_docs v env h = Inr docs" "\<not> aw_running w"
    "\<exists>b. files h1 = (files h)(under (root env) (audit_file v ''_phase10_preflight.json'') \<mapsto> b)"
    "p \<in> set (audit_outputs v) \<Longrightarrow> \<not> exists h (under (root env) p)"
proof -
  from assms obtain h0 input where m: "make_dirs (under (root env) (audit_dir v)) h = Inr h0"
    and r: "\<not> list_ex (\<lambda>p. exists h0 (under (root env) p)) (audit_outputs v)" "\<not> aw_running w" "read_docs v env h0 = Inr docs"
    and h1: "h1 = write_file (under (root env) (audit_file v ''_phase10_preflight.json'')) (dumps env (preflight_json v env input)) h0"
    by (auto simp: audit_begin_def and_then_eq_Inr split: if_splits)
  note files = make_dirs_Inr [OF m]
  show "read_docs v env h = Inr docs" "\<not> aw_running w" using read_docs_files [OF files(1) r(3)] r(2) .
  show "\<exists>b. files h1 = (files h)(under (root env) (audit_file v ''_phase10_preflight.json'') \<mapsto> b)"
    using h1 files(1) by auto
  show "p \<in> set (audit_outputs v) \<Longrightarrow> \<not> exists h (under (root env) p)"
    using r(1) files(3) by (auto simp: list_ex_iff)
qed

section \<open>The evidence\<close>

text \<open>A recorded artifact is intact: the file is there and its digest is the recorded one.\<close>

definition recorded_as :: "env \<Rightarrow> host \<Rightarrow> json \<Rightarrow> json \<Rightarrow> bool" where
  "recorded_as env h value expected \<longleftrightarrow>
     (\<exists>p b. value = JStr p \<and> files h (path_str p) = Some b \<and> expected = JStr (sha env b))"

definition records_file :: "json \<Rightarrow> json \<Rightarrow> json \<Rightarrow> bool" where
  "records_file item value expected \<longleftrightarrow>
     (\<exists>kvs. item = JObj kvs \<and> map_of kvs ''path'' = Some value \<and> map_of kvs ''sha256'' = Some expected)"

definition artifacts_intact :: "env \<Rightarrow> host \<Rightarrow> json \<Rightarrow> string \<Rightarrow> bool" where
  "artifacts_intact env h d key \<longleftrightarrow>
     (\<exists>entries. get d key (JObj []) = Inr (JObj entries) \<and>
        (\<exists>(name, item) \<in> set entries. \<exists>value expected. records_file item value expected) \<and>
        (\<forall>(name, item) \<in> set entries. \<forall>value expected. records_file item value expected \<longrightarrow>
           recorded_as env h value expected))"

lemma verify_item_Inr:
  assumes "verify_item env h (name, item) = Inr cs"
  shows "cs \<noteq> [] \<longleftrightarrow> (\<exists>value expected. records_file item value expected)"
    and "list_all (\<lambda>(_, ok, _). ok) cs \<longleftrightarrow> (\<forall>value expected. records_file item value expected \<longrightarrow> recorded_as env h value expected)"
proof -
  have "(cs \<noteq> [] \<longleftrightarrow> (\<exists>value expected. records_file item value expected)) \<and>
    (list_all (\<lambda>(_, ok, _). ok) cs \<longleftrightarrow> (\<forall>value expected. records_file item value expected \<longrightarrow> recorded_as env h value expected))"
  proof (cases "\<exists>value expected. records_file item value expected")
    case True
    then obtain kvs val expected where
      i: "item = JObj kvs" "map_of kvs ''path'' = Some val" "map_of kvs ''sha256'' = Some expected"
      by (auto simp: records_file_def)
    with assms obtain p where "to_path val = Inr p"
      and cs: "cs = [(JObj [(''name'', JStr name), (''path'', JStr p), (''expected'', expected), (''actual'', digest_or_null env h p),
         (''match'', JBool (digest_or_null env h p \<noteq> JNull \<and> py_eq (digest_or_null env h p) expected))],
         digest_or_null env h p \<noteq> JNull \<and> py_eq (digest_or_null env h p) expected, p)]"
      by (auto simp: verify_item_def and_then_eq_Inr Let_def)
    then have "list_all (\<lambda>(_, ok, _). ok) cs \<longleftrightarrow> recorded_as env h val expected"
      by (auto simp: to_path_Inr recorded_as_def digest_or_null_def split: option.splits)
    with i cs show ?thesis by (simp add: records_file_def)
  next
    case False
    then have "verify_item env h (name, item) = Inr []"
      unfolding verify_item_def records_file_def by (cases item) (auto split: option.split)
    with assms have "cs = []" by simp
    with False show ?thesis by simp
  qed
  then show "cs \<noteq> [] \<longleftrightarrow> (\<exists>value expected. records_file item value expected)"
    and "list_all (\<lambda>(_, ok, _). ok) cs \<longleftrightarrow> (\<forall>value expected. records_file item value expected \<longrightarrow> recorded_as env h value expected)"
    by simp_all
qed

lemma verify_recorded_Inr:
  assumes "verify_recorded_artifacts env h d key = Inr c"
  shows "fst c \<longleftrightarrow> artifacts_intact env h d key"
proof -
  from assms obtain table entries found where t: "get d key (JObj []) = Inr table" "items table = Inr entries"
    and e: "map_r (verify_item env h) entries = Inr found"
    and c: "fst c \<longleftrightarrow> concat found \<noteq> [] \<and> list_all (\<lambda>(_, ok, _). ok) (concat found)"
    by (auto simp: verify_recorded_artifacts_def Let_def and_then_eq_Inr)
  from t have d: "get d key (JObj []) = Inr (JObj entries)" by (cases table) auto
  have "(concat found \<noteq> [] \<longleftrightarrow> (\<exists>(name, item) \<in> set entries. \<exists>value expected. records_file item value expected)) \<and>
      (list_all (\<lambda>(_, ok, _). ok) (concat found) \<longleftrightarrow> (\<forall>(name, item) \<in> set entries. \<forall>value expected.
           records_file item value expected \<longrightarrow> recorded_as env h value expected))"
    using e
  proof (induction entries arbitrary: found)
    case (Cons entry entries)
    obtain name item where entry: "entry = (name, item)" by (cases entry)
    with Cons.prems obtain cs rest where r: "verify_item env h (name, item) = Inr cs" "map_r (verify_item env h) entries = Inr rest"
      "found = cs # rest" by (auto simp: and_then_eq_Inr)
    have "concat found \<noteq> [] \<longleftrightarrow> cs \<noteq> [] \<or> concat rest \<noteq> []"
      "list_all (\<lambda>(_, ok, _). ok) (concat found) \<longleftrightarrow> list_all (\<lambda>(_, ok, _). ok) cs \<and> list_all (\<lambda>(_, ok, _). ok) (concat rest)"
      unfolding r(3) by auto
    then show ?case unfolding Cons.IH [OF r(2), THEN conjunct1] Cons.IH [OF r(2), THEN conjunct2] verify_item_Inr [OF r(1)] entry
      by (simp only: list.set insert_iff bex_simps ball_simps prod.case simp_thms)
  qed simp
  with c d show ?thesis unfolding artifacts_intact_def by simp
qed

lemma source_checks_Inr:
  assumes "source_checks v env h docs = Inr cs"
  shows "list_all (\<lambda>(_, ok, _). ok) cs \<longleftrightarrow> (\<forall>(name, key) \<in> set (cv_sources v). artifacts_intact env h (doc docs name) key)"
proof -
  have "list_all (\<lambda>(_, ok, _). ok) cs \<longleftrightarrow> (\<forall>(name, key) \<in> set sources. artifacts_intact env h (doc docs name) key)"
    if "map_r (\<lambda>(name, key). and_then (verify_recorded_artifacts env h (doc docs name) key) (\<lambda>c. Inr (name, c))) sources = Inr cs"
    for sources cs
    using that
  proof (induction sources arbitrary: cs)
    case (Cons entry sources)
    obtain name key where entry: "entry = (name, key)" by (cases entry)
    with Cons.prems obtain c rest where "verify_recorded_artifacts env h (doc docs name) key = Inr c"
        "map_r (\<lambda>(name, key). and_then (verify_recorded_artifacts env h (doc docs name) key) (\<lambda>c. Inr (name, c))) sources = Inr rest"
        "cs = (name, c) # rest" by (auto simp: and_then_eq_Inr)
    with Cons.IH verify_recorded_Inr entry show ?case by (cases c) auto
  qed simp
  with assms show ?thesis unfolding source_checks_def by blast
qed

definition protected_intact :: "env \<Rightarrow> host \<Rightarrow> bool" where
  "protected_intact env h \<longleftrightarrow> (\<forall>(name, p, expected) \<in> set PRESERVED. \<exists>b. files h (under (root env) p) = Some b \<and> sha env b = expected)"

lemma preservation_Inr:
  assumes "map_r (preservation_item env h) PRESERVED = Inr cs" "list_all (\<lambda>(_, _, ok). ok) cs"
  shows "protected_intact env h"
proof -
  have "\<forall>(name, p, expected) \<in> set es. \<exists>b. files h (under (root env) p) = Some b \<and> sha env b = expected"
    if "map_r (preservation_item env h) es = Inr cs" "list_all (\<lambda>(_, _, ok). ok) cs" for es cs
    using that
    by (induction es arbitrary: cs)
       (auto simp: and_then_eq_Inr preservation_item_def Let_def read_bytes_Inr split: prod.splits)
  from this [OF assms] show ?thesis unfolding protected_intact_def .
qed

text \<open>The streamed-out layout is the recorded one, and the final layout was reproduced.\<close>

definition gds_intact :: "env \<Rightarrow> host \<Rightarrow> docs \<Rightarrow> bool" where
  "gds_intact env h docs \<longleftrightarrow>
     (\<exists>gds value expected. subscript (doc docs ''phase7_rtl_gds'') ''gds'' = Inr gds \<and> subscript gds ''path'' = Inr value \<and>
        subscript gds ''sha256'' = Inr expected \<and> recorded_as env h value expected)"

definition reproduced :: "audit_variant \<Rightarrow> audit_world \<Rightarrow> env \<Rightarrow> host \<Rightarrow> docs \<Rightarrow> bool" where
  "reproduced v w env h docs \<longleftrightarrow>
     (\<exists>recipe final b status h2. phase9_artifact docs ''recipe'' = Inr recipe \<and> phase9_artifact docs ''final_gds'' = Inr final \<and>
        files h final = Some b \<and> regenerate v w env recipe h = Inr (status, sha env b, h2) \<and> status = JStr ''PASS'')"

lemma audit_judge_Inr:
  assumes "audit_judge v w env docs h = Inr (r, h')" "all_pass r"
  shows "all_hold (phase_checks v docs)" "\<forall>(name, key) \<in> set (cv_sources v). artifacts_intact env h (doc docs name) key"
    "protected_intact env h" "gds_intact env h docs" "reproduced v w env h docs"
    "\<exists>listing. aw_listing w = Inr listing \<and> nonblank_lines listing = []"
proof -
  from assms(1) obtain phases sources inputs rtl_gds gds_ok preserved recipe final_gds original status regenerated h1 rendered h2 versions listing
    where j: "evaluate (phase_checks v docs) = Inr phases" "source_checks v env h docs = Inr sources"
      "gds_path docs = Inr rtl_gds" "gds_check env h docs rtl_gds = Inr gds_ok"
      "map_r (preservation_item env h) PRESERVED = Inr preserved" "phase9_artifact docs ''recipe'' = Inr recipe"
      "phase9_artifact docs ''final_gds'' = Inr final_gds" "files h final_gds = Some original"
      "regenerate v w env recipe h = Inr (status, regenerated, h1)" "aw_listing w = Inr listing"
    and r: "r = \<lparr>ve_phases = phases, ve_artifacts = sources @ inputs @ [(''phase7_rtl_gds'', gds_ok, [])],
             ve_preserved = preserved, ve_status = status, ve_original = sha env original, ve_regenerated = regenerated,
             ve_readback = rendered, ve_versions = versions, ve_processes = nonblank_lines listing,
             ve_rtl_gds = rtl_gds, ve_final_gds = final_gds\<rparr>"
    unfolding audit_judge_def by (auto simp: and_then_eq_Inr read_bytes_Inr)
  note ok = assms(2) [unfolded r all_pass_def, simplified]
  show "all_hold (phase_checks v docs)" using evaluated [OF j(1)] ok by simp
  show "\<forall>(name, key) \<in> set (cv_sources v). artifacts_intact env h (doc docs name) key"
    using source_checks_Inr [OF j(2)] ok by simp
  show "protected_intact env h" using preservation_Inr [OF j(5)] ok by simp
  show "\<exists>listing. aw_listing w = Inr listing \<and> nonblank_lines listing = []" using j(10) ok by simp
  show "gds_intact env h docs"
    using j(3,4) ok
    by (fastforce simp: gds_path_def gds_check_def gds_intact_def and_then_eq_Inr and_also_True to_path_Inr sha256_def
        read_bytes_Inr recorded_as_def)
  show "reproduced v w env h docs" using j(6-9) ok by (auto simp: reproduced_def)
qed

section \<open>Completion\<close>

text \<open>
  C5: completion rests on evidence. When the audit exits 0, no OpenROAD process ran before or
  after it, none of its own records existed, every phase check holds on the reports of the
  chain, every artifact these reports record (and at least one each) is on the file system
  with the recorded digest, the protected databases and the streamed-out layout have theirs,
  and merging again from the recorded recipe reproduced the final layout byte for byte.
\<close>

theorem completion_rests_on_evidence:
  assumes "completion_audit_main v w env h = Inr (0, h')"
  shows "\<exists>docs h1 b. read_docs v env h = Inr docs \<and>
    files h1 = (files h)(under (root env) (audit_file v ''_phase10_preflight.json'') \<mapsto> b) \<and>
    all_hold (phase_checks v docs) \<and>
    (\<forall>(name, key) \<in> set (cv_sources v). artifacts_intact env h1 (doc docs name) key) \<and>
    protected_intact env h1 \<and> gds_intact env h1 docs \<and> reproduced v w env h1 docs \<and>
    \<not> aw_running w \<and> (\<exists>listing. aw_listing w = Inr listing \<and> nonblank_lines listing = []) \<and>
    (\<forall>p \<in> set (audit_outputs v). \<not> exists h (under (root env) p))"
proof -
  from assms obtain docs h1 r h2 where b: "audit_begin v w env h = Inr (docs, h1)" "audit_judge v w env docs h1 = Inr (r, h2)"
    "all_pass r" by (auto simp: completion_audit_main_def and_then_eq_Inr split: if_splits)
  from audit_begin_Inr(3) [OF b(1)] obtain bytes where
    "files h1 = (files h)(under (root env) (audit_file v ''_phase10_preflight.json'') \<mapsto> bytes)" by blast
  with audit_begin_Inr(1,2,4) [OF b(1)] audit_judge_Inr [OF b(2,3)] show ?thesis by blast
qed

section \<open>The authorizations behind a completion\<close>

lemma decision_read_back:
  assumes "readable env" "decision_for stage d" "files h p = Some (dumps env (snd d))"
    and "load env h p = Inr j" "field_is j ''decision'' (JStr ''PASS'')"
  shows "fst d"
proof -
  from assms(3,4) have "loads env (dumps env (snd d)) = Inr j" by (auto simp: load_Inr)
  with assms(1,2,5) show ?thesis by (auto simp: readable_decision decision_for_def split: if_splits)
qed

lemma cts_issued:
  assumes "readable env" "history env h0 h" "known (Cts v)" "files h0 (under (root env) (cts_output v)) = None"
    and "load env h (under (root env) (cts_output v)) = Inr d" "field_is d ''decision'' (JStr ''PASS'')"
  shows "\<exists>t h1 h2. history env h0 h1 \<and> cts_ready v (env\<lparr>now := t\<rparr>) h1 \<and>
    cts_authorization_main v (env\<lparr>now := t\<rparr>) h1 = Inr (0, h2) \<and> history env h2 h"
proof -
  from assms(5) obtain b where b: "files h (under (root env) (script_output (Cts v))) = Some b" by (auto simp: load_Inr)
  from history_created [OF assms(2,3) _ b] assms(4) obtain s' t h1 h2 code where
    c: "history env h0 h1" "script_key s' = Cts v" "run_script s' (env\<lparr>now := t\<rparr>) h1 = Inr (code, h2)"
      "files h2 (under (root env) (cts_output v)) = Some b" "history env h2 h" by auto
  from c(2) have "s' = Cts v" by (cases s') auto
  with c(3) have run: "cts_authorization_main v (env\<lparr>now := t\<rparr>) h1 = Inr (code, h2)" by simp
  then obtain e h3 where e: "cts_decide v (env\<lparr>now := t\<rparr>) h1 = Inr e" "code = (if fst e then 0 else 1)"
    "h2 = write_file (under (root env) (cts_output v)) (dumps env (snd e)) h3" by (rule cts_main_Inr) auto
  have "files h (under (root env) (cts_output v)) = Some (dumps env (snd e))" using b c(4) e(3) by simp
  from decision_read_back [OF assms(1) conjunct2 [OF cts_decides [OF e(1)]] this assms(5,6)] have "fst e" .
  with e(2) run c(1,5) cts_decides [OF e(1)] show ?thesis by auto
qed

lemma post_cts_issued:
  assumes "readable env" "history env h0 h" "known (Post_Cts v)" "files h0 (under (root env) (post_cts_output v)) = None"
    and "load env h (under (root env) (post_cts_output v)) = Inr d" "field_is d ''decision'' (JStr ''PASS'')"
  shows "\<exists>t h1 h2. history env h0 h1 \<and> post_cts_ready v (env\<lparr>now := t\<rparr>) h1 \<and>
    post_cts_authorization_main v (env\<lparr>now := t\<rparr>) h1 = Inr (0, h2) \<and> history env h2 h"
proof -
  from assms(5) obtain b where b: "files h (under (root env) (script_output (Post_Cts v))) = Some b" by (auto simp: load_Inr)
  from history_created [OF assms(2,3) _ b] assms(4) obtain s' t h1 h2 code where
    c: "history env h0 h1" "script_key s' = Post_Cts v" "run_script s' (env\<lparr>now := t\<rparr>) h1 = Inr (code, h2)"
      "files h2 (under (root env) (post_cts_output v)) = Some b" "history env h2 h" by auto
  from c(2) have "s' = Post_Cts v" by (cases s') auto
  with c(3) have run: "post_cts_authorization_main v (env\<lparr>now := t\<rparr>) h1 = Inr (code, h2)" by simp
  then obtain e where e: "post_cts_decide v (env\<lparr>now := t\<rparr>) h1 = Inr e" "code = (if fst e then 0 else 1)"
    "h2 = write_file (under (root env) (post_cts_output v)) (dumps env (snd e)) h1" by (rule post_cts_main_Inr) auto
  have "files h (under (root env) (post_cts_output v)) = Some (dumps env (snd e))" using b c(4) e(3) by simp
  from decision_read_back [OF assms(1) conjunct2 [OF post_cts_decides [OF e(1)]] this assms(5,6)] have "fst e" .
  with e(2) run c(1,5) post_cts_decides [OF e(1)] show ?thesis by auto
qed

text \<open>The detailed route also went out on a clean routed design with no process running.\<close>

lemma detailed_issued:
  assumes "readable env" "history env h0 h" "known (Detailed v None (Inr []))" "files h0 (under (root env) (detailed_output v)) = None"
    and "load env h (under (root env) (detailed_output v)) = Inr d" "field_is d ''decision'' (JStr ''PASS'')"
  shows "\<exists>t setting pgrep h1 h2 h3. history env h0 h1 \<and> make_dirs (under (root env) (sv_report v ''phase7'')) h1 = Inr h2 \<and>
    detailed_ready v setting pgrep (env\<lparr>now := t\<rparr>) h2 \<and>
    detailed_authorization_main v setting pgrep (env\<lparr>now := t\<rparr>) h1 = Inr (0, h3) \<and> history env h3 h"
proof -
  from assms(5) obtain b where b: "files h (under (root env) (script_output (Detailed v None (Inr [])))) = Some b"
    by (auto simp: load_Inr)
  from history_created [OF assms(2,3) _ b] assms(4) obtain s' t h1 h3 code where
    c: "history env h0 h1" "script_key s' = Detailed v None (Inr [])" "run_script s' (env\<lparr>now := t\<rparr>) h1 = Inr (code, h3)"
      "files h3 (under (root env) (detailed_output v)) = Some b" "history env h3 h" by auto
  from c(2) obtain setting pgrep where "s' = Detailed v setting pgrep" by (cases s') auto
  with c(3) have run: "detailed_authorization_main v setting pgrep (env\<lparr>now := t\<rparr>) h1 = Inr (code, h3)" by simp
  then obtain e h2 where e: "make_dirs (under (root env) (sv_report v ''phase7'')) h1 = Inr h2"
    "detailed_decide v setting pgrep (env\<lparr>now := t\<rparr>) h2 = Inr e" "code = (if fst e then 0 else 1)"
    "h3 = write_file (under (root env) (detailed_output v)) (dumps env (snd e)) h2" by (rule detailed_main_Inr) auto
  have "files h (under (root env) (detailed_output v)) = Some (dumps env (snd e))" using b c(4) e(4) by simp
  from decision_read_back [OF assms(1) conjunct2 [OF detailed_decides [OF e(2)]] this assms(5,6)] have "fst e" .
  with e(3) run detailed_decides [OF e(2)] have "detailed_ready v setting pgrep (env\<lparr>now := t\<rparr>) h2"
    "detailed_authorization_main v setting pgrep (env\<lparr>now := t\<rparr>) h1 = Inr (0, h3)" by simp_all
  with c(1,5) e(1) show ?thesis by blast
qed

definition completion_chains :: "(audit_variant \<times> stage_variant \<times> gate_variant \<times> auth_variant) list" where
  "completion_chains = [(b6_audit, b6_stages, b6_gate, b6_route), (b7_audit, b7_stages, b7_gate, b7_route)]"

lemma completion_member:
  assumes "(a, v, g, r) \<in> set completion_chains"
  shows "cv_full a" "(v, g, r) \<in> set release_chains" "known (Post_Cts v)" "known (Detailed v None (Inr []))"
    "map_of (cv_chain a) ''phase6_cts_authorization'' = Some (cts_output v)"
    "map_of (cv_chain a) ''phase6_post_cts_authorization'' = Some (post_cts_output v)"
    "map_of (cv_chain a) ''phase7_authorization'' = Some (detailed_output v)"
proof -
  have "list_all (\<lambda>(a, v, g, r). cv_full a \<and> (v, g, r) \<in> set release_chains \<and> known (Post_Cts v) \<and> known (Detailed v None (Inr [])) \<and>
      map_of (cv_chain a) ''phase6_cts_authorization'' = Some (cts_output v) \<and>
      map_of (cv_chain a) ''phase6_post_cts_authorization'' = Some (post_cts_output v) \<and>
      map_of (cv_chain a) ''phase7_authorization'' = Some (detailed_output v)) completion_chains"
    by (simp add: completion_chains_def release_chains_def stage_variants_def b6_audit_def b7_audit_def full_chain_def
        b6_stages_def b7_stages_def cts_output_def post_cts_output_def detailed_output_def sv_own_def own_def reports_def)
  with assms show "cv_full a" "(v, g, r) \<in> set release_chains" "known (Post_Cts v)" "known (Detailed v None (Inr []))"
    "map_of (cv_chain a) ''phase6_cts_authorization'' = Some (cts_output v)"
    "map_of (cv_chain a) ''phase6_post_cts_authorization'' = Some (post_cts_output v)"
    "map_of (cv_chain a) ''phase7_authorization'' = Some (detailed_output v)" by (auto simp: list_all_iff)
qed

lemma completion_decisions:
  assumes "all_hold (phase_checks a docs)" "cv_full a"
    and "name \<in> {''phase6_cts_authorization'', ''phase6_post_cts_authorization'', ''phase7_authorization''}"
  shows "field_is (doc docs name) ''decision'' (JStr ''PASS'')"
proof -
  have "(name, decision_pass docs name) \<in> set (phase_checks a docs)"
    using assms(2,3) by (auto simp: phase_checks_def)
  with assms(1) have "decision_pass docs name = Inr True" unfolding all_hold_def list_all_iff by fastforce
  then show ?thesis by (simp add: field_is_def decision_pass_def)
qed

text \<open>
  C3: completion needs every release. Start from a repository in which none of the five
  decisions of B6 (or B7) is taken. If at any later time its completion audit exits 0, then
  in between the route was authorized with all conditions met, later the strict gate passed on
  clean evidence, later clock-tree synthesis was authorized with all conditions met; and the
  route after it and the detailed route were authorized, each with all its conditions met.
\<close>

theorem completion_needs_every_release:
  assumes "readable env" "(a, v, g, r) \<in> set completion_chains"
    and "\<forall>p \<in> {av_output r, gv_output g, cts_output v, post_cts_output v, detailed_output v}. files h0 (under (root env) p) = None"
    and "history env h0 h" "completion_audit_main a w (env\<lparr>now := t\<rparr>) h = Inr (0, h')"
  shows "(\<exists>t1 h1 h2 t3 h3 h4 t5 h5 h6.
      history env h0 h1 \<and> route_ready r (env\<lparr>now := t1\<rparr>) h1 \<and> route_authorization_main r (env\<lparr>now := t1\<rparr>) h1 = Inr (0, h2) \<and>
      history env h2 h3 \<and> phase6_clear g (env\<lparr>now := t3\<rparr>) h3 \<and> strict_gate_main g (env\<lparr>now := t3\<rparr>) h3 = Inr (0, h4) \<and>
      history env h4 h5 \<and> cts_ready v (env\<lparr>now := t5\<rparr>) h5 \<and> cts_authorization_main v (env\<lparr>now := t5\<rparr>) h5 = Inr (0, h6) \<and>
      history env h6 h) \<and>
    (\<exists>t1 h1 h2. history env h0 h1 \<and> post_cts_ready v (env\<lparr>now := t1\<rparr>) h1 \<and>
      post_cts_authorization_main v (env\<lparr>now := t1\<rparr>) h1 = Inr (0, h2) \<and> history env h2 h) \<and>
    (\<exists>t1 setting pgrep h1 h2 h3. history env h0 h1 \<and> make_dirs (under (root env) (sv_report v ''phase7'')) h1 = Inr h2 \<and>
      detailed_ready v setting pgrep (env\<lparr>now := t1\<rparr>) h2 \<and>
      detailed_authorization_main v setting pgrep (env\<lparr>now := t1\<rparr>) h1 = Inr (0, h3) \<and> history env h3 h)"
proof -
  note m = completion_member [OF assms(2)]
  from assms(5) obtain docs h1 verdict h2 where
    b: "audit_begin a w (env\<lparr>now := t\<rparr>) h = Inr (docs, h1)" "audit_judge a w (env\<lparr>now := t\<rparr>) docs h1 = Inr (verdict, h2)" "all_pass verdict"
    by (auto simp: completion_audit_main_def and_then_eq_Inr split: if_splits)
  note pass = completion_decisions [OF audit_judge_Inr(1) [OF b(2,3)] m(1)]
  note found = read_docs_lookup [OF audit_begin_Inr(1) [OF b(1)], simplified]
  have none: "files h0 (under (root env) (av_output r)) = None" "files h0 (under (root env) (gv_output g)) = None"
    "files h0 (under (root env) (cts_output v)) = None" "files h0 (under (root env) (post_cts_output v)) = None"
    "files h0 (under (root env) (detailed_output v)) = None" using assms(3) by simp_all
  from cts_issued [OF assms(1,4) chain_member(1) [OF m(2)] none(3) found [OF m(5)] pass] obtain t5 h5 h6 where
    c: "history env h0 h5" "cts_ready v (env\<lparr>now := t5\<rparr>) h5" "cts_authorization_main v (env\<lparr>now := t5\<rparr>) h5 = Inr (0, h6)"
      "history env h6 h" by auto
  from cts_traced_back [OF assms(1) m(2) none(2,1) c(1,3)] c
  have "\<exists>t1 h1 h2 t3 h3 h4 t5 h5 h6.
      history env h0 h1 \<and> route_ready r (env\<lparr>now := t1\<rparr>) h1 \<and> route_authorization_main r (env\<lparr>now := t1\<rparr>) h1 = Inr (0, h2) \<and>
      history env h2 h3 \<and> phase6_clear g (env\<lparr>now := t3\<rparr>) h3 \<and> strict_gate_main g (env\<lparr>now := t3\<rparr>) h3 = Inr (0, h4) \<and>
      history env h4 h5 \<and> cts_ready v (env\<lparr>now := t5\<rparr>) h5 \<and> cts_authorization_main v (env\<lparr>now := t5\<rparr>) h5 = Inr (0, h6) \<and>
      history env h6 h" by meson
  moreover have "\<exists>t1 h1 h2. history env h0 h1 \<and> post_cts_ready v (env\<lparr>now := t1\<rparr>) h1 \<and>
      post_cts_authorization_main v (env\<lparr>now := t1\<rparr>) h1 = Inr (0, h2) \<and> history env h2 h"
    using post_cts_issued [OF assms(1,4) m(3) none(4) found [OF m(6)] pass] by simp
  moreover have "\<exists>t1 setting pgrep h1 h2 h3. history env h0 h1 \<and> make_dirs (under (root env) (sv_report v ''phase7'')) h1 = Inr h2 \<and>
      detailed_ready v setting pgrep (env\<lparr>now := t1\<rparr>) h2 \<and>
      detailed_authorization_main v setting pgrep (env\<lparr>now := t1\<rparr>) h1 = Inr (0, h3) \<and> history env h3 h"
    using detailed_issued [OF assms(1,4) m(4) none(5) found [OF m(7)] pass] by simp
  ultimately show ?thesis by blast
qed

end
