(* ===== verification/Completion_Witness.thy ===== *)
theory Completion_Witness
  imports Completion_Props
begin

text \<open>
  B6 from placement to completion in the sample repository: after the gate the remaining
  authorizations run, reports and artifacts appear between them, and the audit passes.
\<close>

definition b6_cts_authorized :: host where
  "b6_cts_authorized = write_file (under ''/r'' (cts_output b6_stages)) ''!B6_PHASE6_CTS_COMPUTE''
     (b6_gated\<lparr>dirs := (\<lambda>d. dirs b6_gated d \<or> d \<in> set (path_prefixes (under ''/r'' (sv_report b6_stages ''phase6'')) []))\<rparr>)"

definition b6_cts_files :: "(string \<times> string) list" where
  "b6_cts_files = [(under ''/r'' (cts_manifest b6_stages), ''C'')]"

definition b6_clocked :: host where
  "b6_clocked = add_files b6_cts_files b6_cts_authorized"

definition b6_post_authorized :: host where
  "b6_post_authorized =
     write_file (under ''/r'' (post_cts_output b6_stages)) ''!B6_PHASE6_POST_CTS_GLOBAL_ROUTE_COMPUTE'' b6_clocked"

definition b6_post_files :: "(string \<times> string) list" where
  "b6_post_files =
     [(under ''/r'' (detailed_source b6_stages), ''M''), (routed_file b6_stages None ''.odb'', ''ODB''),
      (routed_file b6_stages None ''.sdc'', ''SDC'')]"

definition b6_post_routed :: host where
  "b6_post_routed = add_files b6_post_files b6_post_authorized"

definition b6_detail_authorized :: host where
  "b6_detail_authorized = write_file (under ''/r'' (detailed_output b6_stages)) ''!B6_PHASE7_DETAILED_ROUTE_COMPUTE''
     (b6_post_routed\<lparr>dirs := (\<lambda>d. dirs b6_post_routed d \<or> d \<in> set (path_prefixes (under ''/r'' (sv_report b6_stages ''phase7'')) []))\<rparr>)"

definition b6_last_files :: "(string \<times> string) list" where
  "b6_last_files =
     map (\<lambda>(name, b). (under ''/r'' (the (map_of (cv_chain b6_audit) name)), b))
       [(''root_cause'', ''U''), (''sealed_b5_cheap_gate'', ''U''), (''placement_numeric_analysis'', ''U''),
        (''phase7_detailed_route'', ''U''), (''phase7_rtl_gds'', ''U''), (''phase8_overlay'', ''U''), (''phase9_final_gds'', ''F'')] @
     map (\<lambda>(_, p, digest). (under ''/r'' p, digest)) PRESERVED"

definition b6_finished :: host where
  "b6_finished = add_files b6_last_files b6_detail_authorized"

definition b6_world :: audit_world where
  "b6_world =
     \<lparr>aw_running = False, aw_listing = Inr [],
      aw_merge = (\<lambda>_ h. Inr (JObj [(''status'', JStr ''PASS'')], write_file ''/t/clean/merged_final_physical.gds'' ''ODB'' h)),
      aw_clean_dir = ''/t/clean'', aw_render_dir = ''/t/render'',
      aw_klayout = (\<lambda>_ _ png h. Inr ((0, ''KLAYOUT_WBQ_FINAL_RENDER PASS '', []), write_file png ''png'' h)),
      aw_exe = Some ''/o/openroad'', aw_which = None, aw_command = (\<lambda>_. Inr (0, ''1.0'', [])), aw_python = ''3'',
      aw_realpath = (\<lambda>p. p), aw_phase9 = None, aw_markdown = (\<lambda>_. ''md''), aw_html = (\<lambda>_. ''html'')\<rparr>"

lemma make_dirs_clear:
  assumes "list_all (\<lambda>q. files h q = None) (p # path_prefixes p [])"
  shows "make_dirs p h = Inr (h\<lparr>dirs := (\<lambda>d. dirs h d \<or> d \<in> set (path_prefixes p []))\<rparr>)"
  using assms by (auto simp: make_dirs_def is_file_def list_ex_iff list_all_iff)

lemma b6_cts_step: "cts_authorization_main b6_stages b6_env b6_gated = Inr (0, b6_cts_authorized)"
  unfolding b6_cts_authorized_def
proof (rule written_back)
  show "written (cts_authorization_main b6_stages b6_env b6_gated) (under ''/r'' (cts_output b6_stages)) =
      Some (0, Some ''!B6_PHASE6_CTS_COMPUTE'')" by code_simp
  fix code h' assume "cts_authorization_main b6_stages b6_env b6_gated = Inr (code, h')"
  moreover have "make_dirs (under ''/r'' (sv_report b6_stages ''phase6'')) b6_gated =
      Inr (b6_gated\<lparr>dirs := (\<lambda>d. dirs b6_gated d \<or> d \<in> set (path_prefixes (under ''/r'' (sv_report b6_stages ''phase6'')) []))\<rparr>)"
    by (rule make_dirs_clear) code_simp
  ultimately show "\<exists>b'. h' = write_file (under ''/r'' (cts_output b6_stages)) b' (b6_gated\<lparr>dirs :=
      (\<lambda>d. dirs b6_gated d \<or> d \<in> set (path_prefixes (under ''/r'' (sv_report b6_stages ''phase6'')) []))\<rparr>)"
    by (elim cts_main_Inr) (auto simp: b6_env_def)
qed

lemma b6_post_step: "post_cts_authorization_main b6_stages b6_env b6_clocked = Inr (0, b6_post_authorized)"
  unfolding b6_post_authorized_def
proof (rule written_back)
  show "written (post_cts_authorization_main b6_stages b6_env b6_clocked) (under ''/r'' (post_cts_output b6_stages)) =
      Some (0, Some ''!B6_PHASE6_POST_CTS_GLOBAL_ROUTE_COMPUTE'')" by code_simp
  fix code h' assume "post_cts_authorization_main b6_stages b6_env b6_clocked = Inr (code, h')"
  then show "\<exists>b'. h' = write_file (under ''/r'' (post_cts_output b6_stages)) b' b6_clocked"
    by (rule post_cts_main_Inr) (auto simp: b6_env_def)
qed

lemma b6_detail_step: "detailed_authorization_main b6_stages None (Inr []) b6_env b6_post_routed = Inr (0, b6_detail_authorized)"
  unfolding b6_detail_authorized_def
proof (rule written_back)
  show "written (detailed_authorization_main b6_stages None (Inr []) b6_env b6_post_routed) (under ''/r'' (detailed_output b6_stages)) =
      Some (0, Some ''!B6_PHASE7_DETAILED_ROUTE_COMPUTE'')" by code_simp
  fix code h' assume "detailed_authorization_main b6_stages None (Inr []) b6_env b6_post_routed = Inr (code, h')"
  moreover have "make_dirs (under ''/r'' (sv_report b6_stages ''phase7'')) b6_post_routed =
      Inr (b6_post_routed\<lparr>dirs := (\<lambda>d. dirs b6_post_routed d \<or>
        d \<in> set (path_prefixes (under ''/r'' (sv_report b6_stages ''phase7'')) []))\<rparr>)"
    by (rule make_dirs_clear) code_simp
  ultimately show "\<exists>b'. h' = write_file (under ''/r'' (detailed_output b6_stages)) b' (b6_post_routed\<lparr>dirs :=
      (\<lambda>d. dirs b6_post_routed d \<or> d \<in> set (path_prefixes (under ''/r'' (sv_report b6_stages ''phase7'')) []))\<rparr>)"
    by (elim detailed_main_Inr) (auto simp: b6_env_def)
qed

section \<open>The audit of the sample\<close>

text \<open>
  The records are always written once the verdict stands: every file the manifest lists was
  seen to exist, so only an unreadable report or a file in place of a directory can stop them.
\<close>

lemma unique_files_exist: "p \<in> set (unique_files realpath h ps seen) \<Longrightarrow> is_file h p"
  by (induction ps arbitrary: seen) (auto split: if_splits)

lemma file_item_returns: "is_file h p \<Longrightarrow> \<exists>j. file_item env h p = Inr j"
  by (auto simp: is_file_def file_item_def read_bytes_def)

lemma map_r_returns: "\<forall>x \<in> set xs. \<exists>y. f x = Inr y \<Longrightarrow> \<exists>ys. map_r f xs = Inr ys"
  by (induction xs) auto

lemma is_file_write_file [simp]: "is_file (write_file p b h) q \<longleftrightarrow> q = p \<or> is_file h q"
  by (simp add: is_file_def)

definition html_dirs :: "env \<Rightarrow> string list" where
  "html_dirs env = (let d = parent_of (under (root env) HTML) in d # path_prefixes d [])"

definition reportable :: "audit_variant \<Rightarrow> env \<Rightarrow> docs \<Rightarrow> verdict \<Rightarrow> host \<Rightarrow> bool" where
  "reportable v env docs r h \<longleftrightarrow>
     (case inventory_paths v env docs r of Inl _ \<Rightarrow> False | Inr _ \<Rightarrow> True) \<and>
     (case completion_metrics v docs of Inl _ \<Rightarrow> False | Inr _ \<Rightarrow> True) \<and> is_file h (ve_final_gds r) \<and>
     list_all (\<lambda>q. \<not> is_file h q \<and> q \<notin> set (map (under (root env)) (audit_outputs v))) (html_dirs env)"

lemma audit_report_returns:
  assumes "reportable v env docs r h"
  shows "\<exists>h'. audit_report v w env docs r h = Inr h'"
proof -
  define out where "out = (\<lambda>name. under (root env) (audit_file v name))"
  define h1 where "h1 = (if cv_full v then write_file (out ''_phase10_evidence_matrix.json'') (dumps env (evidence_matrix v env r)) h else h)"
  from assms obtain paths metrics where p: "inventory_paths v env docs r = Inr paths" "completion_metrics v docs = Inr metrics"
    by (auto simp: reportable_def split: sum.splits)
  obtain items where items: "map_r (file_item env h1) (unique_files (aw_realpath w) h1 paths []) = Inr items"
    using map_r_returns [of "unique_files (aw_realpath w) h1 paths []" "file_item env h1"]
      file_item_returns unique_files_exist by blast
  define h2 where "h2 = write_file (out ''_phase6_phase10_artifact_hash_manifest.json'') (dumps env (hash_manifest v env items r)) h1"
  have final: "is_file h2 (ve_final_gds r)" "is_file h2 (out ''_phase6_phase10_artifact_hash_manifest.json'')"
    using assms by (auto simp: reportable_def h2_def h1_def)
  obtain manifest where manifest: "file_item env h2 (out ''_phase6_phase10_artifact_hash_manifest.json'') = Inr manifest"
    using file_item_returns [OF final(2)] by blast
  obtain final where final_item: "file_item env h2 (ve_final_gds r) = Inr final"
    using file_item_returns [OF final(1)] by blast
  have "cv_full v \<Longrightarrow> \<exists>j. file_item env h2 (out ''_phase10_evidence_matrix.json'') = Inr j"
    by (rule file_item_returns) (simp add: h2_def h1_def)
  then obtain matrix where "(if cv_full v then and_then (file_item env h2 (out ''_phase10_evidence_matrix.json''))
      (\<lambda>j. Inr [(''evidence_matrix'', j)]) else Inr []) = Inr matrix" by (cases "cv_full v") auto
  note m = manifest this final_item
  let ?c = "completion_json v w env r manifest matrix final metrics"
  define h3 where "h3 = write_file (out ''_phase10_completion_report.md'') (aw_markdown w (JObj ?c))
      (write_file (out ''_phase10_completion_report.json'') (dumps env (JObj ?c)) h2)"
  have "list_all (\<lambda>q. \<not> is_file h3 q) (html_dirs env)" if "cv_full v"
    using assms that
    by (auto simp: reportable_def list_all_iff h3_def h2_def h1_def out_def audit_outputs_def)
  then have dirs: "\<exists>h4. make_dirs (parent_of (under (root env) HTML)) h3 = Inr h4" if "cv_full v"
    using that by (auto simp: make_dirs_def html_dirs_def Let_def list_ex_iff list_all_iff)
  have page: "\<exists>j. file_item env (write_file p b h) p = Inr j" for p b h by (rule file_item_returns) simp
  show ?thesis
  proof (cases "cv_full v")
    case True
    with dirs obtain h4 where h4: "make_dirs (parent_of (under (root env) HTML)) h3 = Inr h4" by blast
    obtain j where "file_item env (write_file (under (root env) HTML) (aw_html w (JObj ?c)) h4) (under (root env) HTML) = Inr j"
      using page by blast
    with True p items m h4 show ?thesis
      unfolding audit_report_def Let_def h1_def h2_def h3_def out_def by simp
  next
    case False
    with p items m show ?thesis unfolding audit_report_def Let_def h1_def h2_def out_def by simp
  qed
qed

text \<open>
  The sample repository as a table, so that the audit is evaluated on it: the reports and
  artifacts with their contents, and the paths that have to be free.
\<close>

definition b6_table :: "string \<Rightarrow> string option" where
  "b6_table = files b6_finished"

definition b6_dirs :: "string \<Rightarrow> bool" where
  "b6_dirs = dirs b6_finished"

definition b6_present :: "(string \<times> string) list" where
  "b6_present =
    [(''/r/reports/groot_normalization/quad_local_b3/b3_cheap_root_cause_analysis.json'', ''U''),
     (''/r/reports/groot_normalization/quad_local_b6/b6_eco_decision.json'', ''S''),
     (''/r/reports/groot_normalization/quad_local_b5/cheap_gate_manifest.json'', ''U''),
     (''/r/reports/groot_normalization/quad_local_b6/b6_physical_authorization.json'', ''A''),
     (''/r/reports/groot_normalization/quad_local_b6/physical/b6_placement_execution_report.json'', ''P''),
     (''/r/reports/groot_normalization/quad_local_b6/physical/b6_placement_numeric_analysis.json'', ''U''),
     (''/r/reports/groot_normalization/quad_local_b6/physical/b6_targeted_placement_reopen_audit.json'', ''T''),
     (''/r/reports/groot_normalization/quad_local_b6/b6_global_route_authorization.json'', ''!B6_SINGLE_GLOBAL_ROUTE''),
     (''/r/reports/groot_normalization/quad_local_b6/physical/b6_global_route_execution_report.json'', ''R''),
     (''/r/reports/groot_normalization/quad_local_b6/b6_residual_congestion_analysis.json'', ''N''),
     (''/r/reports/groot_normalization/quad_local_b6/phase6_decision_gate.json'', ''!B6_PHASE6_CTS''),
     (''/r/reports/groot_normalization/quad_local_b6/phase6/b6_phase6_cts_authorization.json'', ''!B6_PHASE6_CTS_COMPUTE''),
     (''/r/reports/groot_normalization/quad_local_b6/phase6/b6_phase6_cts_execution_report.json'', ''C''),
     (''/r/reports/groot_normalization/quad_local_b6/phase6/b6_phase6_post_cts_route_authorization.json'', ''!B6_PHASE6_POST_CTS_GLOBAL_ROUTE_COMPUTE''),
     (''/r/reports/groot_normalization/quad_local_b6/phase6/b6_phase6_post_cts_global_route_execution_report.json'', ''M''),
     (''/r/reports/groot_normalization/quad_local_b6/phase7/b6_phase7_detailed_route_authorization.json'', ''!B6_PHASE7_DETAILED_ROUTE_COMPUTE''),
     (''/r/reports/groot_normalization/quad_local_b6/phase7/b6_phase7_detailed_route_execution_report.json'', ''U''),
     (''/r/reports/groot_normalization/quad_local_b6/phase7/b6_phase7_rtl_gds_execution_report.json'', ''U''),
     (''/r/reports/groot_normalization/quad_local_b6/phase8/b6_phase8_overlay_execution_report.json'', ''U''),
     (''/r/reports/groot_normalization/quad_local_b6/phase9/b6_phase9_final_gds_execution_report.json'', ''F''),
     (''/r/reports/groot_normalization/physical_feasibility/logic_die_normalization_hbm_top_wbq_v4_control_global_route.odb'', ''964adc9cf68aceac1fd6686d7c586ffbd295ed9a35f6b54628ddf81981cbc5ad''),
     (''/r/reports/groot_normalization/quad_local_ab/b_quad_local_global_route.odb'', ''ab6cddf83dee124e9ae388b5cbe8c6fbda6665782870e1c4a57f83a83a174235''),
     (''/r/reports/groot_normalization/quad_local_b2/b2_quad_local_global_route.odb'', ''2c928b19ab5b1dcbcd89ec36d8d0b18963a8b03c9776ecc7325509332e98235d''),
     (''/o/p.odb'', ''ODB''),
     (''/o/p.sdc'', ''SDC''),
     (''/o/x.odb'', ''ODB''),
     (''/o/recipe'', ''E''),
     (''/o/openroad'', ''exe''),
     (''/dev/shm/wbq_b6_phase6_10/phase6_post_cts/b6_phase6_post_cts_global_route.odb'', ''ODB''),
     (''/dev/shm/wbq_b6_phase6_10/phase6_post_cts/b6_phase6_post_cts_global_route.sdc'', ''SDC'')]"

definition b6_absent :: "string list" where
  "b6_absent =
    [''/r'',
     ''/r/reports'',
     ''/r/reports/groot_normalization'',
     ''/r/reports/groot_normalization/quad_local_b6'',
     ''/r/reports/groot_normalization/quad_local_b6/phase10'',
     ''/r/reports/groot_normalization/quad_local_b6/phase10/b6_phase10_preflight.json'',
     ''/r/reports/groot_normalization/quad_local_b6/phase10/b6_phase6_phase10_artifact_hash_manifest.json'',
     ''/r/reports/groot_normalization/quad_local_b6/phase10/b6_phase10_completion_report.json'',
     ''/r/reports/groot_normalization/quad_local_b6/phase10/b6_phase10_completion_report.md'',
     ''/r/reports/groot_normalization/quad_local_b6/phase10/b6_phase10_evidence_matrix.json'',
     ''/r/reports/final_integrated_gds_execution/09_final_completion_report.html'',
     ''/r/reports/final_integrated_gds_execution'',
     ''/dev'',
     ''/dev/shm'',
     ''/dev/shm/wbq_b6_phase6_10'',
     ''/t/render/independent_readback.png'',
     ''/t/clean/recipe.json'',
     ''/t/clean/merged_final_physical.gds'']"

definition b6_unlisted :: "string list" where
  "b6_unlisted =
    [''/r/reports/groot_normalization/quad_local_b6/phase10/b6_phase10_preflight.json'',
     ''/r/reports/groot_normalization/quad_local_b6/phase10/b6_phase6_phase10_artifact_hash_manifest.json'',
     ''/r/reports/groot_normalization/quad_local_b6/phase10/b6_phase10_completion_report.json'',
     ''/r/reports/groot_normalization/quad_local_b6/phase10/b6_phase10_completion_report.md'',
     ''/r/reports/groot_normalization/quad_local_b6/phase10/b6_phase10_evidence_matrix.json'',
     ''/r/reports/final_integrated_gds_execution/09_final_completion_report.html'']"

lemma b6_present: "list_all (\<lambda>(p, b). files b6_finished p = Some b) b6_present"
  by code_simp

lemma b6_absent: "list_all (\<lambda>p. files b6_finished p = None) b6_absent"
  by code_simp

lemma b6_unlisted: "list_all (\<lambda>p. \<not> dirs b6_finished p) b6_unlisted"
  by code_simp

lemma b6_table_present [code]:
  "b6_table ''/r/reports/groot_normalization/quad_local_b3/b3_cheap_root_cause_analysis.json'' = Some ''U''"
  "b6_table ''/r/reports/groot_normalization/quad_local_b6/b6_eco_decision.json'' = Some ''S''"
  "b6_table ''/r/reports/groot_normalization/quad_local_b5/cheap_gate_manifest.json'' = Some ''U''"
  "b6_table ''/r/reports/groot_normalization/quad_local_b6/b6_physical_authorization.json'' = Some ''A''"
  "b6_table ''/r/reports/groot_normalization/quad_local_b6/physical/b6_placement_execution_report.json'' = Some ''P''"
  "b6_table ''/r/reports/groot_normalization/quad_local_b6/physical/b6_placement_numeric_analysis.json'' = Some ''U''"
  "b6_table ''/r/reports/groot_normalization/quad_local_b6/physical/b6_targeted_placement_reopen_audit.json'' = Some ''T''"
  "b6_table ''/r/reports/groot_normalization/quad_local_b6/b6_global_route_authorization.json'' = Some ''!B6_SINGLE_GLOBAL_ROUTE''"
  "b6_table ''/r/reports/groot_normalization/quad_local_b6/physical/b6_global_route_execution_report.json'' = Some ''R''"
  "b6_table ''/r/reports/groot_normalization/quad_local_b6/b6_residual_congestion_analysis.json'' = Some ''N''"
  "b6_table ''/r/reports/groot_normalization/quad_local_b6/phase6_decision_gate.json'' = Some ''!B6_PHASE6_CTS''"
  "b6_table ''/r/reports/groot_normalization/quad_local_b6/phase6/b6_phase6_cts_authorization.json'' = Some ''!B6_PHASE6_CTS_COMPUTE''"
  "b6_table ''/r/reports/groot_normalization/quad_local_b6/phase6/b6_phase6_cts_execution_report.json'' = Some ''C''"
  "b6_table ''/r/reports/groot_normalization/quad_local_b6/phase6/b6_phase6_post_cts_route_authorization.json'' = Some ''!B6_PHASE6_POST_CTS_GLOBAL_ROUTE_COMPUTE''"
  "b6_table ''/r/reports/groot_normalization/quad_local_b6/phase6/b6_phase6_post_cts_global_route_execution_report.json'' = Some ''M''"
  "b6_table ''/r/reports/groot_normalization/quad_local_b6/phase7/b6_phase7_detailed_route_authorization.json'' = Some ''!B6_PHASE7_DETAILED_ROUTE_COMPUTE''"
  "b6_table ''/r/reports/groot_normalization/quad_local_b6/phase7/b6_phase7_detailed_route_execution_report.json'' = Some ''U''"
  "b6_table ''/r/reports/groot_normalization/quad_local_b6/phase7/b6_phase7_rtl_gds_execution_report.json'' = Some ''U''"
  "b6_table ''/r/reports/groot_normalization/quad_local_b6/phase8/b6_phase8_overlay_execution_report.json'' = Some ''U''"
  "b6_table ''/r/reports/groot_normalization/quad_local_b6/phase9/b6_phase9_final_gds_execution_report.json'' = Some ''F''"
  "b6_table ''/r/reports/groot_normalization/physical_feasibility/logic_die_normalization_hbm_top_wbq_v4_control_global_route.odb'' = Some ''964adc9cf68aceac1fd6686d7c586ffbd295ed9a35f6b54628ddf81981cbc5ad''"
  "b6_table ''/r/reports/groot_normalization/quad_local_ab/b_quad_local_global_route.odb'' = Some ''ab6cddf83dee124e9ae388b5cbe8c6fbda6665782870e1c4a57f83a83a174235''"
  "b6_table ''/r/reports/groot_normalization/quad_local_b2/b2_quad_local_global_route.odb'' = Some ''2c928b19ab5b1dcbcd89ec36d8d0b18963a8b03c9776ecc7325509332e98235d''"
  "b6_table ''/o/p.odb'' = Some ''ODB''"
  "b6_table ''/o/p.sdc'' = Some ''SDC''"
  "b6_table ''/o/x.odb'' = Some ''ODB''"
  "b6_table ''/o/recipe'' = Some ''E''"
  "b6_table ''/o/openroad'' = Some ''exe''"
  "b6_table ''/dev/shm/wbq_b6_phase6_10/phase6_post_cts/b6_phase6_post_cts_global_route.odb'' = Some ''ODB''"
  "b6_table ''/dev/shm/wbq_b6_phase6_10/phase6_post_cts/b6_phase6_post_cts_global_route.sdc'' = Some ''SDC''"
  using b6_present unfolding b6_present_def b6_table_def list.pred_inject prod.case by simp_all

lemma b6_table_absent [code]:
  "b6_table ''/r'' = None"
  "b6_table ''/r/reports'' = None"
  "b6_table ''/r/reports/groot_normalization'' = None"
  "b6_table ''/r/reports/groot_normalization/quad_local_b6'' = None"
  "b6_table ''/r/reports/groot_normalization/quad_local_b6/phase10'' = None"
  "b6_table ''/r/reports/groot_normalization/quad_local_b6/phase10/b6_phase10_preflight.json'' = None"
  "b6_table ''/r/reports/groot_normalization/quad_local_b6/phase10/b6_phase6_phase10_artifact_hash_manifest.json'' = None"
  "b6_table ''/r/reports/groot_normalization/quad_local_b6/phase10/b6_phase10_completion_report.json'' = None"
  "b6_table ''/r/reports/groot_normalization/quad_local_b6/phase10/b6_phase10_completion_report.md'' = None"
  "b6_table ''/r/reports/groot_normalization/quad_local_b6/phase10/b6_phase10_evidence_matrix.json'' = None"
  "b6_table ''/r/reports/final_integrated_gds_execution/09_final_completion_report.html'' = None"
  "b6_table ''/r/reports/final_integrated_gds_execution'' = None"
  "b6_table ''/dev'' = None"
  "b6_table ''/dev/shm'' = None"
  "b6_table ''/dev/shm/wbq_b6_phase6_10'' = None"
  "b6_table ''/t/render/independent_readback.png'' = None"
  "b6_table ''/t/clean/recipe.json'' = None"
  "b6_table ''/t/clean/merged_final_physical.gds'' = None"
  using b6_absent unfolding b6_absent_def b6_table_def list.pred_inject by simp_all

lemma b6_no_dirs [code]:
  "b6_dirs ''/r/reports/groot_normalization/quad_local_b6/phase10/b6_phase10_preflight.json'' = False"
  "b6_dirs ''/r/reports/groot_normalization/quad_local_b6/phase10/b6_phase6_phase10_artifact_hash_manifest.json'' = False"
  "b6_dirs ''/r/reports/groot_normalization/quad_local_b6/phase10/b6_phase10_completion_report.json'' = False"
  "b6_dirs ''/r/reports/groot_normalization/quad_local_b6/phase10/b6_phase10_completion_report.md'' = False"
  "b6_dirs ''/r/reports/groot_normalization/quad_local_b6/phase10/b6_phase10_evidence_matrix.json'' = False"
  "b6_dirs ''/r/reports/final_integrated_gds_execution/09_final_completion_report.html'' = False"
  using b6_unlisted unfolding b6_unlisted_def b6_dirs_def list.pred_inject by simp_all

lemma b6_finished_code [code]: "b6_finished = \<lparr>files = b6_table, dirs = b6_dirs\<rparr>"
  by (simp add: b6_table_def b6_dirs_def)

lemma b6_verdict:
  "(case audit_begin b6_audit b6_world b6_env b6_finished of Inl _ \<Rightarrow> False
    | Inr (docs, h) \<Rightarrow> (case audit_judge b6_audit b6_world b6_env docs h of Inl _ \<Rightarrow> False
      | Inr (r, h') \<Rightarrow> all_pass r \<and> reportable b6_audit b6_env docs r h'))"
  by code_simp

lemma b6_audit_run: "\<exists>h'. completion_audit_main b6_audit b6_world b6_env b6_finished = Inr (0, h')"
proof -
  obtain docs h where "audit_begin b6_audit b6_world b6_env b6_finished = Inr (docs, h)"
    using b6_verdict by (cases "audit_begin b6_audit b6_world b6_env b6_finished") auto
  moreover from this b6_verdict obtain r h2 where
    "audit_judge b6_audit b6_world b6_env docs h = Inr (r, h2)" "all_pass r" "reportable b6_audit b6_env docs r h2"
    by (cases "audit_judge b6_audit b6_world b6_env docs h") auto
  moreover from this(3) obtain h' where "audit_report b6_audit b6_world b6_env docs r h2 = Inr h'"
    using audit_report_returns by blast
  ultimately show ?thesis by (simp add: completion_audit_main_def)
qed

section \<open>The history of the sample\<close>

lemma b6_full_history: "history b6_env b6_start b6_finished"
proof -
  have known: "known (Cts b6_stages)" "known (Post_Cts b6_stages)" "known (Detailed b6_stages None (Inr []))"
    by (simp_all add: stage_variants_def)
  have entries: "list_all (\<lambda>(p, b). no_decision p) (b6_cts_files @ b6_post_files @ b6_last_files)" by code_simp
  note added = add_files_step [unfolded list_all_iff]
  have "history b6_env b6_start b6_cts_authorized"
    by (rule history_step [OF b6_history release_step.script [OF known(1), where t = "''2026''"]])
       (simp only: run_script.simps b6_env_now b6_cts_step)
  moreover have "release_step b6_env b6_cts_authorized b6_clocked"
    unfolding b6_clocked_def by (rule added) (use entries in \<open>simp add: list_all_iff\<close>)
  moreover have "release_step b6_env b6_clocked b6_post_authorized"
    by (rule release_step.script [OF known(2), where t = "''2026''"]) (simp only: run_script.simps b6_env_now b6_post_step)
  moreover have "release_step b6_env b6_post_authorized b6_post_routed"
    unfolding b6_post_routed_def by (rule added) (use entries in \<open>simp add: list_all_iff\<close>)
  moreover have "release_step b6_env b6_post_routed b6_detail_authorized"
    by (rule release_step.script [OF known(3), where t = "''2026''"]) (simp only: run_script.simps b6_env_now b6_detail_step)
  moreover have "release_step b6_env b6_detail_authorized b6_finished"
    unfolding b6_finished_def by (rule added) (use entries in \<open>simp add: list_all_iff\<close>)
  ultimately show ?thesis by (meson history_step)
qed

text \<open>The sample meets the hypotheses of both properties.\<close>

theorem completion_rests_on_evidence_witness:
  "\<exists>docs h. read_docs b6_audit b6_env b6_finished = Inr docs \<and> all_hold (phase_checks b6_audit docs) \<and>
     protected_intact b6_env h \<and> gds_intact b6_env h docs \<and> reproduced b6_audit b6_world b6_env h docs"
proof -
  obtain h' where "completion_audit_main b6_audit b6_world b6_env b6_finished = Inr (0, h')" using b6_audit_run by blast
  from completion_rests_on_evidence [OF this] show ?thesis by blast
qed

theorem completion_needs_every_release_witness:
  "\<exists>t h. history b6_env b6_start h \<and> post_cts_ready b6_stages (b6_env\<lparr>now := t\<rparr>) h"
proof -
  obtain h' where "completion_audit_main b6_audit b6_world b6_env b6_finished = Inr (0, h')" using b6_audit_run by blast
  then have run: "completion_audit_main b6_audit b6_world (b6_env\<lparr>now := ''2026''\<rparr>) b6_finished = Inr (0, h')"
    by (simp only: b6_env_now)
  have chain: "(b6_audit, b6_stages, b6_gate, b6_route) \<in> set completion_chains" by (simp add: completion_chains_def)
  have "list_all (\<lambda>p. files b6_start (under (root b6_env) p) = None)
      [av_output b6_route, gv_output b6_gate, cts_output b6_stages, post_cts_output b6_stages, detailed_output b6_stages]"
    by code_simp
  then have none: "\<forall>p \<in> {av_output b6_route, gv_output b6_gate, cts_output b6_stages, post_cts_output b6_stages,
      detailed_output b6_stages}. files b6_start (under (root b6_env) p) = None" by simp
  from completion_needs_every_release [OF b6_readable chain none b6_full_history run] show ?thesis by blast
qed

end
