(* ===== verification/Monitor.thy ===== *)
theory Monitor
  imports Transition Cycle_Loop
begin

text \<open>
  \<open>tools/monitor_openroad_service.py\<close>: a read-only watchdog for one OpenROAD service. Every
  interval it looks at the service, at the OpenROAD processes of its control group and at the
  age of the log, appends a heartbeat, and keeps a small state machine: a new compute process
  starts a stage, a silent log raises a warning, longer silence a first diagnosis snapshot, and
  continued silence a second snapshot with a comparison. What the machine shows in one pass of
  the loop is an observation \<open>obs\<close>: the query results, the clock readings and the exit codes
  of the diagnostic commands; \<open>None\<close> as an exit code is a command that did not finish in time.
  Times and ages are the float values; the difference of two clock readings is exact. A failed
  command ends the monitor with an exception; what it appended in that pass is then not
  represented.
\<close>

section \<open>Configuration and observations\<close>

record config =
  mc_service :: string
  mc_variant :: string
  mc_log :: string
  mc_artifacts :: "string list"
  mc_output_dir :: string
  mc_interval :: int
  mc_warning :: int
  mc_diagnosis :: int
  mc_followup :: int
  mc_python :: string
  mc_capture :: string
  mc_compare :: string

record process =
  p_pid :: int
  p_starttime :: "int option"
  p_stage :: string

type_synonym ident = "int \<times> int option \<times> string"

record obs =
  ob_state :: string
  ob_processes :: "process list"
  ob_log_age :: "rat option"
  ob_first_stamp :: string
  ob_first_time :: rat
  ob_clock :: rat
  ob_second_stamp :: string
  ob_run :: "string list \<Rightarrow> int option"

definition identity_of :: "process \<Rightarrow> ident" where
  "identity_of p = (p_pid p, p_starttime p, p_stage p)"

definition active :: "obs \<Rightarrow> bool" where
  "active ob \<longleftrightarrow> ob_state ob \<in> {''active'', ''activating'', ''reloading''}"

definition the_process :: "obs \<Rightarrow> process option" where
  "the_process ob = (case ob_processes ob of [p] \<Rightarrow> Some p | _ \<Rightarrow> None)"

section \<open>State\<close>

datatype event =
    COMPUTE_STAGE ident
  | SILENCE_WARNING ident rat
  | FIRST_DIAGNOSIS ident string
  | FOLLOWUP_DIAGNOSIS ident string string
  | SERVICE_TERMINAL

text \<open>A heartbeat keeps the process and log age it reports, the process count and the candidates.\<close>

record beat =
  be_compute :: "process option"
  be_log_age :: "rat option"
  be_count :: nat
  be_candidates :: "process list"

record monitor =
  m_identity :: "ident option"
  m_warned :: bool
  m_first :: "string option"
  m_first_time :: "rat option"
  m_heartbeats :: "beat list"
  m_events :: "event list"

definition monitor_init :: monitor where
  "monitor_init = \<lparr>m_identity = None, m_warned = False, m_first = None, m_first_time = None,
     m_heartbeats = [], m_events = []\<rparr>"

definition append_event :: "event \<Rightarrow> monitor \<Rightarrow> monitor" where
  "append_event e m = m\<lparr>m_events := m_events m @ [e]\<rparr>"

section \<open>Starting\<close>

definition evidence_paths :: "config \<Rightarrow> string list" where
  "evidence_paths c = map (under (mc_output_dir c)) [''monitor_invocation.json'', ''heartbeats.jsonl'', ''events.jsonl'']"

text \<open>The record written before the first pass; \<open>pid\<close> is \<open>os.getpid()\<close>.\<close>

definition tool_entry :: "env \<Rightarrow> host \<Rightarrow> string \<times> string \<Rightarrow> (string \<times> json) result" where
  "tool_entry env h tool =
     and_then (sha256 env h (snd tool)) (\<lambda>d. Inr (fst tool, JObj [(''path'', JStr (snd tool)), (''sha256'', d)]))"

definition monitor_tools :: "config \<Rightarrow> env \<Rightarrow> (string \<times> string) list" where
  "monitor_tools c env =
     [(''monitor'', under (root env) ''tools/monitor_openroad_service.py''), (''capture'', mc_capture c), (''compare'', mc_compare c)]"

definition invocation_record :: "config \<Rightarrow> int \<Rightarrow> env \<Rightarrow> host \<Rightarrow> json result" where
  "invocation_record c pid env h =
     and_then (map_r (tool_entry env h) (monitor_tools c env)) (\<lambda>tools.
       Inr (JObj [(''schema_version'', JInt 1), (''started_at_utc'', JStr (now env)), (''service'', JStr (mc_service c)),
         (''variant'', JStr (mc_variant c)), (''log'', JStr (mc_log c)), (''artifacts'', JArr (map JStr (mc_artifacts c))),
         (''interval_seconds'', JInt (mc_interval c)), (''silence_warning_seconds'', JInt (mc_warning c)),
         (''first_diagnosis_seconds'', JInt (mc_diagnosis c)), (''followup_seconds'', JInt (mc_followup c)),
         (''monitor_pid'', JInt pid), (''tools'', JObj tools), (''termination_authorized'', JBool False)]))"

definition monitor_start :: "config \<Rightarrow> int \<Rightarrow> env \<Rightarrow> host \<Rightarrow> (monitor \<times> host) result" where
  "monitor_start c pid env h =
     (if \<not> (60 \<le> mc_interval c \<and> mc_interval c \<le> 300)
      then Inl (ValueError ''interval must be between 60 and 300 seconds'')
      else if mc_warning c \<ge> mc_diagnosis c \<or> mc_followup c < 600
      then Inl (ValueError ''silence thresholds violate the 15m/30m/10m minimum contract'')
      else and_then (make_dirs (mc_output_dir c) h) (\<lambda>h1.
        if list_ex (exists h1) (evidence_paths c)
        then Inl (FileExistsError ''refusing to overwrite monitor evidence'')
        else and_then (invocation_record c pid env h1) (\<lambda>invocation.
          Inr (monitor_init, write_file (hd (evidence_paths c)) (dumps env invocation) h1))))"

section \<open>Diagnostic commands\<close>

definition run_checked :: "obs \<Rightarrow> string list \<Rightarrow> unit result" where
  "run_checked ob command =
     (case ob_run ob command of
        None \<Rightarrow> Inl (RuntimeError ''TimeoutExpired'')
      | Some code \<Rightarrow> if code \<noteq> 0 then Inl (RuntimeError ''diagnostic command failed'') else Inr ())"

definition snapshot_path :: "config \<Rightarrow> process \<Rightarrow> string \<Rightarrow> string \<Rightarrow> string" where
  "snapshot_path c p stamp ending =
     under (mc_output_dir c) (''snapshot_'' @ show_int (p_pid p) @ ''_'' @ p_stage p @ ''_'' @ stamp @ ending)"

definition comparison_path :: "config \<Rightarrow> process \<Rightarrow> string \<Rightarrow> string" where
  "comparison_path c p stamp =
     under (mc_output_dir c) (''comparison_'' @ show_int (p_pid p) @ ''_'' @ p_stage p @ ''_'' @ stamp @ ''.json'')"

definition capture_command :: "config \<Rightarrow> process \<Rightarrow> string \<Rightarrow> string list" where
  "capture_command c p output =
     [mc_python c, mc_capture c, ''--stage'', p_stage p, ''--variant'', mc_variant c,
      ''--service'', mc_service c, ''--compute-pid'', show_int (p_pid p), ''--log'', mc_log c,
      ''--output'', output] @ concat (map (\<lambda>artifact. [''--artifact'', artifact]) (mc_artifacts c))"

definition compare_command :: "config \<Rightarrow> string \<Rightarrow> string \<Rightarrow> string \<Rightarrow> string list" where
  "compare_command c first second output =
     [mc_python c, mc_compare c, ''--first'', first, ''--second'', second, ''--output'', output]"

section \<open>One pass of the loop\<close>

definition beat_of :: "obs \<Rightarrow> beat" where
  "beat_of ob = \<lparr>be_compute = the_process ob, be_log_age = ob_log_age ob, be_count = length (ob_processes ob),
     be_candidates = (if length (ob_processes ob) \<noteq> 1 then ob_processes ob else [])\<rparr>"

definition note_stage :: "process \<Rightarrow> monitor \<Rightarrow> monitor" where
  "note_stage p m =
     (if Some (identity_of p) \<noteq> m_identity m
      then append_event (COMPUTE_STAGE (identity_of p))
             (m\<lparr>m_identity := Some (identity_of p), m_warned := False, m_first := None, m_first_time := None\<rparr>)
      else m)"

definition note_silence :: "config \<Rightarrow> process \<Rightarrow> rat option \<Rightarrow> monitor \<Rightarrow> monitor" where
  "note_silence c p log_age m =
     (case log_age of
        None \<Rightarrow> m
      | Some age \<Rightarrow>
          let m1 = (if of_int (mc_warning c) \<le> age \<and> \<not> m_warned m
                    then append_event (SILENCE_WARNING (identity_of p) age) (m\<lparr>m_warned := True\<rparr>) else m)
          in if age < of_int (mc_warning c)
             then m1\<lparr>m_warned := False, m_first := None, m_first_time := None\<rparr> else m1)"

definition first_diagnosis :: "config \<Rightarrow> process \<Rightarrow> obs \<Rightarrow> monitor \<Rightarrow> monitor result" where
  "first_diagnosis c p ob m =
     (case ob_log_age ob of
        None \<Rightarrow> Inr m
      | Some age \<Rightarrow>
          if of_int (mc_diagnosis c) \<le> age \<and> m_first m = None
          then let snapshot = snapshot_path c p (ob_first_stamp ob) ''_first.json'' in
               and_then (run_checked ob (capture_command c p snapshot)) (\<lambda>_.
                 Inr (append_event (FIRST_DIAGNOSIS (identity_of p) snapshot)
                        (m\<lparr>m_first := Some snapshot, m_first_time := Some (ob_first_time ob)\<rparr>)))
          else Inr m)"

definition followup_diagnosis :: "config \<Rightarrow> process \<Rightarrow> obs \<Rightarrow> monitor \<Rightarrow> monitor result" where
  "followup_diagnosis c p ob m =
     (case (m_first m, m_first_time m) of
        (Some snapshot, Some time) \<Rightarrow>
          if of_int (mc_followup c) \<le> ob_clock ob - time \<and> Some (identity_of p) = m_identity m
          then let second = snapshot_path c p (ob_second_stamp ob) ''_second.json'';
                   comparison = comparison_path c p (ob_second_stamp ob)
               in and_then (run_checked ob (capture_command c p second)) (\<lambda>_.
                  and_then (run_checked ob (compare_command c snapshot second comparison)) (\<lambda>_.
                    Inr ((append_event (FOLLOWUP_DIAGNOSIS (identity_of p) second comparison) m)
                           \<lparr>m_first := None, m_first_time := None\<rparr>)))
          else Inr m
      | _ \<Rightarrow> Inr m)"

definition watch :: "config \<Rightarrow> process \<Rightarrow> obs \<Rightarrow> monitor \<Rightarrow> monitor result" where
  "watch c p ob m =
     and_then (first_diagnosis c p ob (note_silence c p (ob_log_age ob) (note_stage p m))) (followup_diagnosis c p ob)"

definition tick :: "config \<Rightarrow> obs \<Rightarrow> monitor \<Rightarrow> monitor outcome" where
  "tick c ob m =
     (let m1 = m\<lparr>m_heartbeats := m_heartbeats m @ [beat_of ob]\<rparr> in
      if \<not> active ob then Done (append_event SERVICE_TERMINAL m1)
      else case the_process ob of
             None \<Rightarrow> Next m1
           | Some p \<Rightarrow> (case watch c p ob m1 of Inl e \<Rightarrow> Raise e | Inr m2 \<Rightarrow> Next m2))"

section \<open>The loop\<close>

text \<open>
  \<open>monitor_run\<close> is the loop over a finite sequence of observations: the exit code 0 with the
  final state, an exception, or the state in which it still watches.
\<close>

fun monitor_run :: "config \<Rightarrow> obs list \<Rightarrow> monitor \<Rightarrow> monitor outcome" where
  "monitor_run c [] m = Next m"
| "monitor_run c (ob # seen) m =
     (case tick c ob m of Next m' \<Rightarrow> monitor_run c seen m' | Done m' \<Rightarrow> Done m' | Raise e \<Rightarrow> Raise e)"

text \<open>The same loop as a relation: the states in which it watches, with what it has seen.\<close>

inductive watching :: "config \<Rightarrow> obs list \<Rightarrow> monitor \<Rightarrow> bool" for c where
  watching_start: "watching c [] monitor_init"
| watching_step: "watching c seen m \<Longrightarrow> tick c ob m = Next m' \<Longrightarrow> watching c (seen @ [ob]) m'"

inductive_cases watching_NilE: "watching c [] m"
inductive_cases watching_snocE: "watching c (seen @ [ob]) m"

end
