(* ===== verification/Monitor_Props.thy ===== *)
theory Monitor_Props
  imports Monitor
begin

text \<open>
  Properties of the OpenROAD monitor: what its event log can contain, when it ends, that a
  follow-up diagnosis rests on continued silence of one process, and that such silence leads
  to a follow-up.
\<close>

section \<open>One pass\<close>

lemma append_event_sel [simp]:
  "m_identity (append_event e m) = m_identity m" "m_warned (append_event e m) = m_warned m"
  "m_first (append_event e m) = m_first m" "m_first_time (append_event e m) = m_first_time m"
  "m_heartbeats (append_event e m) = m_heartbeats m" "m_events (append_event e m) = m_events m @ [e]"
  by (simp_all add: append_event_def)

lemma run_checked_Inr: "run_checked ob command = Inr u \<longleftrightarrow> ob_run ob command = Some 0"
  by (auto simp: run_checked_def split: option.split)

text \<open>The passes that go on watching, as a relation.\<close>

lemma tick_Next:
  "tick c ob m = Next m' \<longleftrightarrow> active ob \<and>
     (case the_process ob of
        None \<Rightarrow> m' = m\<lparr>m_heartbeats := m_heartbeats m @ [beat_of ob]\<rparr>
      | Some p \<Rightarrow> watch c p ob (m\<lparr>m_heartbeats := m_heartbeats m @ [beat_of ob]\<rparr>) = Inr m')"
  by (auto simp: tick_def Let_def split: option.splits sum.splits)

lemma tick_Done: "tick c ob m = Done m' \<longleftrightarrow>
    \<not> active ob \<and> m' = append_event SERVICE_TERMINAL (m\<lparr>m_heartbeats := m_heartbeats m @ [beat_of ob]\<rparr>)"
  by (auto simp: tick_def Let_def split: option.splits sum.splits)

text \<open>A pass with one process, phase by phase.\<close>

lemma watch_Inr:
  assumes "watch c p ob m = Inr m'"
  obtains m1 m2 m3 where "m1 = note_stage p m" "m2 = note_silence c p (ob_log_age ob) m1"
    "first_diagnosis c p ob m2 = Inr m3" "followup_diagnosis c p ob m3 = Inr m'"
  using assms by (auto simp: watch_def and_then_eq_Inr)

lemma note_stage_sel:
  "m_identity (note_stage p m) = Some (identity_of p)"
  "m_identity m = Some (identity_of p) \<Longrightarrow> note_stage p m = m"
  "m_identity m \<noteq> Some (identity_of p) \<Longrightarrow> \<not> m_warned (note_stage p m) \<and> m_first (note_stage p m) = None \<and>
     m_first_time (note_stage p m) = None \<and> m_events (note_stage p m) = m_events m @ [COMPUTE_STAGE (identity_of p)]"
  "m_heartbeats (note_stage p m) = m_heartbeats m"
  by (auto simp: note_stage_def)

definition fresh :: "config \<Rightarrow> obs \<Rightarrow> bool" where
  "fresh c ob \<longleftrightarrow> (\<exists>age. ob_log_age ob = Some age \<and> age < of_int (mc_warning c))"

lemma note_silence_sel:
  "m_identity (note_silence c p log_age m) = m_identity m"
  "m_heartbeats (note_silence c p log_age m) = m_heartbeats m"
  "fresh c ob \<Longrightarrow> m_first (note_silence c p (ob_log_age ob) m) = None \<and> m_first_time (note_silence c p (ob_log_age ob) m) = None"
  "\<not> fresh c ob \<Longrightarrow> m_first (note_silence c p (ob_log_age ob) m) = m_first m \<and>
     m_first_time (note_silence c p (ob_log_age ob) m) = m_first_time m"
  "m_events (note_silence c p log_age m) = m_events m \<or>
     (\<exists>age. m_events (note_silence c p log_age m) = m_events m @ [SILENCE_WARNING (identity_of p) age])"
  by (auto simp: note_silence_def fresh_def Let_def split: option.splits)

lemma first_diagnosis_Inr:
  assumes "first_diagnosis c p ob m = Inr m'"
  shows "m_identity m' = m_identity m" "m_warned m' = m_warned m" "m_heartbeats m' = m_heartbeats m"
    and "m' = m \<or> (m_first m = None \<and> (\<exists>age. ob_log_age ob = Some age \<and> of_int (mc_diagnosis c) \<le> age) \<and>
      ob_run ob (capture_command c p (snapshot_path c p (ob_first_stamp ob) ''_first.json'')) = Some 0 \<and>
      m_first m' = Some (snapshot_path c p (ob_first_stamp ob) ''_first.json'') \<and> m_first_time m' = Some (ob_first_time ob) \<and>
      m_events m' = m_events m @ [FIRST_DIAGNOSIS (identity_of p) (snapshot_path c p (ob_first_stamp ob) ''_first.json'')])"
  using assms by (auto simp: first_diagnosis_def Let_def and_then_eq_Inr run_checked_Inr split: option.splits if_splits)

lemma followup_diagnosis_Inr:
  assumes "followup_diagnosis c p ob m = Inr m'"
  shows "m_identity m' = m_identity m" "m_warned m' = m_warned m" "m_heartbeats m' = m_heartbeats m"
    and "m' = m \<or> (\<exists>snapshot time second comparison. m_first m = Some snapshot \<and> m_first_time m = Some time \<and>
      of_int (mc_followup c) \<le> ob_clock ob - time \<and> Some (identity_of p) = m_identity m \<and>
      ob_run ob (capture_command c p second) = Some 0 \<and>
      ob_run ob (compare_command c snapshot second comparison) = Some 0 \<and>
      m_first m' = None \<and> m_first_time m' = None \<and>
      m_events m' = m_events m @ [FOLLOWUP_DIAGNOSIS (identity_of p) second comparison])"
  using assms
  by (auto simp: followup_diagnosis_def Let_def and_then_eq_Inr run_checked_Inr split: option.splits if_splits)

text \<open>The event log only grows.\<close>

lemma events_grow:
  "\<exists>new. m_events (note_stage p m) = m_events m @ new"
  "\<exists>new. m_events (note_silence c p log_age m) = m_events m @ new"
  "first_diagnosis c p ob m = Inr m' \<Longrightarrow> \<exists>new. m_events m' = m_events m @ new"
  "followup_diagnosis c p ob m = Inr m' \<Longrightarrow> \<exists>new. m_events m' = m_events m @ new"
  using note_silence_sel(5) [of c p log_age m] first_diagnosis_Inr(4) [of c p ob m m'] followup_diagnosis_Inr(4) [of c p ob m m']
  by (auto simp: note_stage_def)

section \<open>Ending\<close>

lemma tick_heartbeats: "tick c ob m = Next m' \<Longrightarrow> m_heartbeats m' = m_heartbeats m @ [beat_of ob]"
  by (auto simp: tick_Next note_stage_sel note_silence_sel first_diagnosis_Inr(3) followup_diagnosis_Inr(3)
      split: option.splits elim!: watch_Inr)

lemma monitor_run_cases:
  "monitor_run c seen m = Next m' \<Longrightarrow> (\<forall>ob \<in> set seen. active ob) \<and> m_heartbeats m' = m_heartbeats m @ map beat_of seen"
  "monitor_run c seen m = Done m' \<Longrightarrow> \<exists>pre ob post. seen = pre @ ob # post \<and> (\<forall>x \<in> set pre. active x) \<and> \<not> active ob \<and>
     m_heartbeats m' = m_heartbeats m @ map beat_of (pre @ [ob]) \<and> last (m_events m') = SERVICE_TERMINAL"
proof (induction seen arbitrary: m)
  case (Cons ob seen)
  {
    case 1
    then show ?case using Cons.IH(1) tick_heartbeats by (fastforce simp: tick_Next split: outcome.splits)
  next
    case 2
    show ?case
    proof (cases "tick c ob m")
      case (Next m1)
      with 2 Cons.IH(2) [of m1] obtain pre ob' post where "seen = pre @ ob' # post" "\<forall>x \<in> set pre. active x" "\<not> active ob'"
        "m_heartbeats m' = m_heartbeats m1 @ map beat_of (pre @ [ob'])" "last (m_events m') = SERVICE_TERMINAL" by auto
      then show ?thesis
        using Next tick_heartbeats [OF Next] by (intro exI [of _ "ob # pre"] exI [of _ ob'] exI [of _ post]) (auto simp: tick_Next)
    next
      case (Done m1)
      with 2 show ?thesis by (intro exI [of _ "[]"] exI [of _ ob] exI [of _ seen]) (auto simp: tick_Done)
    qed (use 2 in auto)
  }
qed auto

text \<open>The relation and the function describe the same loop.\<close>

lemma monitor_run_snoc:
  "monitor_run c (seen @ [ob]) m =
     (case monitor_run c seen m of Next m' \<Rightarrow> tick c ob m' | Done m' \<Rightarrow> Done m' | Raise e \<Rightarrow> Raise e)"
proof (induction seen arbitrary: m)
  case Nil
  then show ?case by (auto split: outcome.split)
qed (auto split: outcome.split)

lemma watching_iff: "watching c seen m \<longleftrightarrow> monitor_run c seen monitor_init = Next m"
proof
  show "watching c seen m \<Longrightarrow> monitor_run c seen monitor_init = Next m"
    by (induction rule: watching.induct) (simp_all add: monitor_run_snoc)
  show "monitor_run c seen monitor_init = Next m \<Longrightarrow> watching c seen m"
  proof (induction seen arbitrary: m rule: rev_induct)
    case Nil
    then show ?case by (auto intro: watching_start)
  next
    case (snoc ob seen)
    then show ?case by (auto simp: monitor_run_snoc split: outcome.splits intro: watching_step)
  qed
qed

section \<open>Silence\<close>

text \<open>
  A pass that saw exactly one OpenROAD process saw this one, and the log was not fresh. The
  monitor does not look at the log in a pass that sees no process or several, and neither
  does this predicate.
\<close>

definition quiet :: "config \<Rightarrow> ident \<Rightarrow> obs \<Rightarrow> bool" where
  "quiet c i ob \<longleftrightarrow> (\<forall>p. the_process ob = Some p \<longrightarrow> identity_of p = i \<and> \<not> fresh c ob)"

text \<open>Pass \<open>k\<close> of a watched run appended the event to the log.\<close>

definition logged :: "config \<Rightarrow> obs list \<Rightarrow> nat \<Rightarrow> event \<Rightarrow> bool" where
  "logged c seen k e \<longleftrightarrow> k < length seen \<and> (\<exists>m m' new. watching c (take k seen) m \<and> tick c (seen ! k) m = Next m' \<and>
     m_events m' = m_events m @ new \<and> e \<in> set new)"

lemma logged_snoc: "logged c seen k e \<Longrightarrow> logged c (seen @ [ob]) k e"
  by (auto simp: logged_def nth_append)

text \<open>
  The first diagnosis of a process at pass \<open>k\<close>: it alone ran, its log was silent for the
  diagnosis threshold, the capture command wrote the snapshot and the event was logged.
\<close>

definition first_diagnosed :: "config \<Rightarrow> obs list \<Rightarrow> nat \<Rightarrow> ident \<Rightarrow> string \<Rightarrow> bool" where
  "first_diagnosed c seen k i snapshot \<longleftrightarrow>
     (\<exists>p age. the_process (seen ! k) = Some p \<and> identity_of p = i \<and>
        ob_log_age (seen ! k) = Some age \<and> of_int (mc_diagnosis c) \<le> age \<and>
        ob_run (seen ! k) (capture_command c p snapshot) = Some 0 \<and> logged c seen k (FIRST_DIAGNOSIS i snapshot))"

lemma first_diagnosed_snoc: "first_diagnosed c seen k i snapshot \<Longrightarrow> first_diagnosed c (seen @ [ob]) k i snapshot"
  using logged_snoc by (fastforce simp: first_diagnosed_def logged_def nth_append)

text \<open>A first snapshot that is still held: when it was taken, and the silence since.\<close>

definition held :: "config \<Rightarrow> obs list \<Rightarrow> ident \<Rightarrow> string \<Rightarrow> rat \<Rightarrow> bool" where
  "held c seen i snapshot time \<longleftrightarrow> (\<exists>k < length seen. first_diagnosed c seen k i snapshot \<and> time = ob_first_time (seen ! k) \<and>
     (\<forall>j. k < j \<and> j < length seen \<longrightarrow> quiet c i (seen ! j)))"

lemma held_snoc: "held c seen i snapshot time \<Longrightarrow> quiet c i ob \<Longrightarrow> held c (seen @ [ob]) i snapshot time"
  unfolding held_def
  by (elim exE conjE) (rule exI, rule conjI [rotated], intro conjI, erule first_diagnosed_snoc,
    auto simp: nth_append less_Suc_eq)

definition holding :: "config \<Rightarrow> obs list \<Rightarrow> monitor \<Rightarrow> bool" where
  "holding c seen m \<longleftrightarrow>
     (\<forall>time. m_first_time m = Some time \<longrightarrow>
        (\<exists>i snapshot. m_identity m = Some i \<and> m_first m = Some snapshot \<and> held c seen i snapshot time)) \<and>
     (m_first m = None \<longleftrightarrow> m_first_time m = None)"

lemma holding_heartbeat: "holding c seen (m\<lparr>m_heartbeats := hs\<rparr>) = holding c seen m"
  by (simp add: holding_def)

lemma watch_holding:
  assumes "watching c seen m" "tick c ob m = Next m'" "the_process ob = Some p" "holding c seen m"
  obtains m3 new where "holding c (seen @ [ob]) m3" "m_identity m3 = Some (identity_of p)"
    "followup_diagnosis c p ob m3 = Inr m'" "m_events m3 = m_events m @ new" "\<forall>i s r. FOLLOWUP_DIAGNOSIS i s r \<notin> set new"
proof -
  let ?m = "m\<lparr>m_heartbeats := m_heartbeats m @ [beat_of ob]\<rparr>"
  from assms(2,3) have "watch c p ob ?m = Inr m'" by (simp add: tick_Next)
  then obtain m1 m2 m3 where m1: "m1 = note_stage p ?m" and m2: "m2 = note_silence c p (ob_log_age ob) m1"
    and m3: "first_diagnosis c p ob m2 = Inr m3" and m': "followup_diagnosis c p ob m3 = Inr m'" by (rule watch_Inr)
  have id: "m_identity m1 = Some (identity_of p)" "m_identity m2 = Some (identity_of p)" "m_identity m3 = Some (identity_of p)"
    using first_diagnosis_Inr(1) [OF m3] by (simp_all add: m1 m2 note_stage_sel note_silence_sel)
  have "holding c seen m1"
    using assms(4) note_stage_sel(2,3) [of ?m p] unfolding m1
    by (cases "m_identity m = Some (identity_of p)") (auto simp: holding_def)
  have h2: "holding c (seen @ [ob]) m2"
  proof (cases "fresh c ob")
    case True
    then show ?thesis using note_silence_sel(3) [OF True, of p m1] by (simp add: m2 holding_def)
  next
    case False
    then have "quiet c (identity_of p) ob" using assms(3) by (simp add: quiet_def)
    then show ?thesis
      using \<open>holding c seen m1\<close> id note_silence_sel(4) [OF False, of p m1] held_snoc [of c seen "identity_of p" _ _ ob] by (auto simp: m2 holding_def)
  qed
  obtain new where new: "m_events m3 = m_events m @ new" and none: "\<forall>i s r. FOLLOWUP_DIAGNOSIS i s r \<notin> set new"
    using first_diagnosis_Inr(4) [OF m3] note_silence_sel(5) [of c p "ob_log_age ob" m1] note_stage_sel(2,3) [of ?m p]
    unfolding m2 [symmetric] m1 [symmetric] by (cases "m_identity m = Some (identity_of p)") auto
  obtain more where more: "m_events m' = m_events m @ new @ more" using events_grow(4) [OF m'] new by auto
  have "holding c (seen @ [ob]) m3"
    using first_diagnosis_Inr(4) [OF m3]
  proof (elim disjE exE conjE)
    fix age
    let ?s = "snapshot_path c p (ob_first_stamp ob) ''_first.json''"
    assume age: "ob_log_age ob = Some age" "of_int (mc_diagnosis c) \<le> age" and run: "ob_run ob (capture_command c p ?s) = Some 0"
      and first: "m_first m3 = Some ?s" "m_first_time m3 = Some (ob_first_time ob)"
      and e: "m_events m3 = m_events m2 @ [FIRST_DIAGNOSIS (identity_of p) ?s]"
    obtain zs where "m_events m2 = m_events m @ zs"
      using events_grow(1) [of p ?m] events_grow(2) [of c p "ob_log_age ob" m1] by (auto simp: m1 m2)
    with e new have "FIRST_DIAGNOSIS (identity_of p) ?s \<in> set new" by auto
    with assms(1,2) more have "logged c (seen @ [ob]) (length seen) (FIRST_DIAGNOSIS (identity_of p) ?s)"
      by (fastforce simp: logged_def)
    with age run assms(3) have "held c (seen @ [ob]) (identity_of p) ?s (ob_first_time ob)"
      unfolding held_def first_diagnosed_def by (intro exI [of _ "length seen"]) (auto simp: nth_append)
    with first id(3) show ?thesis by (simp add: holding_def)
  qed (use h2 in simp)
  from that [OF this id(3) m' new none] show ?thesis .
qed

lemma followup_holding:
  assumes "followup_diagnosis c p ob m = Inr m'" "holding c seen m"
  shows "holding c seen m'"
  using followup_diagnosis_Inr(4) [OF assms(1)]
proof (elim disjE exE conjE)
  assume "m_first m' = None" "m_first_time m' = None"
  then show ?thesis by (simp add: holding_def)
qed (use assms(2) in simp)

lemma watching_holding: "watching c seen m \<Longrightarrow> holding c seen m"
proof (induction rule: watching.induct)
  case watching_start
  then show ?case by (simp add: holding_def monitor_init_def)
next
  case (watching_step seen m ob m')
  show ?case
  proof (cases "the_process ob")
    case None
    then have "holding c (seen @ [ob]) m"
      using watching_step.IH held_snoc by (fastforce simp: holding_def quiet_def)
    moreover have "m' = m\<lparr>m_heartbeats := m_heartbeats m @ [beat_of ob]\<rparr>"
      using watching_step.hyps(2) None by (simp add: tick_Next)
    ultimately show ?thesis by (simp only: holding_heartbeat)
  next
    case (Some p)
    from watch_holding [OF watching_step.hyps Some watching_step.IH] followup_holding show ?thesis by metis
  qed
qed

section \<open>The protocol of the event log\<close>

text \<open>
  The contract of the log, as an automaton over the events: the current process, whether it
  has been warned about, whether a first diagnosis is open, and whether the log is closed.
\<close>

record protocol =
  pr_identity :: "ident option"
  pr_warned :: bool
  pr_open :: bool
  pr_closed :: bool

definition protocol_init :: protocol where
  "protocol_init = \<lparr>pr_identity = None, pr_warned = False, pr_open = False, pr_closed = False\<rparr>"

fun accepts :: "event \<Rightarrow> protocol \<Rightarrow> protocol option" where
  "accepts (COMPUTE_STAGE i) q =
     (if \<not> pr_closed q \<and> pr_identity q \<noteq> Some i
      then Some (q\<lparr>pr_identity := Some i, pr_warned := False, pr_open := False\<rparr>) else None)"
| "accepts (SILENCE_WARNING i age) q =
     (if \<not> pr_closed q \<and> pr_identity q = Some i then Some (q\<lparr>pr_warned := True\<rparr>) else None)"
| "accepts (FIRST_DIAGNOSIS i s) q =
     (if \<not> pr_closed q \<and> pr_identity q = Some i \<and> pr_warned q then Some (q\<lparr>pr_open := True\<rparr>) else None)"
| "accepts (FOLLOWUP_DIAGNOSIS i s r) q =
     (if \<not> pr_closed q \<and> pr_identity q = Some i \<and> pr_open q then Some (q\<lparr>pr_open := False\<rparr>) else None)"
| "accepts SERVICE_TERMINAL q = (if \<not> pr_closed q then Some (q\<lparr>pr_closed := True\<rparr>) else None)"

fun accepted :: "event list \<Rightarrow> protocol \<Rightarrow> protocol option" where
  "accepted [] q = Some q"
| "accepted (e # es) q = (case accepts e q of None \<Rightarrow> None | Some q' \<Rightarrow> accepted es q')"

lemma accepted_append: "accepted (es @ fs) q = (case accepted es q of None \<Rightarrow> None | Some q' \<Rightarrow> accepted fs q')"
  by (induction es arbitrary: q) (auto split: option.split)

text \<open>The simulation relation between the monitor and the automaton.\<close>

definition follows :: "monitor \<Rightarrow> protocol \<Rightarrow> bool" where
  "follows m q \<longleftrightarrow> accepted (m_events m) protocol_init = Some q \<and> \<not> pr_closed q \<and> pr_identity q = m_identity m \<and>
     (m_warned m \<longrightarrow> pr_warned q) \<and> (m_first m \<noteq> None \<longrightarrow> pr_open q)"

lemma follows_stage: "follows m q \<Longrightarrow> \<exists>q'. follows (note_stage p m) q'"
  by (cases "m_identity m = Some (identity_of p)")
    (auto simp: follows_def note_stage_def accepted_append)

lemma follows_silence:
  assumes "follows m q" "m_identity m = Some (identity_of p)"
  shows "\<exists>q'. follows (note_silence c p log_age m) q' \<and>
    (\<forall>age. log_age = Some age \<and> of_int (mc_warning c) \<le> age \<longrightarrow> m_warned (note_silence c p log_age m))"
  using assms by (auto simp: follows_def note_silence_def accepted_append Let_def split: option.split)

lemma follows_first:
  assumes "first_diagnosis c p ob m = Inr m'" "follows m q" "m_identity m = Some (identity_of p)" "mc_warning c < mc_diagnosis c"
    and "\<And>age. ob_log_age ob = Some age \<Longrightarrow> of_int (mc_warning c) \<le> age \<Longrightarrow> m_warned m"
  shows "\<exists>q'. follows m' q'"
proof -
  from first_diagnosis_Inr(4) [OF assms(1)] show ?thesis
  proof (elim disjE exE conjE)
    fix age
    assume age: "ob_log_age ob = Some age" "of_int (mc_diagnosis c) \<le> age"
      and e: "m_events m' = m_events m @ [FIRST_DIAGNOSIS (identity_of p) (snapshot_path c p (ob_first_stamp ob) ''_first.json'')]"
    have "(of_int (mc_warning c) :: rat) \<le> of_int (mc_diagnosis c)" using assms(4) by simp
    with age assms(5) have "m_warned m" by (meson order_trans)
    with assms(2,3) e first_diagnosis_Inr(1,2) [OF assms(1)] show ?thesis by (auto simp: follows_def accepted_append)
  qed (use assms(2) in blast)
qed

lemma follows_followup:
  assumes "followup_diagnosis c p ob m = Inr m'" "follows m q"
  shows "\<exists>q'. follows m' q'"
  using followup_diagnosis_Inr [OF assms(1)] assms(2) by (auto simp: follows_def accepted_append)

lemma follows_heartbeat: "follows (m\<lparr>m_heartbeats := hs\<rparr>) q = follows m q"
  by (simp add: follows_def)

lemma tick_follows:
  assumes "tick c ob m = Next m'" "follows m q" "mc_warning c < mc_diagnosis c"
  shows "\<exists>q'. follows m' q'"
proof (cases "the_process ob")
  case None
  with assms(1,2) show ?thesis by (auto simp: tick_Next follows_heartbeat)
next
  case (Some p)
  let ?m = "m\<lparr>m_heartbeats := m_heartbeats m @ [beat_of ob]\<rparr>"
  from assms(1) Some have "watch c p ob ?m = Inr m'" by (simp add: tick_Next)
  then show ?thesis
  proof (rule watch_Inr)
    fix m1 m2 m3
    assume m: "m1 = note_stage p ?m" "m2 = note_silence c p (ob_log_age ob) m1"
      "first_diagnosis c p ob m2 = Inr m3" "followup_diagnosis c p ob m3 = Inr m'"
    have "follows ?m q" using assms(2) by (simp add: follows_heartbeat)
    from follows_stage [OF this] obtain q1 where "follows m1 q1" unfolding m(1) by blast
    from follows_silence [OF this, of p c "ob_log_age ob"] obtain q2 where q2: "follows m2 q2"
      "\<And>age. ob_log_age ob = Some age \<Longrightarrow> of_int (mc_warning c) \<le> age \<Longrightarrow> m_warned m2"
      by (auto simp: m(1,2) note_stage_sel)
    have "m_identity m2 = Some (identity_of p)" by (simp add: m(1,2) note_stage_sel note_silence_sel)
    from follows_first [OF m(3) q2(1) this assms(3)] q2(2) obtain q3 where "follows m3 q3" by blast
    from follows_followup [OF m(4) this] show ?thesis .
  qed
qed

lemma watching_follows: "watching c seen m \<Longrightarrow> mc_warning c < mc_diagnosis c \<Longrightarrow> \<exists>q. follows m q"
proof (induction rule: watching.induct)
  case watching_start
  have "follows monitor_init protocol_init" by (simp add: follows_def monitor_init_def protocol_init_def)
  then show ?case ..
qed (blast intro: tick_follows)

section \<open>Persistent silence\<close>

definition steady :: "config \<Rightarrow> process \<Rightarrow> obs \<Rightarrow> bool" where
  "steady c p ob \<longleftrightarrow> active ob \<and> the_process ob = Some p \<and>
     (\<exists>age. ob_log_age ob = Some age \<and> of_int (mc_diagnosis c) \<le> age) \<and> (\<forall>command. ob_run ob command = Some 0)"

text \<open>The open diagnosis after the silence phase of a pass, and the one a steady pass then opens.\<close>

definition silenced :: "config \<Rightarrow> process \<Rightarrow> obs \<Rightarrow> monitor \<Rightarrow> monitor" where
  "silenced c p ob m = note_silence c p (ob_log_age ob) (note_stage p (m\<lparr>m_heartbeats := m_heartbeats m @ [beat_of ob]\<rparr>))"

definition opened :: "config \<Rightarrow> process \<Rightarrow> obs \<Rightarrow> monitor \<Rightarrow> rat \<Rightarrow> bool" where
  "opened c p ob m time \<longleftrightarrow> m_first (silenced c p ob m) = None \<and> time = ob_first_time ob \<or>
     m_first (silenced c p ob m) \<noteq> None \<and> m_first_time (silenced c p ob m) = Some time"

lemma run_checked_steady: "steady c p ob \<Longrightarrow> run_checked ob command = Inr ()"
  by (simp add: steady_def run_checked_Inr)

lemma silenced_sel: "m_identity (silenced c p ob m) = Some (identity_of p)" "\<exists>new. m_events (silenced c p ob m) = m_events m @ new"
proof -
  let ?m = "m\<lparr>m_heartbeats := m_heartbeats m @ [beat_of ob]\<rparr>"
  show "m_identity (silenced c p ob m) = Some (identity_of p)" by (simp add: silenced_def note_stage_sel note_silence_sel)
  show "\<exists>new. m_events (silenced c p ob m) = m_events m @ new"
    using events_grow(1) [of p ?m] events_grow(2) [of c p "ob_log_age ob" "note_stage p ?m"] by (auto simp: silenced_def)
qed

text \<open>After the pass either the follow-up has been logged, or the diagnosis is still open.\<close>

definition followed :: "config \<Rightarrow> process \<Rightarrow> obs \<Rightarrow> rat \<Rightarrow> event list \<Rightarrow> monitor \<Rightarrow> bool" where
  "followed c p ob time new m \<longleftrightarrow>
     (if of_int (mc_followup c) \<le> ob_clock ob - time
      then (\<exists>s r. FOLLOWUP_DIAGNOSIS (identity_of p) s r \<in> set new) \<and> m_first m = None \<and> m_first_time m = None
      else m_first m \<noteq> None \<and> m_first_time m = Some time)"

lemma steady_tick:
  assumes "steady c p ob" "opened c p ob m time"
  shows "\<exists>m' new. tick c ob m = Next m' \<and> m_events m' = m_events m @ new \<and> m_identity m' = Some (identity_of p) \<and>
    followed c p ob time new m'"
proof -
  let ?m1 = "silenced c p ob m"
  obtain age where age: "ob_log_age ob = Some age" "of_int (mc_diagnosis c) \<le> age" using assms(1) by (auto simp: steady_def)
  have "\<exists>m3 s. first_diagnosis c p ob ?m1 = Inr m3 \<and> m_identity m3 = m_identity ?m1 \<and> m_first m3 = Some s \<and>
    m_first_time m3 = Some time"
  proof (cases "m_first ?m1")
    case None
    with assms(2) have "time = ob_first_time ob" by (simp add: opened_def)
    with None age run_checked_steady [OF assms(1)] show ?thesis by (simp add: first_diagnosis_def Let_def)
  next
    case (Some s)
    with assms(2) age have "first_diagnosis c p ob ?m1 = Inr ?m1" "m_first_time ?m1 = Some time"
      by (simp_all add: first_diagnosis_def opened_def)
    with Some show ?thesis by blast
  qed
  then obtain m3 s where m3: "first_diagnosis c p ob ?m1 = Inr m3"
    "m_identity m3 = m_identity ?m1" "m_first m3 = Some s" "m_first_time m3 = Some time" by blast
  have "\<exists>m' new. followup_diagnosis c p ob m3 = Inr m' \<and> m_events m' = m_events m3 @ new \<and> m_identity m' = m_identity m3 \<and>
    followed c p ob time new m'"
    using m3(2-4) silenced_sel(1) [of c p ob m] run_checked_steady [OF assms(1)]
    by (cases "of_int (mc_followup c) \<le> ob_clock ob - time") (simp_all add: followup_diagnosis_def followed_def Let_def)
  then obtain m' new where m': "followup_diagnosis c p ob m3 = Inr m'" "m_events m' = m_events m3 @ new"
    "m_identity m' = m_identity m3" "followed c p ob time new m'" by blast
  obtain before_new where b: "m_events m3 = m_events m @ before_new"
    using silenced_sel(2) [of c p ob m] events_grow(3) [OF m3(1)] by auto
  have "tick c ob m = Next m'"
    using assms(1) m3(1) m'(1) by (simp add: steady_def tick_Next watch_def flip: silenced_def)
  moreover have "followed c p ob time (before_new @ new) m'" using m'(4) by (auto simp: followed_def split: if_splits)
  ultimately show ?thesis using b m'(2,3) m3(2) silenced_sel(1) [of c p ob m] by auto
qed

lemma opened_next:
  assumes "steady c p ob" "mc_warning c < mc_diagnosis c" "m_identity m = Some (identity_of p)"
  shows "m_first m = Some s \<Longrightarrow> m_first_time m = Some time \<Longrightarrow> opened c p ob m time"
    and "m_first m = None \<Longrightarrow> opened c p ob m (ob_first_time ob)"
proof -
  have "(of_int (mc_warning c) :: rat) < of_int (mc_diagnosis c)" using assms(2) by simp
  then have "\<not> fresh c ob" using assms(1) by (auto simp: steady_def fresh_def)
  from note_silence_sel(4) [OF this] note_stage_sel(2) [of "m\<lparr>m_heartbeats := m_heartbeats m @ [beat_of ob]\<rparr>" p] assms(3)
  have "m_first (silenced c p ob m) = m_first m" "m_first_time (silenced c p ob m) = m_first_time m"
    by (simp_all add: silenced_def)
  then show "m_first m = Some s \<Longrightarrow> m_first_time m = Some time \<Longrightarrow> opened c p ob m time"
    "m_first m = None \<Longrightarrow> opened c p ob m (ob_first_time ob)" by (simp_all add: opened_def)
qed

lemma opened_stage: "m_identity m \<noteq> Some (identity_of p) \<Longrightarrow> opened c p ob m (ob_first_time ob)"
  using note_stage_sel(3) [of "m\<lparr>m_heartbeats := m_heartbeats m @ [beat_of ob]\<rparr>" p]
    note_silence_sel(3,4) [of c ob p "note_stage p (m\<lparr>m_heartbeats := m_heartbeats m @ [beat_of ob]\<rparr>)"]
  by (cases "fresh c ob") (simp_all add: opened_def silenced_def)

text \<open>
  When the first diagnosis of the process was taken that a steady pass finds or makes: the
  monitor holds one of this process, or the pass takes it.
\<close>

definition diagnosed_at :: "process \<Rightarrow> obs \<Rightarrow> monitor \<Rightarrow> rat" where
  "diagnosed_at p ob m =
     (if m_identity m = Some (identity_of p)
      then case m_first_time m of Some time \<Rightarrow> time | None \<Rightarrow> ob_first_time ob
      else ob_first_time ob)"

lemma opened_diagnosed:
  assumes "steady c p ob" "mc_warning c < mc_diagnosis c" "m_first m = None \<longleftrightarrow> m_first_time m = None"
  shows "opened c p ob m (diagnosed_at p ob m)"
  using opened_next [OF assms(1,2)] opened_stage [of m p c ob] assms(3)
  by (cases "m_identity m = Some (identity_of p)") (auto simp: diagnosed_at_def split: option.split)

lemma steady_run:
  assumes "\<forall>x \<in> set (ob # seen). steady c p x" "mc_warning c < mc_diagnosis c" "m_first m = None \<longleftrightarrow> m_first_time m = None"
  shows "\<exists>m' new. monitor_run c (ob # seen) m = Next m' \<and> m_events m' = m_events m @ new \<and>
    ((\<exists>x \<in> set (ob # seen). of_int (mc_followup c) \<le> ob_clock x - diagnosed_at p ob m) \<longrightarrow>
      (\<exists>s r. FOLLOWUP_DIAGNOSIS (identity_of p) s r \<in> set new))"
  using assms
proof (induction seen arbitrary: ob m)
  case Nil
  let ?t = "diagnosed_at p ob m"
  from Nil have "steady c p ob" by simp
  from steady_tick [OF this opened_diagnosed [OF this Nil.prems(2,3)]] show ?case by (fastforce simp: followed_def)
next
  case (Cons ob' seen)
  let ?t = "diagnosed_at p ob m"
  from Cons.prems have ob: "steady c p ob" "\<forall>x \<in> set (ob' # seen). steady c p x" by simp_all
  from steady_tick [OF ob(1) opened_diagnosed [OF ob(1) Cons.prems(2,3)]] obtain m1 new where
    m1: "tick c ob m = Next m1" "m_events m1 = m_events m @ new" "m_identity m1 = Some (identity_of p)"
      "followed c p ob ?t new m1" by blast
  have "m_first m1 = None \<longleftrightarrow> m_first_time m1 = None" using m1(4) by (auto simp: followed_def split: if_splits)
  from Cons.IH [OF ob(2) Cons.prems(2) this] obtain m' more where
    m': "monitor_run c (ob' # seen) m1 = Next m'" "m_events m' = m_events m1 @ more"
      "(\<exists>x \<in> set (ob' # seen). of_int (mc_followup c) \<le> ob_clock x - diagnosed_at p ob' m1) \<longrightarrow>
        (\<exists>s r. FOLLOWUP_DIAGNOSIS (identity_of p) s r \<in> set more)" by blast
  have "\<exists>s r. FOLLOWUP_DIAGNOSIS (identity_of p) s r \<in> set (new @ more)"
    if late: "\<exists>x \<in> set (ob # ob' # seen). of_int (mc_followup c) \<le> ob_clock x - ?t"
  proof (cases "of_int (mc_followup c) \<le> ob_clock ob - ?t")
    case True
    with m1(4) show ?thesis by (auto simp: followed_def)
  next
    case False
    then have "diagnosed_at p ob' m1 = ?t" using m1(3,4) by (simp add: followed_def diagnosed_at_def)
    with False late m'(3) show ?thesis by auto
  qed
  with m1(1,2) m'(1,2) show ?case by (intro exI [of _ m'] exI [of _ "new @ more"]) simp
qed

section \<open>Properties\<close>

text \<open>
  C19: a follow-up diagnosis rests on continued silence. When a pass logs one, an earlier part
  of the run (this pass at the latest) took and logged a first diagnosis of the same process
  while its log had been silent for the diagnosis threshold, at least the configured time
  before by the clock; the follow-up compared a second snapshot with the one taken then; and
  every pass since that saw exactly one OpenROAD process saw this one, with no log younger than
  the warning threshold. Of a pass that saw no process or several, nothing is said: the monitor
  does not look at the log there.
\<close>

theorem followup_after_silence:
  assumes "watching c seen m" "tick c ob m = Next m'"
    and "m_events m' = m_events m @ new" "FOLLOWUP_DIAGNOSIS i second comparison \<in> set new"
  shows "\<exists>k \<le> length seen. \<exists>p snapshot. the_process ob = Some p \<and> identity_of p = i \<and>
    first_diagnosed c (seen @ [ob]) k i snapshot \<and>
    of_int (mc_followup c) \<le> ob_clock ob - ob_first_time ((seen @ [ob]) ! k) \<and>
    ob_run ob (capture_command c p second) = Some 0 \<and>
    ob_run ob (compare_command c snapshot second comparison) = Some 0 \<and>
    (\<forall>j. k < j \<and> j \<le> length seen \<longrightarrow> quiet c i ((seen @ [ob]) ! j))"
proof -
  from assms(2-4) obtain p where p: "the_process ob = Some p" by (auto simp: tick_Next split: option.splits)
  from watch_holding [OF assms(1,2) p watching_holding [OF assms(1)]] obtain m3 early where
    m3: "holding c (seen @ [ob]) m3" "m_identity m3 = Some (identity_of p)" "followup_diagnosis c p ob m3 = Inr m'"
      "m_events m3 = m_events m @ early" "\<forall>i s r. FOLLOWUP_DIAGNOSIS i s r \<notin> set early" .
  from followup_diagnosis_Inr(4) [OF m3(3)] show ?thesis
  proof (elim disjE exE conjE)
    assume "m' = m3"
    with m3(4) assms(3) have "new = early" by simp
    with m3(5) assms(4) show ?thesis by blast
  next
    fix snapshot time s r
    assume f: "m_first m3 = Some snapshot" "m_first_time m3 = Some time" "of_int (mc_followup c) \<le> ob_clock ob - time"
        "ob_run ob (capture_command c p s) = Some 0" "ob_run ob (compare_command c snapshot s r) = Some 0"
      and e: "m_events m' = m_events m3 @ [FOLLOWUP_DIAGNOSIS (identity_of p) s r]"
    have "FOLLOWUP_DIAGNOSIS i second comparison \<notin> set early" using m3(5) by blast
    with e m3(4) assms(3,4) have i: "i = identity_of p" "s = second" "r = comparison" by auto
    from m3(1,2) f(1,2) have "held c (seen @ [ob]) i snapshot time" by (auto simp: holding_def i)
    with p i f(3-5) show ?thesis unfolding held_def length_append_singleton less_Suc_eq_le by blast
  qed
qed

text \<open>
  C27: with the thresholds the monitor accepts, its event log follows the protocol: events name
  the process of the current stage, a first diagnosis comes after a warning for that process, a
  follow-up after a first diagnosis that no other follow-up has used, and nothing after the
  terminal event.
\<close>

theorem monitor_log_protocol:
  assumes "monitor_start c pid env h = Inr (m0, h0)"
  shows "(monitor_run c seen m0 = Next m \<or> monitor_run c seen m0 = Done m) \<longrightarrow> accepted (m_events m) protocol_init \<noteq> None"
proof -
  have th: "mc_warning c < mc_diagnosis c" and m0: "m0 = monitor_init"
    using assms by (auto simp: monitor_start_def and_then_eq_Inr split: if_splits)
  have live: "accepted (m_events m) protocol_init \<noteq> None" if "monitor_run c xs m0 = Next m" for xs m
    using watching_follows [of c xs m] that th by (auto simp: m0 watching_iff follows_def)
  have "accepted (m_events m) protocol_init \<noteq> None" if "monitor_run c seen m0 = Done m"
    using that
  proof (induction seen arbitrary: m rule: rev_induct)
    case (snoc ob seen)
    show ?case
    proof (cases "monitor_run c seen m0")
      case (Next m1)
      with snoc.prems have "tick c ob m1 = Done m" by (simp add: monitor_run_snoc)
      moreover obtain q where "follows m1 q" using watching_follows [of c seen m1] Next th by (auto simp: m0 watching_iff)
      ultimately show ?thesis by (auto simp: tick_Done follows_def accepted_append)
    qed (use snoc in \<open>auto simp: monitor_run_snoc\<close>)
  qed simp
  with live show ?thesis by blast
qed

text \<open>
  The monitor ends with exit code 0 exactly at the first pass that finds the service no
  longer active; that pass and every one before it left a heartbeat, and the terminal event is
  the last of the log.
\<close>

theorem monitor_ends_with_service:
  "(monitor_run c seen m = Done m' \<longrightarrow> (\<exists>pre ob post. seen = pre @ ob # post \<and> (\<forall>x \<in> set pre. active x) \<and> \<not> active ob \<and>
      m_heartbeats m' = m_heartbeats m @ map beat_of (pre @ [ob]) \<and> last (m_events m') = SERVICE_TERMINAL)) \<and>
   (monitor_run c seen m = Next m' \<longrightarrow> (\<forall>ob \<in> set seen. active ob) \<and> m_heartbeats m' = m_heartbeats m @ map beat_of seen)"
  using monitor_run_cases by blast

text \<open>
  C28: persistent silence is followed up, whatever the monitor saw before. Let it watch, in any
  state it can be in, and let every further pass see the same single process with a log silent
  for the diagnosis threshold and working diagnostic commands. If some such pass comes at least
  the configured time after the first diagnosis (the one the monitor holds of that process, or
  the one the first of these passes takes), the monitor keeps watching and these passes log a
  follow-up diagnosis of that process.
\<close>

theorem silence_leads_to_followup:
  assumes "mc_warning c < mc_diagnosis c" "watching c seen m"
    and "\<forall>x \<in> set (ob # obs). steady c p x"
    and "\<exists>x \<in> set (ob # obs). of_int (mc_followup c) \<le> ob_clock x - diagnosed_at p ob m"
  shows "\<exists>m' new second comparison. monitor_run c (ob # obs) m = Next m' \<and> m_events m' = m_events m @ new \<and>
    FOLLOWUP_DIAGNOSIS (identity_of p) second comparison \<in> set new"
proof -
  have "m_first m = None \<longleftrightarrow> m_first_time m = None" using watching_holding [OF assms(2)] by (simp add: holding_def)
  from steady_run [OF assms(3,1) this] assms(4) show ?thesis by blast
qed

section \<open>A stalled global route\<close>

text \<open>
  One global-route process whose log has been silent for 1900 seconds, seen before the first
  diagnosis and again 700 seconds later; then the service has stopped.
\<close>

definition stalled :: process where
  "stalled = \<lparr>p_pid = 7, p_starttime = Some 9, p_stage = ''groute''\<rparr>"

definition stalled_config :: config where
  "stalled_config = \<lparr>mc_service = ''s'', mc_variant = ''v'', mc_log = ''log'', mc_artifacts = [], mc_output_dir = ''out'',
     mc_interval = 120, mc_warning = 900, mc_diagnosis = 1800, mc_followup = 600,
     mc_python = ''py'', mc_capture = ''cap'', mc_compare = ''cmp''\<rparr>"

definition stalled_at :: "int \<Rightarrow> obs" where
  "stalled_at t = \<lparr>ob_state = ''active'', ob_processes = [stalled], ob_log_age = Some (of_int (1900 + t)), ob_first_stamp = ''a'',
     ob_first_time = of_int t, ob_clock = of_int t, ob_second_stamp = ''b'', ob_run = \<lambda>_. Some 0\<rparr>"

definition stopped :: obs where
  "stopped = (stalled_at 900)\<lparr>ob_state := ''inactive'', ob_processes := []\<rparr>"

definition stalled_host :: host where
  "stalled_host = \<lparr>files = map_of [(''/r/tools/monitor_openroad_service.py'', ''m''), (''cap'', ''c''), (''cmp'', ''d'')],
     dirs = (\<lambda>_. False)\<rparr>"

definition stalled_env :: env where
  "stalled_env = \<lparr>sha = (\<lambda>b. b), decode = (\<lambda>b. Inr b), loads = (\<lambda>b. Inr JNull), dumps = (\<lambda>_. ''record''),
     now = ''2026'', root = ''/r''\<rparr>"

lemmas stalled_defs = stalled_def stalled_config_def stalled_at_def stopped_def

lemmas pass_defs = tick_def active_def the_process_def watch_def note_stage_def note_silence_def first_diagnosis_def
  followup_diagnosis_def run_checked_def and_then_def identity_of_def beat_of_def append_event_def monitor_init_def

lemma stalled_start: "\<exists>h. monitor_start stalled_config 4242 stalled_env stalled_host = Inr (monitor_init, h)"
proof -
  have "map_sum (\<lambda>e. e) (m_events \<circ> fst) (monitor_start stalled_config 4242 stalled_env stalled_host) = Inr []"
    by code_simp
  then obtain m h where "monitor_start stalled_config 4242 stalled_env stalled_host = Inr (m, h)"
    by (cases "monitor_start stalled_config 4242 stalled_env stalled_host") auto
  moreover from this have "m = monitor_init" by (auto simp: monitor_start_def and_then_eq_Inr split: if_splits)
  ultimately show ?thesis by blast
qed

text \<open>The state after the first pass.\<close>

definition stalled_snapshot :: string where
  "stalled_snapshot = snapshot_path stalled_config stalled ''a'' ''_first.json''"

definition stalled_first :: monitor where
  "stalled_first = \<lparr>m_identity = Some (7, Some 9, ''groute''), m_warned = True, m_first = Some stalled_snapshot, m_first_time = Some 0,
     m_heartbeats = [beat_of (stalled_at 0)],
     m_events = [COMPUTE_STAGE (7, Some 9, ''groute''), SILENCE_WARNING (7, Some 9, ''groute'') 1900,
       FIRST_DIAGNOSIS (7, Some 9, ''groute'') stalled_snapshot]\<rparr>"

lemma stalled_first_tick: "tick stalled_config (stalled_at 0) monitor_init = Next stalled_first"
  by (simp add: stalled_first_def stalled_snapshot_def pass_defs stalled_defs Let_def)

lemma stalled_first_events: "length (m_events stalled_first) = 3" "FOLLOWUP_DIAGNOSIS i s r \<notin> set (m_events stalled_first)"
  by (simp_all add: stalled_first_def)

lemma stalled_watching: "watching stalled_config [stalled_at 0] stalled_first"
  using watching_step [OF watching_start stalled_first_tick] by simp

lemma stalled_followup: "\<exists>m' s r. tick stalled_config (stalled_at 700) stalled_first = Next m' \<and>
    m_events m' = m_events stalled_first @ [FOLLOWUP_DIAGNOSIS (7, Some 9, ''groute'') s r]"
  by (simp add: stalled_first_def pass_defs stalled_defs Let_def)

lemma followup_after_silence_witness:
  "\<exists>m' s r. tick stalled_config (stalled_at 700) stalled_first = Next m' \<and>
     FOLLOWUP_DIAGNOSIS (7, Some 9, ''groute'') s r \<in> set (m_events m') \<and>
     (\<exists>k \<le> length [stalled_at 0]. \<exists>snapshot.
        first_diagnosed stalled_config ([stalled_at 0] @ [stalled_at 700]) k (7, Some 9, ''groute'') snapshot)"
proof -
  from stalled_followup obtain m' s r where m': "tick stalled_config (stalled_at 700) stalled_first = Next m'"
    "m_events m' = m_events stalled_first @ [FOLLOWUP_DIAGNOSIS (7, Some 9, ''groute'') s r]" by blast
  from followup_after_silence [OF stalled_watching m', of "(7, Some 9, ''groute'')" s r] m' show ?thesis by fastforce
qed

lemma monitor_log_protocol_witness:
  "\<exists>m. monitor_run stalled_config [stalled_at 0, stopped] monitor_init = Done m \<and> length (m_events m) = 4 \<and>
     accepted (m_events m) protocol_init \<noteq> None"
proof -
  obtain m where m: "tick stalled_config stopped stalled_first = Done m" "m_events m = m_events stalled_first @ [SERVICE_TERMINAL]"
    by (simp add: tick_Done stopped_def stalled_at_def active_def)
  with stalled_first_tick stalled_first_events have "monitor_run stalled_config [stalled_at 0, stopped] monitor_init = Done m" "length (m_events m) = 4"
    by auto
  moreover obtain h where "monitor_start stalled_config 4242 stalled_env stalled_host = Inr (monitor_init, h)"
    using stalled_start by blast
  ultimately show ?thesis using monitor_log_protocol [of stalled_config 4242 stalled_env stalled_host monitor_init h "[stalled_at 0, stopped]" m] by blast
qed

lemma monitor_ends_with_service_witness:
  "\<exists>m. monitor_run stalled_config [stalled_at 0, stopped] monitor_init = Done m \<and> last (m_events m) = SERVICE_TERMINAL"
proof -
  obtain m where m: "tick stalled_config stopped stalled_first = Done m"
    by (simp add: tick_Done stopped_def stalled_at_def active_def)
  with stalled_first_tick have "monitor_run stalled_config [stalled_at 0, stopped] monitor_init = Done m" by simp
  with monitor_ends_with_service [of stalled_config "[stalled_at 0, stopped]" monitor_init m] show ?thesis by blast
qed

lemma silence_leads_to_followup_witness:
  "\<exists>m' new second comparison. monitor_run stalled_config [stalled_at 500, stalled_at 700] stalled_first = Next m' \<and>
     m_events m' = m_events stalled_first @ new \<and> FOLLOWUP_DIAGNOSIS (identity_of stalled) second comparison \<in> set new"
proof (rule silence_leads_to_followup [OF _ stalled_watching])
  show "mc_warning stalled_config < mc_diagnosis stalled_config" by (simp add: stalled_config_def)
  show "\<forall>x \<in> set [stalled_at 500, stalled_at 700]. steady stalled_config stalled x"
    by (simp add: steady_def stalled_defs active_def the_process_def)
  show "\<exists>x \<in> set [stalled_at 500, stalled_at 700].
      of_int (mc_followup stalled_config) \<le> ob_clock x - diagnosed_at stalled (stalled_at 500) stalled_first"
    by (simp add: stalled_defs stalled_first_def diagnosed_at_def identity_of_def)
qed

end
