(* ===== verification/Norm_Model.thy ===== *)
theory Norm_Model
  imports Rounding Trace "HOL-Library.List_Lexorder" "HOL-Library.Char_ord"
begin

text \<open>
  \<open>tools/groot_normalization_model.py\<close>: the analytical latency model of one normalization on
  five placements, and its break-even sweep. Cycle counts are integers; nanoseconds are floats,
  rounded as the script rounds them, including the quotients whose ceiling it takes. The
  reference point is the parameter file with its numbers read. \<open>fsum\<close> is Python's \<open>sum\<close> on
  floats, which adds from left to right before CPython 3.12 and compensates from then on.
\<close>

section \<open>Floats\<close>

definition of_py :: "int \<Rightarrow> rat" where
  "of_py n = fl (of_int n)"

definition round6 :: "rat \<Rightarrow> rat" where
  "round6 x = fl (of_int (rne (x * 10 ^ 6)) / 10 ^ 6)"

text \<open>\<open>math.ceil\<close> of the quotient of two integers.\<close>

definition ceil_quot :: "int \<Rightarrow> int \<Rightarrow> int" where
  "ceil_quot a b = \<lceil>fl (of_int a / of_int b)\<rceil>"

section \<open>Profiles and parameters\<close>

record profile =
  pf_profile_id :: string
  pf_norm_type :: string
  pf_rows :: int
  pf_hidden_size :: int
  pf_invocations :: int
  pf_measured_elementwise_cycles :: int
  pf_input_bytes :: int
  pf_output_bytes :: int
  pf_affine_bytes :: int
  pf_stat_scalars :: int

definition statistic_count :: "profile \<Rightarrow> int" where
  "statistic_count p = (if pf_norm_type p = ''RMSNorm'' then 1 else 2)"

definition return_scalars :: "profile \<Rightarrow> int" where
  "return_scalars p = (if pf_norm_type p = ''RMSNorm'' then 1 else 2)"

record ref_point =
  rp_clock_mhz :: rat
  rp_banks :: int
  rp_bank_pcus :: int
  rp_logic_pcus :: int
  rp_vector_lanes_per_pcu :: int
  rp_logic_partial_input_ports :: "int option"
  rp_rsqrt_latency_cycles :: int
  rp_rsqrt_initiation_interval_cycles :: int
  rp_rmsnorm_finalize_cycles_per_row :: int
  rp_layernorm_finalize_cycles_per_row :: int
  rp_offload_bandwidth_gbps :: rat
  rp_offload_one_way_latency_ns :: rat
  rp_ondie_bandwidth_gbps :: rat
  rp_ondie_one_way_latency_ns :: rat
  rp_gpu_hbm_bandwidth_gbytes_per_s :: rat
  rp_gpu_kernel_launch_ns :: rat
  rp_gpu_normalization_rows_per_ns :: rat

section \<open>Times and cycle counts\<close>

definition transfer_ns :: "int \<Rightarrow> rat \<Rightarrow> rat \<Rightarrow> rat result" where
  "transfer_ns byte_count bandwidth_gbps fixed_latency_ns =
     and_then (fdiv (fl (of_py byte_count * 8)) bandwidth_gbps) (\<lambda>t. Inr (fl (fixed_latency_ns + t)))"

definition cycles_to_ns :: "int \<Rightarrow> rat \<Rightarrow> rat result" where
  "cycles_to_ns cycles clock_mhz = fdiv (fl (of_py cycles * 1000)) clock_mhz"

definition logic_raw_reduce_cycles :: "profile \<Rightarrow> int \<Rightarrow> int \<Rightarrow> int" where
  "logic_raw_reduce_cycles p logic_pcus lanes =
     (let parallel_elements = max 1 (logic_pcus * lanes)
      in ceil_quot (pf_rows p * pf_hidden_size p) parallel_elements * statistic_count p)"

definition bank_local_reduce_cycles :: "profile \<Rightarrow> int \<Rightarrow> int" where
  "bank_local_reduce_cycles p banks =
     (let parallel_elements = max 1 banks in ceil_quot (pf_rows p * pf_hidden_size p) parallel_elements)"

definition local_reduce_cycles :: "profile \<Rightarrow> int \<Rightarrow> int \<Rightarrow> int \<Rightarrow> int" where
  "local_reduce_cycles p banks bank_pcus lanes =
     (let parallel_elements = max 1 (banks * bank_pcus * lanes)
      in ceil_quot (pf_rows p * pf_hidden_size p) parallel_elements * statistic_count p)"

definition global_reduce_cycles :: "profile \<Rightarrow> int \<Rightarrow> int \<Rightarrow> int" where
  "global_reduce_cycles p banks partial_ports = ceil_quot (pf_rows p * banks) (max 1 partial_ports)"

definition rsqrt_cycles :: "profile \<Rightarrow> int \<Rightarrow> int \<Rightarrow> int \<Rightarrow> int" where
  "rsqrt_cycles p engines latency initiation_interval =
     (let waves = ceil_quot (pf_rows p) (max 1 engines) in latency + max 0 (waves - 1) * initiation_interval)"

definition finalize_cycles :: "profile \<Rightarrow> int \<Rightarrow> ref_point \<Rightarrow> int" where
  "finalize_cycles p engines ref =
     (let per_row = (if pf_norm_type p = ''RMSNorm'' then rp_rmsnorm_finalize_cycles_per_row ref
                     else rp_layernorm_finalize_cycles_per_row ref)
      in ceil_quot (pf_rows p) (max 1 engines) * per_row)"

section \<open>The model of one profile\<close>

record breakdown =
  bd_prepare_ns :: rat
  bd_local_reduce_ns :: rat
  bd_partial_transfer_ns :: rat
  bd_global_reduce_ns :: rat
  bd_finalize_ns :: rat
  bd_rsqrt_ns :: rat
  bd_return_ns :: rat
  bd_apply_ns :: rat
  bd_queue_sync_ns :: rat
  bd_mode_switch_ns :: rat

definition no_time :: breakdown where
  "no_time = \<lparr>bd_prepare_ns = 0, bd_local_reduce_ns = 0, bd_partial_transfer_ns = 0, bd_global_reduce_ns = 0,
     bd_finalize_ns = 0, bd_rsqrt_ns = 0, bd_return_ns = 0, bd_apply_ns = 0, bd_queue_sync_ns = 0, bd_mode_switch_ns = 0\<rparr>"

definition breakdown_values :: "breakdown \<Rightarrow> rat list" where
  "breakdown_values b = [bd_prepare_ns b, bd_local_reduce_ns b, bd_partial_transfer_ns b, bd_global_reduce_ns b,
     bd_finalize_ns b, bd_rsqrt_ns b, bd_return_ns b, bd_apply_ns b, bd_queue_sync_ns b, bd_mode_switch_ns b]"

definition rounded :: "breakdown \<Rightarrow> breakdown" where
  "rounded b = \<lparr>bd_prepare_ns = round6 (bd_prepare_ns b), bd_local_reduce_ns = round6 (bd_local_reduce_ns b),
     bd_partial_transfer_ns = round6 (bd_partial_transfer_ns b), bd_global_reduce_ns = round6 (bd_global_reduce_ns b),
     bd_finalize_ns = round6 (bd_finalize_ns b), bd_rsqrt_ns = round6 (bd_rsqrt_ns b),
     bd_return_ns = round6 (bd_return_ns b), bd_apply_ns = round6 (bd_apply_ns b),
     bd_queue_sync_ns = round6 (bd_queue_sync_ns b), bd_mode_switch_ns = round6 (bd_mode_switch_ns b)\<rparr>"

record traffic =
  tr_tensor_bytes :: int
  tr_partial_bytes :: int
  tr_return_bytes :: int

definition scalar_bytes :: int where "scalar_bytes = 4"

definition partial_bytes :: "profile \<Rightarrow> ref_point \<Rightarrow> int" where
  "partial_bytes p ref = pf_stat_scalars p * rp_banks ref * scalar_bytes"

definition return_bytes :: "profile \<Rightarrow> int" where
  "return_bytes p = pf_rows p * return_scalars p * scalar_bytes"

definition tensor_bytes :: "profile \<Rightarrow> int" where
  "tensor_bytes p = pf_input_bytes p + pf_affine_bytes p + pf_output_bytes p"

definition bank_local_cycles :: "profile \<Rightarrow> ref_point \<Rightarrow> int" where
  "bank_local_cycles p ref = bank_local_reduce_cycles p (rp_banks ref)"

definition logic_local_cycles :: "profile \<Rightarrow> ref_point \<Rightarrow> int" where
  "logic_local_cycles p ref = logic_raw_reduce_cycles p (rp_logic_pcus ref) (rp_vector_lanes_per_pcu ref)"

definition hierarchical_global_cycles :: "profile \<Rightarrow> ref_point \<Rightarrow> int" where
  "hierarchical_global_cycles p ref = global_reduce_cycles p (rp_banks ref)
     (case rp_logic_partial_input_ports ref of None \<Rightarrow> 1 | Some ports \<Rightarrow> ports)"

definition sqrt_cycles :: "profile \<Rightarrow> ref_point \<Rightarrow> int" where
  "sqrt_cycles p ref = rsqrt_cycles p (rp_logic_pcus ref) (rp_rsqrt_latency_cycles ref) (rp_rsqrt_initiation_interval_cycles ref)"

definition finish_cycles :: "profile \<Rightarrow> ref_point \<Rightarrow> int" where
  "finish_cycles p ref = finalize_cycles p (rp_logic_pcus ref) ref"

text \<open>The branches of \<open>model_profile\<close>.\<close>

definition gpu_full_case :: "profile \<Rightarrow> ref_point \<Rightarrow> (breakdown \<times> traffic \<times> string) result" where
  "gpu_full_case p ref =
     and_then (transfer_ns (pf_input_bytes p + pf_affine_bytes p) (rp_offload_bandwidth_gbps ref)
       (rp_offload_one_way_latency_ns ref)) (\<lambda>partial_transfer.
     and_then (transfer_ns (pf_output_bytes p) (rp_offload_bandwidth_gbps ref) (rp_offload_one_way_latency_ns ref)) (\<lambda>ret.
     and_then (fdiv (of_py (tensor_bytes p)) (rp_gpu_hbm_bandwidth_gbytes_per_s ref)) (\<lambda>global_reduce.
       Inr (no_time\<lparr>bd_partial_transfer_ns := partial_transfer, bd_return_ns := ret, bd_global_reduce_ns := global_reduce,
              bd_queue_sync_ns := rp_gpu_kernel_launch_ns ref\<rparr>,
            \<lparr>tr_tensor_bytes = tensor_bytes p, tr_partial_bytes = 0, tr_return_bytes = 0\<rparr>, ''ASSUMED_GPU_ROOFLINE''))))"

definition bank_only_case :: "profile \<Rightarrow> ref_point \<Rightarrow> (breakdown \<times> traffic \<times> string) result" where
  "bank_only_case p ref =
     and_then (cycles_to_ns (bank_local_cycles p ref) (rp_clock_mhz ref)) (\<lambda>local_reduce.
     and_then (transfer_ns (partial_bytes p ref) (rp_offload_bandwidth_gbps ref) (rp_offload_one_way_latency_ns ref)) (\<lambda>partial_transfer.
     and_then (fdiv (of_py (partial_bytes p ref + return_bytes p)) (rp_gpu_hbm_bandwidth_gbytes_per_s ref)) (\<lambda>global_reduce.
     and_then (fdiv (of_py (pf_rows p)) (rp_gpu_normalization_rows_per_ns ref)) (\<lambda>finalize.
     and_then (fdiv (of_py (pf_rows p)) (rp_gpu_normalization_rows_per_ns ref)) (\<lambda>rsqrt.
     and_then (transfer_ns (return_bytes p) (rp_offload_bandwidth_gbps ref) (rp_offload_one_way_latency_ns ref)) (\<lambda>ret.
     and_then (cycles_to_ns (pf_measured_elementwise_cycles p) (rp_clock_mhz ref)) (\<lambda>apply_ns.
       Inr (no_time\<lparr>bd_local_reduce_ns := local_reduce, bd_partial_transfer_ns := partial_transfer,
              bd_global_reduce_ns := global_reduce, bd_finalize_ns := finalize, bd_rsqrt_ns := rsqrt,
              bd_return_ns := ret, bd_apply_ns := apply_ns, bd_queue_sync_ns := rp_gpu_kernel_launch_ns ref\<rparr>,
            \<lparr>tr_tensor_bytes = 0, tr_partial_bytes = partial_bytes p ref, tr_return_bytes = return_bytes p\<rparr>,
            ''MIXED_MEASURED_ELEMENTWISE_ASSUMED_OFFLOAD''))))))))"

definition logic_only_case :: "profile \<Rightarrow> ref_point \<Rightarrow> (breakdown \<times> traffic \<times> string) result" where
  "logic_only_case p ref =
     and_then (transfer_ns (pf_input_bytes p + pf_affine_bytes p) (rp_ondie_bandwidth_gbps ref)
       (rp_ondie_one_way_latency_ns ref)) (\<lambda>partial_transfer.
     and_then (cycles_to_ns (logic_local_cycles p ref) (rp_clock_mhz ref)) (\<lambda>local_reduce.
     and_then (cycles_to_ns (finish_cycles p ref) (rp_clock_mhz ref)) (\<lambda>finalize.
     and_then (cycles_to_ns (sqrt_cycles p ref) (rp_clock_mhz ref)) (\<lambda>rsqrt.
     and_then (cycles_to_ns (ceil_quot (pf_measured_elementwise_cycles p * rp_bank_pcus ref) (max 1 (rp_logic_pcus ref)))
       (rp_clock_mhz ref)) (\<lambda>apply_ns.
     and_then (transfer_ns (pf_output_bytes p) (rp_ondie_bandwidth_gbps ref) (rp_ondie_one_way_latency_ns ref)) (\<lambda>ret.
       Inr (no_time\<lparr>bd_partial_transfer_ns := partial_transfer, bd_local_reduce_ns := local_reduce, bd_global_reduce_ns := 0,
              bd_finalize_ns := finalize, bd_rsqrt_ns := rsqrt, bd_apply_ns := apply_ns, bd_return_ns := ret\<rparr>,
            \<lparr>tr_tensor_bytes = tensor_bytes p, tr_partial_bytes = 0, tr_return_bytes = 0\<rparr>,
            ''ASSUMED_LOGIC_THROUGHPUT_PROXY'')))))))"

definition hierarchical_case :: "profile \<Rightarrow> ref_point \<Rightarrow> (breakdown \<times> traffic \<times> string) result" where
  "hierarchical_case p ref =
     and_then (cycles_to_ns (bank_local_cycles p ref) (rp_clock_mhz ref)) (\<lambda>local_reduce.
     and_then (transfer_ns (partial_bytes p ref) (rp_ondie_bandwidth_gbps ref) (rp_ondie_one_way_latency_ns ref)) (\<lambda>partial_transfer.
     and_then (cycles_to_ns (hierarchical_global_cycles p ref) (rp_clock_mhz ref)) (\<lambda>global_reduce.
     and_then (cycles_to_ns (finish_cycles p ref) (rp_clock_mhz ref)) (\<lambda>finalize.
     and_then (cycles_to_ns (sqrt_cycles p ref) (rp_clock_mhz ref)) (\<lambda>rsqrt.
     and_then (transfer_ns (return_bytes p) (rp_ondie_bandwidth_gbps ref) (rp_ondie_one_way_latency_ns ref)) (\<lambda>ret.
     and_then (cycles_to_ns (pf_measured_elementwise_cycles p) (rp_clock_mhz ref)) (\<lambda>apply_ns.
       Inr (no_time\<lparr>bd_local_reduce_ns := local_reduce, bd_partial_transfer_ns := partial_transfer,
              bd_global_reduce_ns := global_reduce, bd_finalize_ns := finalize, bd_rsqrt_ns := rsqrt,
              bd_return_ns := ret, bd_apply_ns := apply_ns\<rparr>,
            \<lparr>tr_tensor_bytes = 0, tr_partial_bytes = partial_bytes p ref, tr_return_bytes = return_bytes p\<rparr>,
            ''MIXED_MEASURED_ELEMENTWISE_ASSUMED_LOGIC''))))))))"

definition case_model :: "profile \<Rightarrow> string \<Rightarrow> ref_point \<Rightarrow> (breakdown \<times> traffic \<times> string) result" where
  "case_model p c ref =
     (if c = ''gpu_full'' then gpu_full_case p ref
      else if c \<in> {''gpu_partial'', ''bank_only''} then bank_only_case p ref
      else if c = ''logic_only'' then logic_only_case p ref
      else if c = ''hierarchical'' then hierarchical_case p ref
      else Inl (ValueError ''unknown case''))"

text \<open>The row of the report; the constant fields are left out.\<close>

record modeled =
  md_case :: string
  md_profile :: profile
  md_clock_mhz :: rat
  md_latency_ns_per_call :: rat
  md_projected_latency_ns :: rat
  md_cycles_equivalent_per_call :: int
  md_breakdown :: breakdown
  md_traffic :: traffic
  md_evidence_class :: string

definition model_profile :: "(rat list \<Rightarrow> rat) \<Rightarrow> profile \<Rightarrow> string \<Rightarrow> ref_point \<Rightarrow> modeled result" where
  "model_profile fsum p c ref =
     and_then (case_model p c ref) (\<lambda>(b, t, evidence_class).
       let total_ns = fsum (breakdown_values b) in
       and_then (fdiv (fl (total_ns * rp_clock_mhz ref)) 1000) (\<lambda>equivalent.
         Inr \<lparr>md_case = c, md_profile = p, md_clock_mhz = rp_clock_mhz ref,
              md_latency_ns_per_call = round6 total_ns,
              md_projected_latency_ns = round6 (fl (total_ns * of_py (pf_invocations p))),
              md_cycles_equivalent_per_call = \<lceil>equivalent\<rceil>,
              md_breakdown = rounded b, md_traffic = t, md_evidence_class = evidence_class\<rparr>))"

section \<open>Reports\<close>

definition reference_cases :: "string list" where
  "reference_cases = [''gpu_full'', ''gpu_partial'', ''bank_only'', ''logic_only'', ''hierarchical'']"

definition generate_reference :: "(rat list \<Rightarrow> rat) \<Rightarrow> profile list \<Rightarrow> ref_point \<Rightarrow> modeled list result" where
  "generate_reference fsum profiles ref =
     map_r (\<lambda>(c, p). model_profile fsum p c ref) (concat (map (\<lambda>c. map (\<lambda>p. (c, p)) profiles) reference_cases))"

record break_even =
  br_profile_id :: string
  br_offload_one_way_latency_ns :: rat
  br_offload_bandwidth_gbps :: rat
  br_hierarchical_ns :: rat
  br_bank_only_ns :: rat
  br_gpu_full_ns :: rat
  br_hierarchical_speedup_vs_bank_only :: rat
  br_hierarchical_speedup_vs_gpu_full :: rat
  br_winner :: string

text \<open>\<open>min\<close> of the three pairs: the smallest latency, and of equal ones the name that comes first.\<close>

definition winner :: "rat \<Rightarrow> rat \<Rightarrow> rat \<Rightarrow> string" where
  "winner h b g = snd (min (min (h, ''hierarchical'') (b, ''bank_only'')) (g, ''gpu_full''))"

definition break_even_row :: "(rat list \<Rightarrow> rat) \<Rightarrow> ref_point \<Rightarrow> rat \<Rightarrow> rat \<Rightarrow> profile \<Rightarrow> break_even result" where
  "break_even_row fsum base latency bandwidth p =
     (let ref = base\<lparr>rp_offload_one_way_latency_ns := latency, rp_offload_bandwidth_gbps := bandwidth\<rparr> in
      and_then (model_profile fsum p ''hierarchical'' ref) (\<lambda>hierarchical.
      and_then (model_profile fsum p ''bank_only'' ref) (\<lambda>bank_only.
      and_then (model_profile fsum p ''gpu_full'' ref) (\<lambda>gpu_full.
        let h = md_latency_ns_per_call hierarchical; b = md_latency_ns_per_call bank_only;
            g = md_latency_ns_per_call gpu_full in
        and_then (fdiv b h) (\<lambda>over_bank.
        and_then (fdiv g h) (\<lambda>over_gpu.
          Inr \<lparr>br_profile_id = pf_profile_id p, br_offload_one_way_latency_ns = latency,
               br_offload_bandwidth_gbps = bandwidth, br_hierarchical_ns = round6 h, br_bank_only_ns = round6 b,
               br_gpu_full_ns = round6 g, br_hierarchical_speedup_vs_bank_only = round6 over_bank,
               br_hierarchical_speedup_vs_gpu_full = round6 over_gpu, br_winner = winner h b g\<rparr>))))))"

definition generate_break_even ::
    "(rat list \<Rightarrow> rat) \<Rightarrow> profile list \<Rightarrow> ref_point \<Rightarrow> rat list \<Rightarrow> rat list \<Rightarrow> break_even list result" where
  "generate_break_even fsum profiles base latencies bandwidths =
     map_r (\<lambda>(latency, bandwidth, p). break_even_row fsum base latency bandwidth p)
       (concat (map (\<lambda>latency. concat (map (\<lambda>bandwidth. map (\<lambda>p. (latency, bandwidth, p)) profiles) bandwidths)) latencies))"

end
