(* ===== verification/Norm_System.thy ===== *)
theory Norm_System
  imports Norm_Model Heapq
begin

text \<open>
  \<open>tools/groot_normalization_system_sim.py\<close>: the replay of all normalization requests on the
  shared resources. Every resource is a heap of the times at which its slots come free; a
  request reserves its stages one after the other when it is replayed, in trace order.
\<close>

section \<open>Stages of a request\<close>

datatype resource = gpu | offload_link | bank | logic | ondie_link

type_synonym stage_need = "string \<times> resource \<times> rat"

definition fsum2 :: "rat \<Rightarrow> rat \<Rightarrow> rat" where
  "fsum2 a b = fl (a + b)"

definition stages :: "string \<Rightarrow> modeled \<Rightarrow> stage_need list result" where
  "stages c row =
     (let b = md_breakdown row in
      if c = ''gpu_full'' then
        Inr [(''launch'', gpu, bd_queue_sync_ns b), (''input'', offload_link, bd_partial_transfer_ns b),
             (''normalize'', gpu, bd_global_reduce_ns b), (''output'', offload_link, bd_return_ns b)]
      else if c = ''bank_only'' then
        Inr [(''local_reduce'', bank, bd_local_reduce_ns b), (''partial_offload'', offload_link, bd_partial_transfer_ns b),
             (''gpu_scalar'', gpu, fsum2 (fsum2 (fsum2 (bd_queue_sync_ns b) (bd_global_reduce_ns b)) (bd_finalize_ns b)) (bd_rsqrt_ns b)),
             (''scalar_return'', offload_link, bd_return_ns b), (''bank_apply'', bank, bd_apply_ns b)]
      else if c = ''logic_only'' then
        Inr [(''tensor_to_logic'', ondie_link, bd_partial_transfer_ns b),
             (''logic_normalize'', logic, fsum2 (fsum2 (fsum2 (fsum2 (bd_local_reduce_ns b) (bd_global_reduce_ns b))
                (bd_finalize_ns b)) (bd_rsqrt_ns b)) (bd_apply_ns b)),
             (''tensor_return'', ondie_link, bd_return_ns b)]
      else if c = ''hierarchical'' then
        Inr [(''local_reduce'', bank, bd_local_reduce_ns b), (''partial_to_logic'', ondie_link, bd_partial_transfer_ns b),
             (''logic_scalar'', logic, fsum2 (fsum2 (bd_global_reduce_ns b) (bd_finalize_ns b)) (bd_rsqrt_ns b)),
             (''scalar_broadcast'', ondie_link, bd_return_ns b), (''bank_apply'', bank, bd_apply_ns b)]
      else Inl (ValueError c))"

section \<open>Reservations\<close>

definition reserve :: "rat list \<Rightarrow> rat \<Rightarrow> rat \<Rightarrow> ((rat \<times> rat) \<times> rat list) result" where
  "reserve slots ready duration =
     and_then (heappop slots) (\<lambda>(available, slots').
       let start = max ready available; finish = fl (start + duration)
       in Inr ((start, finish), heappush slots' finish))"

text \<open>
  One service of a stage: the resource, when it was ready, when it started and finished. The
  script keeps none of them; the model logs them (\<open>si_services\<close>) for its properties.
\<close>

record service =
  sv_resource :: resource
  sv_ready :: rat
  sv_duration :: rat
  sv_start :: rat
  sv_finish :: rat

record row =
  ro_scenario :: string
  ro_case :: string
  ro_ordinal :: nat
  ro_profile_id :: string
  ro_arrival_ns :: rat
  ro_completion_ns :: rat
  ro_latency_ns :: rat
  ro_queue_ns :: rat
  ro_service_ns :: rat

record sim =
  si_slots :: "resource \<Rightarrow> rat list"
  si_busy :: "resource \<Rightarrow> rat"
  si_stage_busy :: "string \<Rightarrow> rat"
  si_latencies :: "rat list"
  si_queues :: "rat list"
  si_rows :: "row list"
  si_tensor :: int
  si_partial :: int
  si_return :: int
  si_ordinal :: nat
  si_services :: "service list"

record params =
  sp_ref :: ref_point
  sp_channels :: int
  sp_capacity :: "resource \<Rightarrow> int"
  sp_bank_reducer_cells :: int
  sp_engines :: "int list"
  sp_dispatcher_cells :: "int list"

definition sim_init :: "params \<Rightarrow> sim" where
  "sim_init params = \<lparr>si_slots = (\<lambda>r. heapify (replicate (nat (sp_capacity params r)) 0)), si_busy = (\<lambda>_. 0),
     si_stage_busy = (\<lambda>_. 0), si_latencies = [], si_queues = [], si_rows = [], si_tensor = 0, si_partial = 0,
     si_return = 0, si_ordinal = 0, si_services = []\<rparr>"

text \<open>The body of the loop over the stages, on the state, the time \<open>ready\<close> and \<open>queue_total\<close>.\<close>

definition serve_stage :: "stage_need \<Rightarrow> sim \<times> rat \<times> rat \<Rightarrow> (sim \<times> rat \<times> rat) result" where
  "serve_stage need st =
     (case (need, st) of ((stage_name, resource, duration), (s, ready, queue_total)) \<Rightarrow>
        and_then (reserve (si_slots s resource) ready duration) (\<lambda>((start, finish), slots).
          Inr (s\<lparr>si_slots := (si_slots s)(resource := slots),
                 si_busy := (si_busy s)(resource := fl (si_busy s resource + duration)),
                 si_stage_busy := (si_stage_busy s)(stage_name := fl (si_stage_busy s stage_name + duration)),
                 si_services := si_services s @
                   [\<lparr>sv_resource = resource, sv_ready = ready, sv_duration = duration, sv_start = start, sv_finish = finish\<rparr>]\<rparr>,
               finish, fl (queue_total + fl (start - ready)))))"

definition serve_request :: "string \<Rightarrow> string \<Rightarrow> rat \<Rightarrow> modeled \<Rightarrow> sim \<Rightarrow> sim result" where
  "serve_request scenario c interval_ns row s =
     (let arrival = fl (of_py (int (si_ordinal s)) * interval_ns) in
      and_then (stages c row) (\<lambda>needs.
      and_then (fold_r serve_stage needs (s, arrival, 0)) (\<lambda>(s', ready, queue_total).
        let latency = fl (ready - arrival) in
        Inr (s'\<lparr>si_latencies := si_latencies s' @ [latency], si_queues := si_queues s' @ [queue_total],
               si_tensor := si_tensor s' + tr_tensor_bytes (md_traffic row),
               si_partial := si_partial s' + tr_partial_bytes (md_traffic row),
               si_return := si_return s' + tr_return_bytes (md_traffic row),
               si_rows := si_rows s' @ [\<lparr>ro_scenario = scenario, ro_case = c, ro_ordinal = si_ordinal s',
                 ro_profile_id = pf_profile_id (md_profile row), ro_arrival_ns = round6 arrival,
                 ro_completion_ns = round6 ready, ro_latency_ns = round6 latency, ro_queue_ns = round6 queue_total,
                 ro_service_ns = round6 (fl (latency - queue_total))\<rparr>],
               si_ordinal := Suc (si_ordinal s')\<rparr>))))"

definition serve_profile :: "(rat list \<Rightarrow> rat) \<Rightarrow> params \<Rightarrow> string \<Rightarrow> string \<Rightarrow> rat \<Rightarrow> profile \<Rightarrow> sim \<Rightarrow> sim result" where
  "serve_profile fsum params scenario c interval_ns p s =
     and_then (model_profile fsum p c (sp_ref params)) (\<lambda>row.
       fold_r (serve_request scenario c interval_ns) (replicate (nat (pf_invocations p)) row) s)"

definition interval_ns :: "params \<Rightarrow> rat \<Rightarrow> rat result" where
  "interval_ns params rate = fdiv 1000000000 (fl (rate * of_py (sp_channels params)))"

definition sim_loop :: "(rat list \<Rightarrow> rat) \<Rightarrow> params \<Rightarrow> string \<Rightarrow> string \<Rightarrow> rat \<Rightarrow> profile list \<Rightarrow> sim result" where
  "sim_loop fsum params c scenario rate profiles =
     and_then (interval_ns params rate) (\<lambda>interval.
       fold_r (serve_profile fsum params scenario c interval) profiles (sim_init params))"

section \<open>The summary\<close>

definition sim_percentile :: "rat list \<Rightarrow> rat \<Rightarrow> rat result" where
  "sim_percentile xs fraction =
     (let ordered = sort xs
      in py_get ordered (min (int (length ordered) - 1) (\<lceil>fl (of_py (int (length ordered)) * fraction)\<rceil> - 1)))"

definition round9 :: "rat \<Rightarrow> rat" where
  "round9 x = fl (of_int (rne (x * 10 ^ 9)) / 10 ^ 9)"

definition utilization :: "params \<Rightarrow> sim \<Rightarrow> rat \<Rightarrow> resource \<Rightarrow> rat result" where
  "utilization params s completion_span r =
     and_then (fdiv (si_busy s r) (fl (completion_span * of_py (sp_capacity params r)))) (\<lambda>x. Inr (round9 x))"

text \<open>\<open>dict(zip(engines, cells))[logic_count]\<close>: the last entry of a repeated engine count.\<close>

definition logic_array_area :: "params \<Rightarrow> int result" where
  "logic_array_area params =
     (case map_of (rev (zip (sp_engines params) (sp_dispatcher_cells params))) (rp_logic_pcus (sp_ref params)) of
        None \<Rightarrow> Inl (KeyError ''logic_pcus'') | Some cells \<Rightarrow> Inr cells)"

definition area_proxy :: "params \<Rightarrow> string \<Rightarrow> int option result" where
  "area_proxy params c =
     (let bank_reducer_area = sp_bank_reducer_cells params * rp_banks (sp_ref params) in
      and_then (logic_array_area params) (\<lambda>logic_area.
        if c = ''gpu_full'' then Inr None
        else if c = ''bank_only'' then Inr (Some bank_reducer_area)
        else if c = ''logic_only'' then Inr (Some logic_area)
        else if c = ''hierarchical'' then Inr (Some (bank_reducer_area + logic_area))
        else Inl (KeyError c)))"

record summary_row =
  su_scenario :: string
  su_case :: string
  su_requests :: nat
  su_rate :: rat
  su_span_ns :: rat
  su_mean_latency_ns :: rat
  su_p95_latency_ns :: rat
  su_mean_queue_ns :: rat
  su_max_queue_ns :: rat
  su_tensor_bytes :: int
  su_partial_bytes :: int
  su_return_bytes :: int
  su_bank_utilization :: rat
  su_logic_utilization :: rat
  su_gpu_utilization :: rat
  su_offload_link_utilization :: rat
  su_ondie_link_utilization :: rat
  su_area :: "int option"

definition fmean :: "(rat list \<Rightarrow> rat) \<Rightarrow> rat list \<Rightarrow> rat result" where
  "fmean fsum xs = fdiv (fsum xs) (of_py (int (length xs)))"

definition py_max_rat :: "rat list \<Rightarrow> rat result" where
  "py_max_rat xs = (case xs of [] \<Rightarrow> Inl (ValueError ''max() arg is an empty sequence'') | _ \<Rightarrow> Inr (Max (set xs)))"

definition summarize :: "(rat list \<Rightarrow> rat) \<Rightarrow> params \<Rightarrow> string \<Rightarrow> string \<Rightarrow> rat \<Rightarrow> sim \<Rightarrow> summary_row result" where
  "summarize fsum params c scenario rate s =
     and_then (py_max_rat (map ro_completion_ns (si_rows s))) (\<lambda>completion_span.
     and_then (area_proxy params c) (\<lambda>area.
     and_then (fmean fsum (si_latencies s)) (\<lambda>mean_latency.
     and_then (sim_percentile (si_latencies s) p95) (\<lambda>p95_latency.
     and_then (fmean fsum (si_queues s)) (\<lambda>mean_queue.
     and_then (py_max_rat (si_queues s)) (\<lambda>max_queue.
     and_then (utilization params s completion_span bank) (\<lambda>bank_u.
     and_then (utilization params s completion_span logic) (\<lambda>logic_u.
     and_then (utilization params s completion_span gpu) (\<lambda>gpu_u.
     and_then (utilization params s completion_span offload_link) (\<lambda>offload_u.
     and_then (utilization params s completion_span ondie_link) (\<lambda>ondie_u.
       Inr \<lparr>su_scenario = scenario, su_case = c, su_requests = length (si_latencies s), su_rate = rate,
            su_span_ns = round6 completion_span, su_mean_latency_ns = round6 mean_latency, su_p95_latency_ns = round6 p95_latency,
            su_mean_queue_ns = round6 mean_queue, su_max_queue_ns = round6 max_queue,
            su_tensor_bytes = si_tensor s, su_partial_bytes = si_partial s, su_return_bytes = si_return s,
            su_bank_utilization = bank_u, su_logic_utilization = logic_u, su_gpu_utilization = gpu_u,
            su_offload_link_utilization = offload_u, su_ondie_link_utilization = ondie_u, su_area = area\<rparr>)))))))))))"

definition simulate :: "(rat list \<Rightarrow> rat) \<Rightarrow> params \<Rightarrow> string \<Rightarrow> string \<Rightarrow> rat \<Rightarrow> profile list \<Rightarrow> (summary_row \<times> row list) result" where
  "simulate fsum params c scenario rate profiles =
     and_then (sim_loop fsum params c scenario rate profiles) (\<lambda>s.
     and_then (summarize fsum params c scenario rate s) (\<lambda>summary. Inr (summary, si_rows s)))"

definition sim_cases :: "string list" where
  "sim_cases = [''gpu_full'', ''bank_only'', ''logic_only'', ''hierarchical'']"

definition sim_main :: "(rat list \<Rightarrow> rat) \<Rightarrow> params \<Rightarrow> (string \<times> rat) list \<Rightarrow> profile list \<Rightarrow> (summary_row list \<times> row list) result" where
  "sim_main fsum params scenarios profiles =
     and_then (map_r (\<lambda>((scenario, rate), c). simulate fsum params c scenario rate profiles)
         (concat (map (\<lambda>sc. map (\<lambda>c. (sc, c)) sim_cases) scenarios)))
       (\<lambda>results. Inr (map fst results, concat (map snd results)))"

end
