(* ===== verification/Norm_Props.thy ===== *)
theory Norm_Props
  imports Norm_System
begin

text \<open>
  Properties of the normalization model and of its system replay: the cycle counts are exact,
  and the modelled times are nonnegative for sane parameters.
\<close>

section \<open>Floats\<close>

declare fl_0 [simp] fl_one [simp]

lemma fl_idem: "0 \<le> x \<Longrightarrow> fl (fl x) = fl x"
proof (cases "x = 0")
  case False
  assume "0 \<le> x"
  with False have "fl x = rnd 53 (expo x - 52) x" by (intro fl_rnd) auto
  moreover have "repr 53 (expo x - 52) (rnd 53 (expo x - 52) x)" using \<open>0 \<le> x\<close> by (intro rnd_repr) auto
  ultimately show ?thesis using fl_fixed by metis
qed simp

text \<open>Nonnegative floats.\<close>

definition flt :: "rat \<Rightarrow> bool" where
  "flt x \<longleftrightarrow> 0 \<le> x \<and> fl x = x"

lemma flt_0 [simp]: "flt 0"
  by (simp add: flt_def)

lemma flt_fl [intro]: "0 \<le> x \<Longrightarrow> flt (fl x)"
  by (simp add: flt_def fl_nonneg fl_idem)

lemma flt_max [intro]: "flt x \<Longrightarrow> flt y \<Longrightarrow> flt (max x y)"
  by (simp add: max_def)

lemma fl_add_ge: "flt x \<Longrightarrow> 0 \<le> d \<Longrightarrow> x \<le> fl (x + d)"
  using fl_mono [of x "x + d"] by (simp add: flt_def)

lemma of_py_mono: "0 \<le> a \<Longrightarrow> a \<le> b \<Longrightarrow> of_py a \<le> of_py b"
  unfolding of_py_def by (intro fl_mono) simp_all

lemma of_py_nonneg: "0 \<le> a \<Longrightarrow> 0 \<le> of_py a"
  unfolding of_py_def by (intro fl_nonneg) simp

lemma rne_mono: "x \<le> y \<Longrightarrow> rne x \<le> rne y"
proof -
  assume xy: "x \<le> y"
  show ?thesis
  proof (cases "\<lfloor>x\<rfloor> = \<lfloor>y\<rfloor>")
    case True
    with xy show ?thesis by (simp add: rne_def Let_def)
  next
    case False
    with xy have "\<lfloor>x\<rfloor> + 1 \<le> \<lfloor>y\<rfloor>" using floor_mono [of x y] by linarith
    moreover have "rne x \<le> \<lfloor>x\<rfloor> + 1" "\<lfloor>y\<rfloor> \<le> rne y" using rne_cases [of x] rne_cases [of y] by auto
    ultimately show ?thesis by linarith
  qed
qed

lemma rne_nonneg: "0 \<le> x \<Longrightarrow> 0 \<le> rne x"
  using rne_ge [of 0 x] by simp

lemma round6_mono: "0 \<le> x \<Longrightarrow> x \<le> y \<Longrightarrow> round6 x \<le> round6 y"
  unfolding round6_def by (intro fl_mono divide_right_mono) (simp_all add: rne_nonneg rne_mono)

lemma flt_round6: "0 \<le> x \<Longrightarrow> flt (round6 x)"
  unfolding round6_def by (intro flt_fl) (simp add: rne_nonneg)

lemma fdiv_Inr: "fdiv a b = Inr q \<longleftrightarrow> b \<noteq> 0 \<and> q = fl (a / b)"
  by (auto simp: fdiv_def)

text \<open>Integers below \<open>2\<^sup>5\<^sup>3\<close> are floats and rounding keeps them.\<close>

lemma of_py_numeral [simp]: "of_py 0 = 0" "of_py 1 = 1" "(numeral k :: int) < 2 ^ 53 \<Longrightarrow> of_py (numeral k) = numeral k"
  by (simp_all add: of_py_def fl_numeral)

lemma round6_int: "0 \<le> n \<Longrightarrow> n < 2 ^ 53 \<Longrightarrow> round6 (of_int n) = of_int n"
proof -
  have "of_int n * 10 ^ 6 = (of_int (n * 10 ^ 6) :: rat)" by simp
  then have "rne (of_int n * 10 ^ 6) = n * 10 ^ 6" by (simp only: rne_of_int)
  then show "0 \<le> n \<Longrightarrow> n < 2 ^ 53 \<Longrightarrow> round6 (of_int n) = of_int n" by (simp add: round6_def fl_int)
qed

lemma round6_numeral [simp]: "round6 0 = 0" "round6 1 = 1" "(numeral k :: int) < 2 ^ 53 \<Longrightarrow> round6 (numeral k) = numeral k"
  using round6_int [of 0] round6_int [of 1] round6_int [of "numeral k"] by simp_all

section \<open>Cycle counts\<close>

text \<open>The smallest number of steps of \<open>n\<close> units that covers \<open>work\<close> units.\<close>

definition least_steps :: "int \<Rightarrow> int \<Rightarrow> int \<Rightarrow> bool" where
  "least_steps work n k \<longleftrightarrow> work \<le> n * k \<and> n * (k - 1) < work"

lemma ceil_quot_least:
  assumes "0 \<le> work" "work < 2 ^ 53" "0 < n"
  shows "least_steps work n (ceil_quot work n)"
proof -
  have c: "ceil_quot work n = \<lceil>of_int work / (of_int n :: rat)\<rceil>"
    unfolding ceil_quot_def using assms by (rule ceiling_fl_div)
  have n: "(0::rat) < of_int n" using assms(3) by simp
  have "of_int work / (of_int n :: rat) \<le> of_int (ceil_quot work n)" "of_int (ceil_quot work n - 1) < of_int work / (of_int n :: rat)"
    unfolding c by linarith+
  then have "(of_int work :: rat) \<le> of_int (n * ceil_quot work n)" "(of_int (n * (ceil_quot work n - 1)) :: rat) < of_int work"
    using n by (simp_all add: field_simps)
  then show ?thesis unfolding least_steps_def of_int_le_iff of_int_less_iff ..
qed

text \<open>
  C40: although the script forms the cycle counts with a float quotient, they are the exact
  integer ones while the work is below \<open>2\<^sup>5\<^sup>3\<close>: the bank reduction takes the fewest cycles that
  cover all elements with one element per bank, the logic reduction the fewest for its lanes,
  the global reduction the fewest for its ports, and the scalar engines the fewest waves.
\<close>

theorem cycle_counts_exact:
  assumes "0 \<le> pf_rows p" "0 \<le> pf_hidden_size p" "0 \<le> banks"
    and "pf_rows p * pf_hidden_size p < 2 ^ 53" "pf_rows p * banks < 2 ^ 53" "pf_rows p < 2 ^ 53"
  shows "least_steps (pf_rows p * pf_hidden_size p) (max 1 banks) (bank_local_reduce_cycles p banks) \<and>
    (\<exists>k. logic_raw_reduce_cycles p pcus lanes = k * statistic_count p \<and>
      least_steps (pf_rows p * pf_hidden_size p) (max 1 (pcus * lanes)) k) \<and>
    least_steps (pf_rows p * banks) (max 1 ports) (global_reduce_cycles p banks ports) \<and>
    (\<exists>waves. rsqrt_cycles p engines latency ii = latency + max 0 (waves - 1) * ii \<and>
      least_steps (pf_rows p) (max 1 engines) waves)"
  using assms
  by (auto simp: bank_local_reduce_cycles_def logic_raw_reduce_cycles_def global_reduce_cycles_def rsqrt_cycles_def Let_def
      intro!: ceil_quot_least exI)

section \<open>The break-even sweep\<close>

definition sane_profile :: "profile \<Rightarrow> bool" where
  "sane_profile p \<longleftrightarrow> 0 \<le> pf_rows p \<and> 0 \<le> pf_hidden_size p \<and> 0 \<le> pf_measured_elementwise_cycles p \<and>
     0 \<le> pf_input_bytes p \<and> 0 \<le> pf_output_bytes p \<and> 0 \<le> pf_affine_bytes p \<and> 0 \<le> pf_stat_scalars p"

definition sane_ref :: "ref_point \<Rightarrow> bool" where
  "sane_ref ref \<longleftrightarrow> 0 \<le> rp_clock_mhz ref \<and> 0 \<le> rp_banks ref \<and> 0 \<le> rp_bank_pcus ref \<and>
     0 \<le> rp_rsqrt_latency_cycles ref \<and> 0 \<le> rp_rsqrt_initiation_interval_cycles ref \<and>
     0 \<le> rp_rmsnorm_finalize_cycles_per_row ref \<and> 0 \<le> rp_layernorm_finalize_cycles_per_row ref \<and>
     0 \<le> rp_offload_bandwidth_gbps ref \<and> 0 \<le> rp_offload_one_way_latency_ns ref \<and>
     0 \<le> rp_ondie_bandwidth_gbps ref \<and> 0 \<le> rp_ondie_one_way_latency_ns ref \<and>
     0 \<le> rp_gpu_hbm_bandwidth_gbytes_per_s ref \<and> 0 \<le> rp_gpu_kernel_launch_ns ref \<and>
     0 \<le> rp_gpu_normalization_rows_per_ns ref"

text \<open>
  For witnesses, \<open>sum\<close> as CPython before 3.12 has it: from left to right. Later versions
  compensate the rounding errors; no lemma here depends on which one runs.
\<close>

definition left_sum :: "rat list \<Rightarrow> rat" where
  "left_sum xs = foldl (\<lambda>a x. fl (a + x)) 0 xs"

lemma cycles_nonneg:
  assumes "0 \<le> work" "0 < n"
  shows "0 \<le> ceil_quot work n"
proof -
  have "0 \<le> fl (of_int work / of_int n)" using assms by (intro fl_nonneg) simp
  then show ?thesis unfolding ceil_quot_def by linarith
qed

lemma transfer_ns_Inr: "transfer_ns n bw lat = Inr t \<longleftrightarrow> bw \<noteq> 0 \<and> t = fl (lat + fl (fl (of_py n * 8) / bw))"
  by (auto simp: transfer_ns_def fdiv_def)

lemma cycles_to_ns_Inr: "cycles_to_ns n clock = Inr t \<longleftrightarrow> clock \<noteq> 0 \<and> t = fl (fl (of_py n * 1000) / clock)"
  by (auto simp: cycles_to_ns_def fdiv_def)

lemmas time_Inr = transfer_ns_Inr cycles_to_ns_Inr fdiv_Inr

lemmas time_nonneg = fl_nonneg add_nonneg_nonneg divide_nonneg_nonneg mult_nonneg_nonneg of_py_nonneg

lemma sane_counts:
  assumes "sane_profile p" "sane_ref ref"
  shows "0 \<le> tensor_bytes p" "0 \<le> partial_bytes p ref" "0 \<le> return_bytes p" "0 \<le> bank_local_cycles p ref"
    "0 \<le> logic_local_cycles p ref" "0 \<le> hierarchical_global_cycles p ref" "0 \<le> sqrt_cycles p ref" "0 \<le> finish_cycles p ref"
    "0 \<le> ceil_quot (pf_measured_elementwise_cycles p * rp_bank_pcus ref) (max 1 (rp_logic_pcus ref))"
  using assms
  by (auto simp: sane_profile_def sane_ref_def tensor_bytes_def partial_bytes_def return_bytes_def return_scalars_def scalar_bytes_def
      bank_local_cycles_def bank_local_reduce_cycles_def logic_local_cycles_def logic_raw_reduce_cycles_def statistic_count_def
      hierarchical_global_cycles_def global_reduce_cycles_def sqrt_cycles_def rsqrt_cycles_def finish_cycles_def finalize_cycles_def Let_def
      intro!: cycles_nonneg mult_nonneg_nonneg add_nonneg_nonneg)

text \<open>All times of the model are nonnegative.\<close>

lemma case_model_nonneg:
  assumes "sane_profile p" "sane_ref ref" "case_model p c ref = Inr (b, t, e)"
  shows "\<forall>x \<in> set (breakdown_values b). 0 \<le> x"
proof -
  have gpu: "\<forall>x \<in> set (breakdown_values b). 0 \<le> x" if "gpu_full_case p ref = Inr (b, t, e)"
    using that assms(1,2) sane_counts(1) [OF assms(1,2)]
    by (auto simp: gpu_full_case_def and_then_eq_Inr breakdown_values_def no_time_def sane_ref_def sane_profile_def time_Inr
        intro!: time_nonneg)
  have bank: "\<forall>x \<in> set (breakdown_values b). 0 \<le> x" if "bank_only_case p ref = Inr (b, t, e)"
    using that assms(1,2) sane_counts(2-4) [OF assms(1,2)]
    by (auto simp: bank_only_case_def and_then_eq_Inr breakdown_values_def no_time_def sane_ref_def sane_profile_def time_Inr
        intro!: time_nonneg)
  have logic: "\<forall>x \<in> set (breakdown_values b). 0 \<le> x" if "logic_only_case p ref = Inr (b, t, e)"
    using that assms(1,2) sane_counts(5,7-9) [OF assms(1,2)]
    by (auto simp: logic_only_case_def and_then_eq_Inr breakdown_values_def no_time_def sane_ref_def sane_profile_def time_Inr
        intro!: time_nonneg)
  have "\<forall>x \<in> set (breakdown_values b). 0 \<le> x" if "hierarchical_case p ref = Inr (b, t, e)"
    using that assms(1,2) sane_counts(2-4,6-8) [OF assms(1,2)]
    by (auto simp: hierarchical_case_def and_then_eq_Inr breakdown_values_def no_time_def sane_ref_def sane_profile_def time_Inr
        intro!: time_nonneg)
  with gpu bank logic assms(3) show ?thesis by (auto simp: case_model_def split: if_splits)
qed

section \<open>Witnesses\<close>

text \<open>Two rows of two elements on one bank.\<close>

definition small_profile :: profile where
  "small_profile = \<lparr>pf_profile_id = ''p'', pf_norm_type = ''LayerNorm'', pf_rows = 2, pf_hidden_size = 2, pf_invocations = 1,
     pf_measured_elementwise_cycles = 1, pf_input_bytes = 8, pf_output_bytes = 8, pf_affine_bytes = 0, pf_stat_scalars = 4\<rparr>"

lemma cycle_counts_exact_witness: "least_steps 4 1 (bank_local_reduce_cycles small_profile 1)"
  using cycle_counts_exact [of small_profile 1 1 1 1 1 0 1] by (simp add: small_profile_def)

end
