(* ===== verification/Norm_System_Props.thy ===== *)
theory Norm_System_Props
  imports Norm_Props
begin

text \<open>
  Properties of the system replay: its resources are first-come first-served queues with
  several servers in the order of the reservations, they never exceed their capacity, every
  request passes its stages in order, and a resource can stay idle while a request waits for it.
\<close>

section \<open>Specification: a queue with several servers and rounded completion times\<close>

text \<open>\<open>free\<close> is the sorted vector of the times at which the servers come free, a job is the time it is ready and its duration.\<close>

fun served_by :: "rat list \<Rightarrow> (rat \<times> rat) list \<Rightarrow> (rat \<times> rat) list" where
  "served_by free [] = []"
| "served_by [] (j # js) = []"
| "served_by (w # free) ((ready, duration) # js) =
     (let start = max ready w; finish = fl (start + duration)
      in (start, finish) # served_by (insort finish free) js)"

fun free_after :: "rat list \<Rightarrow> (rat \<times> rat) list \<Rightarrow> rat list" where
  "free_after free [] = free"
| "free_after [] (j # js) = []"
| "free_after (w # free) ((ready, duration) # js) = free_after (insort (fl (max ready w + duration)) free) js"

lemma served_by_append: "served_by free (js @ ks) = served_by free js @ served_by (free_after free js) ks"
proof (induction free js rule: served_by.induct)
  case (2 j js)
  then show ?case by (cases ks) auto
qed (simp_all add: Let_def)

lemma free_after_append: "free_after free (js @ ks) = free_after (free_after free js) ks"
proof (induction free js rule: served_by.induct)
  case (2 j js)
  then show ?case by (cases ks) auto
qed (simp_all add: Let_def)

lemma free_after_sorted: "sorted free \<Longrightarrow> sorted (free_after free js)"
  by (induction free js rule: free_after.induct) (auto simp: sorted_insort)

lemma length_free_after: "free \<noteq> [] \<Longrightarrow> length (free_after free js) = length free"
proof (induction free js rule: free_after.induct)
  case (3 w free ready duration js)
  then show ?case by (simp add: insort_not_Nil)
qed simp_all

text \<open>No more jobs are in service than servers have come free.\<close>

lemma served_by_load:
  assumes "sorted free" "\<forall>w \<in> set free. flt w" "\<forall>(ready, duration) \<in> set js. flt ready \<and> 0 \<le> duration"
  shows "length (filter (\<lambda>(start, finish). start \<le> t \<and> t < finish) (served_by free js)) \<le> length (filter (\<lambda>w. w \<le> t) free)"
  using assms
proof (induction free js rule: served_by.induct)
  case (3 w free ready duration js)
  define s where "s = max ready w"
  define f where "f = fl (s + duration)"
  from 3(3,4) have s: "flt s" "0 \<le> duration" by (auto simp: s_def)
  then have le: "w \<le> s" "s \<le> f" "flt f" using fl_add_ge [OF s] by (auto simp: s_def f_def flt_def intro!: fl_nonneg fl_idem)
  have ih: "length (filter (\<lambda>(s, c). s \<le> t \<and> t < c) (served_by (insort f free) js)) \<le> length (filter (\<lambda>w. w \<le> t) (insort f free))"
    using 3(1) [OF s_def f_def] 3(2-4) le(3) by (simp add: sorted_insort set_insort_key)
  have "mset (filter (\<lambda>w. w \<le> t) (insort f free)) = mset (filter (\<lambda>w. w \<le> t) (f # free))" by simp
  then have "length (filter (\<lambda>w. w \<le> t) (insort f free)) = length (filter (\<lambda>w. w \<le> t) (f # free))" by (metis size_mset)
  with ih le show ?case by (simp add: s_def [symmetric] f_def [symmetric] Let_def split: if_splits)
qed simp_all

section \<open>The replay follows the specification\<close>

definition jobs :: "resource \<Rightarrow> service list \<Rightarrow> (rat \<times> rat) list" where
  "jobs r svs = map (\<lambda>sv. (sv_ready sv, sv_duration sv)) (filter (\<lambda>sv. sv_resource sv = r) svs)"

definition times :: "resource \<Rightarrow> service list \<Rightarrow> (rat \<times> rat) list" where
  "times r svs = map (\<lambda>sv. (sv_start sv, sv_finish sv)) (filter (\<lambda>sv. sv_resource sv = r) svs)"

lemma jobs_times_append [simp]: "jobs r (xs @ ys) = jobs r xs @ jobs r ys" "times r (xs @ ys) = times r xs @ times r ys"
  by (simp_all add: jobs_def times_def)

definition idle :: "params \<Rightarrow> resource \<Rightarrow> rat list" where
  "idle params r = replicate (nat (sp_capacity params r)) 0"

text \<open>The invariant of the loops: slots and services are those of the specification.\<close>

definition replayed :: "params \<Rightarrow> sim \<Rightarrow> bool" where
  "replayed params s \<longleftrightarrow> (\<forall>r. si_slots s r = free_after (idle params r) (jobs r (si_services s)) \<and>
     times r (si_services s) = served_by (idle params r) (jobs r (si_services s)))"

lemma replayed_init: "replayed params (sim_init params)"
  by (simp add: replayed_def sim_init_def jobs_def times_def idle_def heapify_def)

lemma serve_stage_Inr:
  assumes "serve_stage need (s, ready, q) = Inr (s', ready', q')"
  obtains w free start where "si_slots s (fst (snd need)) = w # free" "start = max ready w"
    "ready' = fl (start + snd (snd need))" "q' = fl (q + fl (start - ready))"
    "si_slots s' = (si_slots s)(fst (snd need) := insort ready' free)"
    "si_services s' = si_services s @ [\<lparr>sv_resource = fst (snd need), sv_ready = ready, sv_duration = snd (snd need),
       sv_start = start, sv_finish = ready'\<rparr>]"
    "si_rows s' = si_rows s" "si_ordinal s' = si_ordinal s" "si_latencies s' = si_latencies s" "si_queues s' = si_queues s"
proof -
  obtain name r d where need: "need = (name, r, d)" by (metis prod.exhaust)
  with assms obtain w free where "si_slots s r = w # free"
    by (auto simp: serve_stage_def reserve_def and_then_eq_Inr elim!: heappop.elims)
  with assms need that show ?thesis by (auto simp: serve_stage_def reserve_def Let_def heappush_def)
qed

lemma replayed_stage:
  assumes "replayed params s" "serve_stage need (s, ready, q) = Inr (s', ready', q')"
  shows "replayed params s'"
  using assms(2)
proof (rule serve_stage_Inr)
  let ?r = "fst (snd need)"
  fix w free start
  assume w: "si_slots s ?r = w # free" "start = max ready w" "ready' = fl (start + snd (snd need))"
    and s': "si_slots s' = (si_slots s)(?r := insort ready' free)"
      "si_services s' = si_services s @ [\<lparr>sv_resource = ?r, sv_ready = ready, sv_duration = snd (snd need), sv_start = start, sv_finish = ready'\<rparr>]"
  from assms(1) w(1) have "free_after (idle params ?r) (jobs ?r (si_services s)) = w # free" by (simp add: replayed_def)
  then show ?thesis
    using assms(1) w unfolding replayed_def s'
    by (auto simp: jobs_def times_def free_after_append served_by_append Let_def)
qed

lemma replayed_stages:
  assumes "replayed params s" "fold_r serve_stage needs (s, ready, q) = Inr (s', ready', q')"
  shows "replayed params s'"
proof -
  have "replayed params (fst st')" if "fold_r serve_stage needs st = Inr st'" "replayed params (fst st)" for st st'
    using that by (rule fold_r_inv) (auto elim: replayed_stage)
  from this [OF assms(2)] assms(1) show ?thesis by simp
qed

lemma replayed_cong: "si_slots s' = si_slots s \<Longrightarrow> si_services s' = si_services s \<Longrightarrow> replayed params s' = replayed params s"
  by (simp add: replayed_def)

lemma serve_request_Inr:
  assumes "serve_request scenario c interval row s = Inr s'"
  obtains needs s1 ready q where "stages c row = Inr needs"
    "fold_r serve_stage needs (s, fl (of_py (int (si_ordinal s)) * interval), 0) = Inr (s1, ready, q)"
    "si_slots s' = si_slots s1" "si_services s' = si_services s1" "si_ordinal s' = Suc (si_ordinal s1)"
    "si_latencies s' = si_latencies s1 @ [fl (ready - fl (of_py (int (si_ordinal s)) * interval))]"
    "si_queues s' = si_queues s1 @ [q]"
    "si_rows s' = si_rows s1 @ [\<lparr>ro_scenario = scenario, ro_case = c, ro_ordinal = si_ordinal s1,
       ro_profile_id = pf_profile_id (md_profile row), ro_arrival_ns = round6 (fl (of_py (int (si_ordinal s)) * interval)),
       ro_completion_ns = round6 ready, ro_latency_ns = round6 (fl (ready - fl (of_py (int (si_ordinal s)) * interval))),
       ro_queue_ns = round6 q, ro_service_ns = round6 (fl (fl (ready - fl (of_py (int (si_ordinal s)) * interval)) - q))\<rparr>]"
  using assms by (auto simp: serve_request_def Let_def and_then_eq_Inr)

lemma replayed_request: "replayed params s \<Longrightarrow> serve_request scenario c interval row s = Inr s' \<Longrightarrow> replayed params s'"
  by (erule serve_request_Inr) (auto dest: replayed_stages replayed_cong)

text \<open>An invariant of the requests is an invariant of the loop.\<close>

lemma sim_loop_inv:
  assumes "sim_loop fsum params c scenario rate profiles = Inr s" "P (sim_init params)"
    and "\<And>p interval row s s'. p \<in> set profiles \<Longrightarrow> interval_ns params rate = Inr interval \<Longrightarrow> 0 < pf_invocations p \<Longrightarrow>
      model_profile fsum p c (sp_ref params) = Inr row \<Longrightarrow> P s \<Longrightarrow> serve_request scenario c interval row s = Inr s' \<Longrightarrow> P s'"
  shows "P s"
proof -
  from assms(1) obtain interval where interval: "interval_ns params rate = Inr interval"
    and run: "fold_r (serve_profile fsum params scenario c interval) profiles (sim_init params) = Inr s"
    by (auto simp: sim_loop_def and_then_eq_Inr)
  from run assms(2) show ?thesis
  proof (rule fold_r_inv)
    fix p s s'
    assume p: "p \<in> set profiles" and "P s" "serve_profile fsum params scenario c interval p s = Inr s'"
    then obtain row where row: "model_profile fsum p c (sp_ref params) = Inr row"
      and r: "fold_r (serve_request scenario c interval) (replicate (nat (pf_invocations p)) row) s = Inr s'"
      by (auto simp: serve_profile_def and_then_eq_Inr)
    from r \<open>P s\<close> show "P s'"
      by (rule fold_r_inv) (use p interval row assms(3) in auto)
  qed
qed

lemma sim_loop_replayed: "sim_loop fsum params c scenario rate profiles = Inr s \<Longrightarrow> replayed params s"
  by (erule sim_loop_inv) (auto intro: replayed_init replayed_request)

lemma sim_loop_times: "sim_loop fsum params c scenario rate profiles = Inr s \<Longrightarrow>
    times r (si_services s) = served_by (idle params r) (jobs r (si_services s))"
  using sim_loop_replayed by (auto simp: replayed_def)

section \<open>Times are nonnegative floats\<close>

definition sane_params :: "params \<Rightarrow> bool" where
  "sane_params params \<longleftrightarrow> sane_ref (sp_ref params) \<and> 0 \<le> sp_channels params"

lemma rounded_nonneg:
  assumes "\<forall>x \<in> set (breakdown_values b). 0 \<le> x"
  shows "\<forall>x \<in> set (breakdown_values (rounded b)). 0 \<le> x"
  using assms flt_round6 by (auto simp: breakdown_values_def rounded_def flt_def)

lemma stages_nonneg:
  assumes "sane_profile p" "sane_ref ref" "model_profile fsum p c ref = Inr row" "stages c row = Inr needs" "(name, r, d) \<in> set needs"
  shows "0 \<le> d"
proof -
  from assms(3) obtain b t e where "case_model p c ref = Inr (b, t, e)" "md_breakdown row = rounded b"
    by (auto simp: model_profile_def and_then_eq_Inr Let_def)
  with case_model_nonneg [OF assms(1,2)] rounded_nonneg have "\<forall>x \<in> set (breakdown_values (md_breakdown row)). 0 \<le> x" by metis
  then show ?thesis using assms(4,5)
    by (auto simp: stages_def breakdown_values_def fsum2_def Let_def split: if_splits intro!: fl_nonneg add_nonneg_nonneg)
qed

definition all_floats :: "sim \<Rightarrow> bool" where
  "all_floats s \<longleftrightarrow> (\<forall>sv \<in> set (si_services s). flt (sv_ready sv) \<and> 0 \<le> sv_duration sv) \<and> (\<forall>r. \<forall>w \<in> set (si_slots s r). flt w)"

lemma all_floats_stage:
  assumes "serve_stage need (s, ready, q) = Inr (s', ready', q')" "all_floats s" "flt ready" "0 \<le> snd (snd need)"
  shows "all_floats s' \<and> flt ready'"
  using assms(1)
proof (rule serve_stage_Inr)
  fix w free start
  assume w: "si_slots s (fst (snd need)) = w # free" "start = max ready w" "ready' = fl (start + snd (snd need))"
    and s': "si_slots s' = (si_slots s)(fst (snd need) := insort ready' free)"
      "si_services s' = si_services s @ [\<lparr>sv_resource = fst (snd need), sv_ready = ready, sv_duration = snd (snd need), sv_start = start, sv_finish = ready'\<rparr>]"
  have "\<forall>x \<in> set (si_slots s (fst (snd need))). flt x" using assms(2) by (simp add: all_floats_def)
  then have fl: "flt w" "\<forall>x \<in> set free. flt x" by (simp_all add: w(1))
  then have "flt start" using assms(3) by (auto simp: w(2))
  then have "flt ready'" unfolding w(3) using assms(4) by (auto simp: flt_def intro: fl_nonneg fl_idem)
  with fl assms(2-4) show ?thesis unfolding all_floats_def s' by (simp add: set_insort_key)
qed

lemma all_floats_stages:
  assumes "fold_r serve_stage needs (s, ready, q) = Inr (s', ready', q')" "all_floats s" "flt ready" "\<forall>need \<in> set needs. 0 \<le> snd (snd need)"
  shows "all_floats s' \<and> flt ready'"
proof -
  have "all_floats (fst st') \<and> flt (fst (snd st'))" if "fold_r serve_stage needs st = Inr st'" "all_floats (fst st) \<and> flt (fst (snd st))" for st st'
    using that
  proof (rule fold_r_inv)
    fix need st st'
    assume "need \<in> set needs" "all_floats (fst st) \<and> flt (fst (snd st))" "serve_stage need st = Inr st'"
    with assms(4) show "all_floats (fst st') \<and> flt (fst (snd st'))"
      by (cases st; cases st') (auto dest: all_floats_stage)
  qed
  from this [OF assms(1)] assms(2,3) show ?thesis by simp
qed

lemma interval_nonneg: "sane_params params \<Longrightarrow> 0 \<le> rate \<Longrightarrow> interval_ns params rate = Inr interval \<Longrightarrow> 0 \<le> interval"
  by (auto simp: interval_ns_def fdiv_Inr sane_params_def intro!: fl_nonneg divide_nonneg_nonneg mult_nonneg_nonneg of_py_nonneg)

lemma all_floats_request:
  assumes "sane_params params" "0 \<le> rate" "sane_profile p" "interval_ns params rate = Inr interval"
    and "model_profile fsum p c (sp_ref params) = Inr row" "all_floats s" "serve_request scenario c interval row s = Inr s'"
  shows "all_floats s'"
  using assms(7)
proof (rule serve_request_Inr)
  fix needs s1 ready q
  assume needs: "stages c row = Inr needs" and run: "fold_r serve_stage needs (s, fl (of_py (int (si_ordinal s)) * interval), 0) = Inr (s1, ready, q)"
    and s': "si_slots s' = si_slots s1" "si_services s' = si_services s1"
  have ref: "sane_ref (sp_ref params)" using assms(1) by (simp add: sane_params_def)
  have d: "\<forall>need \<in> set needs. 0 \<le> snd (snd need)"
    using stages_nonneg [OF assms(3) ref assms(5) needs] by fastforce
  have "flt (fl (of_py (int (si_ordinal s)) * interval))"
    using interval_nonneg [OF assms(1,2,4)] by (intro flt_fl mult_nonneg_nonneg of_py_nonneg) simp_all
  from all_floats_stages [OF run assms(6) this d] show ?thesis by (simp add: all_floats_def s')
qed

lemma sim_loop_floats:
  assumes "sane_params params" "0 \<le> rate" "\<forall>p \<in> set profiles. sane_profile p" "sim_loop fsum params c scenario rate profiles = Inr s"
  shows "all_floats s"
  using assms(4)
proof (rule sim_loop_inv)
  show "all_floats (sim_init params)" by (simp add: all_floats_def sim_init_def)
qed (use assms(1-3) all_floats_request in blast)

section \<open>Requests pass their stages in order\<close>

fun chained :: "rat \<Rightarrow> stage_need list \<Rightarrow> service list \<Rightarrow> rat \<Rightarrow> bool" where
  "chained ready [] [] finish \<longleftrightarrow> ready = finish"
| "chained ready ((name, r, d) # needs) (sv # svs) finish \<longleftrightarrow> sv_resource sv = r \<and> sv_duration sv = d \<and> sv_ready sv = ready \<and>
     ready \<le> sv_start sv \<and> sv_finish sv = fl (sv_start sv + d) \<and> chained (sv_finish sv) needs svs finish"
| "chained _ _ _ _ \<longleftrightarrow> False"

text \<open>The waiting before the services, summed up as the script does.\<close>

definition waiting :: "rat \<Rightarrow> service list \<Rightarrow> rat" where
  "waiting q svs = foldl (\<lambda>q sv. fl (q + fl (sv_start sv - sv_ready sv))) q svs"

lemma chained_stages:
  assumes "fold_r serve_stage needs (s, ready, q) = Inr (s', finish, q')"
  shows "\<exists>svs. si_services s' = si_services s @ svs \<and> chained ready needs svs finish \<and> q' = waiting q svs \<and> si_rows s' = si_rows s \<and>
    si_ordinal s' = si_ordinal s"
  using assms
proof (induction needs arbitrary: s ready q)
  case (Cons need needs)
  then obtain s1 ready1 q1 where s1: "serve_stage need (s, ready, q) = Inr (s1, ready1, q1)"
    "fold_r serve_stage needs (s1, ready1, q1) = Inr (s', finish, q')" by (auto simp: and_then_eq_Inr)
  obtain name r d where need: "need = (name, r, d)" by (metis prod.exhaust)
  from s1(1) show ?case
  proof (rule serve_stage_Inr)
    fix w free start
    assume "start = max ready w" "ready1 = fl (start + snd (snd need))" "q1 = fl (q + fl (start - ready))"
      "si_services s1 = si_services s @ [\<lparr>sv_resource = fst (snd need), sv_ready = ready, sv_duration = snd (snd need), sv_start = start, sv_finish = ready1\<rparr>]"
      and "si_rows s1 = si_rows s" "si_ordinal s1 = si_ordinal s"
    moreover from Cons.IH [OF s1(2)] obtain svs where "si_services s' = si_services s1 @ svs" "chained ready1 needs svs finish"
      "q' = waiting q1 svs" "si_rows s' = si_rows s1" "si_ordinal s' = si_ordinal s1" by blast
    ultimately show ?thesis by (intro exI [of _ "\<lparr>sv_resource = r, sv_ready = ready, sv_duration = d, sv_start = start, sv_finish = ready1\<rparr> # svs"])
        (simp add: need waiting_def)
  qed
qed (simp add: waiting_def)

text \<open>The invocations in the order of the trace: every profile as often as it is invoked.\<close>

definition invocations :: "profile list \<Rightarrow> profile list" where
  "invocations profiles = concat (map (\<lambda>p. replicate (nat (pf_invocations p)) p) profiles)"

text \<open>
  What the row of the \<open>i\<close>-th request, an invocation of \<open>p\<close>, reports, and the services it
  rests on.
\<close>

definition request_reported ::
  "(rat list \<Rightarrow> rat) \<Rightarrow> params \<Rightarrow> string \<Rightarrow> string \<Rightarrow> rat \<Rightarrow> profile \<Rightarrow> nat \<Rightarrow> row \<Rightarrow> service list \<Rightarrow> bool" where
  "request_reported fsum params c scenario interval p i ro svs \<longleftrightarrow>
     (\<exists>model needs finish. let arrival = fl (of_py (int i) * interval); latency = fl (finish - arrival) in
        model_profile fsum p c (sp_ref params) = Inr model \<and> stages c model = Inr needs \<and> chained arrival needs svs finish \<and>
        ro = \<lparr>ro_scenario = scenario, ro_case = c, ro_ordinal = i, ro_profile_id = pf_profile_id p,
          ro_arrival_ns = round6 arrival, ro_completion_ns = round6 finish, ro_latency_ns = round6 latency,
          ro_queue_ns = round6 (waiting 0 svs), ro_service_ns = round6 (fl (latency - waiting 0 svs))\<rparr>)"

text \<open>The replay so far, after the invocations \<open>ps\<close>.\<close>

definition reported ::
  "(rat list \<Rightarrow> rat) \<Rightarrow> params \<Rightarrow> string \<Rightarrow> string \<Rightarrow> rat \<Rightarrow> profile list \<Rightarrow> sim \<Rightarrow> bool" where
  "reported fsum params c scenario interval ps s \<longleftrightarrow> si_ordinal s = length ps \<and> length (si_rows s) = length ps \<and>
     (\<exists>groups. si_services s = concat groups \<and> length groups = length ps \<and>
        (\<forall>i < length ps. request_reported fsum params c scenario interval (ps ! i) i (si_rows s ! i) (groups ! i)))"

lemma model_profile_id: "model_profile fsum p c ref = Inr row \<Longrightarrow> md_profile row = p"
  by (auto simp: model_profile_def and_then_eq_Inr Let_def)

lemma reported_request:
  assumes "model_profile fsum p c (sp_ref params) = Inr row" "reported fsum params c scenario interval ps s"
    and "serve_request scenario c interval row s = Inr s'"
  shows "reported fsum params c scenario interval (ps @ [p]) s'"
  using assms(3)
proof (rule serve_request_Inr)
  let ?arrival = "fl (of_py (int (si_ordinal s)) * interval)"
  fix needs s1 ready q
  assume needs: "stages c row = Inr needs" and run: "fold_r serve_stage needs (s, ?arrival, 0) = Inr (s1, ready, q)"
    and s': "si_services s' = si_services s1" "si_ordinal s' = Suc (si_ordinal s1)"
      "si_rows s' = si_rows s1 @ [\<lparr>ro_scenario = scenario, ro_case = c, ro_ordinal = si_ordinal s1,
       ro_profile_id = pf_profile_id (md_profile row), ro_arrival_ns = round6 ?arrival, ro_completion_ns = round6 ready,
       ro_latency_ns = round6 (fl (ready - ?arrival)), ro_queue_ns = round6 q, ro_service_ns = round6 (fl (fl (ready - ?arrival) - q))\<rparr>]"
      (is "_ = _ @ [?ro]")
  from chained_stages [OF run] obtain svs where svs: "si_services s1 = si_services s @ svs" "chained ?arrival needs svs ready"
    "q = waiting 0 svs" "si_rows s1 = si_rows s" "si_ordinal s1 = si_ordinal s" by blast
  from assms(2) obtain groups where g: "si_services s = concat groups" "length groups = length ps"
    "\<forall>i < length ps. request_reported fsum params c scenario interval (ps ! i) i (si_rows s ! i) (groups ! i)"
    and n: "si_ordinal s = length ps" "length (si_rows s) = length ps"
    by (auto simp: reported_def)
  have "request_reported fsum params c scenario interval p (length ps) ?ro svs"
    unfolding request_reported_def Let_def
    using assms(1) needs svs(2,3,5) n(1) model_profile_id [OF assms(1)]
    by (intro exI [of _ row] exI [of _ needs] exI [of _ ready]) simp
  then have "\<forall>i < length (ps @ [p]).
      request_reported fsum params c scenario interval ((ps @ [p]) ! i) i (si_rows s' ! i) ((groups @ [svs]) ! i)"
    using g(2,3) n(2) by (auto simp: s'(3) svs(4) nth_append less_Suc_eq)
  then show ?thesis
    unfolding reported_def using g(1,2) n by (intro conjI exI [of _ "groups @ [svs]"]) (simp_all add: s' svs)
qed

lemma reported_requests:
  assumes "model_profile fsum p c (sp_ref params) = Inr row" "reported fsum params c scenario interval ps s"
    and "fold_r (serve_request scenario c interval) (replicate n row) s = Inr s'"
  shows "reported fsum params c scenario interval (ps @ replicate n p) s'"
  using assms(2,3)
proof (induction n arbitrary: ps s)
  case (Suc n)
  then obtain s1 where s1: "serve_request scenario c interval row s = Inr s1"
    "fold_r (serve_request scenario c interval) (replicate n row) s1 = Inr s'" by (auto simp: and_then_eq_Inr)
  from Suc.IH [OF reported_request [OF assms(1) Suc.prems(1) s1(1)] s1(2)] show ?case by simp
qed simp

lemma reported_profiles:
  assumes "reported fsum params c scenario interval ps s"
    and "fold_r (serve_profile fsum params scenario c interval) profiles s = Inr s'"
  shows "reported fsum params c scenario interval (ps @ invocations profiles) s'"
  using assms
proof (induction profiles arbitrary: ps s)
  case (Cons p profiles)
  then obtain s1 where run: "serve_profile fsum params scenario c interval p s = Inr s1"
    and rest: "fold_r (serve_profile fsum params scenario c interval) profiles s1 = Inr s'" by (auto simp: and_then_eq_Inr)
  from run obtain row where row: "model_profile fsum p c (sp_ref params) = Inr row"
    "fold_r (serve_request scenario c interval) (replicate (nat (pf_invocations p)) row) s = Inr s1"
    by (auto simp: serve_profile_def and_then_eq_Inr)
  from Cons.IH [OF reported_requests [OF row(1) Cons.prems(1) row(2)] rest] show ?case by (simp add: invocations_def)
qed (simp add: invocations_def)

lemma sim_loop_reported:
  assumes "sim_loop fsum params c scenario rate profiles = Inr s" "interval_ns params rate = Inr interval"
  shows "reported fsum params c scenario interval (invocations profiles) s"
proof -
  have "reported fsum params c scenario interval [] (sim_init params)"
    by (simp add: reported_def sim_init_def)
  from reported_profiles [OF this, of profiles s] assms show ?thesis by (simp add: sim_loop_def)
qed

section \<open>Two requests on one GPU\<close>

definition tiny_profile :: profile where
  "tiny_profile = \<lparr>pf_profile_id = ''p'', pf_norm_type = ''LayerNorm'', pf_rows = 2, pf_hidden_size = 2, pf_invocations = 2,
     pf_measured_elementwise_cycles = 1, pf_input_bytes = 8, pf_output_bytes = 8, pf_affine_bytes = 0, pf_stat_scalars = 4\<rparr>"

definition tiny_ref :: ref_point where
  "tiny_ref = \<lparr>rp_clock_mhz = 1000, rp_banks = 1, rp_bank_pcus = 1, rp_logic_pcus = 1, rp_vector_lanes_per_pcu = 1,
     rp_logic_partial_input_ports = None, rp_rsqrt_latency_cycles = 1, rp_rsqrt_initiation_interval_cycles = 1,
     rp_rmsnorm_finalize_cycles_per_row = 1, rp_layernorm_finalize_cycles_per_row = 1,
     rp_offload_bandwidth_gbps = 64, rp_offload_one_way_latency_ns = 0, rp_ondie_bandwidth_gbps = 64,
     rp_ondie_one_way_latency_ns = 0, rp_gpu_hbm_bandwidth_gbytes_per_s = 1, rp_gpu_kernel_launch_ns = 1,
     rp_gpu_normalization_rows_per_ns = 1\<rparr>"

definition tiny_params :: params where
  "tiny_params = \<lparr>sp_ref = tiny_ref, sp_channels = 1, sp_capacity = (\<lambda>_. 1), sp_bank_reducer_cells = 1, sp_engines = [1], sp_dispatcher_cells = [1]\<rparr>"

definition tiny_model :: modeled where
  "tiny_model = \<lparr>md_case = ''gpu_full'', md_profile = tiny_profile, md_clock_mhz = 1000, md_latency_ns_per_call = 19,
     md_projected_latency_ns = 38, md_cycles_equivalent_per_call = 19,
     md_breakdown = no_time\<lparr>bd_partial_transfer_ns := 1, bd_return_ns := 1, bd_global_reduce_ns := 16, bd_queue_sync_ns := 1\<rparr>,
     md_traffic = \<lparr>tr_tensor_bytes = 16, tr_partial_bytes = 0, tr_return_bytes = 0\<rparr>, md_evidence_class = ''ASSUMED_GPU_ROOFLINE''\<rparr>"

lemma tiny_model: "model_profile left_sum tiny_profile ''gpu_full'' tiny_ref = Inr tiny_model"
  by (simp add: model_profile_def case_model_def gpu_full_case_def transfer_ns_def fdiv_def tiny_ref_def tiny_profile_def tensor_bytes_def
      breakdown_values_def no_time_def rounded_def left_sum_def fl_numeral tiny_model_def Let_def)

lemma tiny_interval: "interval_ns tiny_params 1000000000 = Inr 1"
  by (simp add: interval_ns_def fdiv_def tiny_params_def fl_numeral)

definition tiny_services :: "service list" where
  "tiny_services = map (\<lambda>(r, ready, d, start). \<lparr>sv_resource = r, sv_ready = ready, sv_duration = d, sv_start = start, sv_finish = start + d\<rparr>)
     [(gpu, 0, 1, 0), (offload_link, 1, 1, 1), (gpu, 2, 16, 2), (offload_link, 18, 1, 18),
      (gpu, 1, 1, 18), (offload_link, 19, 1, 19), (gpu, 20, 16, 20), (offload_link, 36, 1, 36)]"

lemma tiny_run:
  "\<exists>s. sim_loop left_sum tiny_params ''gpu_full'' ''base'' 1000000000 [tiny_profile] = Inr s \<and> si_services s = tiny_services \<and> length (si_rows s) = 2"
proof -
  have n: "nat (pf_invocations tiny_profile) = 2" "sp_ref tiny_params = tiny_ref" by (simp_all add: tiny_profile_def tiny_params_def)
  have "stages ''gpu_full'' tiny_model = Inr [(''launch'', gpu, 1), (''input'', offload_link, 1), (''normalize'', gpu, 16), (''output'', offload_link, 1)]"
    by (simp add: stages_def tiny_model_def no_time_def)
  moreover have "sim_init tiny_params = \<lparr>si_slots = (\<lambda>_. [0]), si_busy = (\<lambda>_. 0), si_stage_busy = (\<lambda>_. 0), si_latencies = [],
      si_queues = [], si_rows = [], si_tensor = 0, si_partial = 0, si_return = 0, si_ordinal = 0, si_services = []\<rparr>"
    by (simp add: sim_init_def tiny_params_def heapify_def)
  ultimately show ?thesis
    by (simp add: sim_loop_def tiny_interval serve_profile_def tiny_model n numeral_2_eq_2 serve_request_def serve_stage_def reserve_def
        heappush_def Let_def fl_numeral tiny_services_def)
qed

section \<open>Properties\<close>

text \<open>
  C24: every resource of the system replay is a first-come first-served queue with as many
  servers as its capacity, fed with its reservations in the order the replay makes them: start
  and completion of every service are those of that queue.
\<close>

theorem system_resources_fcfs:
  assumes "sim_loop fsum params c scenario rate profiles = Inr s"
  shows "times r (si_services s) = served_by (idle params r) (jobs r (si_services s)) \<and>
    si_slots s r = free_after (idle params r) (jobs r (si_services s))"
  using sim_loop_replayed [OF assms] by (simp add: replayed_def)

lemma system_resources_fcfs_witness:
  "times gpu tiny_services = served_by (idle tiny_params gpu) (jobs gpu tiny_services) \<and> length (times gpu tiny_services) = 4"
proof -
  obtain s where s: "sim_loop left_sum tiny_params ''gpu_full'' ''base'' 1000000000 [tiny_profile] = Inr s" "si_services s = tiny_services"
    using tiny_run by blast
  have "length (times gpu tiny_services) = 4" by (simp add: times_def tiny_services_def)
  with system_resources_fcfs [OF s(1), of gpu] s(2) show ?thesis by simp
qed

text \<open>
  For parameters and profiles without negative numbers no resource of the system replay
  ever serves more stages at a time than its capacity.
\<close>

theorem system_capacity:
  assumes "sane_params params" "0 \<le> rate" "\<forall>p \<in> set profiles. sane_profile p"
    and "sim_loop fsum params c scenario rate profiles = Inr s"
  shows "length (filter (\<lambda>sv. sv_resource sv = r \<and> sv_start sv \<le> t \<and> t < sv_finish sv) (si_services s)) \<le> nat (sp_capacity params r)"
proof -
  have "length (filter (\<lambda>sv. sv_resource sv = r \<and> sv_start sv \<le> t \<and> t < sv_finish sv) (si_services s)) =
      length (filter (\<lambda>(start, finish). start \<le> t \<and> t < finish) (times r (si_services s)))"
    by (simp add: times_def filter_map o_def conj_commute)
  also have "\<dots> \<le> length (filter (\<lambda>w. w \<le> t) (idle params r))"
    unfolding sim_loop_times [OF assms(4)] using sim_loop_floats [OF assms]
    by (intro served_by_load) (auto simp: idle_def jobs_def all_floats_def)
  also have "\<dots> \<le> length (idle params r)" by (rule length_filter_le)
  finally show ?thesis by (simp add: idle_def)
qed

lemma system_capacity_witness:
  "length (filter (\<lambda>sv. sv_resource sv = gpu \<and> sv_start sv \<le> 5 \<and> 5 < sv_finish sv) tiny_services) \<le> nat (sp_capacity tiny_params gpu)"
proof -
  obtain s where s: "sim_loop left_sum tiny_params ''gpu_full'' ''base'' 1000000000 [tiny_profile] = Inr s" "si_services s = tiny_services"
    using tiny_run by blast
  have "sane_params tiny_params" "\<forall>p \<in> set [tiny_profile]. sane_profile p"
    by (simp_all add: sane_params_def sane_ref_def sane_profile_def tiny_params_def tiny_ref_def tiny_profile_def)
  from system_capacity [OF this(1) _ this(2) s(1), of gpu 5] show ?thesis by (simp add: s(2))
qed

text \<open>
  C25: a replay that returns serves every invocation of every profile once, in the order of the
  trace. Row \<open>i\<close> belongs to the \<open>i\<close>-th invocation, and the services fall into one group per
  row: the request arrives \<open>i\<close> intervals after the start, its services are the stages that the
  model of its own profile gives, in order, each ready when the one before has finished, and the
  row reports profile, arrival, completion and latency of that chain, the waiting in it and the
  rest as service time.
\<close>

theorem system_requests_chained:
  assumes "sim_loop fsum params c scenario rate profiles = Inr s" "interval_ns params rate = Inr interval"
  shows "length (si_rows s) = length (invocations profiles) \<and>
    (\<exists>groups. si_services s = concat groups \<and> length groups = length (invocations profiles) \<and>
       (\<forall>i < length (invocations profiles).
          request_reported fsum params c scenario interval (invocations profiles ! i) i (si_rows s ! i) (groups ! i)))"
  using sim_loop_reported [OF assms] by (simp add: reported_def)

lemma system_requests_chained_witness:
  "\<exists>s groups. sim_loop left_sum tiny_params ''gpu_full'' ''base'' 1000000000 [tiny_profile] = Inr s \<and>
     tiny_services = concat groups \<and> length groups = 2 \<and>
     request_reported left_sum tiny_params ''gpu_full'' ''base'' 1 tiny_profile 1 (si_rows s ! 1) (groups ! 1)"
proof -
  obtain s where s: "sim_loop left_sum tiny_params ''gpu_full'' ''base'' 1000000000 [tiny_profile] = Inr s" "si_services s = tiny_services"
    "length (si_rows s) = 2" using tiny_run by blast
  have "invocations [tiny_profile] = [tiny_profile, tiny_profile]"
    by (simp add: invocations_def tiny_profile_def numeral_2_eq_2)
  with s system_requests_chained [OF s(1) tiny_interval] obtain groups where "tiny_services = concat groups" "length groups = 2"
    "\<forall>i < 2. request_reported left_sum tiny_params ''gpu_full'' ''base'' 1 ([tiny_profile, tiny_profile] ! i) i (si_rows s ! i) (groups ! i)"
    by auto
  with s(1) show ?thesis by (intro exI [of _ s] exI [of _ groups]) (auto dest: spec [of _ 1])
qed

text \<open>
  The replay is not a work-conserving queue in time. Because a request reserves all its
  stages at once, a later request waits for a resource that is idle for its whole duration:
  with two requests on one GPU the launch of the second is ready at 1 and lasts 1, the GPU
  serves nothing between 1 and 2, and the launch starts only at 18.
\<close>

theorem system_idles_while_waiting:
  "\<exists>s sv. sim_loop left_sum tiny_params ''gpu_full'' ''base'' 1000000000 [tiny_profile] = Inr s \<and> sv \<in> set (si_services s) \<and>
     sv_ready sv = 1 \<and> sv_duration sv = 1 \<and> sv_start sv = 18 \<and>
     filter (\<lambda>x. sv_resource x = sv_resource sv \<and> sv_start x < 2 \<and> 1 < sv_finish x) (si_services s) = []"
proof -
  obtain s where s: "sim_loop left_sum tiny_params ''gpu_full'' ''base'' 1000000000 [tiny_profile] = Inr s" "si_services s = tiny_services"
    using tiny_run by blast
  let ?sv = "\<lparr>sv_resource = gpu, sv_ready = 1, sv_duration = 1, sv_start = 18, sv_finish = 19\<rparr>"
  have "?sv \<in> set tiny_services" "filter (\<lambda>x. sv_resource x = gpu \<and> sv_start x < 2 \<and> 1 < sv_finish x) tiny_services = []"
    by (simp_all add: tiny_services_def)
  with s show ?thesis by (intro exI [of _ s] exI [of _ ?sv]) simp
qed

end
