(* ===== verification/Floorplan.thy ===== *)
theory Floorplan
  imports Rounding
begin

text \<open>
  \<open>tools/validate_logic_die_floorplan.py\<close>: the geometric contract of a logic-die floorplan.
  A manifest here is one that has been read and whose numbers have gone through \<open>float\<close>; the
  JSON schema check is a library call and a parameter, and so is \<open>math.hypot\<close>, whose last bit
  depends on the platform. Coordinates are floats and every sum is rounded as the script
  rounds it. Messages are the constant part of the script's.
\<close>

section \<open>Manifest\<close>

record rect_um =
  x_um :: rat
  y_um :: rat
  width_um :: rat
  height_um :: rat

record block =
  bk_instance :: string
  bk_rect :: rect_um
  bk_halo_um :: rat
  bk_allowed_region :: "rect_um option"
  bk_orientation :: string
  bk_placement_source :: string
  bk_status :: string
  bk_classification :: string
  bk_confidence :: string

record vertical =
  bn_bundle_id :: string
  bn_kind :: string
  bn_signal_class :: string
  bn_source :: string
  bn_destinations :: "string list"
  bn_direction :: string
  bn_classification :: string
  bn_confidence :: string
  bn_x_um :: rat
  bn_y_um :: rat
  bn_rows :: int
  bn_columns :: int
  bn_pitch_um :: rat
  bn_diameter_um :: rat
  bn_keepout_um :: rat
  bn_redundancy_count :: int
  bn_uncertainty :: "(rat \<times> rat) option"

record region =
  rg_region_id :: string
  rg_rect :: rect_um
  rg_blocks_prohibited :: bool

record manifest =
  mf_manifest_id :: string
  mf_die :: rect_um
  mf_external_endpoints :: "string list"
  mf_blocks :: "block list"
  mf_tsv_bundles :: "vertical list"
  mf_micro_bump_bundles :: "vertical list"
  mf_reserved_regions :: "region list"
  mf_routing_corridors :: "region list"

section \<open>Geometry\<close>

type_synonym rect = "rat \<times> rat \<times> rat \<times> rat"

definition rectangle :: "rect_um \<Rightarrow> rat \<Rightarrow> rect" where
  "rectangle item halo =
     (fl (x_um item - halo), fl (y_um item - halo),
      fl (fl (x_um item + width_um item) + halo), fl (fl (y_um item + height_um item) + halo))"

fun overlaps :: "rect \<Rightarrow> rect \<Rightarrow> bool" where
  "overlaps (a0, a1, a2, a3) (b0, b1, b2, b3) \<longleftrightarrow> a0 < b2 \<and> a2 > b0 \<and> a1 < b3 \<and> a3 > b1"

fun contained :: "rect \<Rightarrow> rect \<Rightarrow> bool" where
  "contained (i0, i1, i2, i3) (o0, o1, o2, o3) \<longleftrightarrow> i0 \<ge> o0 \<and> i1 \<ge> o1 \<and> i2 \<le> o2 \<and> i3 \<le> o3"

definition bundle_points :: "vertical \<Rightarrow> (rat \<times> rat) list" where
  "bundle_points b = concat (map (\<lambda>column. map (\<lambda>row.
       (fl (bn_x_um b + fl (of_int column * bn_pitch_um b)), fl (bn_y_um b + fl (of_int row * bn_pitch_um b))))
     [0..bn_rows b - 1]) [0..bn_columns b - 1])"

text \<open>
  \<open>dx ** 2\<close> is the \<open>pow\<close> of the C library, whose rounding no standard fixes; it is taken as
  the correctly rounded square. On the grid of the property the squares are exact.
\<close>

fun circle_hits_rect :: "rat \<Rightarrow> rat \<Rightarrow> rat \<Rightarrow> rect \<Rightarrow> bool" where
  "circle_hits_rect x y radius (r0, r1, r2, r3) \<longleftrightarrow>
     (let nearest_x = min (max x r0) r2; nearest_y = min (max y r1) r3; dx = fl (x - nearest_x); dy = fl (y - nearest_y)
      in fl (fl (dx * dx) + fl (dy * dy)) < fl (radius * radius))"

section \<open>Checks\<close>

text \<open>A \<open>raise\<close> under a condition.\<close>

definition refuse :: "bool \<Rightarrow> string \<Rightarrow> unit result" where
  "refuse bad message = (if bad then Inl (FloorplanValidationError message) else Inr ())"

definition all_checks :: "('a \<Rightarrow> unit result) \<Rightarrow> 'a list \<Rightarrow> unit result" where
  "all_checks check xs = fold_r (\<lambda>x _. check x) xs ()"

definition unique :: "('a \<Rightarrow> string) \<Rightarrow> 'a list \<Rightarrow> string \<Rightarrow> unit result" where
  "unique key xs label = refuse (\<not> distinct (map key xs)) (''duplicate '' @ label)"

text \<open>The loop over all pairs \<open>left < right\<close>.\<close>

fun all_pairs :: "('a \<Rightarrow> 'a \<Rightarrow> unit result) \<Rightarrow> 'a list \<Rightarrow> unit result" where
  "all_pairs check [] = Inr ()"
| "all_pairs check (x # xs) = and_then (all_checks (check x) xs) (\<lambda>_. all_pairs check xs)"

text \<open>The names are unique by then, so the dictionary of rectangles is the list of its items.\<close>

definition block_rect :: "block \<Rightarrow> string \<times> rect" where
  "block_rect b = (bk_instance b, rectangle (bk_rect b) (bk_halo_um b))"

definition check_block :: "manifest \<Rightarrow> block \<Rightarrow> unit result" where
  "check_block m b =
     and_then (refuse (\<not> contained (snd (block_rect b)) (rectangle (mf_die m) 0)) ''block/halo outside die'') (\<lambda>_.
       refuse (case bk_allowed_region b of None \<Rightarrow> False
               | Some region \<Rightarrow> \<not> contained (rectangle (bk_rect b) 0) (rectangle region 0)) ''outside allowed_region'')"

definition check_region :: "manifest \<Rightarrow> region \<Rightarrow> unit result" where
  "check_region m r =
     and_then (refuse (\<not> contained (rectangle (rg_rect r) 0) (rectangle (mf_die m) 0)) ''region outside die'') (\<lambda>_.
       if rg_blocks_prohibited r
       then all_checks (\<lambda>(name, rect). refuse (overlaps rect (rectangle (rg_rect r) 0)) ''overlaps prohibited region'')
              (map block_rect (mf_blocks m))
       else Inr ())"

definition radius_of :: "vertical \<Rightarrow> rat" where
  "radius_of b = fl (fl (bn_diameter_um b / 2) + bn_keepout_um b)"

definition eps12 :: rat where "eps12 = 4951760157141521 / 4951760157141521099596496896"
definition eps9 :: rat where "eps9 = 4835703278458517 / 4835703278458516698824704"

definition endpoints :: "manifest \<Rightarrow> string set" where
  "endpoints m = set (mf_external_endpoints m) \<union> set (map bk_instance (mf_blocks m)) \<union>
     set (map bn_bundle_id (mf_tsv_bundles m @ mf_micro_bump_bundles m))"

definition check_element :: "manifest \<Rightarrow> vertical \<Rightarrow> rat \<times> rat \<Rightarrow> unit result" where
  "check_element m b point =
     (case (point, rectangle (mf_die m) 0) of ((x, y), (d0, d1, d2, d3)) \<Rightarrow>
        and_then (refuse (fl (x - radius_of b) < d0 \<or> fl (y - radius_of b) < d1 \<or> fl (x + radius_of b) > d2 \<or> fl (y + radius_of b) > d3)
                    ''element/keep-out outside die'') (\<lambda>_.
          if bn_kind b = ''tsv''
          then all_checks (\<lambda>(name, rect). refuse (circle_hits_rect x y (radius_of b) rect) ''violates TSV keep-out'')
                 (map block_rect (mf_blocks m))
          else Inr ()))"

definition check_bundle :: "manifest \<Rightarrow> vertical \<Rightarrow> unit result" where
  "check_bundle m b =
     and_then (refuse (bn_source b \<notin> endpoints m) ''dangling source'') (\<lambda>_.
     and_then (refuse (filter (\<lambda>d. d \<notin> endpoints m) (bn_destinations b) \<noteq> []) ''dangling destinations'') (\<lambda>_.
     and_then (refuse (case bn_uncertainty b of None \<Rightarrow> False | Some (lo, hi) \<Rightarrow> lo > hi) ''invalid uncertainty range'') (\<lambda>_.
     and_then (refuse (fl (bn_pitch_um b + eps12) < fl (2 * radius_of b) \<and> (bn_rows b > 1 \<or> bn_columns b > 1))
                 ''pitch violates diameter plus keep-out'') (\<lambda>_.
       all_checks (check_element m b) (bundle_points b)))))"

definition tsv_points :: "manifest \<Rightarrow> (rat \<times> rat \<times> rat) list" where
  "tsv_points m = concat (map (\<lambda>b. map (\<lambda>(x, y). (x, y, radius_of b)) (bundle_points b))
     (filter (\<lambda>b. bn_kind b = ''tsv'') (mf_tsv_bundles m @ mf_micro_bump_bundles m)))"

definition check_tsv_pair :: "(rat \<Rightarrow> rat \<Rightarrow> rat) \<Rightarrow> rat \<times> rat \<times> rat \<Rightarrow> rat \<times> rat \<times> rat \<Rightarrow> unit result" where
  "check_tsv_pair hypot a b =
     (case (a, b) of ((ax, ay, ar), (bx, by, br)) \<Rightarrow>
        refuse (fl (hypot (fl (ax - bx)) (fl (ay - by)) + eps9) < fl (ar + br)) ''TSV keep-out overlap'')"

section \<open>The comparison with the CSV file\<close>

text \<open>A row of \<open>tsv_connectivity.csv\<close> with its numbers parsed.\<close>

record csv_row =
  cr_bundle_id :: string
  cr_texts :: "string list"
  cr_destinations :: "string list"
  cr_numbers :: "rat list"
  cr_integers :: "int list"

definition text_fields :: "vertical \<Rightarrow> string list" where
  "text_fields b = [bn_kind b, bn_signal_class b, bn_source b, bn_direction b, bn_classification b, bn_confidence b]"

definition number_fields :: "vertical \<Rightarrow> rat list" where
  "number_fields b = [bn_x_um b, bn_y_um b, bn_pitch_um b, bn_diameter_um b, bn_keepout_um b]"

definition integer_fields :: "vertical \<Rightarrow> int list" where
  "integer_fields b = [bn_rows b, bn_columns b, bn_redundancy_count b]"

definition isclose :: "rat \<Rightarrow> rat \<Rightarrow> bool" where
  "isclose a b \<longleftrightarrow> a = b \<or> fl \<bar>fl (b - a)\<bar> \<le> eps9"

definition check_csv_row :: "csv_row list \<Rightarrow> vertical \<Rightarrow> unit result" where
  "check_csv_row rows b =
     (case map_of (rev (map (\<lambda>row. (cr_bundle_id row, row)) rows)) (bn_bundle_id b) of
        None \<Rightarrow> Inl (KeyError ''bundle_id'')
      | Some row \<Rightarrow>
          and_then (refuse (cr_texts row \<noteq> text_fields b) ''CSV mismatch'') (\<lambda>_.
          and_then (refuse (cr_destinations row \<noteq> bn_destinations b) ''CSV destination mismatch'') (\<lambda>_.
          and_then (refuse (\<not> list_all2 isclose (cr_numbers row) (number_fields b)) ''CSV mismatch'') (\<lambda>_.
            refuse (cr_integers row \<noteq> integer_fields b) ''CSV mismatch''))))"

definition validate_csv :: "manifest \<Rightarrow> csv_row list \<Rightarrow> unit result" where
  "validate_csv m rows =
     and_then (refuse (set (map cr_bundle_id rows) \<noteq> set (map bn_bundle_id (mf_tsv_bundles m)))
                 ''TSV CSV bundle IDs do not match manifest'') (\<lambda>_.
       all_checks (check_csv_row rows) (mf_tsv_bundles m))"

section \<open>Validation\<close>

record report =
  rp_blocks :: nat
  rp_tsv_bundles :: nat
  rp_tsv_shapes :: int
  rp_micro_bump_bundles :: nat
  rp_micro_bump_shapes :: int
  rp_reserved_regions :: nat
  rp_routing_corridors :: nat
  rp_csv_roundtrip :: string

definition shapes :: "vertical list \<Rightarrow> int" where
  "shapes bs = sum_list (map (\<lambda>b. bn_rows b * bn_columns b) bs)"

definition validate :: "(manifest \<Rightarrow> bool) \<Rightarrow> (rat \<Rightarrow> rat \<Rightarrow> rat) \<Rightarrow> manifest \<Rightarrow> csv_row list option \<Rightarrow> report result" where
  "validate schema_ok hypot m csv =
     and_then (refuse (\<not> schema_ok m) ''schema'') (\<lambda>_.
     and_then (unique bk_instance (mf_blocks m) ''block instance'') (\<lambda>_.
     and_then (unique bn_bundle_id (mf_tsv_bundles m @ mf_micro_bump_bundles m) ''vertical bundle ID'') (\<lambda>_.
     and_then (unique rg_region_id (mf_reserved_regions m @ mf_routing_corridors m) ''region ID'') (\<lambda>_.
     and_then (refuse (\<exists>b \<in> set (mf_tsv_bundles m). bn_kind b \<noteq> ''tsv'') ''tsv_bundles contains non-TSV kind'') (\<lambda>_.
     and_then (refuse (\<exists>b \<in> set (mf_micro_bump_bundles m). bn_kind b \<noteq> ''micro_bump'')
                 ''micro_bump_bundles contains non-micro-bump kind'') (\<lambda>_.
     and_then (all_checks (check_block m) (mf_blocks m)) (\<lambda>_.
     and_then (all_pairs (\<lambda>(_, a) (_, b). refuse (overlaps a b) ''block overlap'') (map block_rect (mf_blocks m))) (\<lambda>_.
     and_then (all_checks (check_region m) (mf_reserved_regions m @ mf_routing_corridors m)) (\<lambda>_.
     and_then (all_checks (check_bundle m) (mf_tsv_bundles m @ mf_micro_bump_bundles m)) (\<lambda>_.
     and_then (all_pairs (check_tsv_pair hypot) (tsv_points m)) (\<lambda>_.
     and_then (case csv of None \<Rightarrow> Inr () | Some rows \<Rightarrow> validate_csv m rows) (\<lambda>_.
       Inr \<lparr>rp_blocks = length (mf_blocks m), rp_tsv_bundles = length (mf_tsv_bundles m), rp_tsv_shapes = shapes (mf_tsv_bundles m),
            rp_micro_bump_bundles = length (mf_micro_bump_bundles m), rp_micro_bump_shapes = shapes (mf_micro_bump_bundles m),
            rp_reserved_regions = length (mf_reserved_regions m), rp_routing_corridors = length (mf_routing_corridors m),
            rp_csv_roundtrip = (case csv of None \<Rightarrow> ''NOT_RUN'' | Some _ \<Rightarrow> ''PASS'')\<rparr>))))))))))))"

text \<open>
  \<open>main\<close> on the outcome of reading the files: exit code 2 on an error it catches, an \<open>OSError\<close>
  of any kind among them. Printing the report and writing it to a file are not modelled.
\<close>

definition validate_main :: "(manifest \<Rightarrow> bool) \<Rightarrow> (rat \<Rightarrow> rat \<Rightarrow> rat) \<Rightarrow> manifest result \<Rightarrow> csv_row list option \<Rightarrow> int result" where
  "validate_main schema_ok hypot loaded csv =
     (case and_then loaded (\<lambda>m. validate schema_ok hypot m csv) of
        Inr _ \<Rightarrow> Inr 0
      | Inl e \<Rightarrow> (case e of FloorplanValidationError _ \<Rightarrow> Inr 2 | FileNotFoundError _ \<Rightarrow> Inr 2 | FileExistsError _ \<Rightarrow> Inr 2
                 | IsADirectoryError _ \<Rightarrow> Inr 2 | NotADirectoryError _ \<Rightarrow> Inr 2 | JSONDecodeError _ \<Rightarrow> Inr 2 | _ \<Rightarrow> Inl e))"

end
