(* ===== verification/Floorplan_Search.thy ===== *)
theory Floorplan_Search
  imports Floorplan "HOL-Library.List_Lexorder" "HOL-Library.Char_ord"
begin

text \<open>
  \<open>tools/optimize_logic_die_floorplan.py\<close>: seeded search over legal floorplans and ranking by
  proxy metrics. Parameters are the draws of the random generator (\<open>attempt\<close>), the digest that
  names a candidate, the metrics of a document (numpy and exponentials) and Python's \<open>sum\<close> on
  floats. A dictionary is the list of its items in insertion order; every profile gives a weight
  for every group.
\<close>

section \<open>Hard violations\<close>

definition block_violations :: "manifest \<Rightarrow> block \<Rightarrow> string list" where
  "block_violations m b =
     (if \<not> contained (snd (block_rect b)) (rectangle (mf_die m) 0) then [''die_boundary:'' @ bk_instance b] else []) @
     (case bk_allowed_region b of None \<Rightarrow> []
      | Some region \<Rightarrow> if \<not> contained (rectangle (bk_rect b) 0) (rectangle region 0) then [''allowed_region:'' @ bk_instance b] else [])"

fun overlap_violations :: "(string \<times> rect) list \<Rightarrow> string list" where
  "overlap_violations [] = []"
| "overlap_violations ((name, rect) # rects) =
     map (\<lambda>(other, _). ''block_overlap:'' @ name @ '':'' @ other) (filter (\<lambda>(_, r). overlaps rect r) rects) @ overlap_violations rects"

definition region_violations :: "(string \<times> rect) list \<Rightarrow> region \<Rightarrow> string list" where
  "region_violations rects r =
     (if rg_blocks_prohibited r
      then map (\<lambda>(name, _). ''reserved_region:'' @ name @ '':'' @ rg_region_id r)
             (filter (\<lambda>(_, rect). overlaps rect (rectangle (rg_rect r) 0)) rects)
      else [])"

text \<open>The first block a point is too close to; the loop over the blocks breaks there.\<close>

definition point_violations :: "(string \<times> rect) list \<Rightarrow> vertical \<Rightarrow> rat \<times> rat \<Rightarrow> string list" where
  "point_violations rects t point =
     (case filter (\<lambda>(_, rect). circle_hits_rect (fst point) (snd point) (radius_of t) rect) rects of
        [] \<Rightarrow> [] | (name, _) # _ \<Rightarrow> [''tsv_keepout:'' @ name @ '':'' @ bn_bundle_id t])"

definition hard_violations :: "manifest \<Rightarrow> string list" where
  "hard_violations m =
     (let rects = map block_rect (mf_blocks m) in
      sort (remdups (concat (map (block_violations m) (mf_blocks m)) @ overlap_violations rects @
        concat (map (region_violations rects) (mf_reserved_regions m)) @
        concat (map (\<lambda>t. concat (map (point_violations rects t) (bundle_points t))) (mf_tsv_bundles m)))))"

section \<open>Candidates\<close>

record attempt =
  at_permutation :: "nat list"
  at_jitter :: "(rat \<times> rat) list"
  at_orientations :: "string list"

definition place :: "(rat \<times> rat) \<Rightarrow> (rat \<times> rat) \<Rightarrow> string \<Rightarrow> block \<Rightarrow> block" where
  "place slot d orientation b =
     b\<lparr>bk_rect := (bk_rect b)\<lparr>x_um := fl (fst slot + fst d), y_um := fl (snd slot + snd d)\<rparr>, bk_orientation := orientation,
       bk_placement_source := ''deterministic_floorplan_candidate_generator'', bk_status := ''provisional'',
       bk_classification := ''modeled'', bk_confidence := ''low''\<rparr>"

definition candidate_from_assignment :: "(block list \<Rightarrow> string) \<Rightarrow> manifest \<Rightarrow> (rat \<times> rat) list \<Rightarrow> attempt \<Rightarrow> manifest" where
  "candidate_from_assignment candidate_id base slots a =
     (let blocks = map (\<lambda>i. place (slots ! (at_permutation a ! i)) (at_jitter a ! i) (at_orientations a ! i) (mf_blocks base ! i))
                     [0..<length (mf_blocks base)]
      in base\<lparr>mf_blocks := blocks, mf_manifest_id := candidate_id blocks\<rparr>)"

definition base_slots :: "manifest \<Rightarrow> (rat \<times> rat) list" where
  "base_slots base = map (\<lambda>b. (x_um (bk_rect b), y_um (bk_rect b))) (mf_blocks base)"

definition manual :: "manifest \<Rightarrow> attempt" where
  "manual base = \<lparr>at_permutation = [0..<length (mf_blocks base)], at_jitter = replicate (length (mf_blocks base)) (0, 0),
     at_orientations = map bk_orientation (mf_blocks base)\<rparr>"

record search =
  se_documents :: "(string \<times> manifest \<times> string) list"
  se_rejected :: "(nat \<times> string \<times> string list) list"

definition setdefault :: "string \<Rightarrow> 'a \<Rightarrow> (string \<times> 'a) list \<Rightarrow> (string \<times> 'a) list" where
  "setdefault k v d = (if k \<in> fst ` set d then d else d @ [(k, v)])"

definition search_step :: "(block list \<Rightarrow> string) \<Rightarrow> manifest \<Rightarrow> nat \<times> attempt \<Rightarrow> search \<Rightarrow> search" where
  "search_step candidate_id base indexed s =
     (let doc = candidate_from_assignment candidate_id base (base_slots base) (snd indexed); violations = hard_violations doc
      in if violations \<noteq> [] then s\<lparr>se_rejected := se_rejected s @ [(fst indexed, mf_manifest_id doc, violations)]\<rparr>
         else s\<lparr>se_documents := setdefault (mf_manifest_id doc) (doc, ''seeded_permutation_jitter'') (se_documents s)\<rparr>)"

definition search_all :: "(block list \<Rightarrow> string) \<Rightarrow> manifest \<Rightarrow> attempt list \<Rightarrow> search" where
  "search_all candidate_id base attempts =
     (let doc = candidate_from_assignment candidate_id base (base_slots base) (manual base)
      in fold (search_step candidate_id base) (enumerate 0 attempts)
           \<lparr>se_documents = [(mf_manifest_id doc, doc, ''manual_baseline'')], se_rejected = []\<rparr>)"

section \<open>Ranking\<close>

record candidate =
  ca_candidate_id :: string
  ca_origin :: string
  ca_metrics :: "string \<Rightarrow> rat"
  ca_norm :: "string \<Rightarrow> rat"
  ca_scores :: "(string \<times> rat) list"
  ca_pareto :: bool

definition score_keys :: "(string \<times> string) list" where
  "score_keys = [(''thermal'', ''peak_temperature_proxy_C''), (''wirelength'', ''traffic_weighted_manhattan_um''),
     (''congestion'', ''global_route_congestion_proxy''), (''timing'', ''timing_distance_proxy_um''),
     (''ir_drop'', ''ir_drop_distance_proxy_Wum_per_W''), (''area_cost'', ''normalized_cost_proxy_raw'')]"

definition rows_of :: "(manifest \<Rightarrow> string \<Rightarrow> rat) \<Rightarrow> (string \<times> manifest \<times> string) list \<Rightarrow> candidate list" where
  "rows_of metrics documents =
     map (\<lambda>(identifier, doc, origin). \<lparr>ca_candidate_id = identifier, ca_origin = origin, ca_metrics = metrics doc,
            ca_norm = (\<lambda>_. 0), ca_scores = [], ca_pareto = False\<rparr>) documents"

text \<open>\<open>normalize\<close>: the position of a value between the least and the greatest of its key.\<close>

definition normalized :: "rat list \<Rightarrow> rat \<Rightarrow> rat" where
  "normalized values x =
     (if Max (set values) = Min (set values) then 0 else fl (fl (x - Min (set values)) / fl (Max (set values) - Min (set values))))"

definition normalize :: "string list \<Rightarrow> candidate list \<Rightarrow> candidate list" where
  "normalize keys rows =
     map (\<lambda>row. row\<lparr>ca_norm := (\<lambda>key. if key \<in> set keys then normalized (map (\<lambda>r. ca_metrics r key) rows) (ca_metrics row key)
                                      else ca_norm row key)\<rparr>) rows"

definition ranges :: "string list \<Rightarrow> candidate list \<Rightarrow> (string \<times> rat \<times> rat) list" where
  "ranges keys rows = map (\<lambda>key. (key, Min ((\<lambda>r. ca_metrics r key) ` set rows), Max ((\<lambda>r. ca_metrics r key) ` set rows))) keys"

record weights =
  we_groups :: "string list"
  we_weight :: "string \<Rightarrow> rat"

definition weighted :: "(rat list \<Rightarrow> rat) \<Rightarrow> (string \<Rightarrow> rat) \<Rightarrow> candidate \<Rightarrow> rat" where
  "weighted fsum weight row = fsum (map (\<lambda>(group, metric). fl (weight group * ca_norm row metric)) score_keys)"

definition score :: "(rat list \<Rightarrow> rat) \<Rightarrow> (string \<times> weights) list \<Rightarrow> candidate list \<Rightarrow> candidate list" where
  "score fsum profiles rows =
     map (\<lambda>row. row\<lparr>ca_scores := map (\<lambda>(profile, w). (profile, weighted fsum (we_weight w) row)) profiles\<rparr>) rows"

text \<open>\<open>pareto\<close>: a row is dominated by another that is no worse in all keys and better in one, up to a tolerance.\<close>

definition dominates :: "string list \<Rightarrow> candidate \<Rightarrow> candidate \<Rightarrow> bool" where
  "dominates keys other row \<longleftrightarrow>
     list_all (\<lambda>key. ca_metrics other key \<le> fl (ca_metrics row key + eps12)) keys \<and>
     list_ex (\<lambda>key. ca_metrics other key < fl (ca_metrics row key - eps12)) keys"

definition dominated :: "string list \<Rightarrow> candidate list \<Rightarrow> nat \<Rightarrow> bool" where
  "dominated keys rows i \<longleftrightarrow> list_ex (\<lambda>j. j \<noteq> i \<and> dominates keys (rows ! j) (rows ! i)) [0..<length rows]"

definition pareto :: "string list \<Rightarrow> candidate list \<Rightarrow> candidate list \<times> candidate list" where
  "pareto keys rows =
     (let marked = map (\<lambda>i. (rows ! i)\<lparr>ca_pareto := \<not> dominated keys rows i\<rparr>) [0..<length rows]
      in (marked, filter ca_pareto marked))"

section \<open>Selection\<close>

text \<open>\<open>min(rows, key=...)\<close>: the first row with the least key.\<close>

definition min_by :: "('a \<Rightarrow> 'b::linorder) \<Rightarrow> 'a list \<Rightarrow> 'a result" where
  "min_by key xs = (case xs of [] \<Rightarrow> Inl (ValueError ''min() iterable argument is empty'')
     | y # ys \<Rightarrow> Inr (foldl (\<lambda>best x. if key x < key best then x else best) y ys))"

definition score_of :: "string \<Rightarrow> candidate \<Rightarrow> rat" where
  "score_of profile row = (case map_of (ca_scores row) profile of None \<Rightarrow> 0 | Some v \<Rightarrow> v)"

definition least_score :: "string \<Rightarrow> candidate list \<Rightarrow> candidate result" where
  "least_score profile rows =
     (if \<exists>row \<in> set rows. profile \<notin> fst ` set (ca_scores row) then Inl (KeyError profile)
      else min_by (\<lambda>row. (score_of profile row, ca_candidate_id row)) rows)"

definition selections :: "candidate list \<Rightarrow> (string \<times> candidate) list result" where
  "selections rows =
     and_then (case filter (\<lambda>row. ca_origin row = ''manual_baseline'') rows of
                 [] \<Rightarrow> Inl (RuntimeError ''StopIteration'') | row # _ \<Rightarrow> Inr row) (\<lambda>manual_baseline.
     and_then (min_by (\<lambda>row. (ca_metrics row ''traffic_weighted_manhattan_um'', ca_candidate_id row)) rows) (\<lambda>wirelength_first.
     and_then (least_score ''thermal_first'' rows) (\<lambda>thermal_first.
     and_then (least_score ''balanced'' rows) (\<lambda>balanced.
     and_then (least_score ''cost_first'' rows) (\<lambda>cost_first.
       Inr [(''manual_baseline'', manual_baseline), (''wirelength_first'', wirelength_first), (''thermal_first'', thermal_first),
            (''balanced'', balanced), (''cost_first'', cost_first)])))))"

text \<open>The document of a selection is renamed, written and validated in full; a rejected one ends the run.\<close>

definition export :: "(manifest \<Rightarrow> bool) \<Rightarrow> (rat \<Rightarrow> rat \<Rightarrow> rat) \<Rightarrow> (string \<times> manifest \<times> string) list \<Rightarrow> string \<times> candidate \<Rightarrow> manifest result" where
  "export schema_ok hypot documents selection =
     (case selection of (strategy, row) \<Rightarrow>
        (case map_of documents (ca_candidate_id row) of
           None \<Rightarrow> Inl (KeyError (ca_candidate_id row))
         | Some (doc, _) \<Rightarrow>
             let doc = doc\<lparr>mf_manifest_id := strategy @ ''_'' @ ca_candidate_id row\<rparr>
             in and_then (validate schema_ok hypot doc None) (\<lambda>_. Inr doc)))"

record sensitivity =
  sy_profile :: string
  sy_varied_group :: string
  sy_relative_delta :: rat
  sy_selected_candidate_id :: string
  sy_selected_is_pareto :: bool

definition vary :: "(rat list \<Rightarrow> rat) \<Rightarrow> candidate list \<Rightarrow> string \<times> weights \<Rightarrow> string \<Rightarrow> rat \<Rightarrow> sensitivity result" where
  "vary fsum rows profile varied delta =
     (let w = (we_weight (snd profile))(varied := fl (we_weight (snd profile) varied * fl (1 + delta)));
          total = fsum (map w (we_groups (snd profile)))
      in and_then (map_r (\<lambda>group. fdiv (w group) total) (we_groups (snd profile))) (\<lambda>quotients.
         let scaled = (\<lambda>group. case map_of (zip (we_groups (snd profile)) quotients) group of None \<Rightarrow> 0 | Some v \<Rightarrow> v) in
         and_then (min_by (\<lambda>row. (weighted fsum scaled row, ca_candidate_id row)) rows) (\<lambda>best.
           Inr \<lparr>sy_profile = fst profile, sy_varied_group = varied, sy_relative_delta = delta,
                sy_selected_candidate_id = ca_candidate_id best, sy_selected_is_pareto = ca_pareto best\<rparr>)))"

record exploration =
  ex_rows :: "candidate list"
  ex_frontier :: "candidate list"
  ex_selected :: "(string \<times> candidate) list"
  ex_documents :: "manifest list"
  ex_rejected :: "(nat \<times> string \<times> string list) list"
  ex_sensitivity :: "sensitivity list"
  ex_ranges :: "(string \<times> rat \<times> rat) list"
  ex_attempted :: nat

definition optimize ::
    "(block list \<Rightarrow> string) \<Rightarrow> (manifest \<Rightarrow> string \<Rightarrow> rat) \<Rightarrow> (rat list \<Rightarrow> rat) \<Rightarrow> (manifest \<Rightarrow> bool) \<Rightarrow> (rat \<Rightarrow> rat \<Rightarrow> rat) \<Rightarrow>
     manifest \<Rightarrow> (string \<times> weights) list \<Rightarrow> rat list \<Rightarrow> attempt list \<Rightarrow> exploration result" where
  "optimize candidate_id metrics fsum schema_ok hypot base profiles perturbations attempts =
     (let s = search_all candidate_id base attempts; keys = map snd score_keys; rows = rows_of metrics (se_documents s)
      in if length rows < 4 then Inl (RuntimeError ''fewer than four feasible candidates; increase samples or revise legal slots'')
         else let (marked, frontier) = pareto keys (score fsum profiles (normalize keys rows));
                  ordered = sort_key ca_candidate_id marked
              in and_then (selections ordered) (\<lambda>selected.
                 and_then (map_r (export schema_ok hypot (se_documents s)) selected) (\<lambda>documents.
                 and_then (map_r (\<lambda>(profile, group, delta). vary fsum ordered profile group delta)
                     (concat (map (\<lambda>profile. concat (map (\<lambda>group. map (\<lambda>delta. (profile, group, delta)) perturbations)
                       (we_groups (snd profile)))) profiles))) (\<lambda>varied.
                   Inr \<lparr>ex_rows = ordered, ex_frontier = sort_key ca_candidate_id frontier, ex_selected = selected,
                        ex_documents = documents, ex_rejected = se_rejected s, ex_sensitivity = varied,
                        ex_ranges = ranges keys rows, ex_attempted = length attempts\<rparr>))))"

end
