(* ===== verification/Floorplan_Props.thy ===== *)
theory Floorplan_Props
  imports Floorplan
begin

text \<open>
  Properties of the floorplan validation: it accepts exactly the manifests that obey its rules,
  and on coordinates of a sixteenth of a micrometre, where the rounded sums are exact, the
  rules mean what they say about the points of the plane.
\<close>

section \<open>Checks\<close>

lemma refuse_Inr [simp]: "refuse bad message = Inr u \<longleftrightarrow> \<not> bad"
  by (simp add: refuse_def)

lemma all_checks_Inr [simp]: "all_checks check xs = Inr u \<longleftrightarrow> (\<forall>x \<in> set xs. check x = Inr ())"
  by (induction xs) (auto simp: all_checks_def and_then_eq_Inr)

lemma all_pairs_Inr [simp]: "all_pairs check xs = Inr u \<longleftrightarrow>
    (\<forall>j < length xs. \<forall>i < j. check (xs ! i) (xs ! j) = Inr ())"
proof (induction xs)
  case (Cons x xs)
  show ?case
  proof
    assume "all_pairs check (x # xs) = Inr u"
    then have x: "\<forall>y \<in> set xs. check x y = Inr ()" and xs: "\<forall>j < length xs. \<forall>i < j. check (xs ! i) (xs ! j) = Inr ()"
      using Cons by (auto simp: and_then_eq_Inr)
    show "\<forall>j < length (x # xs). \<forall>i < j. check ((x # xs) ! i) ((x # xs) ! j) = Inr ()"
    proof (intro allI impI)
      fix j i
      assume "j < length (x # xs)" "i < j"
      with x xs show "check ((x # xs) ! i) ((x # xs) ! j) = Inr ()" by (cases i; cases j) auto
    qed
  next
    assume a: "\<forall>j < length (x # xs). \<forall>i < j. check ((x # xs) ! i) ((x # xs) ! j) = Inr ()"
    have "check x y = Inr ()" if "y \<in> set xs" for y
    proof -
      from that obtain k where "k < length xs" "y = xs ! k" by (auto simp: in_set_conv_nth)
      with a [rule_format, of "Suc k" 0] show ?thesis by simp
    qed
    moreover have "check (xs ! i) (xs ! j) = Inr ()" if "j < length xs" "i < j" for i j
      using a [rule_format, of "Suc j" "Suc i"] that by simp
    ultimately show "all_pairs check (x # xs) = Inr u" using Cons by (simp add: and_then_eq_Inr)
  qed
qed simp

lemma unique_Inr [simp]: "unique key xs label = Inr u \<longleftrightarrow> distinct (map key xs)"
  by (simp add: unique_def)

section \<open>The rules\<close>

definition halo_rect :: "block \<Rightarrow> rect" where
  "halo_rect b = rectangle (bk_rect b) (bk_halo_um b)"

definition die_rect :: "manifest \<Rightarrow> rect" where
  "die_rect m = rectangle (mf_die m) 0"

definition ids_ok :: "manifest \<Rightarrow> bool" where
  "ids_ok m \<longleftrightarrow> distinct (map bk_instance (mf_blocks m)) \<and> distinct (map bn_bundle_id (mf_tsv_bundles m @ mf_micro_bump_bundles m)) \<and>
     distinct (map rg_region_id (mf_reserved_regions m @ mf_routing_corridors m)) \<and>
     (\<forall>b \<in> set (mf_tsv_bundles m). bn_kind b = ''tsv'') \<and> (\<forall>b \<in> set (mf_micro_bump_bundles m). bn_kind b = ''micro_bump'')"

definition blocks_ok :: "manifest \<Rightarrow> bool" where
  "blocks_ok m \<longleftrightarrow> (\<forall>b \<in> set (mf_blocks m). contained (halo_rect b) (die_rect m) \<and>
       (\<forall>region. bk_allowed_region b = Some region \<longrightarrow> contained (rectangle (bk_rect b) 0) (rectangle region 0))) \<and>
     (\<forall>j < length (mf_blocks m). \<forall>i < j. \<not> overlaps (halo_rect (mf_blocks m ! i)) (halo_rect (mf_blocks m ! j)))"

definition regions_ok :: "manifest \<Rightarrow> bool" where
  "regions_ok m \<longleftrightarrow> (\<forall>r \<in> set (mf_reserved_regions m @ mf_routing_corridors m). contained (rectangle (rg_rect r) 0) (die_rect m) \<and>
     (rg_blocks_prohibited r \<longrightarrow> (\<forall>b \<in> set (mf_blocks m). \<not> overlaps (halo_rect b) (rectangle (rg_rect r) 0))))"

definition element_ok :: "manifest \<Rightarrow> vertical \<Rightarrow> rat \<times> rat \<Rightarrow> bool" where
  "element_ok m b point \<longleftrightarrow> (case (point, die_rect m) of ((x, y), (d0, d1, d2, d3)) \<Rightarrow>
     d0 \<le> fl (x - radius_of b) \<and> d1 \<le> fl (y - radius_of b) \<and> fl (x + radius_of b) \<le> d2 \<and> fl (y + radius_of b) \<le> d3 \<and>
     (bn_kind b = ''tsv'' \<longrightarrow> (\<forall>c \<in> set (mf_blocks m). \<not> circle_hits_rect x y (radius_of b) (halo_rect c))))"

definition verticals_ok :: "(rat \<Rightarrow> rat \<Rightarrow> rat) \<Rightarrow> manifest \<Rightarrow> bool" where
  "verticals_ok hypot m \<longleftrightarrow> (\<forall>b \<in> set (mf_tsv_bundles m @ mf_micro_bump_bundles m).
       bn_source b \<in> endpoints m \<and> set (bn_destinations b) \<subseteq> endpoints m \<and>
       (\<forall>lo hi. bn_uncertainty b = Some (lo, hi) \<longrightarrow> lo \<le> hi) \<and>
       (bn_rows b > 1 \<or> bn_columns b > 1 \<longrightarrow> fl (2 * radius_of b) \<le> fl (bn_pitch_um b + eps12)) \<and>
       (\<forall>point \<in> set (bundle_points b). element_ok m b point)) \<and>
     (\<forall>j < length (tsv_points m). \<forall>i < j. check_tsv_pair hypot (tsv_points m ! i) (tsv_points m ! j) = Inr ())"

lemma check_block_Inr: "check_block m b = Inr u \<longleftrightarrow> contained (halo_rect b) (die_rect m) \<and>
    (\<forall>region. bk_allowed_region b = Some region \<longrightarrow> contained (rectangle (bk_rect b) 0) (rectangle region 0))"
  by (auto simp: check_block_def and_then_eq_Inr halo_rect_def die_rect_def block_rect_def split: option.splits)

lemma check_region_Inr: "check_region m r = Inr u \<longleftrightarrow> contained (rectangle (rg_rect r) 0) (die_rect m) \<and>
    (rg_blocks_prohibited r \<longrightarrow> (\<forall>b \<in> set (mf_blocks m). \<not> overlaps (halo_rect b) (rectangle (rg_rect r) 0)))"
  by (auto simp: check_region_def and_then_eq_Inr halo_rect_def die_rect_def block_rect_def)

lemma check_element_Inr: "check_element m b point = Inr u \<longleftrightarrow> element_ok m b point"
  by (auto simp: check_element_def element_ok_def and_then_eq_Inr halo_rect_def die_rect_def block_rect_def split: prod.splits)

lemma check_bundle_Inr: "check_bundle m b = Inr u \<longleftrightarrow> bn_source b \<in> endpoints m \<and> set (bn_destinations b) \<subseteq> endpoints m \<and>
    (\<forall>lo hi. bn_uncertainty b = Some (lo, hi) \<longrightarrow> lo \<le> hi) \<and>
    (bn_rows b > 1 \<or> bn_columns b > 1 \<longrightarrow> fl (2 * radius_of b) \<le> fl (bn_pitch_um b + eps12)) \<and>
    (\<forall>point \<in> set (bundle_points b). element_ok m b point)"
  by (auto simp: check_bundle_def and_then_eq_Inr check_element_Inr filter_empty_conv not_less split: option.splits)

definition counts :: "manifest \<Rightarrow> csv_row list option \<Rightarrow> report" where
  "counts m csv = \<lparr>rp_blocks = length (mf_blocks m), rp_tsv_bundles = length (mf_tsv_bundles m), rp_tsv_shapes = shapes (mf_tsv_bundles m),
     rp_micro_bump_bundles = length (mf_micro_bump_bundles m), rp_micro_bump_shapes = shapes (mf_micro_bump_bundles m),
     rp_reserved_regions = length (mf_reserved_regions m), rp_routing_corridors = length (mf_routing_corridors m),
     rp_csv_roundtrip = (case csv of None \<Rightarrow> ''NOT_RUN'' | Some _ \<Rightarrow> ''PASS'')\<rparr>"

lemma validate_Inr: "validate schema_ok hypot m csv = Inr report \<longleftrightarrow> schema_ok m \<and> ids_ok m \<and> blocks_ok m \<and> regions_ok m \<and>
    verticals_ok hypot m \<and> (\<forall>rows. csv = Some rows \<longrightarrow> validate_csv m rows = Inr ()) \<and> report = counts m csv"
proof -
  have "(\<forall>j < length (mf_blocks m). \<forall>i < j. \<not> overlaps (snd (map block_rect (mf_blocks m) ! i)) (snd (map block_rect (mf_blocks m) ! j))) =
    (\<forall>j < length (mf_blocks m). \<forall>i < j. \<not> overlaps (halo_rect (mf_blocks m ! i)) (halo_rect (mf_blocks m ! j)))"
    by (simp add: block_rect_def halo_rect_def)
  then show ?thesis
    by (auto simp: validate_def and_then_eq_Inr ids_ok_def blocks_ok_def regions_ok_def verticals_ok_def counts_def
        check_block_Inr check_region_Inr check_bundle_Inr case_prod_beta split: option.split)
qed

section \<open>Exact coordinates\<close>

text \<open>Multiples of a power of two below \<open>2\<^sup>5\<^sup>3\<close> of them are floats.\<close>

lemma fl_minus: "fl (- x) = - fl x"
  by (simp add: fl_def sgn_if Let_def)

lemma fl_dyadic: "\<bar>k\<bar> \<le> 2 ^ 53 \<Longrightarrow> fl (of_int k / 2 ^ n) = of_int k / 2 ^ n"
proof -
  have pos: "fl (of_int k / 2 ^ n) = of_int k / 2 ^ n" if "0 \<le> k" "k \<le> 2 ^ 53" for k
  proof -
    have "of_int k / 2 ^ n = (of_int k * 2 powi (- int n) :: rat)" by (simp add: power_int_minus divide_simps)
    then show ?thesis using that by (simp add: fl_fixed [OF reprI [of k 53 "- int n" "- int n"]])
  qed
  assume "\<bar>k\<bar> \<le> 2 ^ 53"
  then show ?thesis using pos [of k] pos [of "- k"] fl_minus [of "of_int (- k) / 2 ^ n"] by (cases "0 \<le> k") simp_all
qed

definition grid :: "int \<Rightarrow> rat \<Rightarrow> bool" where
  "grid bound v \<longleftrightarrow> (\<exists>k. v = of_int k / 16 \<and> \<bar>k\<bar> \<le> bound)"

lemma grid_fl: "grid bound v \<Longrightarrow> bound \<le> 2 ^ 53 \<Longrightarrow> fl v = v"
proof -
  assume "grid bound v" "bound \<le> 2 ^ 53"
  then obtain k where "v = of_int k / 2 ^ 4" "\<bar>k\<bar> \<le> 2 ^ 53" by (auto simp: grid_def)
  then show ?thesis using fl_dyadic by blast
qed

lemma grid_add: "grid a u \<Longrightarrow> grid b v \<Longrightarrow> grid (a + b) (u + v)"
proof -
  assume "grid a u" "grid b v"
  then obtain j k where "u = of_int j / 16" "\<bar>j\<bar> \<le> a" "v = of_int k / 16" "\<bar>k\<bar> \<le> b" by (auto simp: grid_def)
  then have "u + v = of_int (j + k) / 16" "\<bar>j + k\<bar> \<le> a + b" by (simp_all add: add_divide_distrib)
  then show ?thesis unfolding grid_def by blast
qed

lemma grid_minus: "grid a u \<Longrightarrow> grid a (- u)"
proof -
  assume "grid a u"
  then obtain j where "u = of_int j / 16" "\<bar>j\<bar> \<le> a" by (auto simp: grid_def)
  then have "- u = of_int (- j) / 16" "\<bar>- j\<bar> \<le> a" by simp_all
  then show ?thesis unfolding grid_def by blast
qed

lemma grid_diff: "grid a u \<Longrightarrow> grid b v \<Longrightarrow> grid (a + b) (u - v)"
  using grid_add [of a u b "- v"] grid_minus [of b v] by simp

lemma grid_mono: "grid a u \<Longrightarrow> a \<le> b \<Longrightarrow> grid b u"
  by (auto simp: grid_def)

lemma grid_sum: "grid a u \<Longrightarrow> grid b v \<Longrightarrow> a + b \<le> c \<Longrightarrow> grid c (u + v)"
  by (rule grid_mono [OF grid_add])

lemma grid_0 [simp]: "0 \<le> b \<Longrightarrow> grid b 0"
  by (auto simp: grid_def intro: exI [of _ 0])

lemma grid_times: "grid a u \<Longrightarrow> \<bar>n\<bar> \<le> b \<Longrightarrow> grid (a * b) (of_int n * u)"
proof -
  assume "grid a u" and n: "\<bar>n\<bar> \<le> b"
  then obtain j where j: "u = of_int j / 16" "\<bar>j\<bar> \<le> a" by (auto simp: grid_def)
  then have "\<bar>n * j\<bar> \<le> a * b" using n mult_mono [of "\<bar>n\<bar>" b "\<bar>j\<bar>" a] by (simp add: abs_mult mult.commute)
  moreover have "of_int n * u = of_int (n * j) / 16" using j by simp
  ultimately show ?thesis unfolding grid_def by blast
qed

lemma grid_square:
  assumes "grid a u" "a \<le> 2 ^ 26"
  shows "fl (u * u) = u * u"
proof -
  from assms(1) obtain j where j: "u = of_int j / 16" "\<bar>j\<bar> \<le> a" by (auto simp: grid_def)
  then have "\<bar>j * j\<bar> \<le> 2 ^ 26 * 2 ^ 26" unfolding abs_mult using assms(2) by (intro mult_mono) auto
  moreover have "u * u = of_int (j * j) / 2 ^ 8" by (simp add: j(1))
  ultimately show ?thesis using fl_dyadic [of "j * j" 8] by (simp only:) simp
qed

lemma grid_sum_squares:
  assumes "grid a u" "grid a v" "a \<le> 2 ^ 25"
  shows "fl (u * u + v * v) = u * u + v * v"
proof -
  from assms(1,2) obtain j k where j: "u = of_int j / 16" "\<bar>j\<bar> \<le> a" "v = of_int k / 16" "\<bar>k\<bar> \<le> a" by (auto simp: grid_def)
  have "j * j \<le> 2 ^ 25 * 2 ^ 25" "k * k \<le> 2 ^ 25 * 2 ^ 25"
    using j assms(3) mult_mono [of "\<bar>j\<bar>" "2 ^ 25" "\<bar>j\<bar>" "2 ^ 25"] mult_mono [of "\<bar>k\<bar>" "2 ^ 25" "\<bar>k\<bar>" "2 ^ 25"] by (simp_all add: abs_mult_self_eq)
  then have "\<bar>j * j + k * k\<bar> \<le> 2 ^ 53" by simp
  moreover have "u * u + v * v = of_int (j * j + k * k) / 2 ^ 8" by (simp add: j(1,3) add_divide_distrib)
  ultimately show ?thesis using fl_dyadic [of "j * j + k * k" 8] by (simp only:)
qed

section \<open>Points\<close>

text \<open>Open rectangle, closed rectangle and squared distance.\<close>

fun interior :: "rect \<Rightarrow> rat \<times> rat \<Rightarrow> bool" where
  "interior (r0, r1, r2, r3) (x, y) \<longleftrightarrow> r0 < x \<and> x < r2 \<and> r1 < y \<and> y < r3"

fun covers :: "rect \<Rightarrow> rat \<times> rat \<Rightarrow> bool" where
  "covers (r0, r1, r2, r3) (x, y) \<longleftrightarrow> r0 \<le> x \<and> x \<le> r2 \<and> r1 \<le> y \<and> y \<le> r3"

fun dist2 :: "rat \<times> rat \<Rightarrow> rat \<times> rat \<Rightarrow> rat" where
  "dist2 (x, y) (u, v) = (x - u) * (x - u) + (y - v) * (y - v)"

fun solid :: "rect \<Rightarrow> bool" where
  "solid (r0, r1, r2, r3) \<longleftrightarrow> r0 < r2 \<and> r1 < r3"

lemma overlaps_interior:
  assumes "solid a" "solid b"
  shows "overlaps a b \<longleftrightarrow> (\<exists>p. interior a p \<and> interior b p)"
proof -
  obtain a0 a1 a2 a3 b0 b1 b2 b3 where ab: "a = (a0, a1, a2, a3)" "b = (b0, b1, b2, b3)" by (metis prod.exhaust)
  show ?thesis
  proof
    assume "overlaps a b"
    with assms have "max a0 b0 < min a2 b2" "max a1 b1 < min a3 b3" by (simp_all add: ab)
    then obtain x y where "max a0 b0 < x" "x < min a2 b2" "max a1 b1 < y" "y < min a3 b3" by (meson dense)
    then show "\<exists>p. interior a p \<and> interior b p" by (intro exI [of _ "(x, y)"]) (simp add: ab)
  qed (auto simp: ab)
qed

lemma contained_covers: "contained i d \<Longrightarrow> covers i p \<Longrightarrow> covers d p"
  by (cases i; cases d; cases p) auto

lemma square_le: "\<bar>u\<bar> \<le> \<bar>v\<bar> \<Longrightarrow> u * u \<le> (v * v :: rat)"
  by (metis abs_le_square_iff power2_eq_square)

text \<open>The clamped point is the nearest of the rectangle.\<close>

lemma nearest_point:
  assumes "r0 \<le> r2" "r1 \<le> r3"
  shows "covers (r0, r1, r2, r3) (min (max x r0) r2, min (max y r1) r3)"
    and "covers (r0, r1, r2, r3) p \<Longrightarrow> dist2 (x, y) (min (max x r0) r2, min (max y r1) r3) \<le> dist2 (x, y) p"
proof -
  show "covers (r0, r1, r2, r3) (min (max x r0) r2, min (max y r1) r3)" using assms by (auto simp: min_def max_def)
  assume p: "covers (r0, r1, r2, r3) p"
  obtain u v where uv: "p = (u, v)" by fastforce
  with p have "\<bar>x - min (max x r0) r2\<bar> \<le> \<bar>x - u\<bar>" "\<bar>y - min (max y r1) r3\<bar> \<le> \<bar>y - v\<bar>" by (auto simp: min_def max_def abs_if)
  then show "dist2 (x, y) (min (max x r0) r2, min (max y r1) r3) \<le> dist2 (x, y) p"
    unfolding uv dist2.simps by (intro add_mono square_le)
qed

section \<open>Manifests on the grid\<close>

definition rect_grid :: "rect_um \<Rightarrow> bool" where
  "rect_grid r \<longleftrightarrow> grid (2 ^ 20) (x_um r) \<and> grid (2 ^ 20) (y_um r) \<and> grid (2 ^ 20) (width_um r) \<and> grid (2 ^ 20) (height_um r) \<and>
     0 < width_um r \<and> 0 < height_um r"

definition vertical_grid :: "vertical \<Rightarrow> bool" where
  "vertical_grid b \<longleftrightarrow> grid (2 ^ 20) (bn_x_um b) \<and> grid (2 ^ 20) (bn_y_um b) \<and> grid (2 ^ 20) (bn_pitch_um b) \<and>
     grid (2 ^ 20) (bn_diameter_um b / 2) \<and> grid (2 ^ 20) (bn_keepout_um b) \<and> 0 \<le> bn_diameter_um b \<and> 0 \<le> bn_keepout_um b \<and>
     bn_rows b \<le> 8 \<and> bn_columns b \<le> 8"

definition on_grid :: "manifest \<Rightarrow> bool" where
  "on_grid m \<longleftrightarrow> rect_grid (mf_die m) \<and> (\<forall>b \<in> set (mf_blocks m). rect_grid (bk_rect b) \<and> grid (2 ^ 20) (bk_halo_um b) \<and> 0 \<le> bk_halo_um b) \<and>
     (\<forall>b \<in> set (mf_tsv_bundles m). vertical_grid b) \<and> (\<forall>r \<in> set (mf_reserved_regions m @ mf_routing_corridors m). rect_grid (rg_rect r))"

text \<open>The rectangle with its halo, the element centres and the keep-out radius without rounding.\<close>

definition exact_rect :: "rect_um \<Rightarrow> rat \<Rightarrow> rect" where
  "exact_rect r halo = (x_um r - halo, y_um r - halo, x_um r + width_um r + halo, y_um r + height_um r + halo)"

definition element :: "vertical \<Rightarrow> int \<Rightarrow> int \<Rightarrow> rat \<times> rat" where
  "element b column row = (bn_x_um b + of_int column * bn_pitch_um b, bn_y_um b + of_int row * bn_pitch_um b)"

definition exact_radius :: "vertical \<Rightarrow> rat" where
  "exact_radius b = bn_diameter_um b / 2 + bn_keepout_um b"

lemma rectangle_exact:
  assumes "rect_grid r" "grid (2 ^ 20) halo"
  shows "rectangle r halo = exact_rect r halo"
proof -
  have g: "grid (2 ^ 21) (x_um r - halo)" "grid (2 ^ 21) (y_um r - halo)" "grid (2 ^ 21) (x_um r + width_um r)"
    "grid (2 ^ 21) (y_um r + height_um r)"
    using assms grid_diff [of "2 ^ 20" _ "2 ^ 20"] grid_add [of "2 ^ 20" _ "2 ^ 20"] by (simp_all add: rect_grid_def)
  moreover have "grid (2 ^ 22) (x_um r + width_um r + halo)" "grid (2 ^ 22) (y_um r + height_um r + halo)"
    using grid_sum [OF g(3) assms(2)] grid_sum [OF g(4) assms(2)] by simp_all
  ultimately show ?thesis unfolding rectangle_def exact_rect_def by (simp add: grid_fl)
qed

lemma exact_rect_solid: "rect_grid r \<Longrightarrow> 0 \<le> halo \<Longrightarrow> solid (exact_rect r halo)"
  by (simp add: exact_rect_def rect_grid_def add_strict_increasing)

lemma radius_exact: "vertical_grid b \<Longrightarrow> radius_of b = exact_radius b \<and> grid (2 ^ 21) (exact_radius b)"
proof -
  assume b: "vertical_grid b"
  then have "grid (2 ^ 20 + 2 ^ 20) (bn_diameter_um b / 2 + bn_keepout_um b)" by (intro grid_add) (simp_all add: vertical_grid_def)
  then have g: "grid (2 ^ 21) (exact_radius b)" by (simp add: exact_radius_def)
  have d: "fl (bn_diameter_um b / 2) = bn_diameter_um b / 2" using b by (intro grid_fl [of "2 ^ 20"]) (simp_all add: vertical_grid_def)
  have "radius_of b = fl (exact_radius b)" unfolding radius_of_def d exact_radius_def ..
  with g show ?thesis by (simp add: grid_fl)
qed

lemma element_in_points:
  assumes "vertical_grid b" "0 \<le> column" "column < bn_columns b" "0 \<le> row" "row < bn_rows b"
  shows "element b column row \<in> set (bundle_points b)"
    and "grid (2 ^ 24) (fst (element b column row))" "grid (2 ^ 24) (snd (element b column row))"
proof -
  have g: "grid (2 ^ 23) (of_int column * bn_pitch_um b)" "grid (2 ^ 23) (of_int row * bn_pitch_um b)"
    using grid_times [of "2 ^ 20" "bn_pitch_um b" _ 8] assms by (simp_all add: vertical_grid_def)
  have "grid (2 ^ 20) (bn_x_um b)" "grid (2 ^ 20) (bn_y_um b)" using assms(1) by (simp_all add: vertical_grid_def)
  with grid_sum [OF _ g(1), of "2 ^ 20" _ "2 ^ 24"] grid_sum [OF _ g(2), of "2 ^ 20" _ "2 ^ 24"]
  have x: "grid (2 ^ 24) (bn_x_um b + of_int column * bn_pitch_um b)" "grid (2 ^ 24) (bn_y_um b + of_int row * bn_pitch_um b)" by simp_all
  then have "element b column row = (fl (bn_x_um b + fl (of_int column * bn_pitch_um b)), fl (bn_y_um b + fl (of_int row * bn_pitch_um b)))"
    using g by (simp add: grid_fl element_def)
  moreover have "column \<in> set [0..bn_columns b - 1]" "row \<in> set [0..bn_rows b - 1]" using assms by auto
  ultimately show "element b column row \<in> set (bundle_points b)" unfolding bundle_points_def set_concat set_map
    by (auto intro!: bexI [of _ column] image_eqI [of _ _ row])
  show "grid (2 ^ 24) (fst (element b column row))" "grid (2 ^ 24) (snd (element b column row))"
    using x by (simp_all add: element_def)
qed

text \<open>On the grid the test for a TSV and a block decides whether a point of the block is inside the keep-out.\<close>

lemma grid_min_max: "grid a u \<Longrightarrow> grid a v \<Longrightarrow> grid a (min u v) \<and> grid a (max u v)"
  by (simp add: min_def max_def)

lemma circle_exact:
  assumes "grid (2 ^ 24) x" "grid (2 ^ 24) y" "grid (2 ^ 21) radius" "grid (2 ^ 24) r0" "grid (2 ^ 24) r1" "grid (2 ^ 24) r2" "grid (2 ^ 24) r3"
    and "r0 \<le> r2" "r1 \<le> r3"
  shows "circle_hits_rect x y radius (r0, r1, r2, r3) \<longleftrightarrow> (\<exists>p. covers (r0, r1, r2, r3) p \<and> dist2 (x, y) p < radius * radius)"
proof -
  let ?nx = "min (max x r0) r2" and ?ny = "min (max y r1) r3"
  have "grid (2 ^ 24) ?nx" "grid (2 ^ 24) ?ny" using assms(1-7) grid_min_max by blast+
  then have d: "grid (2 ^ 25) (x - ?nx)" "grid (2 ^ 25) (y - ?ny)"
    using grid_diff [OF assms(1), of "2 ^ 24" ?nx] grid_diff [OF assms(2), of "2 ^ 24" ?ny] by simp_all
  then have "fl (fl (fl (x - ?nx) * fl (x - ?nx)) + fl (fl (y - ?ny) * fl (y - ?ny))) = dist2 (x, y) (?nx, ?ny)"
    by (simp add: grid_fl grid_square grid_sum_squares)
  moreover have "fl (radius * radius) = radius * radius" using assms(3) by (rule grid_square) simp
  ultimately have "circle_hits_rect x y radius (r0, r1, r2, r3) \<longleftrightarrow> dist2 (x, y) (?nx, ?ny) < radius * radius"
    by (simp add: Let_def)
  moreover have "covers (r0, r1, r2, r3) (?nx, ?ny)" by (rule nearest_point(1) [OF assms(8,9)])
  moreover have "\<And>p. covers (r0, r1, r2, r3) p \<Longrightarrow> dist2 (x, y) (?nx, ?ny) \<le> dist2 (x, y) p" by (rule nearest_point(2) [OF assms(8,9)])
  ultimately show ?thesis by (meson le_less_trans)
qed

section \<open>The geometry of an accepted manifest\<close>

abbreviation exact_halo :: "block \<Rightarrow> rect" where
  "exact_halo b \<equiv> exact_rect (bk_rect b) (bk_halo_um b)"

lemma grid_blocks:
  assumes "on_grid m" "b \<in> set (mf_blocks m)"
  shows "halo_rect b = exact_halo b" "solid (exact_halo b)"
  using assms rectangle_exact exact_rect_solid by (auto simp: on_grid_def halo_rect_def)

lemma grid_die: "on_grid m \<Longrightarrow> die_rect m = exact_rect (mf_die m) 0"
  by (simp add: on_grid_def die_rect_def rectangle_exact)

lemma grid_regions:
  assumes "on_grid m" "r \<in> set (mf_reserved_regions m @ mf_routing_corridors m)"
  shows "rectangle (rg_rect r) 0 = exact_rect (rg_rect r) 0" "solid (exact_rect (rg_rect r) 0)"
  using assms rectangle_exact [of "rg_rect r" 0] exact_rect_solid [of "rg_rect r" 0] by (auto simp: on_grid_def)

lemma blocks_apart:
  assumes "on_grid m" "ids_ok m" "blocks_ok m" "b \<in> set (mf_blocks m)" "c \<in> set (mf_blocks m)" "bk_instance b \<noteq> bk_instance c"
  shows "\<not> (interior (exact_halo b) p \<and> interior (exact_halo c) p)"
proof -
  obtain i j where ij: "i < length (mf_blocks m)" "b = mf_blocks m ! i" "j < length (mf_blocks m)" "c = mf_blocks m ! j"
    using assms(4,5) by (auto simp: in_set_conv_nth)
  with assms(6) have "i \<noteq> j" by auto
  with assms(3) ij have "\<not> overlaps (halo_rect b) (halo_rect c) \<or> \<not> overlaps (halo_rect c) (halo_rect b)"
    unfolding blocks_ok_def by (metis nat_neq_iff)
  then show ?thesis
    using overlaps_interior grid_blocks [OF assms(1,4)] grid_blocks [OF assms(1,5)] by (metis (no_types))
qed

lemma exact_halo_grid:
  assumes "rect_grid r" "grid (2 ^ 20) halo" "0 \<le> halo" "exact_rect r halo = (r0, r1, r2, r3)"
  shows "grid (2 ^ 24) r0" "grid (2 ^ 24) r1" "grid (2 ^ 24) r2" "grid (2 ^ 24) r3" "r0 \<le> r2" "r1 \<le> r3"
proof -
  have g: "grid (2 ^ 21) (x_um r + width_um r)" "grid (2 ^ 21) (y_um r + height_um r)"
    "grid (2 ^ 21) (x_um r - halo)" "grid (2 ^ 21) (y_um r - halo)"
    using assms grid_diff [of "2 ^ 20" _ "2 ^ 20"] grid_add [of "2 ^ 20" _ "2 ^ 20"] by (simp_all add: rect_grid_def)
  with assms(2,4) show "grid (2 ^ 24) r0" "grid (2 ^ 24) r1" "grid (2 ^ 24) r2" "grid (2 ^ 24) r3"
    using grid_sum [OF g(1) assms(2)] grid_sum [OF g(2) assms(2)] by (auto simp: exact_rect_def elim!: grid_mono)
  show "r0 \<le> r2" "r1 \<le> r3" using exact_rect_solid [OF assms(1,3)] assms(4) by auto
qed

lemma tsv_apart:
  assumes "on_grid m" "ids_ok m" "verticals_ok hypot m" "t \<in> set (mf_tsv_bundles m)" "0 \<le> column" "column < bn_columns t"
    and "0 \<le> row" "row < bn_rows t" "b \<in> set (mf_blocks m)" "covers (exact_halo b) p"
  shows "exact_radius t * exact_radius t \<le> dist2 (element t column row) p"
proof -
  have t: "vertical_grid t" "bn_kind t = ''tsv''" using assms(1,2,4) by (auto simp: on_grid_def ids_ok_def)
  have "element_ok m t (element t column row)"
    using assms(3,4) element_in_points(1) [OF t(1) assms(5-8)] by (auto simp: verticals_ok_def)
  with t(2) assms(9) have hit: "\<not> circle_hits_rect (fst (element t column row)) (snd (element t column row)) (radius_of t) (halo_rect b)"
    by (auto simp: element_ok_def split: prod.splits)
  obtain r0 r1 r2 r3 where r: "exact_halo b = (r0, r1, r2, r3)" by (metis prod.exhaust)
  have bg: "rect_grid (bk_rect b)" "grid (2 ^ 20) (bk_halo_um b)" "0 \<le> bk_halo_um b" using assms(1,9) by (auto simp: on_grid_def)
  have "circle_hits_rect (fst (element t column row)) (snd (element t column row)) (exact_radius t) (r0, r1, r2, r3) \<longleftrightarrow>
      (\<exists>p. covers (r0, r1, r2, r3) p \<and> dist2 (element t column row) p < exact_radius t * exact_radius t)"
    using circle_exact [OF element_in_points(2,3) [OF t(1) assms(5-8)] _ exact_halo_grid [OF bg r], of "exact_radius t"]
      radius_exact [OF t(1)] by simp
  with hit assms(10) radius_exact [OF t(1)] grid_blocks(1) [OF assms(1,9)] r show ?thesis by (metis not_less)
qed

text \<open>
  C21: in a manifest the validation accepts, with coordinates on the grid, every block with its
  halo lies in the die, two blocks have no interior point in common, no block has one in
  common with a region where blocks are prohibited, and every point of a block keeps the
  distance of the keep-out radius from every TSV.
\<close>

theorem accepted_floorplan_geometry:
  assumes "validate schema_ok hypot m csv = Inr report" "on_grid m"
  shows "(\<forall>b \<in> set (mf_blocks m). \<forall>p. covers (exact_halo b) p \<longrightarrow> covers (exact_rect (mf_die m) 0) p) \<and>
    (\<forall>b \<in> set (mf_blocks m). \<forall>c \<in> set (mf_blocks m). bk_instance b \<noteq> bk_instance c \<longrightarrow>
       \<not> (\<exists>p. interior (exact_halo b) p \<and> interior (exact_halo c) p)) \<and>
    (\<forall>r \<in> set (mf_reserved_regions m @ mf_routing_corridors m). rg_blocks_prohibited r \<longrightarrow>
       (\<forall>b \<in> set (mf_blocks m). \<not> (\<exists>p. interior (exact_halo b) p \<and> interior (exact_rect (rg_rect r) 0) p))) \<and>
    (\<forall>t \<in> set (mf_tsv_bundles m). \<forall>column \<in> {0..<bn_columns t}. \<forall>row \<in> {0..<bn_rows t}. \<forall>b \<in> set (mf_blocks m). \<forall>p.
       covers (exact_halo b) p \<longrightarrow> exact_radius t * exact_radius t \<le> dist2 (element t column row) p)"
proof -
  from assms(1) have ok: "ids_ok m" "blocks_ok m" "regions_ok m" "verticals_ok hypot m" by (simp_all add: validate_Inr)
  have "covers (exact_rect (mf_die m) 0) p" if "b \<in> set (mf_blocks m)" "covers (exact_halo b) p" for b p
  proof -
    have "contained (exact_halo b) (exact_rect (mf_die m) 0)"
      using ok(2) that(1) grid_blocks(1) [OF assms(2) that(1)] grid_die [OF assms(2)] by (metis blocks_ok_def)
    then show ?thesis using that(2) by (rule contained_covers)
  qed
  moreover have "\<not> (\<exists>p. interior (exact_halo b) p \<and> interior (exact_rect (rg_rect r) 0) p)"
    if "r \<in> set (mf_reserved_regions m @ mf_routing_corridors m)" "rg_blocks_prohibited r" "b \<in> set (mf_blocks m)" for r b
    using ok(3) that grid_blocks [OF assms(2) that(3)] grid_regions [OF assms(2) that(1)] overlaps_interior by (metis regions_ok_def)
  ultimately show ?thesis
    using blocks_apart [OF assms(2) ok(1,2)] tsv_apart [OF assms(2) ok(1,4)] by auto
qed

section \<open>Witness\<close>

text \<open>Two blocks, a prohibited strip and a TSV between the blocks.\<close>

definition square_block :: "string \<Rightarrow> rat \<Rightarrow> block" where
  "square_block name at_um = \<lparr>bk_instance = name, bk_rect = \<lparr>x_um = at_um, y_um = at_um, width_um = 20, height_um = 20\<rparr>, bk_halo_um = 5,
     bk_allowed_region = None, bk_orientation = ''N'', bk_placement_source = ''p'', bk_status = ''s'', bk_classification = ''c'',
     bk_confidence = ''f''\<rparr>"

definition one_tsv :: vertical where
  "one_tsv = \<lparr>bn_bundle_id = ''t'', bn_kind = ''tsv'', bn_signal_class = ''data'', bn_source = ''ch'', bn_destinations = [''a''],
     bn_direction = ''up'', bn_classification = ''c'', bn_confidence = ''f'', bn_x_um = 40, bn_y_um = 40, bn_rows = 1, bn_columns = 1,
     bn_pitch_um = 10, bn_diameter_um = 4, bn_keepout_um = 2, bn_redundancy_count = 0, bn_uncertainty = None\<rparr>"

definition two_blocks :: manifest where
  "two_blocks = \<lparr>mf_manifest_id = ''m'', mf_die = \<lparr>x_um = 0, y_um = 0, width_um = 100, height_um = 100\<rparr>, mf_external_endpoints = [''ch''],
     mf_blocks = [square_block ''a'' 10, square_block ''b'' 50], mf_tsv_bundles = [one_tsv], mf_micro_bump_bundles = [],
     mf_reserved_regions = [\<lparr>rg_region_id = ''r'', rg_rect = \<lparr>x_um = 0, y_um = 90, width_um = 100, height_um = 10\<rparr>, rg_blocks_prohibited = True\<rparr>],
     mf_routing_corridors = []\<rparr>"

lemma two_blocks_valid: "validate (\<lambda>_. True) (\<lambda>_ _. 0) two_blocks None = Inr (counts two_blocks None)"
proof -
  have p: "bundle_points one_tsv = [(40, 40)]" by (simp add: bundle_points_def one_tsv_def fl_numeral fl_0)
  have r: "radius_of one_tsv = 4" by (simp add: radius_of_def one_tsv_def fl_numeral)
  have h: "halo_rect (square_block n 10) = (5, 5, 35, 35)" "halo_rect (square_block n 50) = (45, 45, 75, 75)" for n
    by (simp_all add: halo_rect_def rectangle_def square_block_def fl_numeral)
  have d: "die_rect two_blocks = (0, 0, 100, 100)" by (simp add: die_rect_def rectangle_def two_blocks_def fl_numeral fl_0)
  have e: "endpoints two_blocks = {''ch'', ''a'', ''b'', ''t''}" by (auto simp: endpoints_def two_blocks_def square_block_def one_tsv_def)
  have "element_ok two_blocks one_tsv (40, 40)"
    unfolding element_ok_def d r by (simp add: two_blocks_def h fl_numeral fl_minus Let_def)
  then have v: "verticals_ok (\<lambda>_ _. 0) two_blocks"
    unfolding verticals_ok_def e by (simp add: two_blocks_def p one_tsv_def [THEN arg_cong [of _ _ bn_source]] tsv_points_def)
      (simp add: one_tsv_def)
  have "ids_ok two_blocks" by (simp add: ids_ok_def two_blocks_def square_block_def one_tsv_def)
  moreover have "blocks_ok two_blocks" unfolding blocks_ok_def d by (auto simp: two_blocks_def h less_Suc_eq) (simp_all add: square_block_def)
  moreover have "regions_ok two_blocks" unfolding regions_ok_def d by (simp add: two_blocks_def h rectangle_def fl_numeral fl_0)
  ultimately show ?thesis using v by (simp add: validate_Inr)
qed

lemma two_blocks_grid: "on_grid two_blocks"
proof -
  have g: "grid 1048576 (of_int k)" if "16 * \<bar>k\<bar> \<le> 1048576" for k
    using that unfolding grid_def by (intro exI [of _ "16 * k"]) simp
  have n: "grid 1048576 (numeral k)" if "(16 * numeral k :: int) \<le> 1048576" for k
    using g [of "numeral k"] that by (simp only: of_int_numeral abs_numeral)
  show ?thesis
    by (simp add: on_grid_def rect_grid_def vertical_grid_def two_blocks_def square_block_def one_tsv_def n)
qed

lemma accepted_floorplan_geometry_witness:
  "\<not> (\<exists>p. interior (exact_halo (square_block ''a'' 10)) p \<and> interior (exact_halo (square_block ''b'' 50)) p) \<and>
   {p. covers (exact_halo (square_block ''b'' 50)) p} \<subseteq> {p. 16 \<le> dist2 (40, 40) p}"
proof -
  have m: "square_block ''a'' 10 \<in> set (mf_blocks two_blocks)" "square_block ''b'' 50 \<in> set (mf_blocks two_blocks)"
    "one_tsv \<in> set (mf_tsv_bundles two_blocks)" "bn_columns one_tsv = 1" "bn_rows one_tsv = 1"
    "bk_instance (square_block ''a'' 10) \<noteq> bk_instance (square_block ''b'' 50)" "exact_radius one_tsv = 4" "element one_tsv 0 0 = (40, 40)"
    by (simp_all add: two_blocks_def square_block_def one_tsv_def exact_radius_def element_def)
  note g = accepted_floorplan_geometry [OF two_blocks_valid two_blocks_grid]
  have "\<not> (\<exists>p. interior (exact_halo (square_block ''a'' 10)) p \<and> interior (exact_halo (square_block ''b'' 50)) p)"
    using g m(1,2,6) by blast
  moreover have "exact_radius one_tsv * exact_radius one_tsv \<le> dist2 (element one_tsv 0 0) p" if "covers (exact_halo (square_block ''b'' 50)) p" for p
    using g m(2-5) that by (metis atLeastLessThan_iff order_refl zero_less_one)
  ultimately show ?thesis using m(7,8) by auto
qed

end
