(* ===== verification/Floorplan_Search_Props.thy ===== *)
theory Floorplan_Search_Props
  imports Floorplan_Search Floorplan_Props
begin

text \<open>
  Properties of the floorplan search: its hard violations are exactly what makes the validation
  refuse a moved floorplan, the documents it keeps, and the Pareto frontier.
\<close>

section \<open>Hard violations and validation\<close>

lemma sort_remdups_Nil: "sort (remdups xs) = [] \<longleftrightarrow> xs = []"
  by (simp add: sort_eq_Nil)

lemma block_violations_Nil: "block_violations m b = [] \<longleftrightarrow> contained (halo_rect b) (die_rect m) \<and>
    (\<forall>region. bk_allowed_region b = Some region \<longrightarrow> contained (rectangle (bk_rect b) 0) (rectangle region 0))"
  by (auto simp: block_violations_def block_rect_def halo_rect_def die_rect_def split: option.splits)

lemma overlap_violations_Nil: "overlap_violations rects = [] \<longleftrightarrow>
    (\<forall>j < length rects. \<forall>i < j. \<not> overlaps (snd (rects ! i)) (snd (rects ! j)))"
proof -
  have "overlap_violations rects = [] \<longleftrightarrow> all_pairs (\<lambda>(_, a) (_, b). refuse (overlaps a b) '''') rects = Inr ()"
  proof (induction rects)
    case (Cons x rects)
    obtain name r where "x = (name, r)" by (cases x)
    with Cons show ?case by (auto simp: and_then_eq_Inr filter_empty_conv case_prod_beta simp del: all_pairs_Inr)
  qed simp
  then show ?thesis by (simp add: case_prod_beta)
qed

lemma region_violations_Nil: "region_violations rects r = [] \<longleftrightarrow>
    (rg_blocks_prohibited r \<longrightarrow> (\<forall>(name, rect) \<in> set rects. \<not> overlaps rect (rectangle (rg_rect r) 0)))"
  by (auto simp: region_violations_def filter_empty_conv)

lemma point_violations_Nil: "point_violations rects t point = [] \<longleftrightarrow>
    (\<forall>(name, rect) \<in> set rects. \<not> circle_hits_rect (fst point) (snd point) (radius_of t) rect)"
proof -
  have "point_violations rects t point = [] \<longleftrightarrow> filter (\<lambda>(_, rect). circle_hits_rect (fst point) (snd point) (radius_of t) rect) rects = []"
    by (simp add: point_violations_def split: list.split)
  then show ?thesis by (auto simp: filter_empty_conv)
qed

lemma hard_violations_Nil: "hard_violations m = [] \<longleftrightarrow> blocks_ok m \<and>
    (\<forall>r \<in> set (mf_reserved_regions m). rg_blocks_prohibited r \<longrightarrow> (\<forall>b \<in> set (mf_blocks m). \<not> overlaps (halo_rect b) (rectangle (rg_rect r) 0))) \<and>
    (\<forall>t \<in> set (mf_tsv_bundles m). \<forall>point \<in> set (bundle_points t). \<forall>b \<in> set (mf_blocks m).
       \<not> circle_hits_rect (fst point) (snd point) (radius_of t) (halo_rect b))"
proof -
  have rects: "block_rect = (\<lambda>b. (bk_instance b, halo_rect b))" by (auto simp: block_rect_def halo_rect_def)
  show ?thesis
    unfolding hard_violations_def Let_def sort_remdups_Nil append_is_Nil_conv rects blocks_ok_def
    by (simp add: block_violations_Nil overlap_violations_Nil region_violations_Nil point_violations_Nil)
qed

lemma candidate_blocks:
  assumes "doc = candidate_from_assignment candidate_id base slots a"
  shows "map bk_instance (mf_blocks doc) = map bk_instance (mf_blocks base)" "mf_die doc = mf_die base"
    "mf_external_endpoints doc = mf_external_endpoints base" "mf_tsv_bundles doc = mf_tsv_bundles base"
    "mf_micro_bump_bundles doc = mf_micro_bump_bundles base" "mf_reserved_regions doc = mf_reserved_regions base"
    "mf_routing_corridors doc = mf_routing_corridors base" "mf_manifest_id doc = candidate_id (mf_blocks doc)"
  by (auto simp: assms candidate_from_assignment_def Let_def place_def intro!: nth_equalityI)

text \<open>
  C22: the fast test of the search agrees with the full validation. For a candidate made from a
  valid base floorplan without routing corridors that prohibit blocks, if it satisfies the
  schema, the validation accepts it exactly when it has no hard violation.
\<close>

theorem hard_violations_exact:
  assumes "validate schema_ok hypot base csv = Inr report" "\<forall>r \<in> set (mf_routing_corridors base). \<not> rg_blocks_prohibited r"
    and "doc = candidate_from_assignment candidate_id base slots a" "schema_ok doc"
  shows "hard_violations doc = [] \<longleftrightarrow> validate schema_ok hypot doc None = Inr (counts doc None)"
proof -
  note c = candidate_blocks [OF assms(3)]
  from assms(1) have base: "ids_ok base" "regions_ok base" "verticals_ok hypot base" by (simp_all add: validate_Inr)
  have e: "endpoints doc = endpoints base" "die_rect doc = die_rect base" "tsv_points doc = tsv_points base"
    unfolding endpoints_def die_rect_def tsv_points_def by (simp_all only: c)
  have ids: "ids_ok doc" using base(1) unfolding ids_ok_def c by blast
  have kind: "t \<in> set (mf_tsv_bundles base) \<Longrightarrow> bn_kind t = ''tsv''" "t \<in> set (mf_micro_bump_bundles base) \<Longrightarrow> bn_kind t \<noteq> ''tsv''" for t
    using base(1) by (auto simp: ids_ok_def)
  have regions: "regions_ok doc \<longleftrightarrow> (\<forall>r \<in> set (mf_reserved_regions doc). rg_blocks_prohibited r \<longrightarrow>
      (\<forall>b \<in> set (mf_blocks doc). \<not> overlaps (halo_rect b) (rectangle (rg_rect r) 0)))"
    using base(2) assms(2) unfolding regions_ok_def e(2) by (auto simp: c)
  have verticals: "verticals_ok hypot doc \<longleftrightarrow> (\<forall>t \<in> set (mf_tsv_bundles doc). \<forall>point \<in> set (bundle_points t). \<forall>b \<in> set (mf_blocks doc).
      \<not> circle_hits_rect (fst point) (snd point) (radius_of t) (halo_rect b))" (is "_ \<longleftrightarrow> ?clear")
  proof
    assume ok: "verticals_ok hypot doc"
    have "\<not> circle_hits_rect (fst point) (snd point) (radius_of t) (halo_rect b)"
      if "t \<in> set (mf_tsv_bundles doc)" "point \<in> set (bundle_points t)" "b \<in> set (mf_blocks doc)" for t point b
    proof -
      have "element_ok doc t point" using ok that(1,2) by (auto simp: verticals_ok_def)
      with kind(1) that(1,3) show ?thesis by (auto simp: element_ok_def c split: prod.splits)
    qed
    then show ?clear by auto
  next
    assume ?clear
    then have "element_ok doc t point" if "t \<in> set (mf_tsv_bundles base @ mf_micro_bump_bundles base)" "point \<in> set (bundle_points t)" "element_ok base t point" for t point
      using that kind(2) unfolding element_ok_def e(2) c by (cases point) (fastforce split: prod.splits)
    with base(3) show "verticals_ok hypot doc" unfolding verticals_ok_def e c by auto
  qed
  show ?thesis using ids assms(4) unfolding hard_violations_Nil validate_Inr regions verticals by auto
qed

section \<open>What the search keeps\<close>

definition kept :: "(block list \<Rightarrow> string) \<Rightarrow> manifest \<Rightarrow> (string \<times> manifest \<times> string) list \<Rightarrow> bool" where
  "kept candidate_id base documents \<longleftrightarrow> distinct (map fst documents) \<and>
     (\<forall>(identifier, doc, origin) \<in> set documents. identifier = candidate_id (mf_blocks doc) \<and>
        (\<exists>a. doc = candidate_from_assignment candidate_id base (base_slots base) a) \<and>
        (origin = ''manual_baseline'' \<or> hard_violations doc = []))"

lemma candidate_id_of: "mf_manifest_id (candidate_from_assignment candidate_id base slots a) =
    candidate_id (mf_blocks (candidate_from_assignment candidate_id base slots a))"
  by (simp add: candidate_from_assignment_def Let_def)

lemma kept_step: "kept candidate_id base (se_documents s) \<Longrightarrow> kept candidate_id base (se_documents (search_step candidate_id base indexed s))"
  by (auto simp: search_step_def Let_def setdefault_def kept_def candidate_id_of rev_image_eqI)

lemma kept_fold: "kept candidate_id base (se_documents s) \<Longrightarrow> kept candidate_id base (se_documents (fold (search_step candidate_id base) xs s))"
  by (induction xs arbitrary: s) (simp_all add: kept_step)

lemma search_kept: "kept candidate_id base (se_documents (search_all candidate_id base attempts))"
proof -
  have "kept candidate_id base [(mf_manifest_id doc, doc, ''manual_baseline'')]"
    if "doc = candidate_from_assignment candidate_id base (base_slots base) (manual base)" for doc
    using that by (auto simp: kept_def candidate_id_of)
  then show ?thesis unfolding search_all_def Let_def by (intro kept_fold) simp
qed

text \<open>Every attempt is either rejected with its violations or among the documents by its name.\<close>

lemma setdefault_keys: "fst ` set (setdefault k v d) = insert k (fst ` set d)"
  by (auto simp: setdefault_def)

definition settled :: "(block list \<Rightarrow> string) \<Rightarrow> manifest \<Rightarrow> attempt \<Rightarrow> search \<Rightarrow> bool" where
  "settled candidate_id base a s \<longleftrightarrow> (let doc = candidate_from_assignment candidate_id base (base_slots base) a in
     if hard_violations doc = [] then mf_manifest_id doc \<in> fst ` set (se_documents s)
     else \<exists>i. (i, mf_manifest_id doc, hard_violations doc) \<in> set (se_rejected s))"

lemma settled_step: "settled candidate_id base a s \<Longrightarrow> settled candidate_id base a (search_step candidate_id base indexed s)"
  "settled candidate_id base (snd indexed) (search_step candidate_id base indexed s)"
  by (auto simp: settled_def search_step_def Let_def setdefault_def split: if_splits)

lemma settled_fold: "(\<exists>i. (i, a) \<in> set xs) \<or> settled candidate_id base a s \<Longrightarrow> settled candidate_id base a (fold (search_step candidate_id base) xs s)"
  by (induction xs arbitrary: s) (auto intro: settled_step settled_step(2) [of _ _ "(_, a)", simplified])

lemma min_by_least:
  assumes "min_by key xs = Inr x"
  shows "x \<in> set xs \<and> (\<forall>y \<in> set xs. key x \<le> key y)"
proof -
  obtain z zs where xs: "xs = z # zs" "x = foldl (\<lambda>best x. if key x < key best then x else best) z zs"
    using assms by (cases xs) (auto simp: min_by_def)
  have "foldl (\<lambda>best x. if key x < key best then x else best) z zs \<in> set (z # zs) \<and>
      (\<forall>y \<in> set (z # zs). key (foldl (\<lambda>best x. if key x < key best then x else best) z zs) \<le> key y)"
  proof (induction zs rule: rev_induct)
    case (snoc y zs)
    then show ?case by (auto simp: not_less intro: order_trans less_imp_le)
  qed simp
  with xs show ?thesis by simp
qed

section \<open>Domination\<close>

lemma eps12_bounds: "0 < eps12" "eps12 < 1 / 32" "1 / 2 ^ 40 < eps12" "eps12 < 1 / 2 ^ 39"
  by (simp_all add: eps12_def)

lemma grid_gap: "grid a x \<Longrightarrow> grid b y \<Longrightarrow> x < y \<Longrightarrow> x + 1 / 16 \<le> y"
proof -
  assume "grid a x" "grid b y" "x < y"
  then obtain j k where "x = of_int j / 16" "y = of_int k / 16" by (auto simp: grid_def)
  with \<open>x < y\<close> have "j + 1 \<le> k" by simp
  then have "(of_int (j + 1) :: rat) \<le> of_int k" by (simp only: of_int_le_iff)
  then show ?thesis by (simp add: \<open>x = _\<close> \<open>y = _\<close>)
qed

lemma grid_half_step:
  assumes "grid (2 ^ 49) y"
  shows "fl (y + 1 / 32) = y + 1 / 32" "fl (y - 1 / 32) = y - 1 / 32"
proof -
  from assms obtain k where k: "y = of_int k / 16" "\<bar>k\<bar> \<le> 2 ^ 49" by (auto simp: grid_def)
  have "y + 1 / 32 = of_int (2 * k + 1) / 2 ^ 5" "y - 1 / 32 = of_int (2 * k - 1) / 2 ^ 5" by (simp_all add: k(1) field_simps)
  then show "fl (y + 1 / 32) = y + 1 / 32" "fl (y - 1 / 32) = y - 1 / 32"
    using fl_dyadic [of "2 * k + 1" 5] fl_dyadic [of "2 * k - 1" 5] k(2) by (simp_all only:) (simp_all add: abs_le_iff)
qed

text \<open>On nonnegative grid values the tolerance of the comparison has no effect.\<close>

lemma tolerance_exact:
  assumes "grid (2 ^ 49) x" "0 \<le> x" "grid (2 ^ 49) y" "0 \<le> y"
  shows "x \<le> fl (y + eps12) \<longleftrightarrow> x \<le> y" "x < fl (y - eps12) \<longleftrightarrow> x < y"
proof -
  have flx: "fl x = x" and fly: "fl y = y" using assms grid_fl [of "2 ^ 49"] by simp_all
  show "x \<le> fl (y + eps12) \<longleftrightarrow> x \<le> y"
  proof
    assume "x \<le> y"
    then have "fl x \<le> fl (y + eps12)" using assms(2) eps12_bounds(1) by (intro fl_mono) simp_all
    with flx show "x \<le> fl (y + eps12)" by simp
  next
    assume le: "x \<le> fl (y + eps12)"
    have "fl (y + eps12) \<le> fl (y + 1 / 32)" using assms(4) eps12_bounds(1,2) by (intro fl_mono) simp_all
    with le have "x \<le> y + 1 / 32" using grid_half_step(1) [OF assms(3)] by simp
    then show "x \<le> y" using grid_gap [OF assms(3,1)] by linarith
  qed
  show "x < fl (y - eps12) \<longleftrightarrow> x < y"
  proof
    assume "x < y"
    then have le: "x + 1 / 16 \<le> y" by (rule grid_gap [OF assms(1,3)])
    with assms(2) have "fl (y - 1 / 32) \<le> fl (y - eps12)" using eps12_bounds(2) by (intro fl_mono) linarith+
    with le show "x < fl (y - eps12)" using grid_half_step(2) [OF assms(3)] by linarith
  next
    assume lt: "x < fl (y - eps12)"
    have "fl (y - eps12) \<le> y"
    proof (cases "eps12 \<le> y")
      case True
      then have "fl (y - eps12) \<le> fl y" using eps12_bounds(1) by (intro fl_mono) simp_all
      with fly show ?thesis by simp
    next
      case False
      then have "0 \<le> fl (eps12 - y)" by (intro fl_nonneg) simp
      then have "fl (y - eps12) \<le> 0" using fl_minus [of "eps12 - y"] by simp
      with assms(4) show ?thesis by simp
    qed
    with lt show "x < y" by simp
  qed
qed

definition coarse :: "string list \<Rightarrow> candidate list \<Rightarrow> bool" where
  "coarse keys rows \<longleftrightarrow> (\<forall>row \<in> set rows. \<forall>key \<in> set keys. grid (2 ^ 49) (ca_metrics row key) \<and> 0 \<le> ca_metrics row key)"

definition better :: "string list \<Rightarrow> candidate \<Rightarrow> candidate \<Rightarrow> bool" where
  "better keys a b \<longleftrightarrow> (\<forall>key \<in> set keys. ca_metrics a key \<le> ca_metrics b key) \<and> (\<exists>key \<in> set keys. ca_metrics a key < ca_metrics b key)"

lemma dominates_better:
  assumes "coarse keys rows" "a \<in> set rows" "b \<in> set rows"
  shows "dominates keys a b \<longleftrightarrow> better keys a b"
  using assms tolerance_exact by (auto simp: dominates_def better_def coarse_def list_all_iff list_ex_iff)

lemma better_trans: "better keys a b \<Longrightarrow> better keys b c \<Longrightarrow> better keys a c"
  unfolding better_def by (meson order_trans less_le_trans)

lemma better_sum: "better keys a b \<Longrightarrow> (\<Sum>key \<leftarrow> remdups keys. ca_metrics a key) < (\<Sum>key \<leftarrow> remdups keys. ca_metrics b key)"
proof -
  assume "better keys a b"
  then have "(\<Sum>key \<in> set keys. ca_metrics a key) < (\<Sum>key \<in> set keys. ca_metrics b key)"
    by (intro sum_strict_mono_ex1) (auto simp: better_def)
  then show ?thesis by (simp add: sum_list_distinct_conv_sum_set)
qed

text \<open>
  C26: the Pareto marking is right on metrics that are nonnegative multiples of a sixteenth.
  The frontier holds exactly the rows no other row is better than, each marked, and every other
  row is beaten by a row of the frontier.
\<close>

theorem pareto_frontier_covers:
  assumes "coarse keys rows" "pareto keys rows = (marked, frontier)"
  shows "frontier = filter ca_pareto marked \<and> length marked = length rows \<and>
    (\<forall>i < length rows. ca_metrics (marked ! i) = ca_metrics (rows ! i) \<and>
       (ca_pareto (marked ! i) \<longleftrightarrow> \<not> (\<exists>j < length rows. better keys (rows ! j) (rows ! i))) \<and>
       (ca_pareto (marked ! i) \<or> (\<exists>j < length rows. ca_pareto (marked ! j) \<and> better keys (rows ! j) (rows ! i))))"
proof -
  have marked: "marked = map (\<lambda>i. (rows ! i)\<lparr>ca_pareto := \<not> dominated keys rows i\<rparr>) [0..<length rows]" "frontier = filter ca_pareto marked"
    using assms(2) by (auto simp: pareto_def Let_def)
  have irrefl: "\<not> better keys a a" for a by (simp add: better_def)
  have mark: "ca_pareto (marked ! i) \<longleftrightarrow> \<not> (\<exists>j < length rows. better keys (rows ! j) (rows ! i))" if "i < length rows" for i
    using that irrefl dominates_better [OF assms(1)] by (auto simp: marked(1) dominated_def list_ex_iff) (metis atLeastLessThan_iff irrefl zero_le)
  have cover: "\<exists>j < length rows. ca_pareto (marked ! j) \<and> better keys (rows ! j) (rows ! i)"
    if i: "i < length rows" "\<not> ca_pareto (marked ! i)" for i
  proof -
    let ?D = "{j. j < length rows \<and> better keys (rows ! j) (rows ! i)}" and ?w = "\<lambda>j. \<Sum>key \<leftarrow> remdups keys. ca_metrics (rows ! j) key"
    have D: "finite ?D" "?D \<noteq> {}" using i mark by auto
    then obtain j where j: "j \<in> ?D" "\<And>k. k \<in> ?D \<Longrightarrow> ?w j \<le> ?w k" using arg_min_if_finite [OF D, of ?w] by (metis (no_types, lifting) not_less)
    have "\<not> better keys (rows ! k) (rows ! j)" if "k < length rows" for k
    proof
      assume b: "better keys (rows ! k) (rows ! j)"
      with j(1) that have "k \<in> ?D" using better_trans by blast
      with j(2) better_sum [OF b] show False by (meson not_less)
    qed
    with j(1) mark show ?thesis by auto
  qed
  show ?thesis using marked mark cover by (auto simp: marked(1))
qed

lemma ids_normalize: "map (\<lambda>r. (ca_candidate_id r, ca_origin r)) (normalize keys rows) = map (\<lambda>r. (ca_candidate_id r, ca_origin r)) rows"
  by (simp add: normalize_def o_def)

lemma ids_score: "map (\<lambda>r. (ca_candidate_id r, ca_origin r)) (score fsum profiles rows) = map (\<lambda>r. (ca_candidate_id r, ca_origin r)) rows"
  by (simp add: score_def o_def)

lemma ids_pareto: "map (\<lambda>r. (ca_candidate_id r, ca_origin r)) (fst (pareto keys rows)) = map (\<lambda>r. (ca_candidate_id r, ca_origin r)) rows"
  by (auto simp: pareto_def Let_def intro!: nth_equalityI)

lemma ids_rows_of: "map (\<lambda>r. (ca_candidate_id r, ca_origin r)) (rows_of metrics documents) = map (\<lambda>(i, _, origin). (i, origin)) documents"
  by (simp add: rows_of_def o_def case_prod_beta)

lemma selections_rows: "selections rows = Inr selected \<Longrightarrow> snd ` set selected \<subseteq> set rows"
  by (auto simp: selections_def and_then_eq_Inr least_score_def filter_eq_Cons_iff split: list.splits if_splits dest!: min_by_least)

lemma optimize_Inr:
  assumes "optimize candidate_id metrics fsum schema_ok hypot base profiles perturbations attempts = Inr ex"
  defines "s \<equiv> search_all candidate_id base attempts"
  shows "4 \<le> length (se_documents s)" "mset (map (\<lambda>r. (ca_candidate_id r, ca_origin r)) (ex_rows ex)) = mset (map (\<lambda>(i, _, origin). (i, origin)) (se_documents s))"
    and "selections (ex_rows ex) = Inr (ex_selected ex)" "map_r (export schema_ok hypot (se_documents s)) (ex_selected ex) = Inr (ex_documents ex)"
    and "ex_rejected ex = se_rejected s"
proof -
  let ?rows = "score fsum profiles (normalize (map snd score_keys) (rows_of metrics (se_documents s)))"
  obtain marked frontier where p: "pareto (map snd score_keys) ?rows = (marked, frontier)" by fastforce
  with assms(1) have len: "4 \<le> length (rows_of metrics (se_documents s))" and ex: "ex_rows ex = sort_key ca_candidate_id marked"
    and rest: "selections (ex_rows ex) = Inr (ex_selected ex)" "map_r (export schema_ok hypot (se_documents s)) (ex_selected ex) = Inr (ex_documents ex)"
      "ex_rejected ex = se_rejected s"
    by (auto simp: optimize_def Let_def and_then_eq_Inr s_def split: if_splits)
  show "4 \<le> length (se_documents s)" using len by (simp add: rows_of_def)
  have "map (\<lambda>r. (ca_candidate_id r, ca_origin r)) marked = map (\<lambda>(i, _, origin). (i, origin)) (se_documents s)"
    using ids_pareto [of "map snd score_keys" ?rows] p by (simp add: ids_score ids_normalize ids_rows_of)
  moreover have "mset (map (\<lambda>r. (ca_candidate_id r, ca_origin r)) (ex_rows ex)) = mset (map (\<lambda>r. (ca_candidate_id r, ca_origin r)) marked)"
    by (simp add: ex)
  ultimately show "mset (map (\<lambda>r. (ca_candidate_id r, ca_origin r)) (ex_rows ex)) = mset (map (\<lambda>(i, _, origin). (i, origin)) (se_documents s))" by simp
  show "selections (ex_rows ex) = Inr (ex_selected ex)" "map_r (export schema_ok hypot (se_documents s)) (ex_selected ex) = Inr (ex_documents ex)"
    "ex_rejected ex = se_rejected s" by (fact rest)+
qed

text \<open>
  C23: what a search that succeeds has established. Its rows have distinct names, every row
  stands for a candidate made from the base floorplan that is the manual baseline or free of
  hard violations, every attempt is in the rows by its name or rejected with its violations,
  the selections are rows, and every exported document passes the full validation.
\<close>

theorem exploration_sound:
  assumes "optimize candidate_id metrics fsum schema_ok hypot base profiles perturbations attempts = Inr ex"
  shows "4 \<le> length (ex_rows ex) \<and> distinct (map ca_candidate_id (ex_rows ex)) \<and>
    (\<forall>row \<in> set (ex_rows ex). \<exists>doc a. doc = candidate_from_assignment candidate_id base (base_slots base) a \<and>
       ca_candidate_id row = candidate_id (mf_blocks doc) \<and> (ca_origin row = ''manual_baseline'' \<or> hard_violations doc = [])) \<and>
    (\<forall>a \<in> set attempts. let doc = candidate_from_assignment candidate_id base (base_slots base) a in
       if hard_violations doc = [] then mf_manifest_id doc \<in> ca_candidate_id ` set (ex_rows ex)
       else \<exists>i. (i, mf_manifest_id doc, hard_violations doc) \<in> set (ex_rejected ex)) \<and>
    snd ` set (ex_selected ex) \<subseteq> set (ex_rows ex) \<and>
    (\<forall>doc \<in> set (ex_documents ex). validate schema_ok hypot doc None = Inr (counts doc None))"
proof -
  let ?s = "search_all candidate_id base attempts"
  note o = optimize_Inr [OF assms]
  have kept: "kept candidate_id base (se_documents ?s)" by (rule search_kept)
  have len: "4 \<le> length (ex_rows ex)" using o(1) arg_cong [OF o(2), of size] by simp
  have set_eq: "(\<lambda>r. (ca_candidate_id r, ca_origin r)) ` set (ex_rows ex) = (\<lambda>(i, _, origin). (i, origin)) ` set (se_documents ?s)"
    using arg_cong [OF o(2), of set_mset] by (simp only: set_mset_mset set_map)
  have m: "mset (map ca_candidate_id (ex_rows ex)) = mset (map fst (se_documents ?s))"
    using arg_cong [OF o(2), of "image_mset fst"] by (simp add: image_mset.compositionality o_def case_prod_beta)
  have "distinct (map fst (se_documents ?s))" using kept by (simp add: kept_def)
  then have ids: "distinct (map ca_candidate_id (ex_rows ex))" using mset_eq_imp_distinct_iff [OF m] by simp
  have names: "ca_candidate_id ` set (ex_rows ex) = fst ` set (se_documents ?s)"
    using arg_cong [OF m, of set_mset] by simp
  have rows: "\<exists>doc a. doc = candidate_from_assignment candidate_id base (base_slots base) a \<and>
      ca_candidate_id row = candidate_id (mf_blocks doc) \<and> (ca_origin row = ''manual_baseline'' \<or> hard_violations doc = [])"
    if "row \<in> set (ex_rows ex)" for row
  proof -
    from that set_eq have "(ca_candidate_id row, ca_origin row) \<in> (\<lambda>(i, _, origin). (i, origin)) ` set (se_documents ?s)" by blast
    then obtain doc where "(ca_candidate_id row, doc, ca_origin row) \<in> set (se_documents ?s)" by auto
    with kept have "ca_candidate_id row = candidate_id (mf_blocks doc) \<and>
        (\<exists>a. doc = candidate_from_assignment candidate_id base (base_slots base) a) \<and>
        (ca_origin row = ''manual_baseline'' \<or> hard_violations doc = [])" by (fastforce simp: kept_def)
    then show ?thesis by blast
  qed
  have attempts: "settled candidate_id base a ?s" if "a \<in> set attempts" for a
  proof -
    have "\<exists>i. (i, a) \<in> set (enumerate 0 attempts)" using that by (auto simp: in_set_conv_nth [of a] in_set_enumerate_eq)
    then show ?thesis unfolding search_all_def Let_def by (intro settled_fold disjI1)
  qed
  have "validate schema_ok hypot doc None = Inr (counts doc None)" if "doc \<in> set (ex_documents ex)" for doc
    using map_r_set [OF o(4) that] by (auto simp: export_def Let_def and_then_eq_Inr validate_Inr split: option.splits)
  moreover have "let doc = candidate_from_assignment candidate_id base (base_slots base) a in
      if hard_violations doc = [] then mf_manifest_id doc \<in> ca_candidate_id ` set (ex_rows ex)
      else \<exists>i. (i, mf_manifest_id doc, hard_violations doc) \<in> set (ex_rejected ex)" if "a \<in> set attempts" for a
    using attempts [OF that] unfolding settled_def names o(5) .
  ultimately show ?thesis using len ids rows selections_rows [OF o(3)] by blast
qed

definition point :: "rat \<Rightarrow> candidate" where
  "point v = \<lparr>ca_candidate_id = ''c'', ca_origin = ''o'', ca_metrics = (\<lambda>_. v), ca_norm = (\<lambda>_. 0), ca_scores = [], ca_pareto = False\<rparr>"

section \<open>One block in four orientations\<close>

definition lone_block :: block where
  "lone_block = \<lparr>bk_instance = ''a'', bk_rect = \<lparr>x_um = 10, y_um = 10, width_um = 20, height_um = 30\<rparr>, bk_halo_um = 5,
     bk_allowed_region = None, bk_orientation = ''N'', bk_placement_source = ''p'', bk_status = ''s'', bk_classification = ''c'',
     bk_confidence = ''f''\<rparr>"

definition lone_manifest :: manifest where
  "lone_manifest = \<lparr>mf_manifest_id = ''m'', mf_die = \<lparr>x_um = 0, y_um = 0, width_um = 100, height_um = 100\<rparr>, mf_external_endpoints = [],
     mf_blocks = [lone_block], mf_tsv_bundles = [], mf_micro_bump_bundles = [], mf_reserved_regions = [], mf_routing_corridors = []\<rparr>"

definition turned :: "string \<Rightarrow> attempt" where
  "turned orientation = \<lparr>at_permutation = [0], at_jitter = [(0, 0)], at_orientations = [orientation]\<rparr>"

definition turn_name :: "block list \<Rightarrow> string" where
  "turn_name blocks = concat (map bk_orientation blocks)"

definition turned_manifest :: "string \<Rightarrow> manifest" where
  "turned_manifest orientation = candidate_from_assignment turn_name lone_manifest (base_slots lone_manifest) (turned orientation)"

definition flat_profiles :: "(string \<times> weights) list" where
  "flat_profiles = map (\<lambda>p. (p, \<lparr>we_groups = [''thermal''], we_weight = (\<lambda>_. 1)\<rparr>)) [''thermal_first'', ''balanced'', ''cost_first'']"

lemma turned_blocks: "mf_blocks (turned_manifest t) = [place (10, 10) (0, 0) t lone_block]"
  "mf_die (turned_manifest t) = \<lparr>x_um = 0, y_um = 0, width_um = 100, height_um = 100\<rparr>"
  "mf_tsv_bundles (turned_manifest t) = []" "mf_micro_bump_bundles (turned_manifest t) = []"
  "mf_reserved_regions (turned_manifest t) = []" "mf_routing_corridors (turned_manifest t) = []" "mf_manifest_id (turned_manifest t) = t"
  by (simp_all add: turned_manifest_def candidate_from_assignment_def lone_manifest_def base_slots_def turned_def lone_block_def turn_name_def place_def)

lemma turned_clean: "hard_violations (turned_manifest t) = []"
  unfolding hard_violations_Nil
  by (simp add: turned_blocks blocks_ok_def halo_rect_def die_rect_def rectangle_def place_def lone_block_def fl_numeral fl_0)

lemma lone_valid: "validate (\<lambda>_. True) (\<lambda>_ _. 0) lone_manifest None = Inr (counts lone_manifest None)"
  by (simp add: validate_Inr ids_ok_def blocks_ok_def regions_ok_def verticals_ok_def lone_manifest_def lone_block_def halo_rect_def die_rect_def
      rectangle_def tsv_points_def fl_numeral fl_0)

lemma hard_violations_exact_witness:
  "hard_violations (turned_manifest ''S'') = [] \<and>
   validate (\<lambda>_. True) (\<lambda>_ _. 0) (turned_manifest ''S'') None = Inr (counts (turned_manifest ''S'') None)"
  using hard_violations_exact [OF lone_valid _ turned_manifest_def [of "''S''"]] turned_clean by (simp add: lone_manifest_def)

lemma turned_manual: "candidate_from_assignment turn_name lone_manifest (base_slots lone_manifest) (manual lone_manifest) = turned_manifest ''N''"
  by (simp add: turned_manifest_def turned_def manual_def lone_manifest_def lone_block_def)

lemma turned_search: "search_all turn_name lone_manifest [turned ''S'', turned ''FN'', turned ''FS''] =
    \<lparr>se_documents = [(''N'', turned_manifest ''N'', ''manual_baseline''), (''S'', turned_manifest ''S'', ''seeded_permutation_jitter''),
       (''FN'', turned_manifest ''FN'', ''seeded_permutation_jitter''), (''FS'', turned_manifest ''FS'', ''seeded_permutation_jitter'')],
     se_rejected = []\<rparr>"
  by (simp add: search_all_def turned_manual turned_blocks search_step_def Let_def turned_clean setdefault_def flip: turned_manifest_def)

lemma turned_validated: "validate (\<lambda>_. True) (\<lambda>_ _. 0) ((turned_manifest t)\<lparr>mf_manifest_id := n\<rparr>) None =
    Inr (counts ((turned_manifest t)\<lparr>mf_manifest_id := n\<rparr>) None)"
  by (simp add: validate_Inr ids_ok_def blocks_ok_def regions_ok_def verticals_ok_def turned_blocks place_def lone_block_def halo_rect_def
      die_rect_def rectangle_def tsv_points_def fl_numeral fl_0)

definition lone_exploration :: "exploration result" where
  "lone_exploration = optimize turn_name (\<lambda>_ _. 0) sum_list (\<lambda>_. True) (\<lambda>_ _. 0) lone_manifest flat_profiles [] [turned ''S'', turned ''FN'', turned ''FS'']"

lemma concat_Nils: "concat (map (\<lambda>_. []) xs) = []"
  by (induction xs) simp_all

lemma optimize_completes:
  assumes "4 \<le> length (se_documents (search_all candidate_id base attempts))"
    and "pareto (map snd score_keys) (score fsum profiles (normalize (map snd score_keys)
        (rows_of metrics (se_documents (search_all candidate_id base attempts))))) = (marked, frontier)"
    and "selections (sort_key ca_candidate_id marked) = Inr selected"
    and "map_r (export schema_ok hypot (se_documents (search_all candidate_id base attempts))) selected = Inr documents"
  shows "\<exists>ex. optimize candidate_id metrics fsum schema_ok hypot base profiles [] attempts = Inr ex \<and>
    ex_rows ex = sort_key ca_candidate_id marked \<and> ex_selected ex = selected"
proof -
  have "\<not> length (rows_of metrics (se_documents (search_all candidate_id base attempts))) < 4" using assms(1) by (simp add: rows_of_def)
  then show ?thesis by (simp add: optimize_def Let_def assms(2-4) concat_Nils)
qed

lemma lone_explored: "\<exists>ex. lone_exploration = Inr ex \<and> length (ex_rows ex) = 4 \<and> length (ex_selected ex) = 5"
proof -
  define docs where "docs = se_documents (search_all turn_name lone_manifest [turned ''S'', turned ''FN'', turned ''FS''])"
  have docs: "docs = [(''N'', turned_manifest ''N'', ''manual_baseline''), (''S'', turned_manifest ''S'', ''seeded_permutation_jitter''),
       (''FN'', turned_manifest ''FN'', ''seeded_permutation_jitter''), (''FS'', turned_manifest ''FS'', ''seeded_permutation_jitter'')]"
    by (simp add: docs_def turned_search)
  define scored where "scored = score sum_list flat_profiles (normalize (map snd score_keys) (rows_of (\<lambda>_ _. 0) docs))"
  obtain marked frontier where p: "pareto (map snd score_keys) scored = (marked, frontier)" by fastforce
  define ordered where "ordered = sort_key ca_candidate_id marked"
  have marked: "marked = map (\<lambda>i. (scored ! i)\<lparr>ca_pareto := \<not> dominated (map snd score_keys) scored i\<rparr>) [0..<length scored]"
    using p by (simp add: pareto_def Let_def)
  have len: "length scored = 4" by (simp add: scored_def score_def normalize_def rows_of_def docs)
  have scored: "map ca_origin scored = [''manual_baseline'', ''seeded_permutation_jitter'', ''seeded_permutation_jitter'', ''seeded_permutation_jitter'']"
    "map ca_candidate_id scored = [''N'', ''S'', ''FN'', ''FS'']"
    "\<forall>r \<in> set scored. fst ` set (ca_scores r) = {''thermal_first'', ''balanced'', ''cost_first''}"
    by (simp_all add: scored_def score_def normalize_def rows_of_def docs flat_profiles_def)
  have m: "map ca_origin marked = map ca_origin scored" "map ca_candidate_id marked = map ca_candidate_id scored" "map ca_scores marked = map ca_scores scored"
    unfolding marked by (auto intro!: nth_equalityI)
  have names: "fst ` set (ca_scores r) = {''thermal_first'', ''balanced'', ''cost_first''}" if "r \<in> set ordered" for r
  proof -
    from that have "ca_scores r \<in> ca_scores ` set marked" by (simp add: ordered_def)
    also have "\<dots> = ca_scores ` set scored" using arg_cong [OF m(3), of set] by simp
    finally obtain q where "q \<in> set scored" "ca_scores r = ca_scores q" by blast
    with scored(3) show ?thesis by simp
  qed
  have ne: "ordered \<noteq> []" using len by (auto simp: ordered_def marked simp flip: length_0_conv)
  have "''manual_baseline'' \<in> ca_origin ` set ordered" using arg_cong [OF m(1), of set] scored(1) by (simp add: ordered_def)
  then have "filter (\<lambda>row. ca_origin row = ''manual_baseline'') ordered \<noteq> []" by (auto simp: filter_empty_conv)
  then obtain r0 rs where manual: "filter (\<lambda>row. ca_origin row = ''manual_baseline'') ordered = r0 # rs" by (meson neq_Nil_conv)
  have min: "\<exists>x. min_by key ordered = Inr x" for key :: "candidate \<Rightarrow> rat \<times> string" using ne by (cases ordered) (simp_all add: min_by_def)
  have least: "\<exists>x. least_score profile ordered = Inr x" if "profile \<in> {''thermal_first'', ''balanced'', ''cost_first''}" for profile
    using that names min by (auto simp: least_score_def)
  obtain w where w: "min_by (\<lambda>row. (ca_metrics row ''traffic_weighted_manhattan_um'', ca_candidate_id row)) ordered = Inr w" using min by blast
  obtain t1 where t1: "least_score ''thermal_first'' ordered = Inr t1" using least by blast
  obtain t2 where t2: "least_score ''balanced'' ordered = Inr t2" using least by blast
  obtain t3 where t3: "least_score ''cost_first'' ordered = Inr t3" using least by blast
  obtain selected where sel: "selections ordered = Inr selected" "length selected = 5"
    by (simp add: selections_def manual w t1 t2 t3)
  have "\<exists>doc. export (\<lambda>_. True) (\<lambda>_ _. 0) docs x = Inr doc" if "x \<in> set selected" for x
  proof -
    from selections_rows [OF sel(1)] that have "ca_candidate_id (snd x) \<in> ca_candidate_id ` set marked" by (auto simp: ordered_def)
    also have "\<dots> = {''N'', ''S'', ''FN'', ''FS''}" using arg_cong [OF m(2), of set] scored(2) by simp
    finally show ?thesis by (cases x) (auto simp: export_def docs turned_validated Let_def)
  qed
  then obtain documents where "map_r (export (\<lambda>_. True) (\<lambda>_ _. 0) docs) selected = Inr documents"
    using map_r_Inr [of selected "export (\<lambda>_. True) (\<lambda>_ _. 0) docs"] by metis
  moreover have "4 \<le> length docs" by (simp add: docs)
  ultimately obtain ex where "lone_exploration = Inr ex" "ex_rows ex = ordered" "ex_selected ex = selected"
    using optimize_completes [of turn_name lone_manifest "[turned ''S'', turned ''FN'', turned ''FS'']" sum_list flat_profiles "\<lambda>_ _. 0"
        marked frontier selected "\<lambda>_. True" "\<lambda>_ _. 0" documents] p sel(1)
    unfolding lone_exploration_def docs_def scored_def ordered_def by blast
  moreover have "length ordered = 4" using len by (simp add: ordered_def marked)
  ultimately show ?thesis using sel(2) by auto
qed

lemma exploration_sound_witness:
  "\<exists>ex. lone_exploration = Inr ex \<and> distinct (map ca_candidate_id (ex_rows ex)) \<and> length (ex_documents ex) = 5 \<and>
     (\<forall>doc \<in> set (ex_documents ex). validate (\<lambda>_. True) (\<lambda>_ _. 0) doc None = Inr (counts doc None))"
proof -
  from lone_explored obtain ex where ex: "lone_exploration = Inr ex" "length (ex_selected ex) = 5" by blast
  with optimize_Inr(4) map_r_length have "length (ex_documents ex) = 5" unfolding lone_exploration_def by metis
  with ex exploration_sound [OF ex(1) [unfolded lone_exploration_def]] show ?thesis by blast
qed

lemma pareto_frontier_covers_witness:
  "\<exists>marked frontier. pareto [''k''] [point 0, point 1] = (marked, frontier) \<and> ca_pareto (marked ! 0) \<and> \<not> ca_pareto (marked ! 1)"
proof -
  have c: "coarse [''k''] [point 0, point 1]" by (auto simp: coarse_def point_def grid_def intro: exI [of _ 0] exI [of _ 16])
  obtain marked frontier where p: "pareto [''k''] [point 0, point 1] = (marked, frontier)" by fastforce
  have b: "better [''k''] (point 0) (point 1)" "\<not> better [''k''] x (point 0)" if "x \<in> {point 0, point 1}" for x
    using that by (auto simp: better_def point_def)
  have mark: "ca_pareto (marked ! i) \<longleftrightarrow> \<not> (\<exists>j < 2. better [''k''] ([point 0, point 1] ! j) ([point 0, point 1] ! i))" if "i < 2" for i
    using pareto_frontier_covers [OF c p] that by (simp add: numeral_2_eq_2)
  have "ca_pareto (marked ! 0)" using mark [of 0] b(2) by (auto simp: less_2_cases_iff)
  moreover have "\<not> ca_pareto (marked ! 1)" 
  proof -
    have "better [''k''] ([point 0, point 1] ! 0) ([point 0, point 1] ! 1)" using b(1) [of "point 0"] by simp
    with mark [of 1] show ?thesis by (metis one_less_numeral_iff pos2 semiring_norm(76))
  qed
  ultimately have "ca_pareto (marked ! 0)" "\<not> ca_pareto (marked ! 1)" by simp_all
  with p show ?thesis by blast
qed

section \<open>The tolerance can empty the frontier\<close>

text \<open>
  Three rows, each beating the next by more than the tolerance in one key and losing by less
  than it in the other two: all are dominated, and the frontier is empty.
\<close>

definition triple :: "rat \<Rightarrow> rat \<Rightarrow> rat \<Rightarrow> candidate" where
  "triple a b c = (point 0)\<lparr>ca_metrics := (\<lambda>key. if key = ''a'' then a else if key = ''b'' then b else c)\<rparr>"

definition cyclic_rows :: "candidate list" where
  "cyclic_rows = (let u = 1 / 2 ^ 42 in [triple 0 (6 * u) (3 * u), triple (3 * u) 0 (6 * u), triple (6 * u) (3 * u) 0])"

text \<open>The tolerant comparisons on multiples of \<open>2\<^sup>-\<^sup>4\<^sup>2\<close>.\<close>

lemma tolerance_tiny:
  shows "3 / 2 ^ 42 \<le> fl (0 + eps12)" "6 / 2 ^ 42 \<le> fl (3 / 2 ^ 42 + eps12)" "0 \<le> fl (6 / 2 ^ 42 + eps12)" "0 < fl (6 / 2 ^ 42 - eps12)"
proof -
  have d: "fl (of_int k / 2 ^ n) = of_int k / 2 ^ n" if "\<bar>k\<bar> \<le> 2 ^ 53" for k n using that by (rule fl_dyadic)
  have "fl (3 / 2 ^ 42) \<le> fl (0 + eps12)" "fl (6 / 2 ^ 42) \<le> fl (3 / 2 ^ 42 + eps12)"
    using eps12_bounds by (auto intro!: fl_mono)
  then show "3 / 2 ^ 42 \<le> fl (0 + eps12)" "6 / 2 ^ 42 \<le> fl (3 / 2 ^ 42 + eps12)"
    using d [of 3 42] d [of 6 42] by simp_all
  show "0 \<le> fl (6 / 2 ^ 42 + eps12)" using eps12_bounds(1) by (intro fl_nonneg) simp
  have "fl (1 / 2 ^ 43) \<le> fl (6 / 2 ^ 42 - eps12)" by (intro fl_mono) (simp_all add: eps12_def)
  with d [of 1 43] show "0 < fl (6 / 2 ^ 42 - eps12)" by (simp add: less_le_trans)
qed

theorem pareto_frontier_may_be_empty: "snd (pareto [''a'', ''b'', ''c''] cyclic_rows) = []"
proof -
  define r0 r1 r2 where r: "r0 = triple 0 (6 / 2 ^ 42) (3 / 2 ^ 42)" "r1 = triple (3 / 2 ^ 42) 0 (6 / 2 ^ 42)" "r2 = triple (6 / 2 ^ 42) (3 / 2 ^ 42) 0"
  have rows: "cyclic_rows = [r0, r1, r2]" by (simp add: cyclic_rows_def r)
  have sel: "ca_metrics (triple a b c) ''a'' = a" "ca_metrics (triple a b c) ''b'' = b" "ca_metrics (triple a b c) ''c'' = c" for a b c
    by (simp_all add: triple_def)
  have d: "dominates [''a'', ''b'', ''c''] r1 r0" "dominates [''a'', ''b'', ''c''] r2 r1" "dominates [''a'', ''b'', ''c''] r0 r2"
    using tolerance_tiny by (simp_all add: dominates_def r sel)
  have "dominated [''a'', ''b'', ''c''] cyclic_rows i" if "i < 3" for i
    using that d by (auto simp: dominated_def rows numeral_3_eq_3 less_Suc_eq list_ex_iff)
  then show ?thesis by (simp add: pareto_def Let_def rows numeral_3_eq_3 less_Suc_eq upt_rec)
qed

end
