(* ===== verification/Claim_Wording.thy ===== *)
theory Claim_Wording
  imports Json
begin

text \<open>
  The wording the claim check looks for: the fragment of Python's \<open>re\<close> that
  \<open>tools/physical_feasibility_contract.py\<close> uses, with
  \<open>re.IGNORECASE\<close> on, and its two patterns. Text is a list of 8-bit characters, so
  \<open>\b\<close> asks for the word characters of Latin-1.
\<close>

section \<open>Patterns\<close>

text \<open>
  A literal, one character of a set, any number of characters outside a set, \<open>\b\<close>,
  concatenation, alternative and \<open>(?:...)?\<close>.
\<close>

datatype wording =
    Text string
  | One_Of string
  | Many_Except string
  | Edge
  | Seq wording wording
  | Either wording wording
  | Maybe wording

definition lower_case :: "char \<Rightarrow> char" where
  "lower_case c = (if 65 \<le> (of_char c :: nat) \<and> (of_char c :: nat) \<le> 90 then char_of ((of_char c :: nat) + 32) else c)"

definition word_char :: "char \<Rightarrow> bool" where
  "word_char c \<longleftrightarrow>
     (let n = (of_char c :: nat)
      in 48 \<le> n \<and> n \<le> 57 \<or> 65 \<le> n \<and> n \<le> 90 \<or> 97 \<le> n \<and> n \<le> 122 \<or> n = 95 \<or>
         n \<in> {0xAA, 0xB2, 0xB3, 0xB5, 0xB9, 0xBA, 0xBC, 0xBD, 0xBE} \<or> 0xC0 \<le> n \<and> n \<noteq> 0xD7 \<and> n \<noteq> 0xF7)"

text \<open>A position in a text: the character before it, if any, and the text after it.\<close>

type_synonym spot = "char option \<times> string"

definition at_edge :: "spot \<Rightarrow> bool" where
  "at_edge s \<longleftrightarrow>
     (case fst s of None \<Rightarrow> False | Some c \<Rightarrow> word_char c) \<noteq> (case snd s of [] \<Rightarrow> False | c # _ \<Rightarrow> word_char c)"

fun literal :: "string \<Rightarrow> spot \<Rightarrow> spot list" where
  "literal [] s = [s]"
| "literal (c # p) (_, []) = []"
| "literal (c # p) (_, d # s) = (if lower_case d = lower_case c then literal p (Some d, s) else [])"

fun skip_except :: "string \<Rightarrow> char option \<Rightarrow> string \<Rightarrow> spot list" where
  "skip_except stop char_before [] = [(char_before, [])]"
| "skip_except stop char_before (d # s) = (char_before, d # s) # (if d \<in> set stop then [] else skip_except stop (Some d) s)"

text \<open>The positions where a match that starts here can end.\<close>

primrec ends :: "wording \<Rightarrow> spot \<Rightarrow> spot list" where
  "ends (Text p) s = literal p s"
| "ends (One_Of cs) s = (case snd s of [] \<Rightarrow> [] | d # rest \<Rightarrow> if lower_case d \<in> lower_case ` set cs then [(Some d, rest)] else [])"
| "ends (Many_Except stop) s = skip_except stop (fst s) (snd s)"
| "ends Edge s = (if at_edge s then [s] else [])"
| "ends (Seq p q) s = concat (map (ends q) (ends p s))"
| "ends (Either p q) s = ends p s @ ends q s"
| "ends (Maybe p) s = ends p s @ [s]"

text \<open>\<open>pattern.search(text)\<close>, as a truth value.\<close>

fun found_from :: "wording \<Rightarrow> char option \<Rightarrow> string \<Rightarrow> bool" where
  "found_from p char_before [] = (ends p (char_before, []) \<noteq> [])"
| "found_from p char_before (d # s) = (ends p (char_before, d # s) \<noteq> [] \<or> found_from p (Some d) s)"

definition search_text :: "wording \<Rightarrow> string \<Rightarrow> bool" where
  "search_text p s = found_from p None s"

fun one_of :: "wording list \<Rightarrow> wording" where
  "one_of [] = One_Of []"
| "one_of [p] = p"
| "one_of (p # ps) = Either p (one_of ps)"

fun in_sequence :: "wording list \<Rightarrow> wording" where
  "in_sequence [] = Text []"
| "in_sequence [p] = p"
| "in_sequence (p # ps) = Seq p (in_sequence ps)"

definition whole_words :: "wording \<Rightarrow> wording" where
  "whole_words p = in_sequence [Edge, p, Edge]"

section \<open>The two patterns\<close>

definition ROUTING_CLAIM :: wording where
  "ROUTING_CLAIM = one_of
     [whole_words (Text ''routing feasible''), whole_words (Seq (Text ''routab'') (one_of [Text ''le'', Text ''ility''])),
      whole_words (Seq (Maybe (Seq (Text ''global'') (Maybe (One_Of ''- '')))) (Text ''routing feasibility''))]"

definition safe_qualifiers :: "wording list" where
  "safe_qualifiers =
     [in_sequence [Text ''remain'', Maybe (Text ''s''), Text '' unestablished''], Text ''is not established'',
      Text ''has not been established'', in_sequence [Text ''PF-4'', Many_Except ''.;'', Text ''pending''],
      Text ''must remain unclaimed'', Text ''no affirmative'',
      in_sequence [Text ''cannot '', Maybe (Text ''be ''), one_of [Text ''claimed'', Text ''established'']],
      Text ''does not establish'', Text ''not routable'',
      in_sequence [Text ''routing '', Maybe (Text ''is ''), Text ''unavailable'']]"

definition SAFE_ROUTING_QUALIFIER :: wording where
  "SAFE_ROUTING_QUALIFIER = whole_words (one_of safe_qualifiers)"

section \<open>What a search finds\<close>

text \<open>The occurrences of a pattern in a context: \<open>found p u v w\<close>, with \<open>v\<close> between \<open>u\<close> and \<open>w\<close>.\<close>

definition char_before :: "string \<Rightarrow> char option" where
  "char_before u = (if u = [] then None else Some (List.last u))"

lemma split_Cons: "(\<exists>v w. d # s = v @ w \<and> P v w) \<longleftrightarrow> P [] (d # s) \<or> (\<exists>v w. s = v @ w \<and> P (d # v) w)"
  unfolding Cons_eq_append_conv by blast

lemma literal_ends:
  "(b, w) \<in> set (literal p (char_before u, s)) \<longleftrightarrow> (\<exists>v. s = v @ w \<and> map lower_case v = map lower_case p \<and> b = char_before (u @ v))"
proof (induction p arbitrary: u s)
  case Nil
  then show ?case by auto
next
  case (Cons c p)
  show ?case
  proof (cases s)
    case s: (Cons d s')
    have "char_before (u @ [d]) = Some d" by (simp add: char_before_def)
    then have "(b, w) \<in> set (literal (c # p) (char_before u, s)) \<longleftrightarrow>
        lower_case d = lower_case c \<and> (\<exists>v. s' = v @ w \<and> map lower_case v = map lower_case p \<and> b = char_before ((u @ [d]) @ v))"
      using Cons.IH [of "u @ [d]" s'] by (simp add: s)
    also have "\<dots> \<longleftrightarrow> (\<exists>v. s = v @ w \<and> map lower_case v = map lower_case (c # p) \<and> b = char_before (u @ v))"
    proof
      assume "\<exists>v. s = v @ w \<and> map lower_case v = map lower_case (c # p) \<and> b = char_before (u @ v)"
      then obtain v where v: "d # s' = v @ w" "map lower_case v = lower_case c # map lower_case p" "b = char_before (u @ v)" by (auto simp: s)
      then obtain v' where "v = d # v'" "s' = v' @ w" by (cases v) auto
      with v show "lower_case d = lower_case c \<and> (\<exists>v. s' = v @ w \<and> map lower_case v = map lower_case p \<and> b = char_before ((u @ [d]) @ v))" by auto
    next
      assume "lower_case d = lower_case c \<and> (\<exists>v. s' = v @ w \<and> map lower_case v = map lower_case p \<and> b = char_before ((u @ [d]) @ v))"
      then obtain v where "lower_case d = lower_case c" "s' = v @ w" "map lower_case v = map lower_case p" "b = char_before ((u @ [d]) @ v)" by blast
      then show "\<exists>v. s = v @ w \<and> map lower_case v = map lower_case (c # p) \<and> b = char_before (u @ v)"
        unfolding s by (intro exI [of _ "d # v"]) simp
    qed
    finally show ?thesis .
  qed auto
qed

lemma found_from_iff: "found_from p (char_before u) s \<longleftrightarrow> (\<exists>v w. s = v @ w \<and> ends p (char_before (u @ v), w) \<noteq> [])"
proof (induction s arbitrary: u)
  case (Cons d s)
  have "char_before (u @ [d]) = Some d" by (simp add: char_before_def)
  with Cons [of "u @ [d]"] show ?case
    unfolding split_Cons [of d s "\<lambda>v w. ends p (char_before (u @ v), w) \<noteq> []"] by simp
qed auto

text \<open>A bounded literal is found exactly where it stands as words of its own, in any case.\<close>

definition word_at :: "string \<Rightarrow> string \<Rightarrow> bool" where
  "word_at u w \<longleftrightarrow> at_edge (char_before u, w)"

lemma bounded_literal:
  "search_text (whole_words (Text p)) s \<longleftrightarrow>
     (\<exists>u v w. s = u @ v @ w \<and> map lower_case v = map lower_case p \<and> word_at u (v @ w) \<and> word_at (u @ v) w)"
proof -
  have "ends (whole_words (Text p)) (char_before u, s') \<noteq> [] \<longleftrightarrow>
      word_at u s' \<and> (\<exists>b w. (b, w) \<in> set (literal p (char_before u, s')) \<and> at_edge (b, w))" for u s'
    by (auto simp: whole_words_def word_at_def)
  also have "\<dots> u s' \<longleftrightarrow> word_at u s' \<and> (\<exists>v w. s' = v @ w \<and> map lower_case v = map lower_case p \<and> word_at (u @ v) w)" for u s'
    unfolding literal_ends word_at_def by blast
  finally show ?thesis
    using found_from_iff [of "whole_words (Text p)" "[]" s] by (auto simp: search_text_def char_before_def)
qed

end
