(* ===== verification/Feasibility.thy ===== *)
theory Feasibility
  imports Claim_Wording Transition Float64
begin

text \<open>
  \<open>tools/physical_feasibility_contract.py\<close>: the rules a physical-feasibility record has to
  satisfy after its JSON schema. A validation is a list of messages; the record is valid when
  it is empty. The JSON schema check (the messages of \<open>Draft202012Validator\<close> with
  \<open>physical_feasibility_schema.json\<close>) is a parameter. The digest cache is not modelled: the
  digest of a file is that of its content; messages are the constant part of the script's texts.
\<close>

section \<open>Messages\<close>

text \<open>
  \<open>errors.append(message)\<close> under a condition that may raise, and a sequence of such
  statements.
\<close>

definition flag :: "bool result \<Rightarrow> string \<Rightarrow> string list result" where
  "flag test message = and_then test (\<lambda>b. Inr (if b then [message] else []))"

definition in_case :: "bool result \<Rightarrow> string list result \<Rightarrow> string list result" where
  "in_case test messages = and_then test (\<lambda>b. if b then messages else Inr [])"

definition all_notes :: "string list result list \<Rightarrow> string list result" where
  "all_notes rs = and_then (map_r (\<lambda>r. r) rs) (\<lambda>ms. Inr (concat ms))"

text \<open>\<open>not a\<close>, \<open>a or b\<close>, \<open>any\<close> over tests that may raise.\<close>

definition not_r :: "bool result \<Rightarrow> bool result" where
  "not_r a = and_then a (\<lambda>x. Inr (\<not> x))"

definition or_else :: "bool result \<Rightarrow> bool result \<Rightarrow> bool result" where
  "or_else a b = and_then a (\<lambda>x. if x then Inr True else b)"

fun any_of :: "bool result list \<Rightarrow> bool result" where
  "any_of [] = Inr False"
| "any_of (t # ts) = or_else t (any_of ts)"

section \<open>Fields\<close>

text \<open>\<open>document[k1][k2]...\<close>, and the tests of a field.\<close>

fun look_up :: "json \<Rightarrow> string list \<Rightarrow> json result" where
  "look_up d [] = Inr d"
| "look_up d (k # ks) = and_then (subscript d k) (\<lambda>x. look_up x ks)"

definition field_present :: "json \<Rightarrow> string list \<Rightarrow> string list result" where
  "field_present d ks = and_then (look_up d ks) (\<lambda>_. Inr [])"

definition field_equals :: "json \<Rightarrow> string list \<Rightarrow> json \<Rightarrow> bool result" where
  "field_equals d ks v = and_then (look_up d ks) (\<lambda>x. Inr (py_eq x v))"

definition differs :: "json \<Rightarrow> string list \<Rightarrow> json \<Rightarrow> bool result" where
  "differs d ks v = not_r (field_equals d ks v)"

definition is_it :: "json \<Rightarrow> string list \<Rightarrow> json \<Rightarrow> bool result" where
  "is_it d ks v = and_then (look_up d ks) (\<lambda>x. Inr (x = v))"

definition holds_in :: "json \<Rightarrow> string list \<Rightarrow> bool result" where
  "holds_in d ks = and_then (look_up d ks) (\<lambda>x. Inr (truthy x))"

text \<open>\<open>for item in value\<close>\<close>

fun py_iter :: "json \<Rightarrow> json list result" where
  "py_iter (JArr xs) = Inr xs"
| "py_iter (JObj kvs) = Inr (map (\<lambda>(k, _). JStr k) kvs)"
| "py_iter (JStr s) = Inr (map (\<lambda>c. JStr [c]) s)"
| "py_iter _ = Inl (TypeError ''object is not iterable'')"

text \<open>
  \<open>a <= b\<close> on numbers, exact whatever their types. The schema admits nothing else where the
  scripts compare; other values raise.
\<close>

fun float_le :: "py_float \<Rightarrow> py_float \<Rightarrow> bool" where
  "float_le (Finite a) (Finite b) = (a \<le> b)"
| "float_le NaN _ = False"
| "float_le _ NaN = False"
| "float_le Neg_Inf _ = True"
| "float_le _ Pos_Inf = True"
| "float_le _ _ = False"

definition number_le :: "json \<Rightarrow> json \<Rightarrow> bool result" where
  "number_le a b =
     (case (numeric a, numeric b) of (Some x, Some y) \<Rightarrow> Inr (float_le x y)
      | _ \<Rightarrow> Inl (TypeError ''not supported between instances''))"

section \<open>Floats\<close>

text \<open>\<open>float(value)\<close> of a number; an integer beyond the largest float raises.\<close>

definition saturate :: "rat \<Rightarrow> py_float" where
  "saturate q = (let r = fl q in if r \<ge> 2 ^ 1024 then Pos_Inf else if r \<le> - (2 ^ 1024) then Neg_Inf else Finite r)"

fun to_float :: "json \<Rightarrow> py_float result" where
  "to_float (JBool b) = Inr (Finite (if b then 1 else 0))"
| "to_float (JInt i) =
     (case saturate (of_int i) of Finite r \<Rightarrow> Inr (Finite r) | _ \<Rightarrow> Inl (OverflowError ''int too large to convert to float''))"
| "to_float (JFloat x) = Inr x"
| "to_float _ = Inl (TypeError ''must be real number'')"

fun hundred_times :: "py_float \<Rightarrow> py_float" where
  "hundred_times (Finite a) = saturate (100 * a)"
| "hundred_times x = x"

text \<open>Division by a number that is not zero.\<close>

fun float_div :: "py_float \<Rightarrow> py_float \<Rightarrow> py_float" where
  "float_div (Finite a) (Finite b) = saturate (a / b)"
| "float_div NaN _ = NaN"
| "float_div _ NaN = NaN"
| "float_div (Finite _) _ = Finite 0"
| "float_div Pos_Inf (Finite b) = (if b > 0 then Pos_Inf else Neg_Inf)"
| "float_div Neg_Inf (Finite b) = (if b > 0 then Neg_Inf else Pos_Inf)"
| "float_div _ _ = NaN"

text \<open>\<open>math.isclose(a, b, rel_tol=tolerance, abs_tol=tolerance)\<close>\<close>

fun is_close :: "rat \<Rightarrow> py_float \<Rightarrow> py_float \<Rightarrow> bool" where
  "is_close tolerance (Finite a) (Finite b) =
     (a = b \<or> (let difference = fl \<bar>b - a\<bar> in
        difference \<le> \<bar>fl (tolerance * b)\<bar> \<or> difference \<le> \<bar>fl (tolerance * a)\<bar> \<or> difference \<le> tolerance))"
| "is_close tolerance a b = (a = b \<and> a \<noteq> NaN)"

definition nano :: rat where
  "nano = fl (1 / 10 ^ 9)"

section \<open>The rules\<close>

definition GATES :: "string list" where
  "GATES = [''PF-0'', ''PF-1'', ''PF-2'', ''PF-3'', ''PF-4'']"

definition gate_status :: "json \<Rightarrow> string \<Rightarrow> json result" where
  "gate_status d name = look_up d [''gates'', name, ''status'']"

definition gate_passed :: "json \<Rightarrow> string \<Rightarrow> bool result" where
  "gate_passed d name = field_equals d [''gates'', name, ''status''] (JStr ''PASS'')"

definition status_rules :: "json \<Rightarrow> string list result" where
  "status_rules d =
     and_then (map_r (gate_status d) GATES) (\<lambda>statuses.
       flag (and_also (field_equals d [''status''] (JStr ''PASS'')) (Inr (list_ex (\<lambda>s. \<not> py_eq s (JStr ''PASS'')) statuses)))
         ''status: PASS requires PF-0 through PF-4 to PASS'')"

text \<open>\<open>pattern.search(value)\<close>, which accepts strings only.\<close>

fun asserts_routing :: "json \<Rightarrow> bool result" where
  "asserts_routing (JStr s) = Inr (search_text ROUTING_CLAIM s \<and> \<not> search_text SAFE_ROUTING_QUALIFIER s)"
| "asserts_routing _ = Inl (TypeError ''expected string or bytes-like object'')"

definition wording_rules :: "json \<Rightarrow> string list result" where
  "wording_rules d =
     in_case (not_r (gate_passed d ''PF-4''))
       (and_then (look_up d [''claim_boundary'']) (\<lambda>boundary.
          flag (asserts_routing boundary) ''claim_boundary: affirmative routing feasibility requires PF-4 PASS''))"

definition matrix_sources :: "(string \<times> string list) list" where
  "matrix_sources =
     [(''ADAPTER_TECH_MAPPING'', [''gates'', ''PF-1'', ''status'']), (''INTEGRATED_TECH_MAPPING'', [''gates'', ''PF-2'', ''status'']),
      (''COARSE_PLACEMENT'', [''gates'', ''PF-3'', ''status'']), (''GLOBAL_ROUTING'', [''gates'', ''PF-4'', ''status'']),
      (''PHYSICAL_FEASIBILITY'', [''status'']), (''PRODUCTION_SIGNOFF'', [''production_signoff''])]"

definition matrix_rules :: "json \<Rightarrow> string list result" where
  "matrix_rules d =
     and_then (look_up d [''status_matrix'']) (\<lambda>matrix.
     and_then (map_r (\<lambda>(key, path). and_then (look_up d path) (\<lambda>v. Inr (key, v))) matrix_sources) (\<lambda>expected.
       all_notes (map (\<lambda>(key, v). flag (differs matrix [key] v) (''status_matrix.'' @ key @ '': inconsistent with gate result'')) expected)))"

definition freeze_rules :: "json \<Rightarrow> string list result" where
  "freeze_rules d =
     in_case (holds_in d [''rtl_freeze_allowed''])
       (all_notes
         [flag (differs d [''status''] (JStr ''PASS'')) ''rtl_freeze_allowed: requires overall PASS'',
          flag (differs d [''integrated_mapping'', ''unconstrained_path_count''] (JInt 0))
            ''rtl_freeze_allowed: integrated timing must report zero unconstrained paths'',
          flag (differs d [''global_routing'', ''overflow_count''] (JInt 0))
            ''rtl_freeze_allowed: global routing must report zero overflow'',
          flag (differs d [''revision_coherence'', ''status''] (JStr ''PASS''))
            ''rtl_freeze_allowed: requires coherent evidence from one mapped revision''])"

definition structure_metrics :: "string list" where
  "structure_metrics = [''unmapped_cells'', ''blackboxes'', ''inferred_latches'', ''combinational_loops'']"

text \<open>\<open>value not in (None, 0)\<close>\<close>

definition nonzero :: "json \<Rightarrow> bool" where
  "nonzero v \<longleftrightarrow> v \<noteq> JNull \<and> \<not> py_eq v (JInt 0)"

definition mapping_rules :: "json \<Rightarrow> string \<Rightarrow> string list result" where
  "mapping_rules d name =
     and_then (look_up d [name]) (\<lambda>mapping. all_notes
       [in_case (holds_in mapping [''completed''])
          (all_notes
             (map (\<lambda>metric. flag (is_it mapping [metric] JNull) (name @ ''.'' @ metric @ '': completed mapping requires a value''))
                ([''mapped_cells'', ''mapped_area_um2''] @ structure_metrics) @
              map (\<lambda>metric. flag (and_then (look_up mapping [metric]) (\<lambda>v. Inr (nonzero v)))
                     (name @ ''.'' @ metric @ '': structural feasibility requires zero'')) structure_metrics)),
        in_case (not_r (is_it mapping [''worst_slack_ns''] JNull))
          (and_then (look_up mapping [''worst_slack_ns'']) (\<lambda>slack.
           and_then (number_le (JInt 0) slack) (\<lambda>met.
             flag (not_r (is_it mapping [''timing_target_met''] (JBool met)))
               (name @ ''.timing_target_met: inconsistent with worst_slack_ns'')))),
        in_case (and_also (not_r (is_it mapping [''critical_path_ns''] JNull))
                          (not_r (is_it mapping [''reference_clock_period_ns''] JNull)))
          (and_then (look_up mapping [''critical_path_ns'']) (\<lambda>path.
           and_then (look_up mapping [''reference_clock_period_ns'']) (\<lambda>period.
           and_then (number_le path period) (\<lambda>met.
             flag (not_r (is_it mapping [''reference_timing_target_met''] (JBool met)))
               (name @ ''.reference_timing_target_met: inconsistent with critical path and reference period'')))))])"

definition placement_rules :: "json \<Rightarrow> string list result" where
  "placement_rules d =
     all_notes
       [field_present d [''placement''],
        in_case (gate_passed d ''PF-3'')
          (flag (or_else (not_r (holds_in d [''placement'', ''completed'']))
                         (differs d [''placement'', ''final_violations''] (JInt 0)))
             ''gates.PF-3: PASS requires completed legal placement with zero final violations'')]"

definition hotspot_rules :: "json \<Rightarrow> string list result" where
  "hotspot_rules d =
     (let routing = (\<lambda>ks. ''global_routing'' # ks) in
      all_notes
        [field_present d (routing []), field_present d (routing [''congestion_hotspots'']),
         flag (and_also (not_r (is_it d (routing [''congestion_violation_count'']) JNull))
                 (and_then (look_up d (routing [''congestion_hotspots'', ''captured_violation_blocks''])) (\<lambda>captured.
                    and_then (look_up d (routing [''congestion_violation_count''])) (\<lambda>counted. Inr (\<not> py_eq captured counted)))))
           ''global_routing.congestion_hotspots: captured block count must match congestion_violation_count''])"

definition routing_rules :: "json \<Rightarrow> string list result" where
  "routing_rules d =
     (let routing = (\<lambda>k. [''global_routing'', k]) in
      in_case (gate_passed d ''PF-4'')
        (all_notes
          [flag (or_else (not_r (is_it d (routing ''execution_clean'') (JBool True)))
                         (differs d (routing ''openroad_exit_code'') (JInt 0)))
             ''gates.PF-4: PASS requires a clean OpenROAD exit code of zero'',
           flag (any_of [not_r (holds_in d (routing ''completed'')), not_r (holds_in d (routing ''congestion_report_available'')),
                         not_r (holds_in d (routing ''guide_available''))])
             ''gates.PF-4: PASS requires completed routing, guide, and congestion report'',
           flag (differs d (routing ''overflow_count'') (JInt 0)) ''gates.PF-4: PASS requires zero routing overflow'',
           flag (not_r (is_it d (routing ''severe_congestion'') (JBool False)))
             ''gates.PF-4: PASS requires explicit absence of severe congestion'',
           flag (not_r (is_it d (routing ''all_skipped_nets_allowlisted'') (JBool True)))
             ''gates.PF-4: PASS requires every skipped high-fanout net to be an explicit clock/reset/constant exception'']))"

definition budget_rules :: "json \<Rightarrow> string list result" where
  "budget_rules d =
     and_then (look_up d [''logic_die_budget'']) (\<lambda>budget.
       in_case (and_also (not_r (is_it budget [''mapped_area_um2''] JNull)) (holds_in budget [''assumed_usable_area_um2'']))
         (and_then (and_then (look_up budget [''mapped_area_um2'']) to_float) (\<lambda>mapped.
          and_then (and_then (look_up budget [''assumed_usable_area_um2'']) to_float) (\<lambda>usable.
          and_then (and_then (look_up budget [''mapped_utilization_pct'']) to_float) (\<lambda>recorded.
            flag (Inr (\<not> is_close nano (float_div (hundred_times mapped) usable) recorded))
              ''logic_die_budget.mapped_utilization_pct: inconsistent with area ratio'')))))"

text \<open>The recorded evidence files: present, with the recorded digest and size.\<close>

definition within_root :: "env \<Rightarrow> string \<Rightarrow> string" where
  "within_root env p = (if take 1 p = ''/'' then p else if p = ''.'' then root env else under (root env) p)"

definition source_rule :: "env \<Rightarrow> host \<Rightarrow> json \<Rightarrow> string list result" where
  "source_rule env h source =
     and_then (and_then (look_up source [''path'']) to_path) (\<lambda>p.
     let file = within_root env p;
         named = (\<lambda>message. and_then (look_up source [''role'']) (\<lambda>_. Inr [message])) in
     case files h file of
       None \<Rightarrow> named ''evidence: file does not exist''
     | Some b \<Rightarrow>
         and_then (or_else (differs source [''sha256''] (JStr (sha env b))) (differs source [''bytes''] (JInt (int (length b)))))
           (\<lambda>wrong. if wrong then named ''evidence: SHA-256 or size mismatch'' else Inr []))"

definition source_rules :: "env \<Rightarrow> host \<Rightarrow> json \<Rightarrow> string list result" where
  "source_rules env h d =
     and_then (and_then (look_up d [''evidence'']) py_iter) (\<lambda>sources. all_notes (map (source_rule env h) sources))"

definition validate_physical_feasibility ::
  "(json \<Rightarrow> string list) \<Rightarrow> env \<Rightarrow> host \<Rightarrow> bool \<Rightarrow> json \<Rightarrow> string list result" where
  "validate_physical_feasibility schema env h verify_sources d =
     (if schema d \<noteq> [] then Inr (schema d)
      else all_notes
        [status_rules d, wording_rules d, matrix_rules d, freeze_rules d,
         mapping_rules d ''adapter_mapping'', mapping_rules d ''integrated_mapping'',
         placement_rules d, hotspot_rules d, routing_rules d, budget_rules d,
         if verify_sources then source_rules env h d else Inr []])"

definition require_valid_physical_feasibility ::
  "(json \<Rightarrow> string list) \<Rightarrow> env \<Rightarrow> host \<Rightarrow> bool \<Rightarrow> json \<Rightarrow> unit result" where
  "require_valid_physical_feasibility schema env h verify_sources d =
     and_then (validate_physical_feasibility schema env h verify_sources d) (\<lambda>errors.
       if errors \<noteq> [] then Inl (PhysicalFeasibilityError ''physical-feasibility validation failed'') else Inr ())"

section \<open>The pending record\<close>

definition empty_mapping :: json where
  "empty_mapping = JObj [(''status'', JStr ''PENDING''), (''calibration'', JStr ''unavailable''), (''top'', JNull),
       (''completed'', JBool False), (''mapped_cells'', JNull), (''mapped_area_um2'', JNull),
       (''sequential_area_um2'', JNull), (''unmapped_cells'', JNull), (''blackboxes'', JNull), (''inferred_latches'', JNull),
       (''combinational_loops'', JNull), (''clock_period_ns'', JNull), (''critical_path_ns'', JNull),
       (''worst_slack_ns'', JNull), (''timing_target_met'', JNull), (''reference_clock_period_ns'', JNull),
       (''reference_timing_target_met'', JNull), (''unconstrained_path_count'', JNull), (''critical_startpoint'', JNull),
       (''critical_endpoint'', JNull)]"

definition pending_gate :: "string \<Rightarrow> string \<Rightarrow> json" where
  "pending_gate criterion reason =
     JObj [(''status'', JStr ''PENDING''), (''criterion'', JStr criterion), (''evidence'', JArr []), (''blockers'', JArr [JStr reason])]"

definition pending_physical_feasibility :: "string \<Rightarrow> json" where
  "pending_physical_feasibility reason =
     JObj
      [(''schema_version'', JInt 1),
       (''status'', JStr ''PENDING''),
       (''rtl_freeze_allowed'', JBool False),
       (''production_signoff'', JStr ''NOT_TARGETED''),
       (''status_matrix'', JObj [(''RTL_FEASIBILITY'', JStr ''PENDING''), (''LOGICAL_SYNTHESIS'', JStr ''PENDING''),
         (''ADAPTER_TECH_MAPPING'', JStr ''PENDING''), (''INTEGRATED_TECH_MAPPING'', JStr ''PENDING''),
         (''COARSE_PLACEMENT'', JStr ''PENDING''), (''GLOBAL_ROUTING'', JStr ''PENDING''),
         (''PHYSICAL_FEASIBILITY'', JStr ''PENDING''), (''PRODUCTION_SIGNOFF'', JStr ''NOT_TARGETED'')]),
       (''claim_boundary'', JStr ''No physical-feasibility claim is available for this revision.''),
       (''calibration'', JStr ''unavailable''),
       (''claim_class'', JStr ''assumed''),
       (''toolchain'', JObj [(''pdk'', JNull), (''library'', JNull), (''process_corner'', JNull), (''voltage_V'', JNull),
         (''temperature_C'', JNull), (''yosys'', JNull), (''openroad'', JNull)]),
       (''revision_coherence'', JObj [(''status'', JStr ''PENDING''), (''integrated_netlist_sha256'', JNull),
         (''integrated_sta_matches_netlist'', JNull), (''placement_log_sha256'', JNull),
         (''placement_newer_than_mapping'', JNull), (''postrepair_fanout_matches_placement'', JNull),
         (''global_route_matches_placement'', JNull), (''global_route_newer_than_mapping'', JNull),
         (''stale_evidence'', JArr [])]),
       (''gates'', JObj [(''PF-0'', pending_gate ''RTL feasibility evidence is required.'' reason),
         (''PF-1'', pending_gate ''Standalone adapter technology mapping is required.'' reason),
         (''PF-2'', pending_gate ''Integrated PCU plus adapter mapping and STA are required.'' reason),
         (''PF-3'', pending_gate ''Coarse legal placement is required.'' reason),
         (''PF-4'', pending_gate ''Global routing and congestion evidence are required.'' reason)]),
       (''adapter_mapping'', empty_mapping),
       (''integrated_mapping'', empty_mapping),
       (''placement'', JObj [(''status'', JStr ''PENDING''), (''calibration'', JStr ''unavailable''), (''completed'', JBool False),
         (''core_area_um2'', JNull), (''movable_area_um2'', JNull), (''fixed_area_um2'', JNull), (''utilization_pct'', JNull),
         (''initial_violations'', JNull), (''final_violations'', JNull), (''average_displacement_um'', JNull),
         (''max_displacement_um'', JNull)]),
       (''global_routing'', JObj [(''status'', JStr ''PENDING''), (''calibration'', JStr ''unavailable''), (''completed'', JBool False),
         (''route_revision'', JNull), (''pin_model'', JNull), (''signal_layers'', JNull), (''congestion_iterations'', JNull),
         (''global_router'', JNull), (''openroad_exit_code'', JNull), (''execution_clean'', JNull),
         (''prior_route_comparison'', JObj [(''revision'', JNull), (''congestion_remaining'', JNull),
         (''congestion_violation_count'', JNull), (''residual_reduction_pct'', JNull)]), (''overflow_count'', JNull),
         (''max_layer_usage_pct'', JNull), (''congestion_violation_count'', JNull), (''max_local_overuse'', JNull),
         (''congestion_remaining'', JNull), (''routed_nets'', JNull), (''severe_congestion'', JNull),
         (''congestion_report_available'', JBool False), (''guide_available'', JBool False),
         (''fanout_skip_threshold'', JNull), (''skipped_large_fanout_nets'', JArr []),
         (''all_skipped_nets_allowlisted'', JNull), (''max_observed_fanout'', JNull), (''high_fanout_nets'', JArr []),
         (''congestion_hotspots'', JObj [(''analysis_scope'', JStr ''captured_congestion_report''),
         (''captured_violation_blocks'', JInt 0), (''direction_block_counts'', JObj []), (''layer_block_counts'', JObj []),
         (''category_block_counts'', JObj []), (''top_bank_source_mentions'', JArr []), (''top_500um_tiles'', JArr [])])]),
       (''structural'', JObj [(''status'', JStr ''PENDING''), (''unmapped_cells'', JNull), (''unresolved_blackboxes'', JNull),
         (''unintended_latches'', JNull), (''combinational_loops'', JNull), (''unconstrained_paths'', JNull)]),
       (''fanout'', JObj [(''status'', JStr ''PENDING''), (''max_fanout'', JNull), (''max_fanout_net'', JNull), (''source_stage'', JNull),
         (''repair_area_increase_pct'', JNull), (''repair_resized_instances'', JNull), (''repair_inserted_buffers'', JNull),
         (''repair_repaired_nets'', JNull), (''remaining_slew_violations'', JNull), (''remaining_fanout_violations'', JNull),
         (''remaining_capacitance_violations'', JNull)]),
       (''wide_interface'', JObj [(''adapter_port_bits'', JNull), (''generic_wire_bits'', JNull),
         (''generic_wire_bits_is_direct_congestion_metric'', JBool False), (''largest_interface_bits'', JNull),
         (''largest_interface_name'', JNull), (''maximum_fanin'', JNull), (''critical_cone_cell_count'', JNull),
         (''logic_depth'', JNull), (''critical_path_cell_sequence'', JArr []), (''risk'', JStr ''UNAVAILABLE'')]),
       (''buffer_implementation'', JObj [(''logical_bits'', JNull), (''implementation_type'', JNull), (''memory_macro_inferred'', JNull),
         (''mapped_register_count'', JNull), (''top_sequential_cells'', JNull), (''mapped_area_um2'', JNull),
         (''share_of_adapter_area_pct'', JNull), (''share_of_integrated_area_pct'', JNull), (''risk'', JStr ''UNAVAILABLE'')]),
       (''logic_die_budget'', JObj [(''assumed_usable_area_um2'', JNull), (''mapped_area_um2'', JNull), (''mapped_utilization_pct'', JNull),
         (''placed_core_area_um2'', JNull), (''placed_footprint_utilization_pct'', JNull), (''within_budget'', JNull)]),
       (''evidence'', JArr []),
       (''blockers'', JArr [JStr reason]),
       (''risks'', JArr []),
       (''notes'', JArr [])]"

end
