(* ===== verification/Feasibility_Props.thy ===== *)
theory Feasibility_Props
  imports Feasibility
begin

text \<open>
  What a valid physical-feasibility record guarantees: no claim goes beyond its gates, and a
  frozen RTL has every gate passed on files that are still the recorded ones.
\<close>

section \<open>No message\<close>

named_theorems quiet \<open>when a rule has no message\<close>

lemma all_notes_Nil [quiet]: "all_notes rs = Inr [] \<longleftrightarrow> (\<forall>r \<in> set rs. r = Inr [])"
proof -
  have "map_r (\<lambda>r. r) rs = Inr ms \<longleftrightarrow> rs = map Inr ms" for ms :: "string list list"
    by (induction rs arbitrary: ms) (auto simp: and_then_eq_Inr map_eq_Cons_conv)
  then have "all_notes rs = Inr [] \<longleftrightarrow> (\<exists>ms. rs = map Inr ms \<and> (\<forall>m \<in> set ms. m = []))"
    by (auto simp: all_notes_def and_then_eq_Inr)
  also have "\<dots> \<longleftrightarrow> (\<forall>r \<in> set rs. r = Inr [])"
  proof
    assume "\<forall>r \<in> set rs. r = Inr []"
    then have "rs = map Inr (map (\<lambda>_. []) rs)" by (simp add: map_idI o_def)
    then show "\<exists>ms. rs = map Inr ms \<and> (\<forall>m \<in> set ms. m = [])"
      by (intro exI [of _ "map (\<lambda>_. []) rs"]) auto
  qed auto
  finally show ?thesis .
qed

lemma flag_Nil [quiet]: "flag t m = Inr [] \<longleftrightarrow> t = Inr False"
  by (auto simp: flag_def and_then_eq_Inr)

lemma in_case_Nil [quiet]: "in_case t ms = Inr [] \<longleftrightarrow> t = Inr False \<or> t = Inr True \<and> ms = Inr []"
  by (auto simp: in_case_def and_then_eq_Inr split: if_splits)

lemma not_r_Inr [quiet]: "not_r t = Inr b \<longleftrightarrow> t = Inr (\<not> b)"
  by (auto simp: not_r_def and_then_eq_Inr)

lemma or_else_False [quiet]: "or_else a b = Inr False \<longleftrightarrow> a = Inr False \<and> b = Inr False"
  by (auto simp: or_else_def and_then_eq_Inr split: if_splits)

lemma any_of_False [quiet]: "any_of ts = Inr False \<longleftrightarrow> (\<forall>t \<in> set ts. t = Inr False)"
  by (induction ts) (auto simp: or_else_False)

lemma and_also_False [quiet]: "and_also a b = Inr False \<longleftrightarrow> a = Inr False \<or> a = Inr True \<and> b = Inr False"
  by (auto simp: and_also_def and_then_eq_Inr split: if_splits)

text \<open>A field has a value, in the sense of \<open>==\<close>.\<close>

definition field_has :: "json \<Rightarrow> string list \<Rightarrow> json \<Rightarrow> bool" where
  "field_has d ks v \<longleftrightarrow> (\<exists>x. look_up d ks = Inr x \<and> py_eq x v)"

lemma equals_True [quiet]: "field_equals d ks v = Inr True \<longleftrightarrow> field_has d ks v"
  by (auto simp: field_equals_def field_has_def and_then_eq_Inr)

lemma differs_False [quiet]: "differs d ks v = Inr False \<longleftrightarrow> field_has d ks v"
  by (auto simp: differs_def quiet)

lemma is_it_True [quiet]: "is_it d ks v = Inr True \<longleftrightarrow> look_up d ks = Inr v"
  by (auto simp: is_it_def and_then_eq_Inr)

lemma holds_in_True [quiet]: "holds_in d ks = Inr True \<longleftrightarrow> (\<exists>x. look_up d ks = Inr x \<and> truthy x)"
  by (auto simp: holds_in_def and_then_eq_Inr)

lemma equals_False: "field_equals d ks v = Inr False \<Longrightarrow> \<not> field_has d ks v"
  by (auto simp: field_equals_def field_has_def and_then_eq_Inr)

section \<open>A valid record\<close>

text \<open>The route behind PF-4: clean, complete, without overflow, congestion or skipped nets.\<close>

definition clean_routing :: "json \<Rightarrow> bool" where
  "clean_routing d \<longleftrightarrow>
     look_up d [''global_routing'', ''execution_clean''] = Inr (JBool True) \<and>
     field_has d [''global_routing'', ''openroad_exit_code''] (JInt 0) \<and> field_has d [''global_routing'', ''overflow_count''] (JInt 0) \<and>
     (\<forall>k \<in> {''completed'', ''congestion_report_available'', ''guide_available''}.
        \<exists>x. look_up d [''global_routing'', k] = Inr x \<and> truthy x) \<and>
     look_up d [''global_routing'', ''severe_congestion''] = Inr (JBool False) \<and>
     look_up d [''global_routing'', ''all_skipped_nets_allowlisted''] = Inr (JBool True)"

definition legal_placement :: "json \<Rightarrow> bool" where
  "legal_placement d \<longleftrightarrow>
     (\<exists>x. look_up d [''placement'', ''completed''] = Inr x \<and> truthy x) \<and> field_has d [''placement'', ''final_violations''] (JInt 0)"

definition gate_has_passed :: "json \<Rightarrow> string \<Rightarrow> bool" where
  "gate_has_passed d gate \<longleftrightarrow> field_has d [''gates'', gate, ''status''] (JStr ''PASS'')"

definition evidence_intact :: "env \<Rightarrow> host \<Rightarrow> json \<Rightarrow> bool" where
  "evidence_intact env h d \<longleftrightarrow>
     (\<exists>table sources. look_up d [''evidence''] = Inr table \<and> py_iter table = Inr sources \<and>
        (\<forall>source \<in> set sources. \<exists>p b. look_up source [''path''] = Inr (JStr p) \<and>
           files h (within_root env (path_str p)) = Some b \<and>
           field_has source [''sha256''] (JStr (sha env b)) \<and> field_has source [''bytes''] (JInt (int (length b)))))"

text \<open>A completed mapping has nothing unmapped, no black box, no latch and no combinational loop.\<close>

definition structurally_clean :: "json \<Rightarrow> string \<Rightarrow> bool" where
  "structurally_clean d name \<longleftrightarrow>
     (\<forall>x. look_up d [name, ''completed''] = Inr x \<and> truthy x \<longrightarrow>
        (\<forall>metric \<in> {''unmapped_cells'', ''blackboxes'', ''inferred_latches'', ''combinational_loops''}. field_has d [name, metric] (JInt 0)))"

text \<open>The status matrix repeats the gates.\<close>

definition matrix_consistent :: "json \<Rightarrow> bool" where
  "matrix_consistent d \<longleftrightarrow>
     (\<forall>(key, path) \<in> {(''ADAPTER_TECH_MAPPING'', [''gates'', ''PF-1'', ''status'']),
        (''INTEGRATED_TECH_MAPPING'', [''gates'', ''PF-2'', ''status'']), (''COARSE_PLACEMENT'', [''gates'', ''PF-3'', ''status'']),
        (''GLOBAL_ROUTING'', [''gates'', ''PF-4'', ''status'']), (''PHYSICAL_FEASIBILITY'', [''status'']),
        (''PRODUCTION_SIGNOFF'', [''production_signoff''])}.
        \<exists>v. look_up d path = Inr v \<and> field_has d [''status_matrix'', key] v)"

lemma status_quiet:
  assumes "status_rules d = Inr []" "field_has d [''status''] (JStr ''PASS'')" "gate \<in> set GATES"
  shows "gate_has_passed d gate"
proof -
  from assms(1) obtain statuses where s: "map_r (gate_status d) GATES = Inr statuses"
    and a: "and_also (field_equals d [''status''] (JStr ''PASS'')) (Inr (list_ex (\<lambda>s. \<not> py_eq s (JStr ''PASS'')) statuses)) = Inr False"
    by (auto simp: status_rules_def and_then_eq_Inr quiet)
  have "list_all (\<lambda>s. py_eq s (JStr ''PASS'')) statuses"
    using a assms(2) equals_False by (auto simp: quiet list_ex_iff list_all_iff)
  moreover have "\<forall>g \<in> set gs. \<exists>s \<in> set ss. gate_status d g = Inr s" if "map_r (gate_status d) gs = Inr ss" for gs ss
    using that by (induction gs arbitrary: ss) (auto simp: and_then_eq_Inr)
  ultimately show ?thesis
    using s assms(3) by (fastforce simp: list_all_iff gate_has_passed_def field_has_def gate_status_def)
qed

lemma wording_quiet:
  assumes "wording_rules d = Inr []" "\<not> gate_has_passed d ''PF-4''"
  shows "\<exists>b. look_up d [''claim_boundary''] = Inr (JStr b) \<and> (search_text ROUTING_CLAIM b \<longrightarrow> search_text SAFE_ROUTING_QUALIFIER b)"
proof -
  have claim: "asserts_routing v = Inr False \<longleftrightarrow> (\<exists>b. v = JStr b \<and> (search_text ROUTING_CLAIM b \<longrightarrow> search_text SAFE_ROUTING_QUALIFIER b))" for v
    by (cases v) auto
  show ?thesis
    using assms by (auto simp: wording_rules_def quiet gate_passed_def gate_has_passed_def and_then_eq_Inr claim)
qed

lemma has_step: "look_up d [k] = Inr x \<Longrightarrow> field_has x ks v \<longleftrightarrow> field_has d (k # ks) v"
  by (auto simp: field_has_def and_then_eq_Inr)

lemma mapping_quiet:
  assumes "mapping_rules d name = Inr []"
  shows "structurally_clean d name"
proof -
  from assms obtain x where x: "look_up d [name] = Inr x" and q: "all_notes (map (\<lambda>metric. flag (is_it x [metric] JNull)
          (name @ ''.'' @ metric @ '': completed mapping requires a value'')) ([''mapped_cells'', ''mapped_area_um2''] @ structure_metrics) @
        map (\<lambda>metric. flag (and_then (look_up x [metric]) (\<lambda>v. Inr (nonzero v)))
          (name @ ''.'' @ metric @ '': structural feasibility requires zero'')) structure_metrics) = Inr []
      \<or> holds_in x [''completed''] = Inr False"
    by (auto simp: mapping_rules_def and_then_eq_Inr all_notes_Nil in_case_Nil simp del: map_append list.map)
  show ?thesis
    unfolding structurally_clean_def
  proof (intro allI impI ballI)
    fix y metric
    assume y: "look_up d [name, ''completed''] = Inr y \<and> truthy y"
      and m: "metric \<in> {''unmapped_cells'', ''blackboxes'', ''inferred_latches'', ''combinational_loops''}"
    have "holds_in x [''completed''] = Inr True" using x y by (auto simp: holds_in_def and_then_eq_Inr)
    with q m have "is_it x [metric] JNull = Inr False" "and_then (look_up x [metric]) (\<lambda>v. Inr (nonzero v)) = Inr False"
      by (auto simp: all_notes_Nil flag_Nil structure_metrics_def)
    then obtain v where "look_up x [metric] = Inr v" "py_eq v (JInt 0)"
      by (auto simp: is_it_def nonzero_def and_then_eq_Inr)
    then have "field_has x [metric] (JInt 0)" by (auto simp: field_has_def)
    then show "field_has d [name, metric] (JInt 0)" using has_step [OF x] by simp
  qed
qed

lemma matrix_quiet:
  assumes "matrix_rules d = Inr []"
  shows "matrix_consistent d"
proof -
  from assms obtain x expected where x: "look_up d [''status_matrix''] = Inr x"
    and e: "map_r (\<lambda>(key, path). and_then (look_up d path) (\<lambda>v. Inr (key, v))) matrix_sources = Inr expected"
    and n: "all_notes (map (\<lambda>(key, v). flag (differs x [key] v) (''status_matrix.'' @ key @ '': inconsistent with gate result'')) expected)
      = Inr []"
    by (auto simp: matrix_rules_def and_then_eq_Inr)
  have q: "field_has x [key] v" if "(key, v) \<in> set expected" for key v
    using n that by (auto simp: all_notes_Nil flag_Nil differs_False dest!: bspec)
  have listed: "\<exists>v. look_up d path = Inr v \<and> (key, v) \<in> set es"
    if "map_r (\<lambda>(key, path). and_then (look_up d path) (\<lambda>v. Inr (key, v))) ks = Inr es" "(key, path) \<in> set ks" for ks es key path
    using that by (induction ks arbitrary: es) (fastforce simp: and_then_eq_Inr)+
  have "\<exists>v. look_up d path = Inr v \<and> field_has d [''status_matrix'', key] v"
    if "(key, path) \<in> set matrix_sources" for key path
    using listed [OF e that] q has_step [OF x] by blast
  then have "\<forall>(key, path) \<in> set matrix_sources. \<exists>v. look_up d path = Inr v \<and> field_has d [''status_matrix'', key] v" by blast
  then show ?thesis unfolding matrix_consistent_def matrix_sources_def list.set .
qed

lemma placement_quiet: "placement_rules d = Inr [] \<Longrightarrow> gate_has_passed d ''PF-3'' \<Longrightarrow> legal_placement d"
  by (auto simp: placement_rules_def quiet gate_passed_def gate_has_passed_def legal_placement_def dest: equals_False)

lemma routing_quiet: "routing_rules d = Inr [] \<Longrightarrow> gate_has_passed d ''PF-4'' \<Longrightarrow> clean_routing d"
  by (auto simp: routing_rules_def Let_def quiet gate_passed_def gate_has_passed_def clean_routing_def dest: equals_False)

lemma source_rule_quiet:
  assumes "source_rule env h source = Inr []"
  shows "\<exists>p b. look_up source [''path''] = Inr (JStr p) \<and> files h (within_root env (path_str p)) = Some b \<and>
    field_has source [''sha256''] (JStr (sha env b)) \<and> field_has source [''bytes''] (JInt (int (length b)))"
proof -
  have named: "and_then r (\<lambda>_. Inr [m]) \<noteq> Inr []" for r :: "json result" and m :: string
    by (auto simp: and_then_eq_Inr)
  from assms obtain v p b where "look_up source [''path''] = Inr v" "to_path v = Inr p"
    "files h (within_root env p) = Some b"
    "or_else (differs source [''sha256''] (JStr (sha env b))) (differs source [''bytes''] (JInt (int (length b)))) = Inr False"
    by (auto simp: source_rule_def Let_def and_then_eq_Inr split: option.splits if_splits)
  then show ?thesis by (auto simp: quiet to_path_Inr)
qed

lemma sources_quiet: "source_rules env h d = Inr [] \<Longrightarrow> evidence_intact env h d"
  unfolding source_rules_def evidence_intact_def
  by (fastforce simp: and_then_eq_Inr quiet dest: source_rule_quiet)

lemma freeze_quiet:
  assumes "freeze_rules d = Inr []" "look_up d [''rtl_freeze_allowed''] = Inr x" "truthy x"
  shows "field_has d [''status''] (JStr ''PASS'')" "field_has d [''integrated_mapping'', ''unconstrained_path_count''] (JInt 0)"
    "field_has d [''global_routing'', ''overflow_count''] (JInt 0)" "field_has d [''revision_coherence'', ''status''] (JStr ''PASS'')"
proof -
  have "holds_in d [''rtl_freeze_allowed''] = Inr True" using assms(2,3) by (auto simp: quiet)
  with assms(1) show "field_has d [''status''] (JStr ''PASS'')" "field_has d [''integrated_mapping'', ''unconstrained_path_count''] (JInt 0)"
    "field_has d [''global_routing'', ''overflow_count''] (JInt 0)" "field_has d [''revision_coherence'', ''status''] (JStr ''PASS'')"
    by (simp_all add: freeze_rules_def quiet)
qed

text \<open>
  C38: no feasibility claim beyond its gates. When the validation of a record has no message,
  an overall PASS has all five gates passed; a completed mapping is structurally clean; a passed
  PF-3 has a completed placement without violations and a passed PF-4 a clean route; without
  PF-4 the claim boundary does not assert routing feasibility unqualified; RTL may be frozen
  only with all gates passed, coherent evidence and no unconstrained path; the status matrix
  repeats the gates; and every evidence file is there with its recorded digest and size.
\<close>

theorem feasibility_claims_gated:
  assumes "validate_physical_feasibility schema env h True d = Inr []"
  shows "schema d = [] \<and>
    (field_has d [''status''] (JStr ''PASS'') \<longrightarrow> (\<forall>gate \<in> {''PF-0'', ''PF-1'', ''PF-2'', ''PF-3'', ''PF-4''}. gate_has_passed d gate)) \<and>
    structurally_clean d ''adapter_mapping'' \<and> structurally_clean d ''integrated_mapping'' \<and>
    (gate_has_passed d ''PF-3'' \<longrightarrow> legal_placement d) \<and> (gate_has_passed d ''PF-4'' \<longrightarrow> clean_routing d) \<and>
    (\<not> gate_has_passed d ''PF-4'' \<longrightarrow> (\<exists>b. look_up d [''claim_boundary''] = Inr (JStr b) \<and>
       (search_text ROUTING_CLAIM b \<longrightarrow> search_text SAFE_ROUTING_QUALIFIER b))) \<and>
    (\<forall>x. look_up d [''rtl_freeze_allowed''] = Inr x \<and> truthy x \<longrightarrow>
       (\<forall>gate \<in> {''PF-0'', ''PF-1'', ''PF-2'', ''PF-3'', ''PF-4''}. gate_has_passed d gate) \<and>
       legal_placement d \<and> clean_routing d \<and>
       field_has d [''integrated_mapping'', ''unconstrained_path_count''] (JInt 0) \<and>
       field_has d [''revision_coherence'', ''status''] (JStr ''PASS'')) \<and>
    matrix_consistent d \<and> evidence_intact env h d"
proof -
  from assms have q: "schema d = []" "status_rules d = Inr []" "wording_rules d = Inr []" "matrix_rules d = Inr []"
    "freeze_rules d = Inr []" "mapping_rules d ''adapter_mapping'' = Inr []" "mapping_rules d ''integrated_mapping'' = Inr []"
    "placement_rules d = Inr []" "routing_rules d = Inr []" "source_rules env h d = Inr []"
    by (auto simp: validate_physical_feasibility_def quiet split: if_splits)
  have gates: "set GATES = {''PF-0'', ''PF-1'', ''PF-2'', ''PF-3'', ''PF-4''}" by (simp add: GATES_def)
  note pass = status_quiet [OF q(2), unfolded gates]
  show ?thesis
  proof (intro conjI allI impI ballI)
    fix x gate
    assume x: "look_up d [''rtl_freeze_allowed''] = Inr x \<and> truthy x"
    note frozen = freeze_quiet [OF q(5) conjunct1 [OF x] conjunct2 [OF x]]
    show "legal_placement d" "clean_routing d" using pass [OF frozen(1)] placement_quiet [OF q(8)] routing_quiet [OF q(9)] by simp_all
    show "gate_has_passed d gate" if "gate \<in> {''PF-0'', ''PF-1'', ''PF-2'', ''PF-3'', ''PF-4''}" using pass [OF frozen(1) that] .
    show "field_has d [''integrated_mapping'', ''unconstrained_path_count''] (JInt 0)" "field_has d [''revision_coherence'', ''status''] (JStr ''PASS'')"
      by (fact frozen)+
  qed (use q(1) pass mapping_quiet [OF q(6)] mapping_quiet [OF q(7)] placement_quiet [OF q(8)] routing_quiet [OF q(9)]
      wording_quiet [OF q(3)] matrix_quiet [OF q(4)] sources_quiet [OF q(10)] in \<open>blast+\<close>)
qed

section \<open>Samples\<close>

definition frozen_mapping :: json where
  "frozen_mapping = JObj
     [(''completed'', JBool True), (''mapped_cells'', JInt 10), (''mapped_area_um2'', JInt 50), (''unmapped_cells'', JInt 0),
      (''blackboxes'', JInt 0), (''inferred_latches'', JInt 0), (''combinational_loops'', JInt 0),
      (''unconstrained_path_count'', JInt 0), (''worst_slack_ns'', JFloat (Finite (1 / 2))), (''timing_target_met'', JBool True),
      (''critical_path_ns'', JInt 3), (''reference_clock_period_ns'', JInt 5), (''reference_timing_target_met'', JBool True)]"

definition frozen_record :: json where
  "frozen_record = JObj
     [(''status'', JStr ''PASS''), (''rtl_freeze_allowed'', JBool True), (''production_signoff'', JStr ''NOT_TARGETED''),
      (''status_matrix'', JObj (map (\<lambda>(k, _). (k, JStr ''PASS'')) (butlast matrix_sources) @
         [(''PRODUCTION_SIGNOFF'', JStr ''NOT_TARGETED'')])),
      (''claim_boundary'', JStr ''Routing feasibility is established for this revision.''),
      (''revision_coherence'', JObj [(''status'', JStr ''PASS'')]),
      (''gates'', JObj (map (\<lambda>g. (g, JObj [(''status'', JStr ''PASS'')])) GATES)),
      (''adapter_mapping'', frozen_mapping), (''integrated_mapping'', frozen_mapping),
      (''placement'', JObj [(''completed'', JBool True), (''final_violations'', JInt 0)]),
      (''global_routing'', JObj
         [(''completed'', JBool True), (''execution_clean'', JBool True), (''openroad_exit_code'', JInt 0), (''overflow_count'', JInt 0),
          (''congestion_violation_count'', JInt 0), (''severe_congestion'', JBool False), (''congestion_report_available'', JBool True),
          (''guide_available'', JBool True), (''all_skipped_nets_allowlisted'', JBool True),
          (''congestion_hotspots'', JObj [(''captured_violation_blocks'', JInt 0)])]),
      (''logic_die_budget'', JObj [(''assumed_usable_area_um2'', JInt 200), (''mapped_area_um2'', JNull), (''mapped_utilization_pct'', JNull)]),
      (''evidence'', JArr [JObj [(''role'', JStr ''route''), (''path'', JStr ''reports//route.json''), (''sha256'', JStr ''R''), (''bytes'', JInt 1)]])]"

definition record_env :: env where
  "record_env = \<lparr>sha = (\<lambda>b. b), decode = (\<lambda>b. Inr b), loads = (\<lambda>b. Inl (JSONDecodeError b)), dumps = (\<lambda>_. []), now = [], root = ''/r''\<rparr>"

definition record_host :: host where
  "record_host = \<lparr>files = [''/r/reports/route.json'' \<mapsto> ''R''], dirs = (\<lambda>_. False)\<rparr>"

lemma frozen_valid: "validate_physical_feasibility (\<lambda>_. []) record_env record_host True frozen_record = Inr []"
  by code_simp

theorem feasibility_claims_gated_witness:
  "clean_routing frozen_record \<and> legal_placement frozen_record \<and> evidence_intact record_env record_host frozen_record"
proof -
  have "\<exists>x. look_up frozen_record [''rtl_freeze_allowed''] = Inr x \<and> truthy x"
    by (simp add: frozen_record_def)
  with feasibility_claims_gated [OF frozen_valid] show ?thesis by blast
qed

text \<open>The record of a revision without evidence is valid and claims nothing.\<close>

theorem pending_valid: "validate_physical_feasibility (\<lambda>_. []) env h True (pending_physical_feasibility reason) = Inr []"
  by code_simp

end
