(* ===== verification/Spec2Isabelle.thy ===== *)
theory Spec2Isabelle
  imports Prelude Heapq Cycle_Loop Float64 Trace Pcu_Sweep Bounded_Props Finite_Props Strict_Gate_Props
    Release_History Transition_Props Trace_Packets_Props Shared_Props Float_Words_Props Rtl_Gds_Props Completion_Witness Monitor_Props Norm_System_Props
    Floorplan_Search_Props Feasibility_Props
begin

text \<open>
  A verification development for the Python code of the PIM simulator repository: the scripts
  that decide whether a physical-design variant of the normalization unit may proceed, the
  replays that measure its schedulers, and the tools around them. Every definition is a
  function a program step computes; paths below are relative to \<open>src/\<close>.

  \<^bold>\<open>The program.\<close> Two groups of programs share no code but the same data.

  The flow. A variant of the design (B3 to B24) passes through stages that external tools
  compute: placement, one global route, clock-tree synthesis (CTS), a route after it, the
  detailed route, the streamed-out layout and the final layout. Between the stages scripts
  read the reports of the last one, recompute digests, and write one decision file that
  releases the next stage or nothing. They communicate only through the file system: each
  refuses to run when its decision exists, reads the decision files of its predecessors, and
  is followed by an audit that reads the whole chain again.

  The measurements. Replays take a recorded trace and compute queueing and service times of a
  bounded scheduler, a finite source with back pressure, a PCU sweep, a shared pipeline and
  the normalization system; converters and reference words connect traces to the RTL; a
  floorplan search places the blocks of the logic die; a monitor watches a running service.

  \<^bold>\<open>Theories and sources.\<close>

  \<^item> \<open>Prelude\<close>, \<open>Heapq\<close>, \<open>Cycle_Loop\<close>, \<open>Trace\<close>: exceptions as values, list indexing,
    \<open>heapq\<close>, \<open>while\<close> loops, and the request trace. \<open>Float64\<close> and \<open>Rounding\<close>: Python
    floats as rationals rounded to binary64. \<open>Json\<close>, \<open>Host\<close>: JSON values with Python's
    \<open>==\<close>, \<open>in\<close>, \<open>get\<close> and subscripts; the file system and \<open>pathlib\<close>.
  \<^item> \<open>Strict_Gate\<close>: \<open>tools/decide_b*_phase6_strict_gate.py\<close> (B3 to B7, B9 to B24).
    \<open>Route_Authorization\<close>: \<open>tools/authorize_b*_global_route.py\<close> (B6, B7, B9 to B24).
    \<open>Stage_Authorization\<close>: \<open>tools/authorize_b{6,7}_phase6_cts.py\<close>,
    \<open>..._phase6_post_cts_route.py\<close> and \<open>..._phase7_detailed_route.py\<close>. \<open>Rtl_Gds\<close>:
    \<open>tools/check_b{3,5,6,7}_phase7_rtl_gds.py\<close>. \<open>Completion_Audit\<close>:
    \<open>tools/audit_b{3,5,6,7}_phase10_completion.py\<close>. One body per kind of script; a record of
    the variant holds the paths, names and texts in which the scripts differ, and one
    definition per script applies the body to it.
  \<^item> \<open>Post_Route\<close>, \<open>Transition\<close>: \<open>tools/decide_wbq_post_route.py\<close> and
    \<open>tools/run_wbq_post_route_transition.py\<close>, which runs the collector and the decision.
    \<open>Monitor\<close>: \<open>tools/monitor_openroad_service.py\<close>. \<open>Feasibility\<close>, with the patterns it
    searches for in \<open>Claim_Wording\<close>: \<open>tools/physical_feasibility_contract.py\<close>.
  \<^item> \<open>Pcu_Sweep\<close>, \<open>Bounded_Scheduler\<close>, \<open>Finite_Source\<close>, \<open>Shared_Pipeline\<close>: in
    \<open>experiment/\<close>, \<open>replay_uib_pointwise_pcu_sweep.py\<close>,
    \<open>replay_uib_bounded_pointwise_scheduler.py\<close>, \<open>replay_uib_finite_source_backpressure.py\<close>
    and \<open>analyze_shared_pipeline_trace.py\<close>.
  \<^item> \<open>Trace_Packets\<close>: \<open>tools/convert_groot_trace_to_rtl.py\<close>. \<open>Float_Words\<close>: the binary32
    and BF16 words of the vector generators and evaluators in \<open>tools/\<close>. \<open>Norm_Model\<close>,
    \<open>Norm_System\<close>: \<open>tools/groot_normalization_model.py\<close> and
    \<open>tools/groot_normalization_system_sim.py\<close>.
  \<^item> \<open>Floorplan\<close>, \<open>Floorplan_Search\<close>: \<open>tools/validate_logic_die_floorplan.py\<close> and
    \<open>tools/optimize_logic_die_floorplan.py\<close>.

  In each of them the state of the script is a record with one field per variable, a function
  is a definition with the name it has in the source where Isabelle allows it, every raise and
  early return is a branch, and \<open>main\<close> ends in an exit code with the new file system, in
  rows, or in an exception.

  \<^bold>\<open>What the lemmas show.\<close> The properties carry the numbers C1 to C40.

  \<^item> Deciding scripts (\<open>*_Props\<close> of the flow): a script passes exactly when the stated
    conditions hold on the reports and on the files they name, and what it writes says so.
    The conditions of the decisions on routes, gates, authorizations and stages are restated
    over the meaning of the documents (recorded digests are those of the files, no residual
    congestion, guards in the runner, an untouched earlier decision), not over the tests. A
    valid feasibility record makes no claim beyond the gates it has passed.
  \<^item> \<open>Release_History\<close> puts the scripts in time: an inductive step relation in which any
    script runs or anything else changes files other than decision files. The locale
    \<open>one_shot\<close> is the contract of a deciding script and is interpreted for all five kinds;
    from it a decision is final in every history, and CTS is authorized only after the route
    and the gate. \<open>Completion_Props\<close> extends this to the end: a completed variant has every
    release behind it, with all conditions met when it was given.
  \<^item> Replays: a state invariant kept by every phase of a cycle, from which follow conservation
    of requests, order within a stream, capacity and timing (\<open>*_Facts\<close>, \<open>*_Ledger\<close>), and a
    remaining amount of work that shrinks, from which follows that the loop ends before its
    limit (\<open>*_Liveness\<close>). The queue simulations are compared with the first-come first-served
    queue they implement. Locales: \<open>min_queue\<close> (interpreted by \<open>heapq\<close>), \<open>cycles\<close> (by the
    loops of three replays), \<open>arbiter\<close> (by the round-robin choice).
  \<^item> The monitor: its event log is accepted by an automaton, and a process that stays the only
    one and silent gets a first diagnosis, whose snapshot a later follow-up is compared with.
  \<^item> Words and packets: conversion to BF16 is rounding to nearest even of the exact value, the
    binary32 operations round the exact result once, and packets decode to the words packed.
  \<^item> Floorplans: an accepted plan has the stated geometry in exact arithmetic up to the
    tolerances of the script, the search records exactly the violations, and what it exports
    has passed the validation.

  Witnesses evaluate the properties on small concrete inputs in the kernel; for the flow they
  take B6 from its placement to completion in one sample repository (\<open>Release_History\<close>,
  \<open>Completion_Witness\<close>).

  \<^bold>\<open>Loops and bounds.\<close> No fuel is used. A \<open>while\<close> loop of a replay is \<open>loop\<close>, a
  \<open>partial_function (option)\<close> whose value \<open>None\<close> is not returning; that it returns is proved
  with a budget that falls in every cycle, the distance of the clock to the limit of the
  script (one million cycles for two of them, one hundred thousand for the third). One
  replay can run for ever on a degenerate queue depth, which is proved as well. Other loops
  are structural or have a measure. Machine words are \<open>32 word\<close> and \<open>16 word\<close>; Python
  integers are \<open>int\<close>.

  \<^bold>\<open>Parameters.\<close> What is not in the repository is an argument: SHA-256, UTF-8 decoding,
  \<open>json.loads\<close> and \<open>json.dumps\<close>, the clock, \<open>Path.resolve\<close>, subprocesses with their effect
  on the file system, process listings, environment variables, the KLayout reader, the JSON
  schema check, \<open>math.hypot\<close>, \<open>sum\<close> on floats, the random draws. A property
  that needs a law of a parameter names it as a hypothesis (\<open>readable\<close>, \<open>reads_back\<close>: what
  was written as JSON reads back) and its witness instantiates it. The
  layout merger \<open>tools/merge_final_rtl_gds.py\<close> is in the repository but treated like a
  subprocess, because its work is KLayout's.

  \<^bold>\<open>Conventions.\<close> Text is a list of 8-bit characters. File and directory names are
  normalised as by \<open>str(Path(...))\<close>. A deciding script that creates the directory of its
  output does so in the model; in the others, and in the audits, the output is written in one
  step to a path that is not a directory and whose parent exists. Messages keep their constant part. Progress printed on
  the terminal is left out, as are the digits in which reports print numbers.

  \<^bold>\<open>Not modelled.\<close> Report, figure and HTML generators; parsers of the logs of OpenROAD, Yosys
  and the thermal tools, and the collectors built on them; the scripts that drive KLayout and
  OpenROAD databases; NumPy and PyTorch computations on tensors that are not in the
  repository; the one-off scripts that select the next candidate; the HBM2 and hardware-cost
  tables; tests and data generators. They are text processing and glue around external
  programs: a model of them would be a model of the formats of those programs. The C++
  simulator, the RTL and vendored code are in other languages. The texts of the completion
  audit's two readable reports, the FP16 branches and square roots of the word generators and
  the metrics of the floorplan search are parameters of components that are modelled
  otherwise.
\<close>

end
